(* ===== verification/Prelude.thy ===== *)
theory Prelude
  imports Main "HOL-Library.Char_ord" "HOL-Library.List_Lexorder" "HOL-Library.Sublist"
begin

text \<open>
  What every component of the development shares: Python exceptions as values, the two
  monads the code is written in (fallible expressions, and fallible state changes inside one
  database transaction), SQL tables as lists of rows with a key, Python's string helpers, and
  the interface \<open>evolution\<close>, in which a relation between database states is carried through
  a transaction body once and for all.
\<close>

section \<open>Exceptions as values\<close>

text \<open>
  The exception classes the modelled code raises, with the message where the code builds one.
  The two \<open>sqlite3\<close> classes stand for the constraint and trigger failures of the schema.
\<close>

datatype exn =
    KeyError string
  | ValueError string
  | TypeError string
  | RuntimeError string
  | AssertionError
  | IntegrityError string
  | TriggerAbort string
  | OSError string
  | SchemaVersionError string
  | RunCompletionRejectedError string
  | ResearchLaunchKeyError string
  | ResearchLaunchError string
  | ResearchLaunchConflictError string
  | ResearchLaunchIntegrityError string
  | ResearchLaunchInvocationUnknownError string
  | ResearchLaunchInvocationError string
  | FilterStageInvocationUnknownError string
  | FilterChainReplayIncompleteError string
  | RuleSpecError string string
  | CandidatePacketError string
  | GatewayError string string
  | OtherException string

subsection \<open>Fallible expressions\<close>

definition bindR :: "exn + 'a \<Rightarrow> ('a \<Rightarrow> exn + 'b) \<Rightarrow> exn + 'b" where
  "bindR m f = (case m of Inl e \<Rightarrow> Inl e | Inr x \<Rightarrow> f x)"

definition guardR :: "bool \<Rightarrow> exn \<Rightarrow> exn + unit" where
  "guardR b e = (if b then Inr () else Inl e)"

fun mapR :: "('a \<Rightarrow> exn + 'b) \<Rightarrow> 'a list \<Rightarrow> exn + 'b list" where
  "mapR f [] = Inr []"
| "mapR f (x # xs) = bindR (f x) (\<lambda>y. bindR (mapR f xs) (\<lambda>ys. Inr (y # ys)))"

lemma bindR_simps [simp]:
  "bindR (Inl e) f = Inl e"
  "bindR (Inr x) f = f x"
  by (simp_all add: bindR_def)

lemma bindR_Inr_iff [simp]: "bindR m f = Inr y \<longleftrightarrow> (\<exists>x. m = Inr x \<and> f x = Inr y)"
  by (cases m) auto

lemma guardR_Inr_iff [simp]: "guardR b e = Inr u \<longleftrightarrow> b"
  by (simp add: guardR_def)

lemma guardR_Inl_iff [simp]: "guardR b e = Inl e' \<longleftrightarrow> \<not> b \<and> e' = e"
  by (auto simp: guardR_def)

lemma guardR_simps [simp]: "guardR True e = Inr ()" "guardR False e = Inl e"
  by (simp_all add: guardR_def)

lemma bindR_cong [fundef_cong]:
  "m = m' \<Longrightarrow> (\<And>x. m' = Inr x \<Longrightarrow> f x = f' x) \<Longrightarrow> bindR m f = bindR m' f'"
  by (cases m') auto

lemma mapR_cong [fundef_cong]:
  "xs = ys \<Longrightarrow> (\<And>x. x \<in> set ys \<Longrightarrow> f x = g x) \<Longrightarrow> mapR f xs = mapR g ys"
  by (induction ys arbitrary: xs) auto

lemma case_option_Inr:
  "(case x of None \<Rightarrow> Inl e | Some y \<Rightarrow> f y) = Inr r \<longleftrightarrow> (\<exists>y. x = Some y \<and> f y = Inr r)"
  by (cases x) simp_all

lemma mapR_length: "mapR f xs = Inr ys \<Longrightarrow> length ys = length xs"
  by (induction xs arbitrary: ys) auto

lemma mapR_Inr_list_all2: "mapR f xs = Inr ys \<Longrightarrow> list_all2 (\<lambda>x y. f x = Inr y) xs ys"
  by (induction xs arbitrary: ys) auto

lemma mapR_all_ok: "\<forall>x \<in> set xs. f x = Inr (g x) \<Longrightarrow> mapR f xs = Inr (map g xs)"
  by (induction xs) auto

text \<open>A clock reading, as the text the code stores.\<close>

type_synonym stamp = string

section \<open>Transaction bodies\<close>

text \<open>
  A body is the code between \<open>with transaction(...)\<close> and its end: it reads and writes the
  database and may raise. A raise discards what the body wrote, so a body returns no state
  with its exception; \<open>transaction\<close> puts the state of before back.
\<close>

type_synonym ('d, 'a) body = "'d \<Rightarrow> exn + ('a \<times> 'd)"

definition retB :: "'a \<Rightarrow> ('d, 'a) body" where
  "retB x = (\<lambda>d. Inr (x, d))"

definition raiseB :: "exn \<Rightarrow> ('d, 'a) body" where
  "raiseB e = (\<lambda>d. Inl e)"

definition bindB :: "('d, 'a) body \<Rightarrow> ('a \<Rightarrow> ('d, 'b) body) \<Rightarrow> ('d, 'b) body" where
  "bindB m f = (\<lambda>d. case m d of Inl e \<Rightarrow> Inl e | Inr (x, d') \<Rightarrow> f x d')"

definition readB :: "('d \<Rightarrow> 'a) \<Rightarrow> ('d, 'a) body" where
  "readB f = (\<lambda>d. Inr (f d, d))"

definition modB :: "('d \<Rightarrow> 'd) \<Rightarrow> ('d, unit) body" where
  "modB f = (\<lambda>d. Inr ((), f d))"

definition liftB :: "exn + 'a \<Rightarrow> ('d, 'a) body" where
  "liftB r = (\<lambda>d. case r of Inl e \<Rightarrow> Inl e | Inr x \<Rightarrow> Inr (x, d))"

definition updB :: "('d \<Rightarrow> exn + 'd) \<Rightarrow> ('d, unit) body" where
  "updB f = (\<lambda>d. case f d of Inl e \<Rightarrow> Inl e | Inr d' \<Rightarrow> Inr ((), d'))"

fun forB :: "('x \<Rightarrow> ('d, 'a) body) \<Rightarrow> 'x list \<Rightarrow> ('d, 'a list) body" where
  "forB f [] = retB []"
| "forB f (x # xs) = bindB (f x) (\<lambda>y. bindB (forB f xs) (\<lambda>ys. retB (y # ys)))"

text \<open>\<open>persistence.database.transaction\<close>: commit the body's writes, or restore the state.\<close>

definition transaction :: "('d, 'a) body \<Rightarrow> 'd \<Rightarrow> (exn + 'a) \<times> 'd" where
  "transaction m d = (case m d of Inl e \<Rightarrow> (Inl e, d) | Inr (x, d') \<Rightarrow> (Inr x, d'))"

named_theorems body_defs \<open>unfolding of the body combinators on a concrete state\<close>

lemmas [body_defs] = retB_def raiseB_def bindB_def readB_def modB_def liftB_def updB_def

lemma retB_Inr [simp]: "retB x d = Inr (y, d') \<longleftrightarrow> y = x \<and> d' = d"
  by (auto simp: retB_def)

lemma raiseB_Inr [simp]: "raiseB e d \<noteq> Inr z"
  by (simp add: raiseB_def)

lemma raiseB_apply: "raiseB e d = Inl e"
  by (simp add: raiseB_def)

lemma readB_Inr [simp]: "readB f d = Inr (y, d') \<longleftrightarrow> y = f d \<and> d' = d"
  by (auto simp: readB_def)

lemma modB_Inr [simp]: "modB f d = Inr (y, d') \<longleftrightarrow> d' = f d"
  by (auto simp: modB_def)

lemma liftB_Inr [simp]: "liftB r d = Inr (y, d') \<longleftrightarrow> r = Inr y \<and> d' = d"
  by (auto simp: liftB_def split: sum.splits)

lemma updB_Inr [simp]: "updB f d = Inr (y, d') \<longleftrightarrow> f d = Inr d'"
  by (auto simp: updB_def split: sum.splits)

lemma bindB_Inr [simp]:
  "bindB m f d = Inr (y, d') \<longleftrightarrow> (\<exists>x d1. m d = Inr (x, d1) \<and> f x d1 = Inr (y, d'))"
  by (auto simp: bindB_def split: sum.splits prod.splits)

text \<open>One step of a body on a concrete state, errors included.\<close>

lemma body_step:
  "retB x d = Inr (x, d)"
  "raiseB e d = Inl e"
  "readB f d = Inr (f d, d)"
  "modB h d = Inr ((), h d)"
  "liftB r d = (case r of Inl e \<Rightarrow> Inl e | Inr x \<Rightarrow> Inr (x, d))"
  "updB u d = (case u d of Inl e \<Rightarrow> Inl e | Inr d' \<Rightarrow> Inr ((), d'))"
  "bindB (retB x) g d = g x d"
  "bindB (raiseB e) g d = Inl e"
  "bindB (readB f) g d = g (f d) d"
  "bindB (modB h) g' d = g' () (h d)"
  "bindB (liftB r) g d = (case r of Inl e \<Rightarrow> Inl e | Inr x \<Rightarrow> g x d)"
  "bindB (updB u) g' d = (case u d of Inl e \<Rightarrow> Inl e | Inr d' \<Rightarrow> g' () d')"
  by (simp_all add: body_defs split: sum.splits)

lemma bindB_assoc: "bindB (bindB m f) g = bindB m (\<lambda>x. bindB (f x) g)"
  by (rule ext) (simp add: bindB_def split: sum.splits prod.splits)

lemma bindB_ok: "m d = Inr (x, d1) \<Longrightarrow> bindB m f d = f x d1"
  by (simp add: bindB_def)

lemma bindB_fail: "m d = Inl e \<Longrightarrow> bindB m f d = Inl e"
  by (simp add: bindB_def)

lemma transaction_Inr_iff: "transaction m d = (Inr x, d') \<longleftrightarrow> m d = Inr (x, d')"
  by (auto simp: transaction_def split: sum.splits prod.splits)

lemma transaction_Inl_iff: "transaction m d = (Inl e, d') \<longleftrightarrow> m d = Inl e \<and> d' = d"
  by (auto simp: transaction_def split: sum.splits prod.splits)

subsection \<open>Sequences of transactions\<close>

text \<open>
  A call that is a sequence of transactions keeps what an earlier one committed when a later one
  raises: a step returns the state it leaves, with its result or its exception.
\<close>

type_synonym ('s, 'a) steps = "'s \<Rightarrow> (exn + 'a) \<times> 's"

definition andThen :: "('s, 'a) steps \<Rightarrow> ('a \<Rightarrow> ('s, 'b) steps) \<Rightarrow> ('s, 'b) steps" where
  "andThen m f d = (case m d of (Inl e, d') \<Rightarrow> (Inl e, d') | (Inr x, d') \<Rightarrow> f x d')"

definition askS :: "('s \<Rightarrow> exn + 'a) \<Rightarrow> ('s, 'a) steps" where
  "askS f d = (f d, d)"

lemma askS_iff [simp]: "askS f d = (r, d') \<longleftrightarrow> r = f d \<and> d' = d"
  by (auto simp: askS_def)

lemma andThen_Inr [simp]:
  "andThen m f d = (Inr y, d') \<longleftrightarrow> (\<exists>x d1. m d = (Inr x, d1) \<and> f x d1 = (Inr y, d'))"
  by (auto simp: andThen_def split: sum.splits prod.splits)

lemma andThen_Inl:
  "andThen m f d = (Inl e, d') \<longleftrightarrow> m d = (Inl e, d') \<or> (\<exists>x d1. m d = (Inr x, d1) \<and> f x d1 = (Inl e, d'))"
  by (auto simp: andThen_def split: sum.splits prod.splits)

lemma andThen_ok: "m d = (Inr x, d1) \<Longrightarrow> andThen m f d = f x d1"
  by (simp add: andThen_def)

lemma andThen_fail: "m d = (Inl e, d1) \<Longrightarrow> andThen m f d = (Inl e, d1)"
  by (simp add: andThen_def)

lemma andThen_ask: "andThen (askS g) f d = (case g d of Inl e \<Rightarrow> (Inl e, d) | Inr x \<Rightarrow> f x d)"
  by (simp add: andThen_def askS_def)

subsection \<open>Relations carried through a body\<close>

definition moves :: "('d \<Rightarrow> 'd \<Rightarrow> bool) \<Rightarrow> ('d, 'a) body \<Rightarrow> bool" where
  "moves R m \<longleftrightarrow> (\<forall>d x d'. m d = Inr (x, d') \<longrightarrow> R d d')"

lemma movesI: "(\<And>d x d'. m d = Inr (x, d') \<Longrightarrow> R d d') \<Longrightarrow> moves R m"
  by (auto simp: moves_def)

lemma movesD: "moves R m \<Longrightarrow> m d = Inr (x, d') \<Longrightarrow> R d d'"
  by (auto simp: moves_def)

definition keeps :: "('d \<Rightarrow> 'd \<Rightarrow> bool) \<Rightarrow> ('d, 'a) steps \<Rightarrow> bool" where
  "keeps R m \<longleftrightarrow> (\<forall>d. R d (snd (m d)))"

lemma keepsI: "(\<And>d. R d (snd (m d))) \<Longrightarrow> keeps R m"
  by (simp add: keeps_def)

lemma keepsD: "keeps R m \<Longrightarrow> m d = (r, d') \<Longrightarrow> R d d'"
  by (metis keeps_def snd_conv)

text \<open>
  The interface: a reflexive and transitive relation between database states. Whatever the
  primitive writes satisfy, every body built from them satisfies, and so does the transaction
  around it, committed or rolled back.
\<close>

locale evolution =
  fixes R :: "'d \<Rightarrow> 'd \<Rightarrow> bool"
  assumes evo_refl: "R d d"
    and evo_trans: "R a b \<Longrightarrow> R b c \<Longrightarrow> R a c"
begin

lemma moves_ret: "moves R (retB x)"
  by (rule movesI) (simp add: evo_refl)

lemma moves_raise: "moves R (raiseB e)"
  by (rule movesI) simp

lemma moves_read: "moves R (readB f)"
  by (rule movesI) (simp add: evo_refl)

lemma moves_lift: "moves R (liftB r)"
  by (rule movesI) (simp add: evo_refl)

lemma moves_mod: "(\<And>d. R d (f d)) \<Longrightarrow> moves R (modB f)"
  by (rule movesI) simp

lemma moves_upd: "(\<And>d d'. f d = Inr d' \<Longrightarrow> R d d') \<Longrightarrow> moves R (updB f)"
  by (rule movesI) simp

lemma moves_bind: "moves R m \<Longrightarrow> (\<And>x. moves R (f x)) \<Longrightarrow> moves R (bindB m f)"
  by (rule movesI) (auto dest!: movesD intro: evo_trans)

lemma moves_if: "(b \<Longrightarrow> moves R m) \<Longrightarrow> (\<not> b \<Longrightarrow> moves R n) \<Longrightarrow> moves R (if b then m else n)"
  by simp

lemma moves_option:
  "moves R n \<Longrightarrow> (\<And>x. moves R (f x)) \<Longrightarrow> moves R (case v of None \<Rightarrow> n | Some x \<Rightarrow> f x)"
  by (cases v) auto

lemma moves_prod: "(\<And>x y. moves R (f x y)) \<Longrightarrow> moves R (case p of (x, y) \<Rightarrow> f x y)"
  by (cases p) auto

lemma moves_let: "(\<And>x. moves R (f x)) \<Longrightarrow> moves R (Let v f)"
  by (simp add: Let_def)

lemma moves_for: "(\<And>x. moves R (f x)) \<Longrightarrow> moves R (forB f xs)"
  by (induction xs) (auto intro: moves_bind moves_ret)

lemma moves_transaction: "moves R m \<Longrightarrow> R d (snd (transaction m d))"
  by (auto simp: transaction_def evo_refl split: sum.splits dest: movesD)

lemma keeps_transaction: "moves R m \<Longrightarrow> keeps R (transaction m)"
  by (rule keepsI) (rule moves_transaction)

lemma keeps_ask: "keeps R (askS f)"
  by (simp add: keeps_def askS_def evo_refl)

lemma keeps_andThen: "keeps R m \<Longrightarrow> (\<And>x. keeps R (f x)) \<Longrightarrow> keeps R (andThen m f)"
  by (auto simp: keeps_def andThen_def split: prod.splits sum.splits) (metis evo_trans snd_conv)+

lemma keeps_if: "(b \<Longrightarrow> keeps R m) \<Longrightarrow> (\<not> b \<Longrightarrow> keeps R n) \<Longrightarrow> keeps R (if b then m else n)"
  by simp

lemma keeps_option:
  "keeps R n \<Longrightarrow> (\<And>x. keeps R (f x)) \<Longrightarrow> keeps R (case v of None \<Rightarrow> n | Some x \<Rightarrow> f x)"
  by (cases v) auto

lemma keeps_prod: "(\<And>x y. keeps R (f x y)) \<Longrightarrow> keeps R (case p of (x, y) \<Rightarrow> f x y)"
  by (cases p) auto

lemma keeps_let: "(\<And>x. keeps R (f x)) \<Longrightarrow> keeps R (Let v f)"
  by (simp add: Let_def)

lemmas keeps_rules =
  keeps_transaction keeps_ask keeps_andThen keeps_if keeps_option keeps_prod keeps_let

lemmas evo_rules =
  moves_ret moves_raise moves_read moves_lift moves_bind moves_if moves_option moves_prod
  moves_let moves_for

end

section \<open>Tables: lists of rows with a key\<close>

definition tget :: "('r \<Rightarrow> 'k) \<Rightarrow> 'k \<Rightarrow> 'r list \<Rightarrow> 'r option" where
  "tget key k xs = find (\<lambda>r. key r = k) xs"

definition tput :: "('r \<Rightarrow> 'k) \<Rightarrow> 'r \<Rightarrow> 'r list \<Rightarrow> exn + 'r list" where
  "tput key r xs =
     (case tget key (key r) xs of
        Some _ \<Rightarrow> Inl (IntegrityError ''UNIQUE constraint failed'')
      | None \<Rightarrow> Inr (xs @ [r]))"

definition tupd :: "('r \<Rightarrow> 'k) \<Rightarrow> 'k \<Rightarrow> ('r \<Rightarrow> 'r) \<Rightarrow> 'r list \<Rightarrow> 'r list" where
  "tupd key k f xs = map (\<lambda>r. if key r = k then f r else r) xs"

lemma tget_simps [simp]:
  "tget key k [] = None"
  "tget key k (r # rs) = (if key r = k then Some r else tget key k rs)"
  by (simp_all add: tget_def)

lemma tget_SomeD: "tget key k xs = Some r \<Longrightarrow> r \<in> set xs \<and> key r = k"
  by (induction xs) (auto split: if_splits)

lemma tget_None_iff: "tget key k xs = None \<longleftrightarrow> k \<notin> key ` set xs"
  by (induction xs) auto

lemma tget_append: "tget key k (xs @ ys) = (case tget key k xs of None \<Rightarrow> tget key k ys | r \<Rightarrow> r)"
  by (induction xs) auto

lemma tget_distinct:
  "distinct (map key xs) \<Longrightarrow> r \<in> set xs \<Longrightarrow> tget key (key r) xs = Some r"
  by (induction xs) (auto simp: image_iff)

lemma tput_Inr_iff:
  "tput key r xs = Inr ys \<longleftrightarrow> tget key (key r) xs = None \<and> ys = xs @ [r]"
  by (auto simp: tput_def split: option.splits)

lemma tput_fresh: "tget key (key r) xs = None \<Longrightarrow> tput key r xs = Inr (xs @ [r])"
  by (simp add: tput_def)

lemma tupd_simps [simp]:
  "tupd key k f [] = []"
  "tupd key k f (r # rs) = (if key r = k then f r else r) # tupd key k f rs"
  by (simp_all add: tupd_def)

lemma length_tupd [simp]: "length (tupd key k f xs) = length xs"
  by (simp add: tupd_def)

lemma keys_tupd: "(\<And>r. key (f r) = key r) \<Longrightarrow> map key (tupd key k f xs) = map key xs"
  by (induction xs) auto

lemma tget_tupd:
  "(\<And>r. key (f r) = key r) \<Longrightarrow>
   tget key j (tupd key k f xs) = (if j = k then map_option f (tget key k xs) else tget key j xs)"
  by (induction xs) auto

lemma tget_replace:
  "tget key j (tupd key (key s) (\<lambda>_. s) xs) =
     (if j = key s then map_option (\<lambda>_. s) (tget key j xs) else tget key j xs)"
  by (induction xs) auto

lemma tupd_absent: "tget key k xs = None \<Longrightarrow> tupd key k f xs = xs"
  by (induction xs) (auto split: if_splits)

lemma list_all2_tupd:
  "(\<And>r. P r r) \<Longrightarrow> (\<And>r. P r (f r)) \<Longrightarrow> list_all2 P xs (tupd key k f xs)"
  by (induction xs) auto

text \<open>SQL \<open>ORDER BY\<close>: ascending is a stable sort on the column, descending its mirror.\<close>

definition order_desc :: "('r \<Rightarrow> 'k::linorder) \<Rightarrow> 'r list \<Rightarrow> 'r list" where
  "order_desc f xs = rev (sort_key f (rev xs))"

lemma set_order_desc [simp]: "set (order_desc f xs) = set xs"
  by (simp add: order_desc_def)

section \<open>Python strings\<close>

text \<open>
  A Python string is a list of code points; the model's \<open>char\<close> covers the first 256.
  \<open>str.strip\<close> removes the white space \<open>str.isspace\<close> accepts in that range.
\<close>

definition is_space :: "char \<Rightarrow> bool" where
  "is_space c \<longleftrightarrow>
     (let n = (of_char c :: nat) in (9 \<le> n \<and> n \<le> 13) \<or> (28 \<le> n \<and> n \<le> 32) \<or> n = 133 \<or> n = 160)"

definition strip :: "string \<Rightarrow> string" where
  "strip s = rev (dropWhile is_space (rev (dropWhile is_space s)))"

definition is_digit :: "char \<Rightarrow> bool" where
  "is_digit c \<longleftrightarrow> 48 \<le> (of_char c :: nat) \<and> (of_char c :: nat) \<le> 57"

definition is_ascii_alnum :: "char \<Rightarrow> bool" where
  "is_ascii_alnum c \<longleftrightarrow>
     (let n = (of_char c :: nat)
      in (48 \<le> n \<and> n \<le> 57) \<or> (65 \<le> n \<and> n \<le> 90) \<or> (97 \<le> n \<and> n \<le> 122))"

text \<open>Python's \<open>a or b\<close> on an optional string: \<open>None\<close> and the empty string are false.\<close>

definition str_or :: "string option \<Rightarrow> string \<Rightarrow> string" where
  "str_or a b = (case a of Some (c # cs) \<Rightarrow> c # cs | _ \<Rightarrow> b)"

lemma str_or_None [simp]: "str_or None b = b"
  by (simp add: str_or_def)

lemma str_or_nonempty: "b \<noteq> [] \<Longrightarrow> str_or a b \<noteq> []"
  by (auto simp: str_or_def split: option.splits list.splits)

lemma strip_idem [simp]: "strip (strip s) = strip s"
proof -
  have edge: "dropWhile P (rev (dropWhile P (rev t))) = rev (dropWhile P (rev t))"
    if "dropWhile P t = t" for P and t :: string
  proof (cases t)
    case (Cons c cs)
    with that have "\<not> P c" by (auto split: if_splits dest: arg_cong [of _ _ length] simp: Suc_n_not_le_n)
      (metis Suc_n_not_le_n dropWhile_eq_drop length_Cons length_dropWhile_le)
    then have "dropWhile P (rev t) = dropWhile P (rev cs) @ [c] \<or> dropWhile P (rev t) = [c]"
      using Cons by (auto simp: dropWhile_append)
    with \<open>\<not> P c\<close> show ?thesis by auto
  qed simp
  show ?thesis
    unfolding strip_def by (subst edge) (simp_all add: dropWhile_idem)
qed

end
