(* ===== verification/Py_Json.thy ===== *)
theory Py_Json
  imports Prelude
begin

text \<open>
  JSON values as \<open>json.loads\<close> returns them, the canonical text of
  \<open>persistence/serialization.py\<close>, and a reader for JSON text with the grammar of Python's
  decoder. A float is kept as the text of its literal, which for a finite double is its
  \<open>repr\<close>; \<open>float_val\<close> reads the number it denotes. Objects are association lists in
  insertion order, as Python dictionaries are.
\<close>

section \<open>Values\<close>

datatype json =
    JNull
  | JBool bool
  | JInt int
  | JFloat string
  | JStr string
  | JList "json list"
  | JObj "(string \<times> json) list"

text \<open>A dictionary assignment keeps the place of an existing key.\<close>

fun dict_put :: "'k \<Rightarrow> 'v \<Rightarrow> ('k \<times> 'v) list \<Rightarrow> ('k \<times> 'v) list" where
  "dict_put k v [] = [(k, v)]"
| "dict_put k v ((k', v') # kvs) = (if k' = k then (k, v) # kvs else (k', v') # dict_put k v kvs)"

definition dict_pop :: "'k \<Rightarrow> ('k \<times> 'v) list \<Rightarrow> ('k \<times> 'v) list" where
  "dict_pop k kvs = filter (\<lambda>kv. fst kv \<noteq> k) kvs"

lemma map_of_dict_put [simp]: "map_of (dict_put k v kvs) = (map_of kvs)(k \<mapsto> v)"
  by (induction kvs) auto

lemma map_of_dict_pop: "map_of (dict_pop k kvs) j = (if j = k then None else map_of kvs j)"
  by (induction kvs) (auto simp: dict_pop_def)

lemma keys_dict_put: "set (map fst (dict_put k v kvs)) = insert k (set (map fst kvs))"
  by (induction k v kvs rule: dict_put.induct) auto

lemma distinct_dict_put: "distinct (map fst kvs) \<Longrightarrow> distinct (map fst (dict_put k v kvs))"
proof (induction k v kvs rule: dict_put.induct)
  case (2 k v k' v' kvs)
  then show ?case using keys_dict_put [of k v kvs] by (auto simp del: set_map)
qed simp

lemma dict_put_fresh: "k \<notin> set (map fst kvs) \<Longrightarrow> dict_put k v kvs = kvs @ [(k, v)]"
  by (induction k v kvs rule: dict_put.induct) auto

fun jget :: "string \<Rightarrow> json \<Rightarrow> json" where
  "jget k (JObj kvs) = (case map_of kvs k of None \<Rightarrow> JNull | Some v \<Rightarrow> v)"
| "jget k _ = JNull"

section \<open>Numbers as text\<close>

definition digit_char :: "nat \<Rightarrow> char" where
  "digit_char d = char_of (48 + d)"

definition digit_val :: "char \<Rightarrow> nat" where
  "digit_val c = of_char c - 48"

fun nat_str :: "nat \<Rightarrow> string" where
  "nat_str n = (if n < 10 then [digit_char n] else nat_str (n div 10) @ [digit_char (n mod 10)])"

declare nat_str.simps [simp del]

definition int_str :: "int \<Rightarrow> string" where
  "int_str i = (if i < 0 then CHR ''-'' # nat_str (nat (- i)) else nat_str (nat i))"

definition digits_val :: "string \<Rightarrow> nat" where
  "digits_val ds = foldl (\<lambda>n c. 10 * n + digit_val c) 0 ds"

lemma of_char_digit: "d < 10 \<Longrightarrow> of_char (digit_char d) = (48 + d :: nat)"
  by (simp add: digit_char_def)

lemma is_digit_digit_char: "d < 10 \<Longrightarrow> is_digit (digit_char d)"
  by (simp add: is_digit_def of_char_digit)

lemma digit_val_digit_char: "d < 10 \<Longrightarrow> digit_val (digit_char d) = d"
  by (simp add: digit_val_def of_char_digit)

lemma nat_str_digits: "\<forall>c \<in> set (nat_str n). is_digit c"
proof (induction n rule: nat_str.induct)
  case (1 n)
  then show ?case
    by (subst nat_str.simps) (auto simp: is_digit_digit_char)
qed

lemma nat_str_nonempty [simp]: "nat_str n \<noteq> []"
  by (subst nat_str.simps) simp

lemma digits_val_nat_str: "digits_val (nat_str n) = n"
proof (induction n rule: nat_str.induct)
  case (1 n)
  show ?case
  proof (cases "n < 10")
    case True
    then show ?thesis by (subst nat_str.simps) (simp add: digits_val_def digit_val_digit_char)
  next
    case False
    with "1.IH" have "digits_val (nat_str (n div 10)) = n div 10" by simp
    with False show ?thesis
      by (subst nat_str.simps) (simp add: digits_val_def digit_val_digit_char)
  qed
qed

lemma hd_nat_str: "hd (nat_str n) = CHR ''0'' \<longleftrightarrow> n = 0"
proof (induction n rule: nat_str.induct)
  case (1 n)
  show ?case
  proof (cases "n < 10")
    case True
    have "digit_char n = CHR ''0'' \<longleftrightarrow> n = 0"
      using True by (auto simp: digit_char_def char_of_eq_iff take_bit_eq_mod)
    with True show ?thesis by (subst nat_str.simps) simp
  next
    case False
    with "1.IH" show ?thesis by (subst nat_str.simps) auto
  qed
qed

lemma nat_str_0: "nat_str 0 = ''0''"
  by (subst nat_str.simps) (simp add: digit_char_def char_of_eq_iff)

text \<open>
  The decoder's number pattern: an integer part without leading zeros, then an optional
  fraction and an optional exponent, each taken only when it has digits.
\<close>

definition lex_frac :: "string \<Rightarrow> string \<times> string" where
  "lex_frac s =
     (case s of
        c # r \<Rightarrow> if c = CHR ''.'' \<and> takeWhile is_digit r \<noteq> []
                 then (c # takeWhile is_digit r, dropWhile is_digit r) else ([], s)
      | [] \<Rightarrow> ([], s))"

definition lex_sign :: "string \<Rightarrow> string \<times> string" where
  "lex_sign s =
     (case s of
        c # r \<Rightarrow> if c = CHR ''+'' \<or> c = CHR ''-'' then ([c], r) else ([], s)
      | [] \<Rightarrow> ([], s))"

definition lex_exp :: "string \<Rightarrow> string \<times> string" where
  "lex_exp s =
     (case s of
        c # r \<Rightarrow>
          if c = CHR ''e'' \<or> c = CHR ''E'' then
            (let (sg, r1) = lex_sign r
             in if takeWhile is_digit r1 \<noteq> []
                then (c # sg @ takeWhile is_digit r1, dropWhile is_digit r1) else ([], s))
          else ([], s)
      | [] \<Rightarrow> ([], s))"

definition lex_int :: "string \<Rightarrow> (string \<times> string) option" where
  "lex_int s =
     (let (sg, r) = (case s of c # r \<Rightarrow> if c = CHR ''-'' then ([c], r) else ([], s) | [] \<Rightarrow> ([], s))
      in case r of
           [] \<Rightarrow> None
         | c # r' \<Rightarrow>
             if c = CHR ''0'' then Some (sg @ [c], r')
             else if is_digit c then Some (sg @ c # takeWhile is_digit r', dropWhile is_digit r')
             else None)"

definition int_val :: "string \<Rightarrow> int" where
  "int_val t = (case t of c # r \<Rightarrow> if c = CHR ''-'' then - int (digits_val r) else int (digits_val t) | [] \<Rightarrow> 0)"

definition lex_number :: "string \<Rightarrow> (json \<times> string) option" where
  "lex_number s =
     (case lex_int s of
        None \<Rightarrow> None
      | Some (it, r) \<Rightarrow>
          (let (ft, r1) = lex_frac r; (et, r2) = lex_exp r1
           in Some (if ft = [] \<and> et = [] then JInt (int_val it) else JFloat (it @ ft @ et), r2)))"

text \<open>What may follow a number in canonical text: anything that does not continue it.\<close>

definition num_end :: "string \<Rightarrow> bool" where
  "num_end s \<longleftrightarrow>
     (case s of
        [] \<Rightarrow> True
      | c # _ \<Rightarrow> \<not> is_digit c \<and> c \<noteq> CHR ''.'' \<and> c \<noteq> CHR ''e'' \<and> c \<noteq> CHR ''E''
               \<and> c \<noteq> CHR ''+'' \<and> c \<noteq> CHR ''-'')"

text \<open>The text of a finite float: one complete number token with a fraction or an exponent.\<close>

definition float_text :: "string \<Rightarrow> bool" where
  "float_text t \<longleftrightarrow> lex_number t = Some (JFloat t, [])"

lemma takeWhile_digits_end:
  "\<forall>c \<in> set ds. is_digit c \<Longrightarrow> (\<And>c r'. r = c # r' \<Longrightarrow> \<not> is_digit c) \<Longrightarrow>
   takeWhile is_digit (ds @ r) = ds \<and> dropWhile is_digit (ds @ r) = r"
  by (cases r) auto

lemma num_end_Cons: "num_end (c # r) \<Longrightarrow> \<not> is_digit c \<and> c \<noteq> CHR ''.'' \<and> c \<noteq> CHR ''e'' \<and> c \<noteq> CHR ''E''"
  by (simp add: num_end_def)

lemma num_end_digits:
  assumes "num_end r"
  shows "takeWhile is_digit (t @ r) = takeWhile is_digit t"
    and "dropWhile is_digit (t @ r) = dropWhile is_digit t @ r"
  using assms by (induction t; cases r; auto simp: num_end_def)+

lemma is_digit_char_facts [simp]:
  "\<not> is_digit (CHR ''-'')" "\<not> is_digit (CHR ''+'')" "\<not> is_digit (CHR ''.'')"
  "\<not> is_digit (CHR ''e'')" "\<not> is_digit (CHR ''E'')" "is_digit (CHR ''0'')"
  by (simp_all add: is_digit_def)

lemma lex_frac_num_end: "num_end r \<Longrightarrow> lex_frac r = ([], r)"
  by (auto simp: lex_frac_def num_end_def split: list.splits)

lemma lex_exp_num_end: "num_end r \<Longrightarrow> lex_exp r = ([], r)"
  by (auto simp: lex_exp_def num_end_def split: list.splits)

lemma lex_int_int_str:
  assumes "num_end r"
  shows "lex_int (int_str i @ r) = Some (int_str i, r)"
proof -
  have nat_part: "\<exists>c cs. nat_str n = c # cs \<and> is_digit c \<and> c \<noteq> CHR ''-'' \<and> (\<forall>d \<in> set cs. is_digit d)
      \<and> (c = CHR ''0'' \<longleftrightarrow> n = 0)" for n
    using nat_str_digits [of n] hd_nat_str [of n] by (cases "nat_str n") auto
  have zero: "nat_str n = [CHR ''0'']" if "n = 0" for n
    using that by (simp add: nat_str_0)
  obtain c cs where ns: "nat_str (nat \<bar>i\<bar>) = c # cs" "is_digit c" "c \<noteq> CHR ''-''"
    "\<forall>d \<in> set cs. is_digit d" "c = CHR ''0'' \<longleftrightarrow> nat \<bar>i\<bar> = 0"
    using nat_part [of "nat \<bar>i\<bar>"] by metis
  have tail: "takeWhile is_digit (cs @ r) = cs" "dropWhile is_digit (cs @ r) = r"
    using takeWhile_digits_end [OF ns(4), of r] assms by (auto dest: num_end_Cons)
  show ?thesis
  proof (cases "c = CHR ''0''")
    case True
    with ns have "i = 0" by simp
    then show ?thesis by (simp add: int_str_def nat_str_0 lex_int_def)
  next
    case False
    then show ?thesis
      using ns tail by (cases "i < 0") (auto simp: int_str_def lex_int_def abs_if)
  qed
qed

lemma int_val_int_str: "int_val (int_str i) = i"
proof (cases "i < 0")
  case True
  then show ?thesis by (simp add: int_str_def int_val_def digits_val_nat_str)
next
  case False
  obtain c cs where ns: "nat_str (nat i) = c # cs" by (cases "nat_str (nat i)") auto
  have "c \<noteq> CHR ''-''" using nat_str_digits [of "nat i"] ns by auto
  moreover have "int (digits_val (c # cs)) = i"
    using digits_val_nat_str [of "nat i"] ns False by simp
  ultimately show ?thesis
    using False ns by (simp add: int_str_def int_val_def)
qed

lemma lex_number_int: "num_end r \<Longrightarrow> lex_number (int_str i @ r) = Some (JInt i, r)"
  by (simp add: lex_number_def lex_int_int_str lex_frac_num_end lex_exp_num_end int_val_int_str)

lemma lex_frac_append: "num_end r \<Longrightarrow> lex_frac s = (f, s') \<Longrightarrow> lex_frac (s @ r) = (f, s' @ r)"
  by (cases s) (auto simp: lex_frac_def num_end_digits lex_frac_num_end [unfolded lex_frac_def]
      split: if_splits)

lemma lex_sign_append: "s \<noteq> [] \<Longrightarrow> lex_sign s = (f, s') \<Longrightarrow> lex_sign (s @ r) = (f, s' @ r)"
  by (cases s) (auto simp: lex_sign_def split: if_splits)

lemma lex_exp_append:
  assumes "num_end r" and "lex_exp s = (f, s')"
  shows "lex_exp (s @ r) = (f, s' @ r)"
proof (cases s)
  case Nil
  moreover from assms Nil have "f = []" "s' = []" by (auto simp: lex_exp_def)
  ultimately show ?thesis using assms(1) by (simp add: lex_exp_num_end)
next
  case (Cons c t)
  show ?thesis
  proof (cases "t = []")
    case True
    have "takeWhile is_digit (snd (lex_sign r)) = []"
      using assms(1) by (cases r) (auto simp: lex_sign_def num_end_def)
    then show ?thesis
      using assms Cons True
      by (auto simp: lex_exp_def lex_sign_def split: if_splits prod.splits list.splits)
  next
    case False
    obtain sg t1 where ls: "lex_sign t = (sg, t1)" by (cases "lex_sign t")
    with False have "lex_sign (t @ r) = (sg, t1 @ r)" by (rule lex_sign_append)
    with assms Cons ls show ?thesis
      by (auto simp: lex_exp_def num_end_digits split: if_splits)
  qed
qed


lemma lex_int_append:
  assumes "num_end r" and "lex_int s = Some (it, s')"
  shows "lex_int (s @ r) = Some (it, s' @ r)"
  using assms
  by (cases s; cases "tl s")
     (auto simp: lex_int_def num_end_digits num_end_digits [where t="[]", simplified]
        split: if_splits list.splits prod.splits)

lemma lex_number_append:
  assumes "num_end r" and "lex_number s = Some (v, s')"
  shows "lex_number (s @ r) = Some (v, s' @ r)"
proof -
  from assms(2) obtain it r0 where i: "lex_int s = Some (it, r0)"
    by (auto simp: lex_number_def split: option.splits prod.splits)
  obtain ft r1 where f: "lex_frac r0 = (ft, r1)" by (cases "lex_frac r0")
  obtain et r2 where e: "lex_exp r1 = (et, r2)" by (cases "lex_exp r1")
  from i f e assms show ?thesis
    by (auto simp: lex_number_def lex_int_append lex_frac_append lex_exp_append)
qed

lemma lex_number_start:
  "lex_number s = Some z \<Longrightarrow> \<exists>c t. s = c # t \<and> (is_digit c \<or> c = CHR ''-'' \<and> (\<exists>d u. t = d # u \<and> is_digit d))"
  by (cases s; cases "tl s")
     (auto simp: lex_number_def lex_int_def split: if_splits list.splits option.splits)

section \<open>Strings as text\<close>

definition hex_digit :: "nat \<Rightarrow> char" where
  "hex_digit d = (if d < 10 then char_of (48 + d) else char_of (87 + d))"

definition hex_val :: "char \<Rightarrow> nat option" where
  "hex_val c =
     (let n = of_char c :: nat
      in if 48 \<le> n \<and> n \<le> 57 then Some (n - 48)
         else if 97 \<le> n \<and> n \<le> 102 then Some (n - 87)
         else if 65 \<le> n \<and> n \<le> 70 then Some (n - 55) else None)"

definition hex4 :: "char \<Rightarrow> char \<Rightarrow> char \<Rightarrow> char \<Rightarrow> nat option" where
  "hex4 a b c d =
     (case (hex_val a, hex_val b, hex_val c, hex_val d) of
        (Some w, Some x, Some y, Some z) \<Rightarrow> Some (((w * 16 + x) * 16 + y) * 16 + z)
      | _ \<Rightarrow> None)"

text \<open>\<open>json.dumps(..., ensure_ascii=False)\<close> escapes the quote, the backslash and controls.\<close>

definition esc_char :: "char \<Rightarrow> string" where
  "esc_char c =
     (if c = CHR 0x22 then [CHR 0x5C, CHR 0x22]
      else if c = CHR 0x5C then [CHR 0x5C, CHR 0x5C]
      else if c = CHR 0x0A then [CHR 0x5C, CHR ''n'']
      else if c = CHR 0x0D then [CHR 0x5C, CHR ''r'']
      else if c = CHR 0x09 then [CHR 0x5C, CHR ''t'']
      else if c = CHR 0x0C then [CHR 0x5C, CHR ''f'']
      else if c = CHR 0x08 then [CHR 0x5C, CHR ''b'']
      else if (of_char c :: nat) < 32 then
        [CHR 0x5C, CHR ''u'', CHR ''0'', CHR ''0'', hex_digit (of_char c div 16), hex_digit (of_char c mod 16)]
      else [c])"

definition str_lit :: "string \<Rightarrow> string" where
  "str_lit s = CHR 0x22 # concat (map esc_char s) @ [CHR 0x22]"

definition unesc :: "char \<Rightarrow> char option" where
  "unesc e =
     (if e = CHR 0x22 \<or> e = CHR 0x5C \<or> e = CHR ''/'' then Some e
      else if e = CHR ''n'' then Some (CHR 0x0A)
      else if e = CHR ''r'' then Some (CHR 0x0D)
      else if e = CHR ''t'' then Some (CHR 0x09)
      else if e = CHR ''f'' then Some (CHR 0x0C)
      else if e = CHR ''b'' then Some (CHR 0x08)
      else None)"

definition push :: "'a \<Rightarrow> ('a list \<times> 'b) option \<Rightarrow> ('a list \<times> 'b) option" where
  "push x z = (case z of None \<Rightarrow> None | Some (xs, r) \<Rightarrow> Some (x # xs, r))"

text \<open>The rest of a string literal after its opening quote, up to the closing one.\<close>

fun pstr :: "string \<Rightarrow> (string \<times> string) option" where
  "pstr [] = None"
| "pstr (c # cs) =
     (if c = CHR 0x22 then Some ([], cs)
      else if c = CHR 0x5C then
        (case cs of
           [] \<Rightarrow> None
         | e # r \<Rightarrow>
             if e = CHR ''u'' then
               (case r of
                  h1 # h2 # h3 # h4 # r' \<Rightarrow>
                    (case hex4 h1 h2 h3 h4 of
                       None \<Rightarrow> None
                     | Some n \<Rightarrow> if n < 256 then push (char_of n) (pstr r') else None)
                | _ \<Rightarrow> None)
             else (case unesc e of None \<Rightarrow> None | Some c' \<Rightarrow> push c' (pstr r)))
      else if (of_char c :: nat) < 32 then None
      else push c (pstr cs))"

declare pstr.simps [simp del]

lemma hex_val_hex_digit: "d < 16 \<Longrightarrow> hex_val (hex_digit d) = Some d"
  by (auto simp: hex_val_def hex_digit_def Let_def)

lemma of_char_lt [simp]: "(of_char c :: nat) < 256"
proof -
  have "(of_char c :: nat) = of_char (char_of (of_char c :: nat))" by simp
  also have "\<dots> = of_char c mod 256" by (simp only: of_char_of)
  finally show ?thesis by (metis mod_less_divisor zero_less_numeral)
qed

lemma pstr_esc: "pstr (esc_char c @ r) = push c (pstr r)"
proof -
  have n: "of_char c div 16 < (16::nat)" using of_char_lt [of c] by linarith
  have v0: "hex_val (CHR ''0'') = Some 0" by (simp add: hex_val_def)
  have h: "hex4 (CHR ''0'') (CHR ''0'') (hex_digit (of_char c div 16)) (hex_digit (of_char c mod 16))
      = Some (of_char c)"
    using hex_val_hex_digit [OF n] by (simp add: hex4_def v0 hex_val_hex_digit)
  show ?thesis
    unfolding esc_char_def
    by (simp add: pstr.simps unesc_def h)
qed

lemma pstr_str_lit: "pstr (concat (map esc_char t) @ CHR 0x22 # r) = Some (t, r)"
proof (induction t)
  case Nil
  show ?case by (simp add: pstr.simps)
next
  case (Cons c t)
  then show ?case by (simp add: pstr_esc push_def)
qed

section \<open>Printing and reading\<close>

text \<open>
  \<open>json.dumps\<close> with the separators of \<open>canonical_json\<close>. The two list printers include the
  closing bracket.
\<close>

fun dumps :: "json \<Rightarrow> string"
  and dumps_elems :: "json list \<Rightarrow> string"
  and dumps_members :: "(string \<times> json) list \<Rightarrow> string" where
  "dumps JNull = ''null''"
| "dumps (JBool b) = (if b then ''true'' else ''false'')"
| "dumps (JInt i) = int_str i"
| "dumps (JFloat t) = t"
| "dumps (JStr s) = str_lit s"
| "dumps (JList xs) = CHR ''['' # dumps_elems xs"
| "dumps (JObj kvs) = CHR ''{'' # dumps_members kvs"
| "dumps_elems [] = '']''"
| "dumps_elems [x] = dumps x @ '']''"
| "dumps_elems (x # y # ys) = dumps x @ CHR '','' # dumps_elems (y # ys)"
| "dumps_members [] = ''}''"
| "dumps_members [(k, v)] = str_lit k @ CHR '':'' # dumps v @ ''}''"
| "dumps_members ((k, v) # m # ms) =
     str_lit k @ CHR '':'' # dumps v @ CHR '','' # dumps_members (m # ms)"

definition is_ws :: "char \<Rightarrow> bool" where
  "is_ws c \<longleftrightarrow> c = CHR '' '' \<or> c = CHR 0x09 \<or> c = CHR 0x0A \<or> c = CHR 0x0D"

definition skip :: "string \<Rightarrow> string" where
  "skip s = dropWhile is_ws s"

text \<open>The three constants the decoder accepts beyond the grammar are kept as their text.\<close>

definition lex_word :: "string \<Rightarrow> (json \<times> string) option" where
  "lex_word s =
     (if take 4 s = ''null'' then Some (JNull, drop 4 s)
      else if take 4 s = ''true'' then Some (JBool True, drop 4 s)
      else if take 5 s = ''false'' then Some (JBool False, drop 5 s)
      else case lex_number s of
          Some z \<Rightarrow> Some z
        | None \<Rightarrow>
            if take 3 s = ''NaN'' then Some (JFloat ''NaN'', drop 3 s)
            else if take 8 s = ''Infinity'' then Some (JFloat ''Infinity'', drop 8 s)
            else if take 9 s = ''-Infinity'' then Some (JFloat ''-Infinity'', drop 9 s)
            else None)"

definition dict_of :: "('k \<times> 'v) list \<Rightarrow> ('k \<times> 'v) list" where
  "dict_of kvs = foldl (\<lambda>d (k, v). dict_put k v d) [] kvs"

text \<open>
  Python's scanner. Every call that goes one value deeper, or one element further, spends one
  unit of fuel; the length of the text is enough.
\<close>

fun pval :: "nat \<Rightarrow> string \<Rightarrow> (json \<times> string) option"
  and pelems :: "nat \<Rightarrow> string \<Rightarrow> (json list \<times> string) option"
  and pmembers :: "nat \<Rightarrow> string \<Rightarrow> ((string \<times> json) list \<times> string) option" where
  "pval 0 s = None"
| "pval (Suc n) s =
     (case s of
        [] \<Rightarrow> None
      | c # r \<Rightarrow>
          if c = CHR 0x22 then map_option (\<lambda>(t, r'). (JStr t, r')) (pstr r)
          else if c = CHR ''{'' then
            (case skip r of
               [] \<Rightarrow> None
             | d # r' \<Rightarrow>
                 if d = CHR ''}'' then Some (JObj [], r')
                 else map_option (\<lambda>(kvs, r''). (JObj (dict_of kvs), r'')) (pmembers n (d # r')))
          else if c = CHR ''['' then
            (case skip r of
               [] \<Rightarrow> None
             | d # r' \<Rightarrow>
                 if d = CHR '']'' then Some (JList [], r')
                 else map_option (\<lambda>(xs, r''). (JList xs, r'')) (pelems n (d # r')))
          else lex_word s)"
| "pelems 0 s = None"
| "pelems (Suc n) s =
     (case pval n s of
        None \<Rightarrow> None
      | Some (v, r) \<Rightarrow>
          (case skip r of
             [] \<Rightarrow> None
           | d # r' \<Rightarrow>
               if d = CHR '']'' then Some ([v], r')
               else if d = CHR '','' then push v (pelems n (skip r')) else None))"
| "pmembers 0 s = None"
| "pmembers (Suc n) s =
     (case s of
        [] \<Rightarrow> None
      | q # s1 \<Rightarrow>
          if q \<noteq> CHR 0x22 then None
          else
            (case pstr s1 of
               None \<Rightarrow> None
             | Some (k, s2) \<Rightarrow>
                 (case skip s2 of
                    [] \<Rightarrow> None
                  | col # s3 \<Rightarrow>
                      if col \<noteq> CHR '':'' then None
                      else
                        (case pval n (skip s3) of
                           None \<Rightarrow> None
                         | Some (v, r) \<Rightarrow>
                             (case skip r of
                                [] \<Rightarrow> None
                              | d # r' \<Rightarrow>
                                  if d = CHR ''}'' then Some ([(k, v)], r')
                                  else if d = CHR '','' then push (k, v) (pmembers n (skip r'))
                                  else None)))))"

definition json_loads :: "string \<Rightarrow> json option" where
  "json_loads s =
     (case pval (Suc (length s)) (skip s) of
        None \<Rightarrow> None
      | Some (v, r) \<Rightarrow> if skip r = [] then Some v else None)"

fun json_ok :: "json \<Rightarrow> bool" where
  "json_ok (JFloat t) = float_text t"
| "json_ok (JList xs) = (\<forall>x \<in> set xs. json_ok x)"
| "json_ok (JObj kvs) = (distinct (map fst kvs) \<and> (\<forall>kv \<in> set kvs. json_ok (snd kv)))"
| "json_ok _ = True"

fun distinct_keys :: "json \<Rightarrow> bool" where
  "distinct_keys (JList xs) = (\<forall>x \<in> set xs. distinct_keys x)"
| "distinct_keys (JObj kvs) = (distinct (map fst kvs) \<and> (\<forall>kv \<in> set kvs. distinct_keys (snd kv)))"
| "distinct_keys _ = True"

lemma size_elem: "x \<in> set xs \<Longrightarrow> size x < size (JList xs)"
  by (induction xs) auto

lemma size_member: "kv \<in> set kvs \<Longrightarrow> size (snd kv) < size (JObj kvs)"
  by (induction kvs) (auto split: prod.splits)

text \<open>\<open>_normalize\<close> on the values JSON has, and \<open>canonical_json\<close>.\<close>

function (sequential) normalize :: "json \<Rightarrow> exn + json" where
  "normalize (JFloat t) =
     (if float_text t then Inr (JFloat t)
      else Inl (ValueError ''canonical JSON cannot serialize non-finite floats''))"
| "normalize (JList xs) = bindR (mapR normalize xs) (\<lambda>ys. Inr (JList ys))"
| "normalize (JObj kvs) =
     bindR (mapR (\<lambda>kv. bindR (normalize (snd kv)) (\<lambda>v. Inr (fst kv, v))) (sort_key fst kvs))
       (\<lambda>kvs'. Inr (JObj kvs'))"
| "normalize j = Inr j"
  by pat_completeness auto
termination
  by (relation "measure size") (simp_all add: size_elem size_member del: json.size)

definition canonical_json :: "json \<Rightarrow> exn + string" where
  "canonical_json j = bindR (normalize j) (\<lambda>k. Inr (dumps k))"

section \<open>The round trip\<close>

lemma dict_of_distinct: "distinct (map fst kvs) \<Longrightarrow> dict_of kvs = kvs"
proof -
  have "foldl (\<lambda>d (k, v). dict_put k v d) acc kvs = acc @ kvs"
    if "distinct (map fst (acc @ kvs))" for acc kvs :: "('a \<times> 'b) list"
    using that
  proof (induction kvs arbitrary: acc)
    case (Cons kv kvs)
    obtain k v where [simp]: "kv = (k, v)" by (cases kv)
    from Cons.prems have "k \<notin> set (map fst acc)" by auto
    with Cons.IH [of "acc @ [(k, v)]"] Cons.prems show ?case
      by (simp add: dict_put_fresh)
  qed simp
  from this [of "[]" kvs] show "distinct (map fst kvs) \<Longrightarrow> dict_of kvs = kvs"
    by (simp add: dict_of_def)
qed

lemma num_end_simps [simp]:
  "num_end []" "num_end (CHR '','' # r)" "num_end (CHR '']'' # r)" "num_end (CHR ''}'' # r)"
  by (simp_all add: num_end_def is_digit_def)

lemma skip_Cons [simp]:
  "skip (CHR 0x22 # r) = CHR 0x22 # r" "skip (CHR '','' # r) = CHR '','' # r"
  "skip (CHR '':'' # r) = CHR '':'' # r" "skip (CHR '']'' # r) = CHR '']'' # r"
  "skip (CHR ''}'' # r) = CHR ''}'' # r"  "skip [] = []"
  by (simp_all add: skip_def is_ws_def)

text \<open>The first character of a printed value decides how the scanner reads it.\<close>

definition value_start :: "char \<Rightarrow> bool" where
  "value_start c \<longleftrightarrow> \<not> is_ws c \<and> c \<noteq> CHR '']'' \<and> c \<noteq> CHR ''}''"

definition number_start :: "char \<Rightarrow> bool" where
  "number_start c \<longleftrightarrow> is_digit c \<or> c = CHR ''-''"

lemma number_start_facts:
  assumes "number_start c"
  shows "c \<noteq> CHR 0x22" "c \<noteq> CHR ''{''" "c \<noteq> CHR ''[''" "c \<noteq> CHR ''n''" "c \<noteq> CHR ''t''"
    "c \<noteq> CHR ''f''" "value_start c"
  using assms by (auto simp: number_start_def value_start_def is_ws_def is_digit_def)

lemma int_str_start: "\<exists>c t. int_str i = c # t \<and> number_start c"
proof -
  have "\<exists>c t. nat_str n = c # t \<and> is_digit c" for n
    using nat_str_digits [of n] by (cases "nat_str n") auto
  from this [of "nat i"] show ?thesis by (auto simp: int_str_def number_start_def)
qed

lemma float_text_start: "float_text t \<Longrightarrow> \<exists>c u. t = c # u \<and> number_start c"
  by (auto simp: float_text_def number_start_def dest!: lex_number_start)

lemma dumps_start:
  assumes "json_ok j"
  shows "\<exists>c t. dumps j = c # t \<and> value_start c"
proof (cases j)
  case (JInt i)
  with int_str_start [of i] show ?thesis by (auto dest: number_start_facts)
next
  case (JFloat t)
  with assms float_text_start [of t] show ?thesis by (auto dest: number_start_facts)
qed (auto simp: value_start_def is_ws_def str_lit_def)

lemma skip_dumps:
  assumes "json_ok j"
  shows "skip (dumps j @ r) = dumps j @ r"
  using dumps_start [OF assms] by (auto simp: skip_def value_start_def)

lemma pval_number:
  assumes "lex_number (s @ r) = Some (v, r)" and "s = c # t" and "number_start c"
  shows "pval (Suc n) (s @ r) = Some (v, r)"
  using assms number_start_facts [OF assms(3)] by (simp add: lex_word_def)

lemma dumps_elems_start:
  assumes "\<forall>x \<in> set xs. json_ok x" and "xs \<noteq> []"
  shows "\<exists>c t. dumps_elems xs = c # t \<and> value_start c"
proof -
  from assms obtain y ys where "xs = y # ys" "json_ok y" by (cases xs) auto
  with dumps_start [of y] show ?thesis by (cases ys) auto
qed

lemma dumps_members_start: "kvs \<noteq> [] \<Longrightarrow> \<exists>t. dumps_members kvs = CHR 0x22 # t"
  by (cases kvs rule: dumps_members.cases) (auto simp: str_lit_def)

lemma skip_value: "value_start c \<Longrightarrow> skip (c # r) = c # r"
  by (simp add: skip_def value_start_def)

lemma dumps_members_eqs:
  "dumps_members ((k, v) # ms) =
     CHR 0x22 # concat (map esc_char k) @ CHR 0x22 # CHR '':'' # dumps v @
       (if ms = [] then ''}'' else CHR '','' # dumps_members ms)"
  by (cases ms) (simp_all add: str_lit_def)

lemma dumps_elems_eqs:
  "dumps_elems (x # xs) = dumps x @ (if xs = [] then '']'' else CHR '','' # dumps_elems xs)"
  by (cases xs) simp_all

lemma parse_printed:
  "json_ok j \<Longrightarrow> num_end r \<Longrightarrow> length (dumps j) \<le> n \<Longrightarrow> pval n (dumps j @ r) = Some (j, r)"
  "\<forall>x \<in> set xs. json_ok x \<Longrightarrow> xs \<noteq> [] \<Longrightarrow> length (dumps_elems xs) \<le> n \<Longrightarrow>
     pelems n (dumps_elems xs @ r) = Some (xs, r)"
  "\<forall>kv \<in> set kvs. json_ok (snd kv) \<Longrightarrow> kvs \<noteq> [] \<Longrightarrow> length (dumps_members kvs) \<le> n \<Longrightarrow>
     pmembers n (dumps_members kvs @ r) = Some (kvs, r)"
proof (induction j and xs and kvs arbitrary: r n and r n and r n rule: dumps_dumps_elems_dumps_members.induct)
  case 1
  then show ?case by (cases n) (auto simp: lex_word_def)
next
  case (2 b)
  then show ?case by (cases n; cases b) (auto simp: lex_word_def)
next
  case (3 i)
  obtain c t where s: "int_str i = c # t" "number_start c" using int_str_start by blast
  with 3 obtain m where n: "n = Suc m" by (cases n) auto
  have "pval (Suc m) (int_str i @ r) = Some (JInt i, r)"
    using 3 by (intro pval_number [OF lex_number_int s]) simp
  with n show ?case by (simp del: pval.simps)
next
  case (4 t)
  then have ft: "lex_number t = Some (JFloat t, [])" by (simp add: float_text_def)
  obtain c u where s: "t = c # u" "number_start c" using 4 float_text_start [of t] by auto
  with 4 obtain m where n: "n = Suc m" by (cases n) auto
  have "lex_number (t @ r) = Some (JFloat t, r)" using lex_number_append [OF _ ft, of r] 4 by simp
  then have "pval (Suc m) (t @ r) = Some (JFloat t, r)" by (rule pval_number [OF _ s])
  with n show ?case by (simp del: pval.simps)
next
  case (5 s)
  then show ?case by (cases n) (auto simp: str_lit_def pstr_str_lit)
next
  case (6 xs)
  then obtain m where n: "n = Suc m" "length (dumps_elems xs) \<le> m" by (cases n) auto
  show ?case
  proof (cases "xs = []")
    case True
    with n show ?thesis by simp
  next
    case False
    with 6 obtain c t where ct: "dumps_elems xs = c # t" "value_start c"
      using dumps_elems_start [of xs] by auto
    have "pelems m (dumps_elems xs @ r) = Some (xs, r)" using 6 n False by simp
    with n ct show ?thesis by (auto simp: skip_value) (auto simp: value_start_def)
  qed
next
  case (7 kvs)
  then obtain m where n: "n = Suc m" "length (dumps_members kvs) \<le> m" by (cases n) auto
  show ?case
  proof (cases "kvs = []")
    case True
    with n show ?thesis by simp
  next
    case False
    with 7 obtain t where ct: "dumps_members kvs = CHR 0x22 # t"
      using dumps_members_start [of kvs] by auto
    have "pmembers m (dumps_members kvs @ r) = Some (kvs, r)" using 7 n False by simp
    with n ct 7 show ?thesis by (simp add: dict_of_distinct)
  qed
next
  case (9 x)
  then obtain m where n: "n = Suc m" "length (dumps x) \<le> m" by (cases n) auto
  with 9 have "pval m (dumps x @ CHR '']'' # r) = Some (x, CHR '']'' # r)" by simp
  with n show ?case by simp
next
  case (10 x y ys)
  then obtain m where n: "n = Suc m" "length (dumps x) \<le> m" "length (dumps_elems (y # ys)) \<le> m"
    by (cases n) auto
  with 10 have "pval m (dumps x @ CHR '','' # dumps_elems (y # ys) @ r)
      = Some (x, CHR '','' # dumps_elems (y # ys) @ r)" by simp
  moreover obtain c t where ct: "dumps_elems (y # ys) = c # t" "value_start c"
    using dumps_elems_start [of "y # ys"] 10 by auto
  moreover have "pelems m (dumps_elems (y # ys) @ r) = Some (y # ys, r)" using 10 n by simp
  ultimately show ?case using n by (simp add: dumps_elems_eqs [of x] skip_value push_def)
next
  case (12 k v)
  then obtain m where n: "n = Suc m" "length (dumps v) \<le> m" by (cases n) auto
  with 12 have "pval m (dumps v @ CHR ''}'' # r) = Some (v, CHR ''}'' # r)" by simp
  with n 12 show ?case
    by (simp add: dumps_members_eqs pstr_str_lit skip_dumps)
next
  case (13 k v m ms)
  then obtain i where n: "n = Suc i" "length (dumps v) \<le> i" "length (dumps_members (m # ms)) \<le> i"
    by (cases n) auto
  with 13 have "pval i (dumps v @ CHR '','' # dumps_members (m # ms) @ r)
      = Some (v, CHR '','' # dumps_members (m # ms) @ r)" by simp
  moreover obtain t where ct: "dumps_members (m # ms) = CHR 0x22 # t"
    using dumps_members_start [of "m # ms"] by auto
  moreover have "pmembers i (dumps_members (m # ms) @ r) = Some (m # ms, r)" using 13 n by simp
  ultimately show ?case using n 13
    by (simp add: str_lit_def pstr_str_lit skip_dumps push_def)
qed auto

lemma json_loads_dumps: "json_ok j \<Longrightarrow> json_loads (dumps j) = Some j"
  using parse_printed(1) [of j "[]" "Suc (length (dumps j))"] skip_dumps [of j "[]"]
  by (simp add: json_loads_def)

lemma dumps_inj: "json_ok i \<Longrightarrow> json_ok j \<Longrightarrow> dumps i = dumps j \<longleftrightarrow> i = j"
  using json_loads_dumps by (metis option.inject)

lemma normalize_ok: "distinct_keys j \<Longrightarrow> normalize j = Inr k \<Longrightarrow> json_ok k"
proof (induction j arbitrary: k rule: normalize.induct)
  case (1 t)
  then show ?case by (auto split: if_splits)
next
  case (2 xs)
  then obtain ys where ys: "mapR normalize xs = Inr ys" "k = JList ys" by auto
  then have "list_all2 (\<lambda>x y. normalize x = Inr y) xs ys" by (blast dest: mapR_Inr_list_all2)
  with 2 ys show ?case by (fastforce simp: list_all2_conv_all_nth in_set_conv_nth)
next
  case (3 kvs)
  let ?f = "\<lambda>kv. bindR (normalize (snd kv)) (\<lambda>v. Inr (fst kv, v))"
  from 3 obtain ms where ms: "mapR ?f (sort_key fst kvs) = Inr ms" "k = JObj ms" by auto
  then have all: "list_all2 (\<lambda>x y. ?f x = Inr y) (sort_key fst kvs) ms"
    by (blast dest: mapR_Inr_list_all2)
  then have "map fst ms = map fst (sort_key fst kvs)"
    by (induction rule: list_all2_induct) auto
  moreover have "distinct (map fst (sort_key fst kvs))"
    using 3 by (simp add: distinct_map)
  moreover have "json_ok (snd m)" if "m \<in> set ms" for m
  proof -
    from that obtain i where i: "i < length ms" "m = ms ! i" by (auto simp: in_set_conv_nth)
    let ?x = "sort_key fst kvs ! i"
    have "?f ?x = Inr m" using list_all2_nthD2 [OF all i(1)] i(2) by simp
    then have v: "normalize (snd ?x) = Inr (snd m)" by auto
    have "length ms = length kvs" using list_all2_lengthD [OF all] by simp
    then have x: "?x \<in> set (sort_key fst kvs)" using i by (intro nth_mem) simp
    then have "distinct_keys (snd ?x)" using 3(2) by simp
    with 3(1) [OF x _ v] show ?thesis by simp
  qed
  ultimately show ?case using ms by simp
qed auto

lemma canonical_json_read:
  "distinct_keys j \<Longrightarrow> canonical_json j = Inr s \<Longrightarrow>
   \<exists>k. normalize j = Inr k \<and> json_loads s = Some k"
  by (auto simp: canonical_json_def intro!: json_loads_dumps normalize_ok)

lemma canonical_json_inj:
  "distinct_keys i \<Longrightarrow> distinct_keys j \<Longrightarrow> canonical_json i = Inr s \<Longrightarrow> canonical_json j = Inr s \<Longrightarrow>
   normalize i = normalize j"
  by (fastforce dest: canonical_json_read)

section \<open>Normal forms\<close>

text \<open>
  A normalized object is determined by what its keys map to: its members are sorted, and
  normalizing a normal form again changes nothing. So two documents with the same canonical
  text differ only in the order of their members.
\<close>

definition same_at :: "json option \<Rightarrow> json option \<Rightarrow> bool" where
  "same_at u v = (case u of None \<Rightarrow> v = None | Some x \<Rightarrow> (\<exists>y. normalize x = Inr y \<and> v = Some y))"

lemma map_of_sort_key:
  "distinct (map fst kvs) \<Longrightarrow> map_of (sort_key fst kvs) = map_of kvs" for kvs :: "(string \<times> 'v) list"
proof (rule ext)
  fix k
  assume d: "distinct (map fst kvs)"
  then have d': "distinct (map fst (sort_key fst kvs))" by (simp add: distinct_map)
  show "map_of (sort_key fst kvs) k = map_of kvs k"
  proof (cases "map_of kvs k")
    case None
    then have "k \<notin> fst ` set (sort_key fst kvs)" by (simp add: map_of_eq_None_iff)
    then have "map_of (sort_key fst kvs) k = None" by (simp add: map_of_eq_None_iff del: set_sort)
    with None show ?thesis by simp
  next
    case (Some v)
    then have "(k, v) \<in> set (sort_key fst kvs)" by (simp add: map_of_SomeD)
    with d' Some show ?thesis by (metis map_of_eq_Some_iff)
  qed
qed

lemma members_same_at:
  assumes "list_all2 (\<lambda>x y. bindR (normalize (snd x)) (\<lambda>v. Inr (fst x, v)) = Inr y) xs ms"
  shows "map fst ms = map fst xs \<and> same_at (map_of xs k) (map_of ms k)"
  using assms by (induction rule: list_all2_induct) (auto simp: same_at_def)

lemma normalize_JObj_Inr:
  assumes "distinct (map fst kvs)" and "normalize (JObj kvs) = Inr k"
  obtains ms where "k = JObj ms" "sorted (map fst ms)" "distinct (map fst ms)"
    "\<And>x. same_at (map_of kvs x) (map_of ms x)"
proof -
  let ?f = "\<lambda>x. bindR (normalize (snd x)) (\<lambda>v. Inr (fst x, v))"
  from assms(2) obtain ms where ms: "mapR ?f (sort_key fst kvs) = Inr ms" "k = JObj ms" by auto
  note all = mapR_Inr_list_all2 [OF ms(1)]
  have "map fst ms = map fst (sort_key fst kvs)" using members_same_at [OF all] by blast
  then have "sorted (map fst ms)" "distinct (map fst ms)"
    using assms(1) by (simp_all add: distinct_map)
  moreover have "same_at (map_of kvs x) (map_of ms x)" for x
    using members_same_at [OF all, of x] map_of_sort_key [OF assms(1)] by simp
  ultimately show ?thesis using ms(2) by (intro that [of ms]) auto
qed

lemma normalize_ext:
  assumes "distinct (map fst a)" "distinct (map fst b)"
    and "normalize (JObj a) = Inr k" "normalize (JObj b) = Inr l"
    and "\<And>x u v. same_at (map_of a x) u \<Longrightarrow> same_at (map_of b x) v \<Longrightarrow> u = v"
  shows "k = l"
proof -
  obtain ms where ms: "k = JObj ms" "sorted (map fst ms)" "distinct (map fst ms)" "\<And>x. same_at (map_of a x) (map_of ms x)"
    by (rule normalize_JObj_Inr [OF assms(1,3)]) blast
  obtain ns where ns: "l = JObj ns" "sorted (map fst ns)" "distinct (map fst ns)" "\<And>x. same_at (map_of b x) (map_of ns x)"
    by (rule normalize_JObj_Inr [OF assms(2,4)]) blast
  have eq: "map_of ms = map_of ns" using assms(5) ms(4) ns(4) by (intro ext) blast
  have "set ms = set ns"
    using eq ms(3) ns(3) by (metis map_of_eq_Some_iff subrelI subset_antisym)
  moreover have "inj_on fst (set ms \<union> set ns)" using ms(3) calculation by (simp add: distinct_map)
  ultimately have "ms = ns" using ms ns by (intro map_sorted_distinct_set_unique [of fst])
  then show ?thesis using ms ns by simp
qed

lemma normal_JObjI:
  assumes "sorted (map fst ms)" and "\<forall>m \<in> set ms. normalize (snd m) = Inr (snd m)"
  shows "normalize (JObj ms) = Inr (JObj ms)"
proof -
  have "mapR (\<lambda>x. bindR (normalize (snd x)) (\<lambda>v. Inr (fst x, v))) ms = Inr (map (\<lambda>m. m) ms)"
    by (rule mapR_all_ok) (simp add: assms(2))
  moreover have "sort_key fst ms = ms" using assms(1) by (intro sort_key_id_if_sorted) simp
  ultimately show ?thesis by simp
qed

lemma normal_JListI:
  "\<forall>x \<in> set xs. normalize x = Inr x \<Longrightarrow> normalize (JList xs) = Inr (JList xs)"
  using mapR_all_ok [of xs normalize "\<lambda>x. x"] by simp

lemma normal_JObjD:
  assumes "distinct (map fst ms)" and "normalize (JObj ms) = Inr (JObj ms)"
  shows "sorted (map fst ms)" and "map_of ms k = Some v \<Longrightarrow> normalize v = Inr v"
proof -
  obtain ns where ns: "JObj ms = JObj ns" "sorted (map fst ns)" "\<And>x. same_at (map_of ms x) (map_of ns x)"
    by (rule normalize_JObj_Inr [OF assms]) blast
  then show "sorted (map fst ms)" by simp
  show "map_of ms k = Some v \<Longrightarrow> normalize v = Inr v"
    using ns(3) [of k] ns(1) by (simp add: same_at_def)
qed

lemma normalize_idem: "distinct_keys j \<Longrightarrow> normalize j = Inr k \<Longrightarrow> normalize k = Inr k"
proof (induction j arbitrary: k rule: normalize.induct)
  case (2 xs)
  then obtain ys where ys: "mapR normalize xs = Inr ys" "k = JList ys" by auto
  note all = mapR_Inr_list_all2 [OF ys(1)]
  have "normalize y = Inr y" if "y \<in> set ys" for y
  proof -
    from that obtain i where i: "i < length ys" "y = ys ! i" by (auto simp: in_set_conv_nth)
    then have "xs ! i \<in> set xs" using list_all2_lengthD [OF all] by (auto simp: in_set_conv_nth)
    with 2 i list_all2_nthD2 [OF all i(1)] show ?thesis by auto
  qed
  with ys show ?case using normal_JListI [of ys] by blast
next
  case (3 kvs)
  let ?f = "\<lambda>x. bindR (normalize (snd x)) (\<lambda>v. Inr (fst x, v))"
  from 3 obtain ms where ms: "mapR ?f (sort_key fst kvs) = Inr ms" "k = JObj ms" by auto
  note all = mapR_Inr_list_all2 [OF ms(1)]
  have keys: "map fst ms = map fst (sort_key fst kvs)" using members_same_at [OF all] by blast
  have "normalize (snd m) = Inr (snd m)" if "m \<in> set ms" for m
  proof -
    from that obtain i where i: "i < length ms" "m = ms ! i" by (auto simp: in_set_conv_nth)
    let ?x = "sort_key fst kvs ! i"
    have "?f ?x = Inr m" using list_all2_nthD2 [OF all i(1)] i(2) by simp
    then have v: "normalize (snd ?x) = Inr (snd m)" by auto
    have x: "?x \<in> set (sort_key fst kvs)" using i list_all2_lengthD [OF all] by (intro nth_mem) simp
    show ?thesis using 3(1) [OF x _ v] 3(2) x by simp
  qed
  then show ?case unfolding ms(2) by (intro normal_JObjI) (simp_all add: keys)
qed (auto split: if_splits)

lemma canonical_json_normal:
  "distinct_keys j \<Longrightarrow> normalize j = Inr k \<Longrightarrow> canonical_json k = canonical_json j"
  by (simp add: canonical_json_def normalize_idem)

section \<open>What the reader returns\<close>

lemma distinct_dict_of: "distinct (map fst (dict_of kvs))"
proof -
  have "distinct (map fst (foldl (\<lambda>d (k, v). dict_put k v d) acc kvs))"
    if "distinct (map fst acc)" for acc :: "('a \<times> 'b) list"
    using that by (induction kvs arbitrary: acc) (auto simp: distinct_dict_put simp del: set_map)
  from this [of "[]"] show ?thesis by (simp add: dict_of_def)
qed

lemma set_dict_put: "set (dict_put k v kvs) \<subseteq> insert (k, v) (set kvs)"
  by (induction k v kvs rule: dict_put.induct) auto

lemma set_dict_of: "set (dict_of kvs) \<subseteq> set kvs"
proof -
  have "set (foldl (\<lambda>d (k, v). dict_put k v d) acc kvs) \<subseteq> set acc \<union> set kvs"
    for acc :: "('a \<times> 'b) list"
  proof (induction kvs arbitrary: acc)
    case (Cons kv kvs)
    obtain k v where [simp]: "kv = (k, v)" by (cases kv)
    from Cons [of "dict_put k v acc"] set_dict_put [of k v acc] show ?case by auto
  qed simp
  from this [of "[]"] show ?thesis by (simp add: dict_of_def)
qed

lemma lex_word_scalar: "lex_word s = Some (j, r) \<Longrightarrow> distinct_keys j"
  by (auto simp: lex_word_def lex_number_def Let_def split: if_splits option.splits prod.splits)

lemma push_Some: "push x z = Some (ys, r) \<longleftrightarrow> (\<exists>zs. z = Some (zs, r) \<and> ys = x # zs)"
  by (auto simp: push_def split: option.splits)

lemma read_distinct_keys:
  "pval n s = Some (j, r) \<Longrightarrow> distinct_keys j"
  "pelems n s = Some (js, r) \<Longrightarrow> \<forall>x \<in> set js. distinct_keys x"
  "pmembers n s = Some (kvs, r) \<Longrightarrow> \<forall>kv \<in> set kvs. distinct_keys (snd kv)"
proof (induction n s and n s and n s arbitrary: j r and js r and kvs r rule: pval_pelems_pmembers.induct)
  case (2 n s)
  then show ?case
    by (auto simp: distinct_dict_of lex_word_scalar split: list.splits if_splits
        dest!: subsetD [OF set_dict_of]) fastforce
next
  case (4 n s)
  then show ?case by (auto simp: push_Some split: option.splits prod.splits list.splits if_splits)
next
  case (6 n s)
  then show ?case by (auto simp: push_Some split: option.splits prod.splits list.splits if_splits) fastforce
qed auto

lemma json_loads_distinct_keys: "json_loads s = Some j \<Longrightarrow> distinct_keys j"
  by (auto simp: json_loads_def read_distinct_keys(1) simp del: pval.simps split: option.splits prod.splits if_splits)

end
