(* ===== verification/Store_Model.thy ===== *)
theory Store_Model
  imports Py_Json
begin

text \<open>
  The data model of the experiment database: the enumerations and frozen records of
  \<open>persistence/models.py\<close>, the run life cycle, and the database itself as one record of
  tables (\<open>persistence/database.py\<close>, migrations 1 to 7). Rows hold decoded values: a column
  the repositories read back through an enumeration is stored as that enumeration. The one
  exception is \<open>artifact_references\<close>, whose \<open>artifact_type\<close> column two writers fill
  differently and which therefore stays text.
\<close>

section \<open>Enumerations\<close>

datatype strategy_lifecycle =
    SL_INFRASTRUCTURE_FIXTURE
  | SL_CANDIDATE
  | SL_REJECTED
  | SL_WATCHLIST
  | SL_PAPER_CANDIDATE
  | SL_LIVE_TEST_CANDIDATE
  | SL_PAUSED
  | SL_RETIRED

fun strategy_lifecycle_value :: "strategy_lifecycle \<Rightarrow> string" where
  "strategy_lifecycle_value SL_INFRASTRUCTURE_FIXTURE = ''infrastructure_fixture''"
| "strategy_lifecycle_value SL_CANDIDATE = ''candidate''"
| "strategy_lifecycle_value SL_REJECTED = ''rejected''"
| "strategy_lifecycle_value SL_WATCHLIST = ''watchlist''"
| "strategy_lifecycle_value SL_PAPER_CANDIDATE = ''paper_candidate''"
| "strategy_lifecycle_value SL_LIVE_TEST_CANDIDATE = ''live_test_candidate''"
| "strategy_lifecycle_value SL_PAUSED = ''paused''"
| "strategy_lifecycle_value SL_RETIRED = ''retired''"

lemma strategy_lifecycle_value_inj [simp]: "strategy_lifecycle_value x = strategy_lifecycle_value y \<longleftrightarrow> x = y"
  by (cases x; cases y; simp)

datatype run_stage =
    STAGE_FIXTURE
  | STAGE_SCREENING
  | STAGE_OOS
  | STAGE_WALK_FORWARD
  | STAGE_ROBUSTNESS
  | STAGE_MONTE_CARLO

fun run_stage_value :: "run_stage \<Rightarrow> string" where
  "run_stage_value STAGE_FIXTURE = ''fixture''"
| "run_stage_value STAGE_SCREENING = ''screening''"
| "run_stage_value STAGE_OOS = ''oos''"
| "run_stage_value STAGE_WALK_FORWARD = ''walk_forward''"
| "run_stage_value STAGE_ROBUSTNESS = ''robustness''"
| "run_stage_value STAGE_MONTE_CARLO = ''monte_carlo''"

lemma run_stage_value_inj [simp]: "run_stage_value x = run_stage_value y \<longleftrightarrow> x = y"
  by (cases x; cases y; simp)

datatype run_status =
    CREATED
  | RUNNING
  | SUCCEEDED
  | FAILED
  | CANCELLED

fun run_status_value :: "run_status \<Rightarrow> string" where
  "run_status_value CREATED = ''created''"
| "run_status_value RUNNING = ''running''"
| "run_status_value SUCCEEDED = ''succeeded''"
| "run_status_value FAILED = ''failed''"
| "run_status_value CANCELLED = ''cancelled''"

lemma run_status_value_inj [simp]: "run_status_value x = run_status_value y \<longleftrightarrow> x = y"
  by (cases x; cases y; simp)

datatype launch_operation =
    OP_RUN_TEST
  | OP_HISTORICAL_RELAUNCH
  | OP_REPRODUCTION

fun launch_operation_value :: "launch_operation \<Rightarrow> string" where
  "launch_operation_value OP_RUN_TEST = ''run_test''"
| "launch_operation_value OP_HISTORICAL_RELAUNCH = ''historical_relaunch''"
| "launch_operation_value OP_REPRODUCTION = ''reproduction''"

lemma launch_operation_value_inj [simp]: "launch_operation_value x = launch_operation_value y \<longleftrightarrow> x = y"
  by (cases x; cases y; simp)

datatype submission_state =
    SUB_CLAIMED
  | SUB_INVOKING
  | SUB_ACKNOWLEDGED
  | SUB_SUBMISSION_UNKNOWN
  | SUB_FAILED_BEFORE_SUBMISSION
  | SUB_ABANDONED

fun submission_state_value :: "submission_state \<Rightarrow> string" where
  "submission_state_value SUB_CLAIMED = ''claimed''"
| "submission_state_value SUB_INVOKING = ''invoking''"
| "submission_state_value SUB_ACKNOWLEDGED = ''acknowledged''"
| "submission_state_value SUB_SUBMISSION_UNKNOWN = ''submission_unknown''"
| "submission_state_value SUB_FAILED_BEFORE_SUBMISSION = ''failed_before_submission''"
| "submission_state_value SUB_ABANDONED = ''abandoned''"

lemma submission_state_value_inj [simp]: "submission_state_value x = submission_state_value y \<longleftrightarrow> x = y"
  by (cases x; cases y; simp)

datatype run_event_type =
    EV_RUN_CREATED
  | EV_RUN_STARTED
  | EV_RUN_SUCCEEDED
  | EV_RUN_FAILED
  | EV_RUN_CANCELLED
  | EV_RUN_CANCELLATION_REQUESTED
  | EV_RUN_RETRY_SCHEDULED
  | EV_RUN_TIMED_OUT
  | EV_RUN_STALE_RECOVERED
  | EV_SERVICE_INTEGRITY_ERROR

fun run_event_type_value :: "run_event_type \<Rightarrow> string" where
  "run_event_type_value EV_RUN_CREATED = ''run_created''"
| "run_event_type_value EV_RUN_STARTED = ''run_started''"
| "run_event_type_value EV_RUN_SUCCEEDED = ''run_succeeded''"
| "run_event_type_value EV_RUN_FAILED = ''run_failed''"
| "run_event_type_value EV_RUN_CANCELLED = ''run_cancelled''"
| "run_event_type_value EV_RUN_CANCELLATION_REQUESTED = ''run_cancellation_requested''"
| "run_event_type_value EV_RUN_RETRY_SCHEDULED = ''run_retry_scheduled''"
| "run_event_type_value EV_RUN_TIMED_OUT = ''run_timed_out''"
| "run_event_type_value EV_RUN_STALE_RECOVERED = ''run_stale_recovered''"
| "run_event_type_value EV_SERVICE_INTEGRITY_ERROR = ''service_integrity_error''"

lemma run_event_type_value_inj [simp]: "run_event_type_value x = run_event_type_value y \<longleftrightarrow> x = y"
  by (cases x; cases y; simp)

datatype event_severity =
    SEV_INFO
  | SEV_ERROR

fun event_severity_value :: "event_severity \<Rightarrow> string" where
  "event_severity_value SEV_INFO = ''info''"
| "event_severity_value SEV_ERROR = ''error''"

lemma event_severity_value_inj [simp]: "event_severity_value x = event_severity_value y \<longleftrightarrow> x = y"
  by (cases x; cases y; simp)

datatype artifact_availability =
    AV_AVAILABLE
  | AV_MISSING
  | AV_CORRUPT
  | AV_UNAVAILABLE

fun artifact_availability_value :: "artifact_availability \<Rightarrow> string" where
  "artifact_availability_value AV_AVAILABLE = ''available''"
| "artifact_availability_value AV_MISSING = ''missing''"
| "artifact_availability_value AV_CORRUPT = ''corrupt''"
| "artifact_availability_value AV_UNAVAILABLE = ''unavailable''"

lemma artifact_availability_value_inj [simp]: "artifact_availability_value x = artifact_availability_value y \<longleftrightarrow> x = y"
  by (cases x; cases y; simp)

datatype artifact_kind =
    AT_RUN_SUMMARY
  | AT_PARAMETER_RESULTS
  | AT_TRADES_OR_ORDERS
  | AT_METRICS
  | AT_EQUITY_CURVE
  | AT_VALIDATION_EVIDENCE
  | AT_DATASET_MANIFEST
  | AT_GENERIC_FIXTURE_EVIDENCE

fun artifact_kind_value :: "artifact_kind \<Rightarrow> string" where
  "artifact_kind_value AT_RUN_SUMMARY = ''run_summary''"
| "artifact_kind_value AT_PARAMETER_RESULTS = ''parameter_results''"
| "artifact_kind_value AT_TRADES_OR_ORDERS = ''trades_or_orders''"
| "artifact_kind_value AT_METRICS = ''metrics''"
| "artifact_kind_value AT_EQUITY_CURVE = ''equity_curve''"
| "artifact_kind_value AT_VALIDATION_EVIDENCE = ''validation_evidence''"
| "artifact_kind_value AT_DATASET_MANIFEST = ''dataset_manifest''"
| "artifact_kind_value AT_GENERIC_FIXTURE_EVIDENCE = ''generic_fixture_evidence''"

lemma artifact_kind_value_inj [simp]: "artifact_kind_value x = artifact_kind_value y \<longleftrightarrow> x = y"
  by (cases x; cases y; simp)

datatype review_state =
    RV_UNREVIEWED
  | RV_REJECT
  | RV_REVISE
  | RV_INFRASTRUCTURE_FIXTURE
  | RV_WATCHLIST
  | RV_APPROVED_FOR_NEXT_EVIDENCE_STAGE
  | RV_PAPER_CANDIDATE
  | RV_LIVE_TEST_CANDIDATE
  | RV_PAUSED
  | RV_RETIRED

fun review_state_value :: "review_state \<Rightarrow> string" where
  "review_state_value RV_UNREVIEWED = ''unreviewed''"
| "review_state_value RV_REJECT = ''reject''"
| "review_state_value RV_REVISE = ''revise''"
| "review_state_value RV_INFRASTRUCTURE_FIXTURE = ''infrastructure_fixture''"
| "review_state_value RV_WATCHLIST = ''watchlist''"
| "review_state_value RV_APPROVED_FOR_NEXT_EVIDENCE_STAGE = ''approved_for_next_evidence_stage''"
| "review_state_value RV_PAPER_CANDIDATE = ''paper_candidate''"
| "review_state_value RV_LIVE_TEST_CANDIDATE = ''live_test_candidate''"
| "review_state_value RV_PAUSED = ''paused''"
| "review_state_value RV_RETIRED = ''retired''"

lemma review_state_value_inj [simp]: "review_state_value x = review_state_value y \<longleftrightarrow> x = y"
  by (cases x; cases y; simp)


section \<open>Reading an enumeration back\<close>

text \<open>\<open>coerce_enum\<close> on a stored value: the member with that value, or \<open>ValueError\<close>.\<close>

definition coerce_enum :: "('e \<Rightarrow> string) \<Rightarrow> 'e list \<Rightarrow> string \<Rightarrow> exn + 'e" where
  "coerce_enum value members s =
     (case find (\<lambda>m. value m = s) members of
        Some m \<Rightarrow> Inr m
      | None \<Rightarrow> Inl (ValueError ''not a valid member''))"

lemma coerce_enum_value:
  assumes "inj value" and "m \<in> set members"
  shows "coerce_enum value members (value m) = Inr m"
proof -
  have "find (\<lambda>x. value x = value m) members = Some m"
    using assms(2) by (induction members) (auto dest: injD [OF assms(1)])
  then show ?thesis by (simp add: coerce_enum_def)
qed

definition artifact_kinds :: "artifact_kind list" where
  "artifact_kinds =
     [AT_RUN_SUMMARY, AT_PARAMETER_RESULTS, AT_TRADES_OR_ORDERS, AT_METRICS, AT_EQUITY_CURVE,
      AT_VALIDATION_EVIDENCE, AT_DATASET_MANIFEST, AT_GENERIC_FIXTURE_EVIDENCE]"

definition launch_operations :: "launch_operation list" where
  "launch_operations = [OP_RUN_TEST, OP_HISTORICAL_RELAUNCH, OP_REPRODUCTION]"

lemma artifact_kinds_UNIV: "m \<in> set artifact_kinds"
  by (cases m) (simp_all add: artifact_kinds_def)

lemma launch_operations_UNIV: "m \<in> set launch_operations"
  by (cases m) (simp_all add: launch_operations_def)

lemma coerce_artifact_kind [simp]:
  "coerce_enum artifact_kind_value artifact_kinds (artifact_kind_value m) = Inr m"
  by (rule coerce_enum_value) (simp_all add: artifact_kinds_UNIV inj_def)

lemma coerce_launch_operation [simp]:
  "coerce_enum launch_operation_value launch_operations (launch_operation_value m) = Inr m"
  by (rule coerce_enum_value) (simp_all add: launch_operations_UNIV inj_def)

section \<open>The run life cycle\<close>

definition TERMINAL_RUN_STATUSES :: "run_status list" where
  "TERMINAL_RUN_STATUSES = [SUCCEEDED, FAILED, CANCELLED]"

fun RUN_STATUS_TRANSITIONS :: "run_status \<Rightarrow> run_status list" where
  "RUN_STATUS_TRANSITIONS CREATED = [RUNNING, FAILED, CANCELLED]"
| "RUN_STATUS_TRANSITIONS RUNNING = [SUCCEEDED, FAILED, CANCELLED]"
| "RUN_STATUS_TRANSITIONS SUCCEEDED = []"
| "RUN_STATUS_TRANSITIONS FAILED = []"
| "RUN_STATUS_TRANSITIONS CANCELLED = []"

definition validate_run_transition :: "run_status \<Rightarrow> run_status \<Rightarrow> exn + unit" where
  "validate_run_transition current new =
     guardR (new \<in> set (RUN_STATUS_TRANSITIONS current))
       (ValueError (''invalid run-status transition: '' @ run_status_value current @ '' -> ''
          @ run_status_value new))"

definition terminal :: "run_status \<Rightarrow> bool" where
  "terminal s \<longleftrightarrow> s \<in> set TERMINAL_RUN_STATUSES"

lemma terminal_simps [simp]:
  "\<not> terminal CREATED" "\<not> terminal RUNNING" "terminal SUCCEEDED" "terminal FAILED" "terminal CANCELLED"
  by (simp_all add: terminal_def TERMINAL_RUN_STATUSES_def)

lemma terminal_no_transitions: "terminal s \<longleftrightarrow> RUN_STATUS_TRANSITIONS s = []"
  by (cases s) simp_all

text \<open>
  The order the life cycle moves in: created, then running, then the three terminal states.
\<close>

instantiation run_status :: linorder
begin

fun status_rank :: "run_status \<Rightarrow> nat" where
  "status_rank CREATED = 0"
| "status_rank RUNNING = 1"
| "status_rank SUCCEEDED = 2"
| "status_rank FAILED = 3"
| "status_rank CANCELLED = 4"

definition less_eq_run_status :: "run_status \<Rightarrow> run_status \<Rightarrow> bool" where
  "less_eq_run_status a b \<longleftrightarrow> status_rank a \<le> status_rank b"

definition less_run_status :: "run_status \<Rightarrow> run_status \<Rightarrow> bool" where
  "less_run_status a b \<longleftrightarrow> status_rank a < status_rank b"

instance
proof
  fix a b :: run_status
  show "a \<le> b \<Longrightarrow> b \<le> a \<Longrightarrow> a = b"
    by (cases a; cases b) (simp_all add: less_eq_run_status_def)
qed (auto simp: less_eq_run_status_def less_run_status_def)

end

lemma transition_increases: "new \<in> set (RUN_STATUS_TRANSITIONS s) \<Longrightarrow> s < new"
  by (cases s) (auto simp: less_run_status_def)

lemma CREATED_not_target: "CREATED \<notin> set (RUN_STATUS_TRANSITIONS s)"
  by (cases s) simp_all

section \<open>Records\<close>

record strategy =
  st_id :: string
  st_version :: string
  st_display_name :: string
  st_description :: string
  st_lifecycle :: strategy_lifecycle
  st_active :: bool
  st_created_at :: string
  st_updated_at :: string

record configuration =
  cf_id :: string
  cf_experiment_id :: string
  cf_strategy_id :: string
  cf_strategy_version :: string
  cf_canonical_json :: string
  cf_hash :: string
  cf_created_at :: string

record idea_draft =
  dr_id :: string
  dr_title :: string
  dr_description :: string
  dr_source_url :: string
  dr_attribution :: string
  dr_notes :: string
  dr_configuration_id :: "string option"
  dr_created_at :: string
  dr_updated_at :: string
  dr_candidate_json :: string

record run =
  rn_id :: string
  rn_configuration_id :: string
  rn_strategy_id :: string
  rn_strategy_version :: string
  rn_stage :: run_stage
  rn_status :: run_status
  rn_started_at :: "string option"
  rn_completed_at :: "string option"
  rn_error_summary :: "string option"
  rn_environment_json :: string
  rn_created_at :: string
  rn_attempt_count :: int

record run_event =
  ev_id :: nat
  ev_run_id :: string
  ev_type :: run_event_type
  ev_occurred_at :: string
  ev_severity :: event_severity
  ev_source :: string
  ev_message :: string

record submission =
  sb_key :: string
  sb_run_id :: string
  sb_configuration_id :: string
  sb_canonical_request_json :: string
  sb_request_fingerprint :: string
  sb_state :: submission_state
  sb_dispatcher :: "string option"
  sb_prefect_flow_run_id :: "string option"
  sb_prefect_api_url :: "string option"
  sb_claimed_at :: string
  sb_invocation_started_at :: "string option"
  sb_acknowledged_at :: "string option"
  sb_unknown_at :: "string option"
  sb_unknown_evidence :: "string option"
  sb_resolved_at :: "string option"
  sb_resolution_evidence :: "string option"
  sb_updated_at :: string
  sb_error_summary :: "string option"

record parameter_result =
  pr_run_id :: string
  pr_row_id :: string
  pr_parameters_json :: string
  pr_metrics_json :: string
  pr_ranking_position :: int
  pr_screening_status :: string
  pr_rejection_reasons :: string

record data_provenance =
  dp_run_id :: string
  dp_provider :: string
  dp_provider_implementation :: string
  dp_symbol :: string
  dp_interval :: string
  dp_timezone :: string
  dp_requested_coverage :: string
  dp_actual_coverage :: string
  dp_adjusted :: bool
  dp_row_count :: int
  dp_cache_action :: string
  dp_validation_summary_json :: string
  dp_manifest_reference :: "string option"
  dp_checksum :: "string option"

record execution_assumptions =
  ex_run_id :: string
  ex_assumptions_json :: string

text \<open>One row of \<open>artifact_references\<close>, with the columns migration 4 adds.\<close>

record artifact_row =
  ar_id :: nat
  ar_run_id :: string
  ar_type :: string
  ar_schema_version :: int
  ar_path :: string
  ar_validation_status :: string
  ar_checksum :: "string option"
  ar_availability :: artifact_availability
  ar_created_at :: string
  ar_logical_name :: "string option"
  ar_media_type :: "string option"
  ar_format :: "string option"
  ar_checksum_algorithm :: "string option"
  ar_size_bytes :: "int option"
  ar_location :: "string option"
  ar_identity_key :: "string option"

record artifact =
  af_id :: nat
  af_run_id :: string
  af_type :: string
  af_schema_version :: int
  af_path :: string
  af_validation_status :: string
  af_checksum :: "string option"
  af_availability :: artifact_availability
  af_created_at :: string

record artifact_contract =
  ac_id :: nat
  ac_run_id :: string
  ac_type :: artifact_kind
  ac_logical_name :: "string option"
  ac_schema_version :: int
  ac_media_type :: "string option"
  ac_format :: "string option"
  ac_checksum_algorithm :: "string option"
  ac_checksum :: "string option"
  ac_size_bytes :: "int option"
  ac_location :: "string option"
  ac_availability :: artifact_availability
  ac_created_at :: string

record artifact_validation =
  av_artifact_id :: nat
  av_availability :: artifact_availability
  av_valid :: bool
  av_reason :: string
  av_expected_checksum :: "string option"
  av_actual_checksum :: "string option"
  av_expected_size :: "int option"
  av_actual_size :: "int option"
  av_resolved_path :: "string option"

record run_artifact_retrieval =
  ra_run_id :: string
  ra_manifest_json :: string
  ra_manifest_checksum :: string
  ra_artifacts :: "artifact_contract list"
  ra_validations :: "artifact_validation list"

record manifest_row =
  mf_run_id :: string
  mf_schema_version :: int
  mf_json :: string
  mf_checksum :: string
  mf_created_at :: string

record review =
  rv_target_type :: string
  rv_target_id :: string
  rv_state :: review_state
  rv_note :: string
  rv_operator :: string
  rv_updated_at :: string

record review_audit =
  ra_id :: nat
  ra_target_type :: string
  ra_target_id :: string
  ra_prior_state :: "review_state option"
  ra_new_state :: review_state
  ra_note :: string
  ra_operator :: string
  ra_created_at :: string

section \<open>The database\<close>

text \<open>
  The tables in insertion order. The three counters are the next values of SQLite's
  \<open>AUTOINCREMENT\<close>, which a rolled-back transaction restores with the rest.
\<close>

record db =
  strategies :: "strategy list"
  configurations :: "configuration list"
  idea_drafts :: "idea_draft list"
  runs :: "run list"
  events :: "run_event list"
  submissions :: "submission list"
  parameter_results :: "parameter_result list"
  provenances :: "data_provenance list"
  assumptions :: "execution_assumptions list"
  artifacts :: "artifact_row list"
  manifests :: "manifest_row list"
  reviews :: "review list"
  audits :: "review_audit list"
  next_event :: nat
  next_artifact :: nat
  next_audit :: nat

definition empty_db :: db where
  "empty_db =
     \<lparr>strategies = [], configurations = [], idea_drafts = [], runs = [], events = [],
      submissions = [], parameter_results = [], provenances = [], assumptions = [],
      artifacts = [], manifests = [], reviews = [], audits = [],
      next_event = 1, next_artifact = 1, next_audit = 1\<rparr>"

definition normalized_configuration_document ::
  "string \<Rightarrow> string \<Rightarrow> string \<Rightarrow> json \<Rightarrow> json \<Rightarrow> json \<Rightarrow> json \<Rightarrow> json \<Rightarrow> json" where
  "normalized_configuration_document experiment_id strategy_id strategy_version market_data
     parameters execution ranking screening =
     JObj
       [(''experiment_id'', JStr experiment_id), (''strategy_id'', JStr strategy_id),
        (''strategy_version'', JStr strategy_version), (''market_data'', market_data),
        (''parameters'', parameters), (''execution'', execution), (''ranking'', ranking),
        (''screening'', screening)]"

end
