(* ===== verification/Repo_Core.thy ===== *)
theory Repo_Core
  imports Store_Model
begin

text \<open>
  The repositories of \<open>persistence/repositories.py\<close> for strategies, configurations, idea
  drafts, runs and run events. Each SQL statement is a definition of its own (\<open>ins_\<close>,
  \<open>upd_\<close>, \<open>del_\<close>) that carries the schema's keys, foreign keys and checks; each repository
  method is a transaction body over them. Every reading of the clock is an argument.
\<close>

section \<open>Constraint failures and small helpers\<close>

definition fk_error :: exn where
  "fk_error = IntegrityError ''FOREIGN KEY constraint failed''"

definition check_error :: exn where
  "check_error = IntegrityError ''CHECK constraint failed''"

definition unique_error :: exn where
  "unique_error = IntegrityError ''UNIQUE constraint failed''"

text \<open>The read-back and its \<open>assert record is not None\<close> that end most repository methods.\<close>

definition assert_row :: "(db \<Rightarrow> 'a option) \<Rightarrow> (db, 'a) body" where
  "assert_row f =
     bindB (readB f) (\<lambda>r. case r of None \<Rightarrow> raiseB AssertionError | Some x \<Rightarrow> retB x)"

text \<open>\<open>a or b\<close> on optional text.\<close>

definition opt_or :: "string option \<Rightarrow> string option \<Rightarrow> string option" where
  "opt_or a b = (case a of Some (c # cs) \<Rightarrow> a | _ \<Rightarrow> b)"

lemma assert_row_Inr [simp]: "assert_row f d = Inr (x, d') \<longleftrightarrow> f d = Some x \<and> d' = d"
  by (auto simp: assert_row_def split: option.splits)

lemma assert_row_step:
  "assert_row f d = (case f d of None \<Rightarrow> Inl AssertionError | Some x \<Rightarrow> Inr (x, d))"
  by (simp add: assert_row_def body_step split: option.splits)

lemma opt_or_None: "opt_or a b = None \<longleftrightarrow> (a = None \<or> a = Some []) \<and> b = None"
  by (auto simp: opt_or_def split: option.splits list.splits)

lemma opt_or_simps [simp]: "opt_or None b = b" "opt_or (Some (c # cs)) b = Some (c # cs)"
  by (simp_all add: opt_or_def)

lemma opt_or_kept: "a \<notin> {None, Some []} \<Longrightarrow> opt_or a b = a"
  by (auto simp: opt_or_def split: option.splits list.splits)

section \<open>Strategies\<close>

definition st_key :: "strategy \<Rightarrow> string \<times> string" where
  "st_key r = (st_id r, st_version r)"

definition strategy_get :: "string \<Rightarrow> string \<Rightarrow> db \<Rightarrow> strategy option" where
  "strategy_get sid ver d = tget st_key (sid, ver) (strategies d)"

definition ins_strategy :: "strategy \<Rightarrow> db \<Rightarrow> exn + db" where
  "ins_strategy r d =
     bindR (tput st_key r (strategies d)) (\<lambda>t. Inr (d\<lparr>strategies := t\<rparr>))"

definition upd_strategy :: "string \<times> string \<Rightarrow> (strategy \<Rightarrow> strategy) \<Rightarrow> db \<Rightarrow> db" where
  "upd_strategy k f d = d\<lparr>strategies := tupd st_key k f (strategies d)\<rparr>"

definition strategy_upsert ::
  "string \<Rightarrow> string \<Rightarrow> string \<Rightarrow> string \<Rightarrow> string \<Rightarrow> strategy_lifecycle \<Rightarrow> bool \<Rightarrow> (db, strategy) body" where
  "strategy_upsert now sid ver name descr lifecycle active =
     bindB (readB (strategy_get sid ver)) (\<lambda>existing.
     bindB
       (case existing of
          None \<Rightarrow>
            updB (ins_strategy
              \<lparr>st_id = sid, st_version = ver, st_display_name = name, st_description = descr,
               st_lifecycle = lifecycle, st_active = active, st_created_at = now,
               st_updated_at = now\<rparr>)
        | Some _ \<Rightarrow>
            modB (upd_strategy (sid, ver) (\<lambda>r. r\<lparr>st_display_name := name, st_description := descr,
              st_lifecycle := lifecycle, st_active := active, st_updated_at := now\<rparr>))) (\<lambda>_.
     assert_row (strategy_get sid ver)))"

definition strategy_update_lifecycle ::
  "string \<Rightarrow> string \<Rightarrow> string \<Rightarrow> strategy_lifecycle \<Rightarrow> bool \<Rightarrow> (db, strategy) body" where
  "strategy_update_lifecycle now sid ver lifecycle active =
     bindB (readB (strategy_get sid ver)) (\<lambda>existing.
     bindB
       (modB (upd_strategy (sid, ver)
          (\<lambda>r. r\<lparr>st_lifecycle := lifecycle, st_active := active, st_updated_at := now\<rparr>))) (\<lambda>_.
     case existing of
       None \<Rightarrow> raiseB (KeyError (''unknown strategy '' @ sid @ ''@'' @ ver))
     | Some _ \<Rightarrow> assert_row (strategy_get sid ver)))"

definition strategy_list :: "bool option \<Rightarrow> db \<Rightarrow> strategy list" where
  "strategy_list active d =
     sort_key st_id (sort_key st_version
       (case active of None \<Rightarrow> strategies d | Some a \<Rightarrow> filter (\<lambda>r. st_active r = a) (strategies d)))"

lemma strategy_get_upd:
  assumes "\<And>r. st_key (f r) = st_key r"
  shows "strategy_get sid ver (upd_strategy k f d) =
    (if (sid, ver) = k then map_option f (strategy_get sid ver d) else strategy_get sid ver d)"
  using assms by (simp add: strategy_get_def upd_strategy_def tget_tupd)

lemma strategy_get_ins:
  "ins_strategy r d = Inr d' \<Longrightarrow>
   strategy_get sid ver d' = (if (sid, ver) = st_key r then Some r else strategy_get sid ver d)"
  by (auto simp: ins_strategy_def strategy_get_def tput_Inr_iff tget_append split: option.splits)

section \<open>Configurations\<close>

definition configuration_get :: "string \<Rightarrow> db \<Rightarrow> configuration option" where
  "configuration_get cid d = tget cf_id cid (configurations d)"

definition ins_configuration :: "configuration \<Rightarrow> db \<Rightarrow> exn + db" where
  "ins_configuration r d =
     bindR (tput cf_id r (configurations d)) (\<lambda>t.
     bindR (guardR (tget cf_hash (cf_hash r) (configurations d) = None) unique_error) (\<lambda>_.
     bindR (guardR (strategy_get (cf_strategy_id r) (cf_strategy_version r) d \<noteq> None) fk_error) (\<lambda>_.
     Inr (d\<lparr>configurations := t\<rparr>))))"

text \<open>
  What \<open>sqlite3\<close> makes of a value bound to a column declared \<open>TEXT NOT NULL\<close>: a string is stored
  as it is, a truth value as 0 or 1, and the column's affinity turns every number into its text
  (a float keeps the literal it was read from). A list or a dictionary cannot be bound, nor an
  integer of more than 64 bits; \<open>None\<close> is bound and refused by the column when the row is written.
\<close>

definition bind_text :: "json \<Rightarrow> exn + string option" where
  "bind_text v =
     (case v of
        JStr s \<Rightarrow> Inr (Some s)
      | JInt i \<Rightarrow>
          if - (2 ^ 63) \<le> i \<and> i < 2 ^ 63 then Inr (Some (int_str i))
          else Inl (OtherException ''OverflowError'')
      | JBool b \<Rightarrow> Inr (Some (if b then ''1'' else ''0''))
      | JFloat f \<Rightarrow> Inr (Some f)
      | JNull \<Rightarrow> Inr None
      | _ \<Rightarrow> Inl (OtherException ''sqlite3.ProgrammingError''))"

definition not_null :: "string \<Rightarrow> string option \<Rightarrow> exn + string" where
  "not_null column v =
     (case v of
        None \<Rightarrow> Inl (IntegrityError (''NOT NULL constraint failed: experiment_configurations.'' @ column))
      | Some s \<Rightarrow> Inr s)"

text \<open>\<open>document[key]\<close> on a value that JSON can hold.\<close>

definition index :: "string \<Rightarrow> json \<Rightarrow> exn + json" where
  "index key j =
     (case j of
        JObj kvs \<Rightarrow> (case map_of kvs key of None \<Rightarrow> Inl (KeyError key) | Some v \<Rightarrow> Inr v)
      | _ \<Rightarrow> Inl (TypeError ''not subscriptable by a string''))"

text \<open>The identity columns of a document: indexed first, then bound, then checked by the table.\<close>

definition identity_columns :: "json \<Rightarrow> exn + string \<times> string \<times> string" where
  "identity_columns doc =
     bindR (index ''experiment_id'' doc) (\<lambda>e.
     bindR (index ''strategy_id'' doc) (\<lambda>s.
     bindR (index ''strategy_version'' doc) (\<lambda>v.
     bindR (bind_text e) (\<lambda>e. bindR (bind_text s) (\<lambda>s. bindR (bind_text v) (\<lambda>v.
     bindR (not_null ''experiment_id'' e) (\<lambda>e.
     bindR (not_null ''strategy_id'' s) (\<lambda>s.
     bindR (not_null ''strategy_version'' v) (\<lambda>v. Inr (e, s, v))))))))))"

definition configuration_hash :: "(string \<Rightarrow> string) \<Rightarrow> json \<Rightarrow> exn + string" where
  "configuration_hash sha doc = bindR (canonical_json doc) (\<lambda>t. Inr (sha t))"

definition configuration_hash_json :: "(string \<Rightarrow> string) \<Rightarrow> string \<Rightarrow> string" where
  "configuration_hash_json sha canonical = sha canonical"

definition configuration_upsert ::
  "(string \<Rightarrow> string) \<Rightarrow> string \<Rightarrow> json \<Rightarrow> (db, configuration) body" where
  "configuration_upsert sha now document =
     bindB (liftB (canonical_json document)) (\<lambda>canonical.
     bindB (liftB (configuration_hash sha document)) (\<lambda>digest.
     bindB (readB (configuration_get digest)) (\<lambda>existing.
     case existing of
       Some e \<Rightarrow>
         if cf_hash e \<noteq> digest \<or> cf_canonical_json e \<noteq> canonical
         then raiseB (ValueError ''configuration identity collision with different content'')
         else retB e
     | None \<Rightarrow>
         bindB (readB (\<lambda>d. tget cf_hash digest (configurations d))) (\<lambda>row.
         case row of
           Some r \<Rightarrow> retB r
         | None \<Rightarrow>
             bindB (liftB (identity_columns document)) (\<lambda>(eid, sid, ver).
             bindB (updB (ins_configuration
               \<lparr>cf_id = digest, cf_experiment_id = eid, cf_strategy_id = sid,
                cf_strategy_version = ver, cf_canonical_json = canonical, cf_hash = digest,
                cf_created_at = now\<rparr>)) (\<lambda>_.
             assert_row (configuration_get digest)))))))"

definition configuration_insert_record ::
  "(string \<Rightarrow> string) \<Rightarrow> configuration \<Rightarrow> (db, configuration) body" where
  "configuration_insert_record sha record =
     bindB (readB (configuration_get (cf_id record))) (\<lambda>existing.
     case existing of
       Some e \<Rightarrow>
         if cf_canonical_json e \<noteq> cf_canonical_json record \<or> cf_hash e \<noteq> cf_hash record
         then raiseB (ValueError ''configuration identity collision with different content'')
         else retB e
     | None \<Rightarrow>
         if configuration_hash_json sha (cf_canonical_json record) \<noteq> cf_hash record
         then raiseB (ValueError ''configuration hash does not match canonical JSON'')
         else bindB (updB (ins_configuration record)) (\<lambda>_. retB record))"

definition configuration_list :: "string option \<Rightarrow> db \<Rightarrow> configuration list" where
  "configuration_list strategy_id d =
     sort_key cf_created_at (sort_key cf_id
       (case opt_or strategy_id None of
          None \<Rightarrow> configurations d
        | Some s \<Rightarrow> filter (\<lambda>r. cf_strategy_id r = s) (configurations d)))"

lemma configuration_get_ins:
  "ins_configuration r d = Inr d' \<Longrightarrow>
   configuration_get cid d' = (if cid = cf_id r then Some r else configuration_get cid d)"
  by (auto simp: ins_configuration_def configuration_get_def tput_Inr_iff tget_append
      split: option.splits)

lemma ins_configuration_Inr:
  "ins_configuration r d = Inr d' \<longleftrightarrow>
     configuration_get (cf_id r) d = None \<and> tget cf_hash (cf_hash r) (configurations d) = None \<and>
     strategy_get (cf_strategy_id r) (cf_strategy_version r) d \<noteq> None \<and>
     d' = d\<lparr>configurations := configurations d @ [r]\<rparr>"
  by (auto simp: ins_configuration_def configuration_get_def tput_Inr_iff)

section \<open>Idea drafts\<close>

definition idea_get :: "string \<Rightarrow> db \<Rightarrow> idea_draft option" where
  "idea_get k d = tget dr_id k (idea_drafts d)"

text \<open>The \<open>CHECK\<close> clauses of \<open>idea_drafts\<close> (migrations 6 and 7).\<close>

definition ident_char :: "char \<Rightarrow> bool" where
  "ident_char c \<longleftrightarrow> is_ascii_alnum c \<or> c = CHR ''_'' \<or> c = CHR ''-''"

definition draft_check :: "idea_draft \<Rightarrow> bool" where
  "draft_check r \<longleftrightarrow>
     8 \<le> length (dr_id r) \<and> length (dr_id r) \<le> 80 \<and> (\<forall>c \<in> set (dr_id r). ident_char c) \<and>
     1 \<le> length (dr_title r) \<and> length (dr_title r) \<le> 120 \<and>
     length (dr_description r) \<le> 2000 \<and> length (dr_source_url r) \<le> 2048 \<and>
     length (dr_attribution r) \<le> 240 \<and> length (dr_notes r) \<le> 2000 \<and>
     length (dr_candidate_json r) \<le> 100000"

definition draft_fk :: "idea_draft \<Rightarrow> db \<Rightarrow> bool" where
  "draft_fk r d \<longleftrightarrow>
     (case dr_configuration_id r of None \<Rightarrow> True | Some c \<Rightarrow> configuration_get c d \<noteq> None)"

definition ins_draft :: "idea_draft \<Rightarrow> db \<Rightarrow> exn + db" where
  "ins_draft r d =
     bindR (guardR (draft_check r) check_error) (\<lambda>_.
     bindR (tput dr_id r (idea_drafts d)) (\<lambda>t.
     bindR (guardR (draft_fk r d) fk_error) (\<lambda>_.
     Inr (d\<lparr>idea_drafts := t\<rparr>))))"

definition upd_draft :: "string \<Rightarrow> (idea_draft \<Rightarrow> idea_draft) \<Rightarrow> db \<Rightarrow> exn + db" where
  "upd_draft k f d =
     (case idea_get k d of
        None \<Rightarrow> Inr d
      | Some r \<Rightarrow>
          bindR (guardR (draft_check (f r)) check_error) (\<lambda>_.
          bindR (guardR (draft_fk (f r) d) fk_error) (\<lambda>_.
          Inr (d\<lparr>idea_drafts := tupd dr_id k f (idea_drafts d)\<rparr>))))"

definition del_unlinked_draft :: "string \<Rightarrow> db \<Rightarrow> db" where
  "del_unlinked_draft k d =
     d\<lparr>idea_drafts := filter (\<lambda>r. \<not> (dr_id r = k \<and> dr_configuration_id r = None)) (idea_drafts d)\<rparr>"

text \<open>\<open>str.isascii\<close> on the code points the model has.\<close>

definition is_ascii :: "char \<Rightarrow> bool" where
  "is_ascii c \<longleftrightarrow> (of_char c :: nat) < 128"

definition draft_identity_ok :: "string \<Rightarrow> bool" where
  "draft_identity_ok k \<longleftrightarrow>
     8 \<le> length k \<and> length k \<le> 80 \<and> (\<forall>c \<in> set k. is_ascii c) \<and> (\<forall>c \<in> set k. ident_char c)"

definition idea_limit :: "string \<Rightarrow> string \<Rightarrow> nat \<Rightarrow> exn + unit" where
  "idea_limit name value limit =
     guardR (length value \<le> limit)
       (ValueError (''idea '' @ name @ '' must be at most '' @ nat_str limit @ '' characters''))"

definition idea_save ::
  "stamp \<Rightarrow> string \<Rightarrow> string \<Rightarrow> string \<Rightarrow> string \<Rightarrow> string \<Rightarrow> string \<Rightarrow> (db, idea_draft) body" where
  "idea_save now draft_id title description source_url attribution notes =
     bindB (liftB (guardR (draft_identity_ok draft_id) (ValueError ''idea draft identity is invalid''))) (\<lambda>_.
     let ti = strip title; de = strip description; so = strip source_url; at = strip attribution;
         no = strip notes
     in
     bindB (liftB (guardR (ti \<noteq> []) (ValueError ''idea title must not be empty''))) (\<lambda>_.
     bindB (liftB (idea_limit ''title'' ti 120)) (\<lambda>_.
     bindB (liftB (idea_limit ''description'' de 2000)) (\<lambda>_.
     bindB (liftB (idea_limit ''source_url'' so 2048)) (\<lambda>_.
     bindB (liftB (idea_limit ''attribution'' at 240)) (\<lambda>_.
     bindB (liftB (idea_limit ''notes'' no 2000)) (\<lambda>_.
     bindB (readB (idea_get draft_id)) (\<lambda>existing.
     bindB
       (case existing of
          None \<Rightarrow>
            updB (ins_draft
              \<lparr>dr_id = draft_id, dr_title = ti, dr_description = de, dr_source_url = so,
               dr_attribution = at, dr_notes = no, dr_configuration_id = None,
               dr_created_at = now, dr_updated_at = now, dr_candidate_json = []\<rparr>)
        | Some _ \<Rightarrow>
            updB (upd_draft draft_id (\<lambda>r. r\<lparr>dr_title := ti, dr_description := de,
              dr_source_url := so, dr_attribution := at, dr_notes := no, dr_updated_at := now\<rparr>))) (\<lambda>_.
     assert_row (idea_get draft_id))))))))))"

definition idea_set_candidate_packet :: "string \<Rightarrow> string \<Rightarrow> string \<Rightarrow> (db, idea_draft) body" where
  "idea_set_candidate_packet now draft_id candidate =
     bindB (readB (idea_get draft_id)) (\<lambda>existing.
     case existing of
       None \<Rightarrow> raiseB (KeyError (''unknown idea draft '' @ draft_id))
     | Some e \<Rightarrow>
         if dr_configuration_id e \<noteq> None
         then raiseB (ValueError
           ''an idea linked to an immutable configuration cannot change its candidate packet'')
         else if length candidate > 100000
         then raiseB (ValueError ''candidate packet must be at most 100000 characters'')
         else
           bindB (updB (upd_draft draft_id
             (\<lambda>r. r\<lparr>dr_candidate_json := candidate, dr_updated_at := now\<rparr>))) (\<lambda>_.
           assert_row (idea_get draft_id)))"

definition idea_link_configuration ::
  "string \<Rightarrow> string \<Rightarrow> string \<Rightarrow> bool \<Rightarrow> (db, idea_draft) body" where
  "idea_link_configuration now draft_id configuration_id replace =
     bindB (readB (idea_get draft_id)) (\<lambda>existing.
     case existing of
       None \<Rightarrow> raiseB (KeyError (''unknown idea draft '' @ draft_id))
     | Some e \<Rightarrow>
         if \<not> replace \<and> dr_configuration_id e \<notin> {None, Some configuration_id}
         then raiseB (ValueError ''idea draft is already linked to an immutable configuration'')
         else
           bindB (updB (upd_draft draft_id
             (\<lambda>r. r\<lparr>dr_configuration_id := Some configuration_id, dr_updated_at := now\<rparr>))) (\<lambda>_.
           assert_row (idea_get draft_id)))"

definition idea_list :: "string list option \<Rightarrow> string list \<Rightarrow> db \<Rightarrow> idea_draft list" where
  "idea_list configuration_ids skip_linked_ids d =
     order_desc dr_updated_at (sort_key dr_id
       (filter (\<lambda>r.
          (case configuration_ids of
             None \<Rightarrow> True
           | Some ids \<Rightarrow> (case dr_configuration_id r of None \<Rightarrow> False | Some c \<Rightarrow> c \<in> set ids)) \<and>
          \<not> (dr_configuration_id r \<noteq> None \<and> dr_id r \<in> set skip_linked_ids)) (idea_drafts d)))"

definition idea_delete :: "string \<Rightarrow> (db, bool) body" where
  "idea_delete draft_id =
     bindB (readB (idea_get draft_id)) (\<lambda>before.
     bindB (modB (del_unlinked_draft draft_id)) (\<lambda>_.
     case before of
       Some r \<Rightarrow>
         if dr_configuration_id r = None then retB True
         else raiseB (ValueError ''an idea linked to an immutable configuration cannot be discarded'')
     | None \<Rightarrow> retB False))"

lemma upd_draft_Inr:
  "upd_draft k f d = Inr d' \<longleftrightarrow>
     (case idea_get k d of
        None \<Rightarrow> d' = d
      | Some r \<Rightarrow> draft_check (f r) \<and> draft_fk (f r) d
                 \<and> d' = d\<lparr>idea_drafts := tupd dr_id k f (idea_drafts d)\<rparr>)"
  by (auto simp: upd_draft_def split: option.splits)

lemma ins_draft_Inr:
  "ins_draft r d = Inr d' \<longleftrightarrow>
     draft_check r \<and> idea_get (dr_id r) d = None \<and> draft_fk r d \<and>
     d' = d\<lparr>idea_drafts := idea_drafts d @ [r]\<rparr>"
  by (auto simp: ins_draft_def idea_get_def tput_Inr_iff)

section \<open>Runs\<close>

definition run_get :: "string \<Rightarrow> db \<Rightarrow> run option" where
  "run_get k d = tget rn_id k (runs d)"

definition ins_run :: "run \<Rightarrow> db \<Rightarrow> exn + db" where
  "ins_run r d =
     bindR (tput rn_id r (runs d)) (\<lambda>t.
     bindR (guardR (configuration_get (rn_configuration_id r) d \<noteq> None) fk_error) (\<lambda>_.
     bindR (guardR (strategy_get (rn_strategy_id r) (rn_strategy_version r) d \<noteq> None) fk_error) (\<lambda>_.
     Inr (d\<lparr>runs := t\<rparr>))))"

definition upd_run :: "string \<Rightarrow> (run \<Rightarrow> run) \<Rightarrow> db \<Rightarrow> db" where
  "upd_run k f d = d\<lparr>runs := tupd rn_id k f (runs d)\<rparr>"

definition run_create ::
  "string \<Rightarrow> string \<Rightarrow> string \<Rightarrow> string \<Rightarrow> string \<Rightarrow> run_stage \<Rightarrow> run_status \<Rightarrow>
   (string \<times> json) list option \<Rightarrow> (db, run) body" where
  "run_create now run_id configuration_id strategy_id strategy_version stage status environment =
     bindB (liftB (canonical_json (JObj (case environment of None \<Rightarrow> [] | Some kvs \<Rightarrow> kvs)))) (\<lambda>env.
     bindB (updB (ins_run
       \<lparr>rn_id = run_id, rn_configuration_id = configuration_id, rn_strategy_id = strategy_id,
        rn_strategy_version = strategy_version, rn_stage = stage, rn_status = status,
        rn_started_at = (if status = RUNNING then Some now else None),
        rn_completed_at = (if terminal status then Some now else None),
        rn_error_summary = None, rn_environment_json = env, rn_created_at = now,
        rn_attempt_count = 0\<rparr>)) (\<lambda>_.
     assert_row (run_get run_id)))"

text \<open>The \<open>UPDATE\<close> of \<open>RunRepository.transition\<close>, as a function of the row it found.\<close>

definition transition_row :: "string \<Rightarrow> run_status \<Rightarrow> string option \<Rightarrow> run \<Rightarrow> run" where
  "transition_row now new_status error_summary r =
     r\<lparr>rn_status := new_status,
       rn_started_at := opt_or (rn_started_at r) (if new_status = RUNNING then Some now else None),
       rn_completed_at := (if terminal new_status then Some now else rn_completed_at r),
       rn_error_summary := error_summary\<rparr>"

definition run_transition ::
  "string \<Rightarrow> string \<Rightarrow> run_status \<Rightarrow> string option \<Rightarrow> (db, run) body" where
  "run_transition now run_id new_status error_summary =
     bindB (readB (run_get run_id)) (\<lambda>current.
     case current of
       None \<Rightarrow> raiseB (KeyError (''unknown run '' @ run_id))
     | Some r \<Rightarrow>
         bindB (liftB (validate_run_transition (rn_status r) new_status)) (\<lambda>_.
         bindB (modB (upd_run run_id (transition_row now new_status error_summary))) (\<lambda>_.
         assert_row (run_get run_id))))"

definition run_increment_attempt :: "string \<Rightarrow> (db, run) body" where
  "run_increment_attempt run_id =
     bindB (readB (run_get run_id)) (\<lambda>existing.
     bindB (modB (upd_run run_id (\<lambda>r. r\<lparr>rn_attempt_count := rn_attempt_count r + 1\<rparr>))) (\<lambda>_.
     case existing of
       None \<Rightarrow> raiseB (KeyError (''unknown run '' @ run_id))
     | Some _ \<Rightarrow> assert_row (run_get run_id)))"

definition run_list ::
  "string option \<Rightarrow> run_status option \<Rightarrow> run_stage option \<Rightarrow> db \<Rightarrow> run list" where
  "run_list strategy_id status stage d =
     order_desc rn_created_at (sort_key rn_id
       (filter (\<lambda>r.
          (case opt_or strategy_id None of None \<Rightarrow> True | Some s \<Rightarrow> rn_strategy_id r = s) \<and>
          (case status of None \<Rightarrow> True | Some s \<Rightarrow> rn_status r = s) \<and>
          (case stage of None \<Rightarrow> True | Some s \<Rightarrow> rn_stage r = s)) (runs d)))"

lemma ins_run_Inr:
  "ins_run r d = Inr d' \<longleftrightarrow>
     run_get (rn_id r) d = None \<and> configuration_get (rn_configuration_id r) d \<noteq> None \<and>
     strategy_get (rn_strategy_id r) (rn_strategy_version r) d \<noteq> None \<and>
     d' = d\<lparr>runs := runs d @ [r]\<rparr>"
  by (auto simp: ins_run_def run_get_def tput_Inr_iff)

lemma run_get_upd:
  assumes "\<And>r. rn_id (f r) = rn_id r"
  shows "run_get j (upd_run k f d) = (if j = k then map_option f (run_get j d) else run_get j d)"
  using assms by (simp add: run_get_def upd_run_def tget_tupd)

lemma run_get_ins: "ins_run r d = Inr d' \<Longrightarrow> run_get j d' = (if j = rn_id r then Some r else run_get j d)"
  by (auto simp: ins_run_Inr run_get_def tget_append split: option.splits)

lemma transition_row_id [simp]: "rn_id (transition_row now s e r) = rn_id r"
  by (simp add: transition_row_def)

lemma validate_Inr [simp]:
  "validate_run_transition s t = Inr u \<longleftrightarrow> t \<in> set (RUN_STATUS_TRANSITIONS s)"
  by (simp add: validate_run_transition_def)

lemma run_transition_Inr:
  "run_transition now k s e d = Inr (r', d') \<longleftrightarrow>
     (\<exists>r. run_get k d = Some r \<and> s \<in> set (RUN_STATUS_TRANSITIONS (rn_status r)) \<and>
        r' = transition_row now s e r \<and> d' = upd_run k (transition_row now s e) d)"
  by (auto simp: run_transition_def run_get_upd split: option.splits)

lemma run_transition_legal:
  assumes "run_get k d = Some r" and "s \<in> set (RUN_STATUS_TRANSITIONS (rn_status r))"
  shows "run_transition now k s e d =
    Inr (transition_row now s e r, upd_run k (transition_row now s e) d)"
  using assms run_transition_Inr [of now k s e d] by blast

lemma run_transition_illegal:
  assumes "run_get k d = Some r" and "s \<notin> set (RUN_STATUS_TRANSITIONS (rn_status r))"
  shows "run_transition now k s e d =
    Inl (ValueError (''invalid run-status transition: '' @ run_status_value (rn_status r) @ '' -> ''
      @ run_status_value s))"
  using assms by (simp add: run_transition_def body_step validate_run_transition_def)

lemma run_transition_unknown:
  "run_get k d = None \<Longrightarrow> run_transition now k s e d = Inl (KeyError (''unknown run '' @ k))"
  by (simp add: run_transition_def body_step)

section \<open>Run events\<close>

definition ins_event :: "run_event \<Rightarrow> db \<Rightarrow> exn + db" where
  "ins_event r d =
     bindR (guardR (run_get (ev_run_id r) d \<noteq> None) fk_error) (\<lambda>_.
     Inr (d\<lparr>events := events d @ [r\<lparr>ev_id := next_event d\<rparr>], next_event := next_event d + 1\<rparr>))"

definition event_append ::
  "string \<Rightarrow> string \<Rightarrow> run_event_type \<Rightarrow> event_severity \<Rightarrow> string \<Rightarrow> string \<Rightarrow> string option \<Rightarrow>
   (db, run_event) body" where
  "event_append now run_id event_type severity message source occurred_at =
     (let msg = strip message in
     bindB (liftB (guardR (msg \<noteq> []) (ValueError ''operator event message must not be empty''))) (\<lambda>_.
     bindB (liftB (guardR (length msg \<le> 500)
       (ValueError ''operator event message must be at most 500 characters''))) (\<lambda>_.
     bindB (readB next_event) (\<lambda>lastrowid.
     bindB (updB (ins_event
       \<lparr>ev_id = lastrowid, ev_run_id = run_id, ev_type = event_type,
        ev_occurred_at = str_or occurred_at now, ev_severity = severity, ev_source = source,
        ev_message = msg\<rparr>)) (\<lambda>_.
     assert_row (\<lambda>d. tget ev_id lastrowid (events d)))))))"

definition event_list_for_run :: "string \<Rightarrow> db \<Rightarrow> run_event list" where
  "event_list_for_run run_id d =
     sort_key ev_occurred_at (sort_key ev_id (filter (\<lambda>e. ev_run_id e = run_id) (events d)))"

definition event_list_recent :: "int \<Rightarrow> db \<Rightarrow> exn + run_event list" where
  "event_list_recent limit d =
     bindR (guardR (limit \<ge> 1) (ValueError ''recent event limit must be positive'')) (\<lambda>_.
     Inr (take (nat limit) (order_desc ev_occurred_at (order_desc ev_id (events d)))))"

lemma ins_event_Inr:
  "ins_event r d = Inr d' \<longleftrightarrow>
     run_get (ev_run_id r) d \<noteq> None \<and>
     d' = d\<lparr>events := events d @ [r\<lparr>ev_id := next_event d\<rparr>], next_event := next_event d + 1\<rparr>"
  by (auto simp: ins_event_def)

end
