(* ===== verification/Repo_Evidence.thy ===== *)
theory Repo_Evidence
  imports Repo_Core
begin

text \<open>
  The rest of \<open>persistence/repositories.py\<close>: the durable launch submissions, the result rows
  with their provenance and artifacts, and the reviews with their audit history.
\<close>

section \<open>Research run submissions\<close>

definition submission_get :: "string \<Rightarrow> db \<Rightarrow> submission option" where
  "submission_get k d = tget sb_key k (submissions d)"

definition submission_get_for_run :: "string \<Rightarrow> db \<Rightarrow> submission option" where
  "submission_get_for_run run_id d = tget sb_run_id run_id (submissions d)"

text \<open>The \<open>CHECK\<close> clauses of \<open>research_run_submissions\<close> (migration 5).\<close>

definition lower_hex :: "char \<Rightarrow> bool" where
  "lower_hex c \<longleftrightarrow> is_digit c \<or> 97 \<le> (of_char c :: nat) \<and> (of_char c :: nat) \<le> 102"

definition submission_check :: "submission \<Rightarrow> bool" where
  "submission_check r \<longleftrightarrow>
     16 \<le> length (sb_key r) \<and> length (sb_key r) \<le> 128 \<and> (\<forall>c \<in> set (sb_key r). ident_char c) \<and>
     length (sb_request_fingerprint r) = 64 \<and> (\<forall>c \<in> set (sb_request_fingerprint r). lower_hex c)"

definition ins_submission :: "submission \<Rightarrow> db \<Rightarrow> exn + db" where
  "ins_submission r d =
     bindR (guardR (submission_check r) check_error) (\<lambda>_.
     bindR (tput sb_key r (submissions d)) (\<lambda>t.
     bindR (guardR (submission_get_for_run (sb_run_id r) d = None) unique_error) (\<lambda>_.
     bindR (guardR (run_get (sb_run_id r) d \<noteq> None) fk_error) (\<lambda>_.
     bindR (guardR (configuration_get (sb_configuration_id r) d \<noteq> None) fk_error) (\<lambda>_.
     Inr (d\<lparr>submissions := t\<rparr>))))))"

text \<open>
  An \<open>UPDATE ... WHERE idempotency_key=? AND state IN (...)\<close>: whether a row was changed is its
  value. The unique index on \<open>prefect_flow_run_id\<close> can refuse the change.
\<close>

definition prefect_id_taken :: "string \<Rightarrow> submission \<Rightarrow> db \<Rightarrow> bool" where
  "prefect_id_taken k r d \<longleftrightarrow>
     (case sb_prefect_flow_run_id r of
        None \<Rightarrow> False
      | Some p \<Rightarrow> (\<exists>s \<in> set (submissions d). sb_key s \<noteq> k \<and> sb_prefect_flow_run_id s = Some p))"

definition upd_submission ::
  "string \<Rightarrow> submission_state list \<Rightarrow> (submission \<Rightarrow> submission) \<Rightarrow> (db, bool) body" where
  "upd_submission k allowed f d =
     (case submission_get k d of
        None \<Rightarrow> Inr (False, d)
      | Some r \<Rightarrow>
          if sb_state r \<notin> set allowed then Inr (False, d)
          else if prefect_id_taken k (f r) d then Inl unique_error
          else Inr (True, d\<lparr>submissions := tupd sb_key k f (submissions d)\<rparr>))"

definition submission_create ::
  "string \<Rightarrow> string \<Rightarrow> string \<Rightarrow> string \<Rightarrow> string \<Rightarrow> string \<Rightarrow> (db, submission) body" where
  "submission_create idempotency_key run_id configuration_id canonical_request_json
     request_fingerprint claimed_at =
     bindB (updB (ins_submission
       \<lparr>sb_key = idempotency_key, sb_run_id = run_id, sb_configuration_id = configuration_id,
        sb_canonical_request_json = canonical_request_json,
        sb_request_fingerprint = request_fingerprint, sb_state = SUB_CLAIMED,
        sb_dispatcher = None, sb_prefect_flow_run_id = None, sb_prefect_api_url = None,
        sb_claimed_at = claimed_at, sb_invocation_started_at = None, sb_acknowledged_at = None,
        sb_unknown_at = None, sb_unknown_evidence = None, sb_resolved_at = None,
        sb_resolution_evidence = None, sb_updated_at = claimed_at, sb_error_summary = None\<rparr>)) (\<lambda>_.
     assert_row (submission_get idempotency_key))"

definition invoking_row :: "string \<Rightarrow> string \<Rightarrow> submission \<Rightarrow> submission" where
  "invoking_row dispatcher now r =
     r\<lparr>sb_state := SUB_INVOKING, sb_dispatcher := Some dispatcher,
       sb_invocation_started_at := Some now, sb_updated_at := now\<rparr>"

definition set_invoking :: "string \<Rightarrow> string \<Rightarrow> string \<Rightarrow> (db, bool) body" where
  "set_invoking k dispatcher now = upd_submission k [SUB_CLAIMED] (invoking_row dispatcher now)"

definition unknown_row :: "string \<Rightarrow> string \<Rightarrow> string option \<Rightarrow> submission \<Rightarrow> submission" where
  "unknown_row now error_summary evidence r =
     r\<lparr>sb_state := SUB_SUBMISSION_UNKNOWN, sb_unknown_at := Some now, sb_updated_at := now,
       sb_error_summary := Some error_summary,
       sb_unknown_evidence := (case evidence of None \<Rightarrow> sb_unknown_evidence r | Some e \<Rightarrow> Some e)\<rparr>"

definition set_unknown :: "string \<Rightarrow> string \<Rightarrow> string \<Rightarrow> string option \<Rightarrow> (db, bool) body" where
  "set_unknown k now error_summary evidence =
     upd_submission k [SUB_INVOKING] (unknown_row now error_summary evidence)"

definition acknowledged_row :: "string \<Rightarrow> string option \<Rightarrow> string \<Rightarrow> submission \<Rightarrow> submission" where
  "acknowledged_row flow_run_id api_url now r =
     r\<lparr>sb_state := SUB_ACKNOWLEDGED, sb_prefect_flow_run_id := Some flow_run_id,
       sb_prefect_api_url := api_url, sb_acknowledged_at := Some now, sb_updated_at := now,
       sb_error_summary := None\<rparr>"

definition set_acknowledged :: "string \<Rightarrow> string \<Rightarrow> string option \<Rightarrow> string \<Rightarrow> (db, bool) body" where
  "set_acknowledged k flow_run_id api_url now =
     upd_submission k [SUB_INVOKING, SUB_SUBMISSION_UNKNOWN] (acknowledged_row flow_run_id api_url now)"

definition failed_row :: "string \<Rightarrow> string \<Rightarrow> submission \<Rightarrow> submission" where
  "failed_row now error_summary r =
     r\<lparr>sb_state := SUB_FAILED_BEFORE_SUBMISSION, sb_resolved_at := Some now, sb_updated_at := now,
       sb_error_summary := Some error_summary\<rparr>"

definition set_failed_before_submission :: "string \<Rightarrow> string \<Rightarrow> string \<Rightarrow> (db, bool) body" where
  "set_failed_before_submission k now error_summary =
     upd_submission k [SUB_CLAIMED] (failed_row now error_summary)"

definition abandoned_row :: "string \<Rightarrow> string \<Rightarrow> string \<Rightarrow> submission \<Rightarrow> submission" where
  "abandoned_row now error_summary evidence r =
     r\<lparr>sb_state := SUB_ABANDONED, sb_resolved_at := Some now, sb_updated_at := now,
       sb_error_summary := Some error_summary, sb_resolution_evidence := Some evidence\<rparr>"

definition set_abandoned :: "string \<Rightarrow> string \<Rightarrow> string \<Rightarrow> string \<Rightarrow> (db, bool) body" where
  "set_abandoned k now error_summary evidence =
     upd_submission k [SUB_SUBMISSION_UNKNOWN] (abandoned_row now error_summary evidence)"

lemma submission_row_keys [simp]:
  "sb_key (invoking_row a b r) = sb_key r" "sb_key (unknown_row a b e r) = sb_key r"
  "sb_key (acknowledged_row a u b r) = sb_key r" "sb_key (failed_row a b r) = sb_key r"
  "sb_key (abandoned_row a b c r) = sb_key r"
  by (simp_all add: invoking_row_def unknown_row_def acknowledged_row_def failed_row_def
      abandoned_row_def)

lemma ins_submission_Inr:
  "ins_submission r d = Inr d' \<longleftrightarrow>
     submission_check r \<and> submission_get (sb_key r) d = None \<and>
     submission_get_for_run (sb_run_id r) d = None \<and> run_get (sb_run_id r) d \<noteq> None \<and>
     configuration_get (sb_configuration_id r) d \<noteq> None \<and>
     d' = d\<lparr>submissions := submissions d @ [r]\<rparr>"
  by (auto simp: ins_submission_def submission_get_def tput_Inr_iff)

lemma upd_submission_Inr:
  "upd_submission k allowed f d = Inr (b, d') \<longleftrightarrow>
     (if b
      then \<exists>r. submission_get k d = Some r \<and> sb_state r \<in> set allowed \<and>
             \<not> prefect_id_taken k (f r) d \<and>
             d' = d\<lparr>submissions := tupd sb_key k f (submissions d)\<rparr>
      else d' = d \<and> (\<forall>r. submission_get k d = Some r \<longrightarrow> sb_state r \<notin> set allowed))"
  by (auto simp: upd_submission_def split: option.splits if_splits)

lemma submission_get_upd:
  assumes "\<And>r. sb_key (f r) = sb_key r"
  shows "submission_get j (d\<lparr>submissions := tupd sb_key k f (submissions d)\<rparr>) =
    (if j = k then map_option f (submission_get k d) else submission_get j d)"
  using assms by (simp add: submission_get_def tget_tupd)

section \<open>Results\<close>

definition pr_key :: "parameter_result \<Rightarrow> string \<times> string" where
  "pr_key r = (pr_run_id r, pr_row_id r)"

definition ins_parameter_result :: "parameter_result \<Rightarrow> db \<Rightarrow> exn + db" where
  "ins_parameter_result r d =
     bindR (tput pr_key r (parameter_results d)) (\<lambda>t.
     bindR (guardR (run_get (pr_run_id r) d \<noteq> None) fk_error) (\<lambda>_.
     Inr (d\<lparr>parameter_results := t\<rparr>)))"

definition list_parameter_results :: "string \<Rightarrow> db \<Rightarrow> parameter_result list" where
  "list_parameter_results run_id d =
     sort_key pr_ranking_position (sort_key pr_row_id
       (filter (\<lambda>r. pr_run_id r = run_id) (parameter_results d)))"

definition add_parameter_result ::
  "string \<Rightarrow> string \<Rightarrow> json \<Rightarrow> json \<Rightarrow> int \<Rightarrow> string \<Rightarrow> string \<Rightarrow> (db, parameter_result) body" where
  "add_parameter_result run_id row_id normalized_parameters metrics ranking_position
     screening_status rejection_reasons =
     bindB (liftB (canonical_json normalized_parameters)) (\<lambda>pj.
     bindB (liftB (canonical_json metrics)) (\<lambda>mj.
     bindB (updB (ins_parameter_result
       \<lparr>pr_run_id = run_id, pr_row_id = row_id, pr_parameters_json = pj, pr_metrics_json = mj,
        pr_ranking_position = ranking_position, pr_screening_status = screening_status,
        pr_rejection_reasons = rejection_reasons\<rparr>)) (\<lambda>_.
     bindB (readB (list_parameter_results run_id)) (\<lambda>rows.
     case find (\<lambda>r. pr_row_id r = row_id) rows of
       Some r \<Rightarrow> retB r
     | None \<Rightarrow> raiseB (OtherException ''StopIteration'')))))"

definition get_data_provenance :: "string \<Rightarrow> db \<Rightarrow> data_provenance option" where
  "get_data_provenance run_id d = tget dp_run_id run_id (provenances d)"

definition ins_provenance :: "data_provenance \<Rightarrow> db \<Rightarrow> exn + db" where
  "ins_provenance r d =
     bindR (tput dp_run_id r (provenances d)) (\<lambda>t.
     bindR (guardR (run_get (dp_run_id r) d \<noteq> None) fk_error) (\<lambda>_.
     Inr (d\<lparr>provenances := t\<rparr>)))"

definition set_data_provenance :: "data_provenance \<Rightarrow> (db, data_provenance) body" where
  "set_data_provenance record =
     bindB (updB (ins_provenance record)) (\<lambda>_. assert_row (get_data_provenance (dp_run_id record)))"

definition get_execution_assumptions :: "string \<Rightarrow> db \<Rightarrow> execution_assumptions option" where
  "get_execution_assumptions run_id d = tget ex_run_id run_id (assumptions d)"

definition ins_assumptions :: "execution_assumptions \<Rightarrow> db \<Rightarrow> exn + db" where
  "ins_assumptions r d =
     bindR (tput ex_run_id r (assumptions d)) (\<lambda>t.
     bindR (guardR (run_get (ex_run_id r) d \<noteq> None) fk_error) (\<lambda>_.
     Inr (d\<lparr>assumptions := t\<rparr>)))"

definition set_execution_assumptions ::
  "execution_assumptions \<Rightarrow> (db, execution_assumptions) body" where
  "set_execution_assumptions record =
     bindB (updB (ins_assumptions record)) (\<lambda>_.
     assert_row (get_execution_assumptions (ex_run_id record)))"

section \<open>Artifacts\<close>

definition artifact_row_get :: "nat \<Rightarrow> db \<Rightarrow> artifact_row option" where
  "artifact_row_get k d = tget ar_id k (artifacts d)"

text \<open>The insert assigns the next identity; the unique index on \<open>identity_key\<close> ignores nulls.\<close>

definition ins_artifact :: "artifact_row \<Rightarrow> db \<Rightarrow> exn + db" where
  "ins_artifact r d =
     bindR (guardR (ar_identity_key r = None \<or> tget ar_identity_key (ar_identity_key r) (artifacts d) = None)
       unique_error) (\<lambda>_.
     bindR (guardR (run_get (ar_run_id r) d \<noteq> None) fk_error) (\<lambda>_.
     Inr (d\<lparr>artifacts := artifacts d @ [r\<lparr>ar_id := next_artifact d\<rparr>],
            next_artifact := next_artifact d + 1\<rparr>)))"

definition artifact_of_row :: "artifact_row \<Rightarrow> artifact" where
  "artifact_of_row r =
     \<lparr>af_id = ar_id r, af_run_id = ar_run_id r, af_type = ar_type r,
      af_schema_version = ar_schema_version r, af_path = ar_path r,
      af_validation_status = ar_validation_status r, af_checksum = ar_checksum r,
      af_availability = ar_availability r, af_created_at = ar_created_at r\<rparr>"

definition contract_of_row :: "artifact_row \<Rightarrow> exn + artifact_contract" where
  "contract_of_row r =
     bindR (coerce_enum artifact_kind_value artifact_kinds (ar_type r)) (\<lambda>kind.
     Inr \<lparr>ac_id = ar_id r, ac_run_id = ar_run_id r, ac_type = kind,
          ac_logical_name = ar_logical_name r, ac_schema_version = ar_schema_version r,
          ac_media_type = ar_media_type r, ac_format = ar_format r,
          ac_checksum_algorithm = ar_checksum_algorithm r, ac_checksum = ar_checksum r,
          ac_size_bytes = ar_size_bytes r, ac_location = ar_location r,
          ac_availability = ar_availability r, ac_created_at = ar_created_at r\<rparr>)"

definition get_artifact :: "nat \<Rightarrow> (db, artifact) body" where
  "get_artifact k =
     bindB (readB (artifact_row_get k)) (\<lambda>row.
     case row of
       None \<Rightarrow> raiseB (KeyError (''unknown artifact '' @ nat_str k))
     | Some r \<Rightarrow> retB (artifact_of_row r))"

definition add_artifact ::
  "string \<Rightarrow> string \<Rightarrow> string \<Rightarrow> int \<Rightarrow> string \<Rightarrow> string \<Rightarrow> artifact_availability \<Rightarrow> string option \<Rightarrow>
   (db, artifact) body" where
  "add_artifact now run_id artifact_type schema_version path validation_status availability checksum =
     bindB (readB next_artifact) (\<lambda>lastrowid.
     bindB (updB (ins_artifact
       \<lparr>ar_id = lastrowid, ar_run_id = run_id, ar_type = artifact_type,
        ar_schema_version = schema_version, ar_path = path,
        ar_validation_status = validation_status, ar_checksum = checksum,
        ar_availability = availability, ar_created_at = now, ar_logical_name = None,
        ar_media_type = None, ar_format = None, ar_checksum_algorithm = None,
        ar_size_bytes = None, ar_location = None, ar_identity_key = None\<rparr>)) (\<lambda>_.
     get_artifact lastrowid))"

definition list_artifacts :: "string \<Rightarrow> db \<Rightarrow> artifact list" where
  "list_artifacts run_id d =
     map artifact_of_row
       (sort_key ar_type (sort_key ar_id (filter (\<lambda>r. ar_run_id r = run_id) (artifacts d))))"

definition immutable_columns ::
  "artifact_row \<Rightarrow> string \<times> string \<times> string option \<times> int \<times> string option \<times> string option \<times>
   string option \<times> string option \<times> int option \<times> string option" where
  "immutable_columns r =
     (ar_run_id r, ar_type r, ar_logical_name r, ar_schema_version r, ar_media_type r, ar_format r,
      ar_checksum_algorithm r, ar_checksum r, ar_size_bytes r, ar_location r)"

definition register_artifact_contract ::
  "string \<Rightarrow> string \<Rightarrow> artifact_kind \<Rightarrow> string \<Rightarrow> int \<Rightarrow> string \<Rightarrow> string \<Rightarrow> string \<Rightarrow> int \<Rightarrow> string \<Rightarrow>
   artifact_availability \<Rightarrow> string \<Rightarrow> (db, artifact_contract) body" where
  "register_artifact_contract now run_id artifact_type logical_name schema_version media_type
     format checksum size_bytes location availability_state identity_key =
     bindB (readB (\<lambda>d. tget ar_identity_key (Some identity_key) (artifacts d))) (\<lambda>existing.
     bindB (readB next_artifact) (\<lambda>lastrowid.
     let row =
       \<lparr>ar_id = lastrowid, ar_run_id = run_id, ar_type = artifact_kind_value artifact_type,
        ar_schema_version = schema_version, ar_path = location,
        ar_validation_status = ''registered'', ar_checksum = Some checksum,
        ar_availability = availability_state, ar_created_at = now,
        ar_logical_name = Some logical_name, ar_media_type = Some media_type,
        ar_format = Some format, ar_checksum_algorithm = Some ''sha256'',
        ar_size_bytes = Some size_bytes, ar_location = Some location,
        ar_identity_key = Some identity_key\<rparr>
     in
     case existing of
       Some e \<Rightarrow>
         if immutable_columns e \<noteq> immutable_columns row
         then raiseB (ValueError ''immutable artifact identity conflicts with existing artifact'')
         else liftB (contract_of_row e)
     | None \<Rightarrow>
         bindB (updB (ins_artifact row)) (\<lambda>_.
         bindB (assert_row (artifact_row_get lastrowid)) (\<lambda>r.
         liftB (contract_of_row r)))))"

definition get_artifact_contract :: "nat \<Rightarrow> db \<Rightarrow> exn + artifact_contract" where
  "get_artifact_contract k d =
     (case artifact_row_get k d of
        None \<Rightarrow> Inl (KeyError (''unknown artifact '' @ nat_str k))
      | Some r \<Rightarrow> contract_of_row r)"

text \<open>SQLite's \<open>LIKE\<close> ignores the case of ASCII letters; a null key is never listed.\<close>

definition lower_char :: "char \<Rightarrow> char" where
  "lower_char c =
     (if 65 \<le> (of_char c :: nat) \<and> (of_char c :: nat) \<le> 90 then char_of ((of_char c :: nat) + 32) else c)"

definition legacy_key :: "string \<Rightarrow> bool" where
  "legacy_key k \<longleftrightarrow> map lower_char (take 7 k) = ''legacy:''"

definition contract_row :: "artifact_row \<Rightarrow> bool" where
  "contract_row r \<longleftrightarrow> (case ar_identity_key r of None \<Rightarrow> False | Some k \<Rightarrow> \<not> legacy_key k)"

text \<open>SQL sorts nulls first.\<close>

definition null_first :: "string option \<Rightarrow> string list" where
  "null_first v = (case v of None \<Rightarrow> [] | Some s \<Rightarrow> [s])"

definition list_artifact_contracts :: "string \<Rightarrow> db \<Rightarrow> exn + artifact_contract list" where
  "list_artifact_contracts run_id d =
     mapR contract_of_row
       (sort_key ar_type (sort_key (\<lambda>r. null_first (ar_logical_name r)) (sort_key ar_id
         (filter (\<lambda>r. ar_run_id r = run_id \<and> contract_row r) (artifacts d)))))"

definition upd_artifact :: "nat \<Rightarrow> (artifact_row \<Rightarrow> artifact_row) \<Rightarrow> db \<Rightarrow> db" where
  "upd_artifact k f d = d\<lparr>artifacts := tupd ar_id k f (artifacts d)\<rparr>"

definition update_artifact_availability ::
  "nat \<Rightarrow> artifact_availability \<Rightarrow> (db, artifact_contract) body" where
  "update_artifact_availability k availability =
     bindB (readB (artifact_row_get k)) (\<lambda>existing.
     bindB (modB (upd_artifact k (\<lambda>r. r\<lparr>ar_availability := availability\<rparr>))) (\<lambda>_.
     case existing of
       None \<Rightarrow> raiseB (KeyError (''unknown artifact '' @ nat_str k))
     | Some _ \<Rightarrow> bindB (readB (get_artifact_contract k)) liftB))"

lemma ins_artifact_Inr:
  "ins_artifact r d = Inr d' \<longleftrightarrow>
     (ar_identity_key r = None \<or> tget ar_identity_key (ar_identity_key r) (artifacts d) = None) \<and>
     run_get (ar_run_id r) d \<noteq> None \<and>
     d' = d\<lparr>artifacts := artifacts d @ [r\<lparr>ar_id := next_artifact d\<rparr>],
            next_artifact := next_artifact d + 1\<rparr>"
  by (auto simp: ins_artifact_def)

section \<open>Reviews\<close>

definition rv_key :: "review \<Rightarrow> string \<times> string" where
  "rv_key r = (rv_target_type r, rv_target_id r)"

definition review_get_current :: "string \<Rightarrow> string \<Rightarrow> db \<Rightarrow> review option" where
  "review_get_current target_type target_id d = tget rv_key (target_type, target_id) (reviews d)"

definition ins_audit :: "review_audit \<Rightarrow> db \<Rightarrow> db" where
  "ins_audit r d =
     d\<lparr>audits := audits d @ [r\<lparr>ra_id := next_audit d\<rparr>], next_audit := next_audit d + 1\<rparr>"

definition put_review :: "review \<Rightarrow> db \<Rightarrow> db" where
  "put_review r d =
     (case tget rv_key (rv_key r) (reviews d) of
        None \<Rightarrow> d\<lparr>reviews := reviews d @ [r]\<rparr>
      | Some _ \<Rightarrow> d\<lparr>reviews := tupd rv_key (rv_key r) (\<lambda>_. r) (reviews d)\<rparr>)"

definition review_update ::
  "string \<Rightarrow> string \<Rightarrow> string \<Rightarrow> review_state \<Rightarrow> string \<Rightarrow> string \<Rightarrow> (db, review) body" where
  "review_update now target_type target_id state note operator =
     bindB (readB (review_get_current target_type target_id)) (\<lambda>current.
     bindB (modB (ins_audit
       \<lparr>ra_id = 0, ra_target_type = target_type, ra_target_id = target_id,
        ra_prior_state = map_option rv_state current, ra_new_state = state, ra_note = note,
        ra_operator = operator, ra_created_at = now\<rparr>)) (\<lambda>_.
     bindB (modB (put_review
       \<lparr>rv_target_type = target_type, rv_target_id = target_id, rv_state = state, rv_note = note,
        rv_operator = operator, rv_updated_at = now\<rparr>)) (\<lambda>_.
     assert_row (review_get_current target_type target_id))))"

definition review_history :: "string \<Rightarrow> string \<Rightarrow> db \<Rightarrow> review_audit list" where
  "review_history target_type target_id d =
     sort_key ra_id
       (filter (\<lambda>r. ra_target_type r = target_type \<and> ra_target_id r = target_id) (audits d))"

section \<open>The shared contract of the keyed tables\<close>

text \<open>
  What every table with an \<open>INSERT\<close> promises its callers, whatever row type it stores: a row
  inserted is found under its key, other keys are not touched, a taken key refuses the insert,
  and what is found has the key it was looked up by.
\<close>

locale record_store =
  fixes lookup :: "'k \<Rightarrow> db \<Rightarrow> 'r option"
    and insert_row :: "'r \<Rightarrow> db \<Rightarrow> exn + db"
    and key_of :: "'r \<Rightarrow> 'k"
  assumes lookup_key: "lookup k d = Some r \<Longrightarrow> key_of r = k"
    and insert_lookup: "insert_row r d = Inr d' \<Longrightarrow>
      lookup k d' = (if k = key_of r then Some r else lookup k d)"
    and insert_taken: "lookup (key_of r) d = Some r0 \<Longrightarrow> \<exists>e. insert_row r d = Inl e"
begin

lemma insert_finds: "insert_row r d = Inr d' \<Longrightarrow> lookup (key_of r) d' = Some r"
  by (simp add: insert_lookup)

lemma insert_keeps: "insert_row r d = Inr d' \<Longrightarrow> lookup k d = Some r0 \<Longrightarrow> lookup k d' = Some r0"
  using insert_taken insert_lookup by (metis Inr_Inl_False)

lemma insert_once: "insert_row r d = Inr d' \<Longrightarrow> key_of r2 = key_of r \<Longrightarrow> \<exists>e. insert_row r2 d' = Inl e"
  by (metis insert_finds insert_taken)

lemma insert_was_fresh: "insert_row r d = Inr d' \<Longrightarrow> lookup (key_of r) d = None"
  by (metis insert_taken Inr_Inl_False option.exhaust)

lemma inserts_commute:
  assumes "insert_row a d = Inr d1" "insert_row b d1 = Inr d2"
    and "insert_row b d = Inr e1" "insert_row a e1 = Inr e2"
  shows "lookup k d2 = lookup k e2"
proof -
  have "key_of a \<noteq> key_of b" using insert_once [OF assms(1), of b] assms(2) by auto
  then show ?thesis
    using insert_lookup [OF assms(1)] insert_lookup [OF assms(2)] insert_lookup [OF assms(3)]
      insert_lookup [OF assms(4)] by simp
qed

text \<open>The pattern \<open>INSERT\<close>, then read the row back, never hits its assertion.\<close>

lemma insert_read_back:
  "bindB (updB (insert_row r)) (\<lambda>_. assert_row (lookup (key_of r))) d =
     (case insert_row r d of Inl e \<Rightarrow> Inl e | Inr d' \<Rightarrow> Inr (r, d'))"
  by (auto simp: body_step assert_row_step insert_finds split: sum.splits option.splits)

end

lemma tput_store:
  assumes "tput key r xs = Inr ys"
  shows "tget key k ys = (if k = key r then Some r else tget key k xs)"
  using assms by (auto simp: tput_Inr_iff tget_append split: option.splits)

lemma tput_taken: "tget key (key r) xs = Some r0 \<Longrightarrow> \<exists>e. tput key r xs = Inl e"
  by (simp add: tput_def)

interpretation strategy_store: record_store "\<lambda>k. strategy_get (fst k) (snd k)" ins_strategy st_key
  by unfold_locales
    (auto simp: strategy_get_def ins_strategy_def tput_store dest: tget_SomeD tput_taken)

interpretation configuration_store: record_store configuration_get ins_configuration cf_id
  by unfold_locales
    (auto simp: configuration_get_def ins_configuration_def tput_store dest: tget_SomeD tput_taken)

interpretation run_store: record_store run_get ins_run rn_id
  by unfold_locales
    (auto simp: run_get_def ins_run_def tput_store dest: tget_SomeD tput_taken)

interpretation submission_store: record_store submission_get ins_submission sb_key
  by unfold_locales
    (auto simp: submission_get_def ins_submission_def tput_store guardR_def
      dest: tget_SomeD tput_taken)

interpretation draft_store: record_store idea_get ins_draft dr_id
  by unfold_locales
    (auto simp: idea_get_def ins_draft_def tput_store guardR_def dest: tget_SomeD tput_taken)

interpretation provenance_store: record_store get_data_provenance ins_provenance dp_run_id
  by unfold_locales
    (auto simp: get_data_provenance_def ins_provenance_def tput_store dest: tget_SomeD tput_taken)

interpretation assumption_store: record_store get_execution_assumptions ins_assumptions ex_run_id
  by unfold_locales
    (auto simp: get_execution_assumptions_def ins_assumptions_def tput_store
      dest: tget_SomeD tput_taken)

end
