(* ===== verification/Lineage.thy ===== *)
theory Lineage
  imports Repo_Evidence
begin

text \<open>
  Run lineage and run manifests: the documents of \<open>persistence/manifest.py\<close>, and the parts of
  \<open>persistence/service.py\<close> that freeze the runtime lineage into a run's environment, read the
  lineage of a run back, build, store and check its manifest, and validate artifact files.
  SHA-256 is a parameter \<open>sha\<close> from text to text; files are read through parameters of the
  operations that read them.
\<close>

section \<open>Documents\<close>

text \<open>\<open>document.get(key)\<close> on a value that JSON can hold.\<close>

definition dict_get :: "string \<Rightarrow> json \<Rightarrow> exn + json" where
  "dict_get key j =
     (case j of
        JObj kvs \<Rightarrow> Inr (case map_of kvs key of None \<Rightarrow> JNull | Some v \<Rightarrow> v)
      | _ \<Rightarrow> Inl (OtherException ''AttributeError''))"

definition identity :: "(string \<Rightarrow> string) \<Rightarrow> json \<Rightarrow> exn + string" where
  "identity sha value = bindR (canonical_json value) (\<lambda>t. Inr (sha t))"

definition json_document :: "string \<Rightarrow> exn + json" where
  "json_document s =
     (case json_loads s of
        None \<Rightarrow> Inl (ValueError ''stored canonical JSON is invalid'')
      | Some j \<Rightarrow> Inr j)"

fun opt_json :: "string option \<Rightarrow> json" where
  "opt_json None = JNull"
| "opt_json (Some s) = JStr s"

fun opt_int_json :: "int option \<Rightarrow> json" where
  "opt_int_json None = JNull"
| "opt_int_json (Some i) = JInt i"

section \<open>Runtime lineage\<close>

text \<open>
  The fields \<open>_runtime_lineage_from_document\<close> copies are whatever the document holds; only the
  identity is known to be text, because it was compared with a digest.
\<close>

record runtime_lineage =
  rl_identity :: string
  rl_git_commit_sha :: json
  rl_git_commit_available :: json
  rl_git_dirty_state :: json
  rl_git_dirty_available :: json
  rl_git_dirty_entry_count :: json
  rl_git_dirty_fingerprint :: json
  rl_python_implementation :: json
  rl_python_version :: json
  rl_python_cache_tag :: json
  rl_vectorbtpro_version :: json
  rl_vectorbtpro_available :: json
  rl_package_fingerprint :: json
  rl_package_count :: json
  rl_platform_system :: json
  rl_platform_machine :: json

definition PACKAGE_FINGERPRINT_ALGORITHM :: string where
  "PACKAGE_FINGERPRINT_ALGORITHM = ''sha256:canonical-json:normalized-package-name-version-pairs:v1''"

definition runtime_contract :: "runtime_lineage \<Rightarrow> (string \<times> json) list" where
  "runtime_contract l =
     [(''git'', JObj
        [(''commit_sha'', rl_git_commit_sha l), (''commit_available'', rl_git_commit_available l),
         (''dirty_state'', rl_git_dirty_state l), (''dirty_available'', rl_git_dirty_available l),
         (''dirty_entry_count'', rl_git_dirty_entry_count l),
         (''dirty_fingerprint'', rl_git_dirty_fingerprint l)]),
      (''python'', JObj
        [(''implementation'', rl_python_implementation l), (''version'', rl_python_version l),
         (''cache_tag'', rl_python_cache_tag l)]),
      (''vectorbtpro'', JObj
        [(''version'', rl_vectorbtpro_version l), (''available'', rl_vectorbtpro_available l)]),
      (''packages'', JObj
        [(''fingerprint'', rl_package_fingerprint l),
         (''fingerprint_algorithm'', JStr PACKAGE_FINGERPRINT_ALGORITHM),
         (''count'', rl_package_count l)]),
      (''platform'', JObj
        [(''system'', rl_platform_system l), (''machine'', rl_platform_machine l)])]"

definition runtime_lineage_document :: "runtime_lineage \<Rightarrow> json" where
  "runtime_lineage_document l = JObj ((''runtime_identity'', JStr (rl_identity l)) # runtime_contract l)"

text \<open>The body of the \<open>try\<close> block; its \<open>KeyError\<close>s become the \<open>ValueError\<close> of the handler.\<close>

definition runtime_lineage_fields ::
  "(string \<Rightarrow> string) \<Rightarrow> json \<Rightarrow> exn + runtime_lineage" where
  "runtime_lineage_fields sha document =
     bindR (index ''git'' document) (\<lambda>git.
     bindR (index ''python'' document) (\<lambda>py.
     bindR (index ''vectorbtpro'' document) (\<lambda>vbt.
     bindR (index ''packages'' document) (\<lambda>pkg.
     bindR (index ''platform'' document) (\<lambda>plat.
     bindR (index ''runtime_identity'' document) (\<lambda>declared.
     let contract = (case document of JObj kvs \<Rightarrow> JObj (dict_pop ''runtime_identity'' kvs) | j \<Rightarrow> j) in
     bindR (identity sha contract) (\<lambda>computed.
     bindR (guardR (declared = JStr computed)
       (ValueError ''stored runtime lineage identity does not match canonical content'')) (\<lambda>_.
     bindR (index ''commit_sha'' git) (\<lambda>g1.
     bindR (index ''commit_available'' git) (\<lambda>g2.
     bindR (index ''dirty_state'' git) (\<lambda>g3.
     bindR (index ''dirty_available'' git) (\<lambda>g4.
     bindR (index ''dirty_entry_count'' git) (\<lambda>g5.
     bindR (dict_get ''dirty_fingerprint'' git) (\<lambda>g6.
     bindR (index ''implementation'' py) (\<lambda>p1.
     bindR (index ''version'' py) (\<lambda>p2.
     bindR (index ''cache_tag'' py) (\<lambda>p3.
     bindR (index ''version'' vbt) (\<lambda>v1.
     bindR (index ''available'' vbt) (\<lambda>v2.
     bindR (index ''fingerprint'' pkg) (\<lambda>k1.
     bindR (index ''count'' pkg) (\<lambda>k2.
     bindR (index ''system'' plat) (\<lambda>s1.
     bindR (index ''machine'' plat) (\<lambda>s2.
     Inr \<lparr>rl_identity = computed, rl_git_commit_sha = g1, rl_git_commit_available = g2,
          rl_git_dirty_state = g3, rl_git_dirty_available = g4, rl_git_dirty_entry_count = g5,
          rl_git_dirty_fingerprint = g6, rl_python_implementation = p1, rl_python_version = p2,
          rl_python_cache_tag = p3, rl_vectorbtpro_version = v1, rl_vectorbtpro_available = v2,
          rl_package_fingerprint = k1, rl_package_count = k2, rl_platform_system = s1,
          rl_platform_machine = s2\<rparr>)))))))))))))))))))))))"

definition runtime_lineage_from_document ::
  "(string \<Rightarrow> string) \<Rightarrow> json \<Rightarrow> exn + runtime_lineage" where
  "runtime_lineage_from_document sha document =
     (case runtime_lineage_fields sha document of
        Inl (KeyError _) \<Rightarrow> Inl (ValueError ''stored runtime lineage document is incomplete'')
      | r \<Rightarrow> r)"

definition environment_with_runtime_lineage ::
  "(string \<times> json) list \<Rightarrow> runtime_lineage \<Rightarrow> exn + (string \<times> json) list" where
  "environment_with_runtime_lineage values l =
     (case map_of values ''runtime_lineage'' of
        Some existing \<Rightarrow>
          bindR (canonical_json existing) (\<lambda>a.
          bindR (canonical_json (runtime_lineage_document l)) (\<lambda>b.
          bindR (guardR (a = b)
            (ValueError ''environment runtime lineage conflicts with captured runtime lineage'')) (\<lambda>_.
          Inr values)))
      | None \<Rightarrow> Inr (dict_put ''runtime_lineage'' (runtime_lineage_document l) values))"

text \<open>\<open>captured\<close> is what the service's runtime lineage provider returns.\<close>

definition freeze_environment ::
  "(string \<Rightarrow> string) \<Rightarrow> exn + runtime_lineage \<Rightarrow> (string \<times> json) list option \<Rightarrow> exn + (string \<times> json) list"
  where
  "freeze_environment sha captured environment =
     (let values = (case environment of None \<Rightarrow> [] | Some kvs \<Rightarrow> kvs) in
      case map_of values ''runtime_lineage'' of
        Some doc \<Rightarrow>
          (case doc of
             JObj _ \<Rightarrow> bindR (runtime_lineage_from_document sha doc) (\<lambda>_. Inr values)
           | _ \<Rightarrow> Inl (ValueError ''stored runtime lineage is not a JSON object''))
      | None \<Rightarrow> bindR captured (environment_with_runtime_lineage values))"

definition runtime_lineage_for_run :: "(string \<Rightarrow> string) \<Rightarrow> run \<Rightarrow> exn + runtime_lineage" where
  "runtime_lineage_for_run sha r =
     bindR (json_document (rn_environment_json r)) (\<lambda>env.
     case env of
       JObj kvs \<Rightarrow>
         (case map_of kvs ''runtime_lineage'' of
            None \<Rightarrow> Inl (RuntimeError (''run '' @ rn_id r
              @ '' has no frozen runtime lineage in its execution environment''))
          | Some JNull \<Rightarrow> Inl (RuntimeError (''run '' @ rn_id r
              @ '' has no frozen runtime lineage in its execution environment''))
          | Some (JObj d) \<Rightarrow> runtime_lineage_from_document sha (JObj d)
          | Some _ \<Rightarrow> Inl (ValueError ''stored runtime lineage is not a JSON object''))
     | _ \<Rightarrow> Inl (ValueError ''stored run environment is not a JSON object''))"

section \<open>The lineage of a run\<close>

record configuration_lineage =
  cl_configuration_id :: string
  cl_config_hash :: string

record strategy_lineage =
  sl_strategy_id :: string
  sl_strategy_version :: string

record data_lineage =
  dl_provenance_record_identity :: string
  dl_provider_identity :: string
  dl_symbol :: string
  dl_timeframe :: string
  dl_requested_coverage :: string
  dl_actual_coverage :: string
  dl_dataset_identity :: string
  dl_dataset_manifest_reference :: "string option"
  dl_dataset_checksum :: "string option"
  dl_calendar_identity :: "string option"
  dl_adjustment_mode :: string
  dl_normalization_identity :: string

record normalization_lineage =
  nl_identity :: string
  nl_contract_json :: string

record execution_lineage =
  el_assumptions_identity :: string
  el_record_identity :: string

record run_lineage =
  ln_configuration :: configuration_lineage
  ln_strategy :: strategy_lineage
  ln_data :: data_lineage
  ln_normalization :: normalization_lineage
  ln_execution :: execution_lineage
  ln_runtime :: runtime_lineage

record run_manifest =
  rm_schema_version :: int
  rm_run_id :: string
  rm_configuration_id :: string
  rm_strategy_id :: string
  rm_strategy_version :: string
  rm_lineage :: "run_lineage option"
  rm_artifacts :: "artifact_contract list"
  rm_created_at :: string

definition RUN_MANIFEST_SCHEMA_VERSION :: int where
  "RUN_MANIFEST_SCHEMA_VERSION = 3"

definition normalization_contract :: json where
  "normalization_contract =
     JObj
       [(''schema_version'', JStr ''data_provenance.normalization.v1''),
        (''timestamp_convention'', JStr ''source_timestamp_recorded_in_provenance''),
        (''timezone_handling'', JStr ''timezone_recorded_in_provenance''),
        (''column_schema_version'', JStr ''ohlcv.v1''),
        (''adjustment_handling'', JStr ''adjustment_mode_recorded_in_provenance''),
        (''session_filtering'', JStr ''coverage_recorded_in_provenance''),
        (''duplicate_handling'', JStr ''duplicate_count_recorded_in_provenance''),
        (''missing_bar_policy'', JStr ''missing_bar_counts_recorded_in_provenance''),
        (''resampling_rule'', JStr ''timeframe_recorded_in_provenance'')]"

definition normalization_lineage_of ::
  "(string \<Rightarrow> string) \<Rightarrow> data_provenance \<Rightarrow> exn + normalization_lineage" where
  "normalization_lineage_of sha provenance =
     bindR (canonical_json normalization_contract) (\<lambda>t.
     bindR (identity sha normalization_contract) (\<lambda>i.
     Inr \<lparr>nl_identity = i, nl_contract_json = t\<rparr>))"

definition provenance_document :: "data_provenance \<Rightarrow> json" where
  "provenance_document p =
     JObj
       [(''run_id'', JStr (dp_run_id p)), (''provider'', JStr (dp_provider p)),
        (''provider_implementation'', JStr (dp_provider_implementation p)),
        (''symbol'', JStr (dp_symbol p)), (''interval'', JStr (dp_interval p)),
        (''timezone'', JStr (dp_timezone p)),
        (''requested_coverage'', JStr (dp_requested_coverage p)),
        (''actual_coverage'', JStr (dp_actual_coverage p)), (''adjusted'', JBool (dp_adjusted p)),
        (''row_count'', JInt (dp_row_count p)), (''cache_action'', JStr (dp_cache_action p)),
        (''validation_summary_json'', JStr (dp_validation_summary_json p)),
        (''manifest_reference'', opt_json (dp_manifest_reference p)),
        (''checksum'', opt_json (dp_checksum p))]"

definition data_lineage_of ::
  "(string \<Rightarrow> string) \<Rightarrow> data_provenance \<Rightarrow> exn + data_lineage" where
  "data_lineage_of sha p =
     bindR (normalization_lineage_of sha p) (\<lambda>norm.
     let provider_doc =
           [(''provider'', JStr (dp_provider p)),
            (''provider_implementation'', JStr (dp_provider_implementation p))];
         mode = (if dp_adjusted p then ''adjusted'' else ''raw'');
         dataset_doc = provider_doc @
           [(''symbol'', JStr (dp_symbol p)), (''timeframe'', JStr (dp_interval p)),
            (''requested_coverage'', JStr (dp_requested_coverage p)),
            (''actual_coverage'', JStr (dp_actual_coverage p)),
            (''adjustment_mode'', JStr mode), (''row_count'', JInt (dp_row_count p)),
            (''dataset_manifest_reference'', opt_json (dp_manifest_reference p)),
            (''dataset_checksum'', opt_json (dp_checksum p)),
            (''normalization_identity'', JStr (nl_identity norm))]
     in
     bindR (identity sha (provenance_document p)) (\<lambda>record_id.
     bindR (identity sha (JObj provider_doc)) (\<lambda>provider_id.
     bindR (identity sha (JObj dataset_doc)) (\<lambda>dataset_id.
     Inr \<lparr>dl_provenance_record_identity = record_id, dl_provider_identity = provider_id,
          dl_symbol = dp_symbol p, dl_timeframe = dp_interval p,
          dl_requested_coverage = dp_requested_coverage p,
          dl_actual_coverage = dp_actual_coverage p, dl_dataset_identity = dataset_id,
          dl_dataset_manifest_reference = dp_manifest_reference p,
          dl_dataset_checksum = dp_checksum p, dl_calendar_identity = Some (dp_timezone p),
          dl_adjustment_mode = mode, dl_normalization_identity = nl_identity norm\<rparr>))))"

definition execution_lineage_of ::
  "(string \<Rightarrow> string) \<Rightarrow> execution_assumptions \<Rightarrow> json \<Rightarrow> exn + execution_lineage" where
  "execution_lineage_of sha ex document =
     bindR (json_document (ex_assumptions_json ex)) (\<lambda>assumed.
     bindR (dict_get ''execution'' document) (\<lambda>expected.
     bindR (guardR (expected \<noteq> JNull)
       (ValueError ''saved configuration lacks execution assumptions'')) (\<lambda>_.
     bindR (canonical_json assumed) (\<lambda>a.
     bindR (canonical_json expected) (\<lambda>b.
     bindR (guardR (a = b)
       (ValueError ''run execution assumptions disagree with saved configuration'')) (\<lambda>_.
     bindR (identity sha assumed) (\<lambda>i.
     bindR (identity sha (JObj [(''run_id'', JStr (ex_run_id ex)),
       (''execution_assumptions_identity'', JStr i)])) (\<lambda>ri.
     Inr \<lparr>el_assumptions_identity = i, el_record_identity = ri\<rparr>))))))))"

definition get_run_lineage :: "(string \<Rightarrow> string) \<Rightarrow> string \<Rightarrow> db \<Rightarrow> exn + run_lineage" where
  "get_run_lineage sha run_id d =
     (case run_get run_id d of
        None \<Rightarrow> Inl (KeyError (''unknown run '' @ run_id))
      | Some r \<Rightarrow>
     (case configuration_get (rn_configuration_id r) d of
        None \<Rightarrow> Inl (RuntimeError (''run '' @ run_id @ '' references missing configuration''))
      | Some c \<Rightarrow>
     (case strategy_get (rn_strategy_id r) (rn_strategy_version r) d of
        None \<Rightarrow> Inl (RuntimeError (''run '' @ run_id @ '' references missing strategy ''
          @ rn_strategy_id r @ ''@'' @ rn_strategy_version r))
      | Some s \<Rightarrow>
     bindR (guardR (cf_strategy_id c = rn_strategy_id r \<and> cf_strategy_version c = rn_strategy_version r)
       (ValueError ''run and saved configuration disagree on strategy identity'')) (\<lambda>_.
     bindR (json_document (cf_canonical_json c)) (\<lambda>doc.
     bindR (dict_get ''strategy_id'' doc) (\<lambda>dsid.
     bindR (dict_get ''strategy_version'' doc) (\<lambda>dver.
     bindR (guardR (dsid = JStr (rn_strategy_id r) \<and> dver = JStr (rn_strategy_version r))
       (ValueError ''saved configuration canonical strategy identity is mismatched'')) (\<lambda>_.
     bindR (configuration_hash sha doc) (\<lambda>h.
     bindR (guardR (cf_hash c = h)
       (ValueError ''saved configuration hash does not match canonical content'')) (\<lambda>_.
     (case get_data_provenance run_id d of
        None \<Rightarrow> Inl (RuntimeError (''run '' @ run_id @ '' has no data provenance record''))
      | Some p \<Rightarrow>
     (case get_execution_assumptions run_id d of
        None \<Rightarrow> Inl (RuntimeError (''run '' @ run_id @ '' has no execution assumptions record''))
      | Some ex \<Rightarrow>
     bindR (data_lineage_of sha p) (\<lambda>dl.
     bindR (normalization_lineage_of sha p) (\<lambda>nl.
     bindR (execution_lineage_of sha ex doc) (\<lambda>el.
     bindR (runtime_lineage_for_run sha r) (\<lambda>rl.
     Inr \<lparr>ln_configuration = \<lparr>cl_configuration_id = cf_id c, cl_config_hash = cf_hash c\<rparr>,
          ln_strategy = \<lparr>sl_strategy_id = st_id s, sl_strategy_version = st_version s\<rparr>,
          ln_data = dl, ln_normalization = nl, ln_execution = el, ln_runtime = rl\<rparr>))))))))))))))))"

section \<open>Manifest documents\<close>

definition artifact_contract_document :: "artifact_contract \<Rightarrow> (string \<times> json) list" where
  "artifact_contract_document a =
     [(''artifact_id'', JInt (int (ac_id a))), (''run_id'', JStr (ac_run_id a)),
      (''artifact_type'', JStr (artifact_kind_value (ac_type a))),
      (''logical_name'', opt_json (ac_logical_name a)),
      (''schema_version'', JInt (ac_schema_version a)), (''media_type'', opt_json (ac_media_type a)),
      (''format'', opt_json (ac_format a)),
      (''checksum_algorithm'', opt_json (ac_checksum_algorithm a)),
      (''checksum'', opt_json (ac_checksum a)), (''size_bytes'', opt_int_json (ac_size_bytes a)),
      (''location'', opt_json (ac_location a)), (''created_at'', JStr (ac_created_at a))]"

definition run_lineage_document :: "run_lineage \<Rightarrow> exn + json" where
  "run_lineage_document l =
     bindR (json_document (nl_contract_json (ln_normalization l))) (\<lambda>contract.
     Inr (JObj
       [(''configuration'', JObj
          [(''configuration_id'', JStr (cl_configuration_id (ln_configuration l))),
           (''config_hash'', JStr (cl_config_hash (ln_configuration l)))]),
        (''strategy'', JObj
          [(''strategy_id'', JStr (sl_strategy_id (ln_strategy l))),
           (''strategy_version'', JStr (sl_strategy_version (ln_strategy l)))]),
        (''data'', JObj
          [(''provenance_record_identity'', JStr (dl_provenance_record_identity (ln_data l))),
           (''provider_identity'', JStr (dl_provider_identity (ln_data l))),
           (''symbol'', JStr (dl_symbol (ln_data l))),
           (''timeframe'', JStr (dl_timeframe (ln_data l))),
           (''requested_coverage'', JStr (dl_requested_coverage (ln_data l))),
           (''actual_coverage'', JStr (dl_actual_coverage (ln_data l))),
           (''dataset_identity'', JStr (dl_dataset_identity (ln_data l))),
           (''dataset_manifest_reference'', opt_json (dl_dataset_manifest_reference (ln_data l))),
           (''dataset_checksum'', opt_json (dl_dataset_checksum (ln_data l))),
           (''calendar_identity'', opt_json (dl_calendar_identity (ln_data l))),
           (''adjustment_mode'', JStr (dl_adjustment_mode (ln_data l))),
           (''normalization_identity'', JStr (dl_normalization_identity (ln_data l)))]),
        (''normalization'', JObj
          [(''normalization_identity'', JStr (nl_identity (ln_normalization l))),
           (''contract'', contract)]),
        (''execution_assumptions'', JObj
          [(''execution_assumptions_identity'', JStr (el_assumptions_identity (ln_execution l))),
           (''record_identity'', JStr (el_record_identity (ln_execution l)))]),
        (''runtime'', runtime_lineage_document (ln_runtime l))]))"

definition run_manifest_document :: "run_manifest \<Rightarrow> bool \<Rightarrow> exn + json" where
  "run_manifest_document m include_mutable =
     (let entries = map (\<lambda>a. JObj (artifact_contract_document a @
            (if include_mutable
             then [(''availability_state'', JStr (artifact_availability_value (ac_availability a)))]
             else []))) (rm_artifacts m);
          document =
            [(''manifest_schema_version'', JInt (rm_schema_version m)),
             (''run_id'', JStr (rm_run_id m)), (''configuration_id'', JStr (rm_configuration_id m)),
             (''strategy_id'', JStr (rm_strategy_id m)),
             (''strategy_version'', JStr (rm_strategy_version m)), (''artifacts'', JList entries)];
          created = (if include_mutable then [(''created_at'', JStr (rm_created_at m))] else [])
      in
      case rm_lineage m of
        None \<Rightarrow> Inr (JObj (document @ created))
      | Some l \<Rightarrow>
          bindR (run_lineage_document l) (\<lambda>ld. Inr (JObj (document @ [(''lineage'', ld)] @ created))))"

definition serialize_run_manifest :: "run_manifest \<Rightarrow> exn + string" where
  "serialize_run_manifest m = bindR (run_manifest_document m True) canonical_json"

definition run_manifest_checksum :: "(string \<Rightarrow> string) \<Rightarrow> run_manifest \<Rightarrow> exn + string" where
  "run_manifest_checksum sha m =
     bindR (run_manifest_document m False) (\<lambda>doc. bindR (canonical_json doc) (\<lambda>t. Inr (sha t)))"

text \<open>The checksum a stored manifest text should carry: its document without what may change.\<close>

definition immutable_artifact :: "string \<Rightarrow> json \<Rightarrow> exn + json" where
  "immutable_artifact message j =
     (case j of
        JObj kvs \<Rightarrow> Inr (JObj (dict_pop ''availability_state'' kvs))
      | _ \<Rightarrow> Inl (ValueError message))"

definition persisted_manifest_checksum :: "(string \<Rightarrow> string) \<Rightarrow> string \<Rightarrow> exn + string" where
  "persisted_manifest_checksum sha manifest_json =
     bindR (json_document manifest_json) (\<lambda>document.
     case document of
       JObj kvs \<Rightarrow>
         (let immutable = dict_pop ''created_at'' kvs in
          case map_of immutable ''artifacts'' of
            Some (JList xs) \<Rightarrow>
              bindR (mapR (immutable_artifact ''stored run manifest artifact is not a JSON object'') xs)
                (\<lambda>ys.
              bindR (canonical_json (JObj (dict_put ''artifacts'' (JList ys) immutable))) (\<lambda>t.
              Inr (sha t)))
          | _ \<Rightarrow> Inl (ValueError ''stored run manifest artifacts are not a JSON array''))
     | _ \<Rightarrow> Inl (ValueError ''stored run manifest is not a JSON object''))"

section \<open>What the documents keep\<close>

lemma dict_pop_Cons:
  "dict_pop k (kv # kvs) = (if fst kv = k then dict_pop k kvs else kv # dict_pop k kvs)"
  by (simp add: dict_pop_def)

lemma runtime_contract_no_identity: "dict_pop ''runtime_identity'' (runtime_contract l) = runtime_contract l"
  by (simp add: runtime_contract_def dict_pop_def)

text \<open>
  Reading back the document of a lineage gives the lineage, exactly when its identity is the
  digest of its contract; a document whose identity does not match is refused.
\<close>

lemma runtime_lineage_round_trip:
  assumes "identity sha (JObj (runtime_contract l)) = Inr (rl_identity l)"
  shows "runtime_lineage_from_document sha (runtime_lineage_document l) = Inr l"
proof -
  have "runtime_lineage_fields sha (runtime_lineage_document l) = Inr l"
    using assms
    by (simp add: runtime_lineage_fields_def runtime_lineage_document_def dict_pop_Cons
        runtime_contract_no_identity Let_def)
      (simp add: runtime_contract_def index_def dict_get_def)
  then show ?thesis by (simp add: runtime_lineage_from_document_def)
qed

lemma runtime_lineage_authentic:
  assumes "runtime_lineage_from_document sha (JObj kvs) = Inr l"
  shows "map_of kvs ''runtime_identity'' = Some (JStr (rl_identity l))"
    and "identity sha (JObj (dict_pop ''runtime_identity'' kvs)) = Inr (rl_identity l)"
proof -
  from assms have "runtime_lineage_fields sha (JObj kvs) = Inr l"
    by (auto simp: runtime_lineage_from_document_def split: sum.splits exn.splits)
  then show "map_of kvs ''runtime_identity'' = Some (JStr (rl_identity l))"
    and "identity sha (JObj (dict_pop ''runtime_identity'' kvs)) = Inr (rl_identity l)"
    by (auto simp: runtime_lineage_fields_def index_def Let_def split: option.splits)
qed

text \<open>The fields of a captured lineage hold scalars, which are their own normal forms.\<close>

definition plain_lineage :: "runtime_lineage \<Rightarrow> bool" where
  "plain_lineage l \<longleftrightarrow>
     (\<forall>x \<in> {rl_git_commit_sha l, rl_git_commit_available l, rl_git_dirty_state l,
            rl_git_dirty_available l, rl_git_dirty_entry_count l, rl_git_dirty_fingerprint l,
            rl_python_implementation l, rl_python_version l, rl_python_cache_tag l,
            rl_vectorbtpro_version l, rl_vectorbtpro_available l, rl_package_fingerprint l,
            rl_package_count l, rl_platform_system l, rl_platform_machine l}.
        normalize x = Inr x)"

definition sorted_lineage_document :: "runtime_lineage \<Rightarrow> json" where
  "sorted_lineage_document l =
     JObj
       [(''git'', JObj
          [(''commit_available'', rl_git_commit_available l), (''commit_sha'', rl_git_commit_sha l),
           (''dirty_available'', rl_git_dirty_available l),
           (''dirty_entry_count'', rl_git_dirty_entry_count l),
           (''dirty_fingerprint'', rl_git_dirty_fingerprint l),
           (''dirty_state'', rl_git_dirty_state l)]),
        (''packages'', JObj
          [(''count'', rl_package_count l), (''fingerprint'', rl_package_fingerprint l),
           (''fingerprint_algorithm'', JStr PACKAGE_FINGERPRINT_ALGORITHM)]),
        (''platform'', JObj
          [(''machine'', rl_platform_machine l), (''system'', rl_platform_system l)]),
        (''python'', JObj
          [(''cache_tag'', rl_python_cache_tag l), (''implementation'', rl_python_implementation l),
           (''version'', rl_python_version l)]),
        (''runtime_identity'', JStr (rl_identity l)),
        (''vectorbtpro'', JObj
          [(''available'', rl_vectorbtpro_available l), (''version'', rl_vectorbtpro_version l)])]"

lemma normalize_lineage_document:
  "plain_lineage l \<Longrightarrow> normalize (runtime_lineage_document l) = Inr (sorted_lineage_document l)"
  by (simp add: plain_lineage_def runtime_lineage_document_def runtime_contract_def
      sorted_lineage_document_def)

lemma normalize_lineage_contract:
  "plain_lineage l \<Longrightarrow>
   normalize (JObj (runtime_contract l)) =
     Inr (case sorted_lineage_document l of JObj kvs \<Rightarrow> JObj (dict_pop ''runtime_identity'' kvs))"
  by (simp add: plain_lineage_def runtime_contract_def sorted_lineage_document_def dict_pop_def)

lemma sorted_contract_identity:
  assumes "plain_lineage l"
  shows "identity sha (case sorted_lineage_document l of JObj kvs \<Rightarrow> JObj (dict_pop ''runtime_identity'' kvs))
    = identity sha (JObj (runtime_contract l))"
proof -
  let ?c = "case sorted_lineage_document l of JObj kvs \<Rightarrow> JObj (dict_pop ''runtime_identity'' kvs)"
  have "normalize ?c = Inr ?c"
    using assms by (simp add: plain_lineage_def sorted_lineage_document_def dict_pop_def)
  then show ?thesis
    by (simp add: identity_def canonical_json_def normalize_lineage_contract [OF assms] del: normalize.simps)
qed

lemma lineage_read_normalized:
  assumes "plain_lineage l" and "identity sha (JObj (runtime_contract l)) = Inr (rl_identity l)"
  shows "runtime_lineage_from_document sha (sorted_lineage_document l) = Inr l"
proof -
  have "identity sha (case sorted_lineage_document l of JObj kvs \<Rightarrow> JObj (dict_pop ''runtime_identity'' kvs))
      = Inr (rl_identity l)"
    using assms sorted_contract_identity by simp
  then have "runtime_lineage_fields sha (sorted_lineage_document l) = Inr l"
    by (simp add: runtime_lineage_fields_def sorted_lineage_document_def Let_def index_def
        dict_get_def)
  then show ?thesis by (simp add: runtime_lineage_from_document_def)
qed

text \<open>
  The life of a runtime lineage: captured, frozen into the environment of a new run, stored as
  canonical text, read from the run again. What comes out is what went in.
\<close>

lemma frozen_lineage_read_back:
  assumes "freeze_environment sha (Inr l) (Some env) = Inr vs"
    and "map_of env ''runtime_lineage'' = None" and "distinct_keys (JObj env)"
    and "canonical_json (JObj vs) = Inr (rn_environment_json r)"
    and "plain_lineage l" and "identity sha (JObj (runtime_contract l)) = Inr (rl_identity l)"
    and "distinct_keys (runtime_lineage_document l)"
  shows "runtime_lineage_for_run sha r = Inr l"
proof -
  have vs: "vs = dict_put ''runtime_lineage'' (runtime_lineage_document l) env"
    using assms(1,2) by (simp add: freeze_environment_def environment_with_runtime_lineage_def)
  have fresh: "''runtime_lineage'' \<notin> set (map fst env)"
    using assms(2) by (simp add: map_of_eq_None_iff)
  have dk: "distinct_keys (JObj vs)"
    using assms(3,7) fresh unfolding vs dict_put_fresh [OF fresh] by auto
  then obtain k where k: "normalize (JObj vs) = Inr k" "json_loads (rn_environment_json r) = Some k"
    using canonical_json_read assms(4) by blast
  obtain ms where ms: "k = JObj ms" "\<And>x. same_at (map_of vs x) (map_of ms x)"
    by (rule normalize_JObj_Inr [of vs k]) (use dk k in auto)
  have "map_of ms ''runtime_lineage'' = Some (sorted_lineage_document l)"
    using ms(2) [of "''runtime_lineage''"] normalize_lineage_document [OF assms(5)]
    by (simp add: vs same_at_def)
  with k(2) ms(1) lineage_read_normalized [OF assms(5,6)] show ?thesis
    by (simp add: runtime_lineage_for_run_def json_document_def sorted_lineage_document_def)
qed

section \<open>Manifest checksums\<close>


lemma normalize_opt [simp]:
  "normalize (opt_json v) = Inr (opt_json v)" "normalize (opt_int_json i) = Inr (opt_int_json i)"
  by (cases v; simp) (cases i; simp)

lemma distinct_keys_opt [simp]: "distinct_keys (opt_json v)" "distinct_keys (opt_int_json i)"
  by (cases v; simp) (cases i; simp)

definition sorted_artifact_document :: "json list \<Rightarrow> artifact_contract \<Rightarrow> json" where
  "sorted_artifact_document availability a =
     JObj
       ([(''artifact_id'', JInt (int (ac_id a))),
         (''artifact_type'', JStr (artifact_kind_value (ac_type a)))] @
        map (Pair ''availability_state'') availability @
        [(''checksum'', opt_json (ac_checksum a)),
         (''checksum_algorithm'', opt_json (ac_checksum_algorithm a)),
         (''created_at'', JStr (ac_created_at a)), (''format'', opt_json (ac_format a)),
         (''location'', opt_json (ac_location a)), (''logical_name'', opt_json (ac_logical_name a)),
         (''media_type'', opt_json (ac_media_type a)), (''run_id'', JStr (ac_run_id a)),
         (''schema_version'', JInt (ac_schema_version a)),
         (''size_bytes'', opt_int_json (ac_size_bytes a))])"

lemma normalize_artifact_document:
  "normalize (JObj (artifact_contract_document a)) = Inr (sorted_artifact_document [] a)"
  "normalize (JObj (artifact_contract_document a @ [(''availability_state'', JStr v)])) =
     Inr (sorted_artifact_document [JStr v] a)"
  by (simp_all add: artifact_contract_document_def sorted_artifact_document_def)

lemma immutable_sorted_artifact:
  "immutable_artifact e (sorted_artifact_document [v] a) = Inr (sorted_artifact_document [] a)"
  by (simp add: immutable_artifact_def sorted_artifact_document_def dict_pop_def)

definition sorted_manifest_document ::
  "json list \<Rightarrow> json list \<Rightarrow> json list \<Rightarrow> run_manifest \<Rightarrow> json" where
  "sorted_manifest_document entries created lineage m =
     JObj
       ([(''artifacts'', JList entries), (''configuration_id'', JStr (rm_configuration_id m))] @
        map (Pair ''created_at'') created @ map (Pair ''lineage'') lineage @
        [(''manifest_schema_version'', JInt (rm_schema_version m)),
         (''run_id'', JStr (rm_run_id m)), (''strategy_id'', JStr (rm_strategy_id m)),
         (''strategy_version'', JStr (rm_strategy_version m))])"

lemma normalize_manifest_entries:
  "mapR normalize (map (\<lambda>a. JObj (artifact_contract_document a)) xs) =
     Inr (map (sorted_artifact_document []) xs)"
  "mapR normalize (map (\<lambda>a. JObj (artifact_contract_document a @ [(''availability_state'', JStr (f a))])) xs) =
     Inr (map (\<lambda>a. sorted_artifact_document [JStr (f a)] a) xs)"
  by (induction xs) (simp_all add: normalize_artifact_document del: normalize.simps)

text \<open>The lineage member of a manifest, if there is one, in normal form.\<close>

definition manifest_lineage :: "run_manifest \<Rightarrow> exn + json list" where
  "manifest_lineage m =
     (case rm_lineage m of
        None \<Rightarrow> Inr []
      | Some l \<Rightarrow> bindR (run_lineage_document l) (\<lambda>d. bindR (normalize d) (\<lambda>k. Inr [k])))"

definition normal_manifest :: "bool \<Rightarrow> json list \<Rightarrow> run_manifest \<Rightarrow> json" where
  "normal_manifest mutable lineage m =
     sorted_manifest_document
       (map (\<lambda>a. sorted_artifact_document
          (if mutable then [JStr (artifact_availability_value (ac_availability a))] else []) a)
          (rm_artifacts m))
       (if mutable then [JStr (rm_created_at m)] else []) lineage m"

lemma bindR_assoc: "bindR (bindR m f) g = bindR m (\<lambda>x. bindR (f x) g)"
  by (cases m) simp_all

lemma normalize_manifest_document:
  "bindR (run_manifest_document m mutable) normalize =
   bindR (manifest_lineage m) (\<lambda>ln. Inr (normal_manifest mutable ln m))"
proof (cases "rm_lineage m")
  case None
  then show ?thesis
    by (simp add: run_manifest_document_def manifest_lineage_def normal_manifest_def Let_def
        sorted_manifest_document_def normalize_manifest_entries)
next
  case (Some l)
  show ?thesis
  proof (cases "run_lineage_document l")
    case (Inr ld)
    show ?thesis
      using Some Inr
      by (cases "normalize ld")
        (simp_all add: run_manifest_document_def manifest_lineage_def normal_manifest_def Let_def
          sorted_manifest_document_def normalize_manifest_entries)
  qed (use Some in \<open>simp add: run_manifest_document_def manifest_lineage_def Let_def\<close>)
qed

lemma mapR_immutable_entries:
  "mapR (immutable_artifact e) (map (\<lambda>a. sorted_artifact_document [f a] a) xs) =
     Inr (map (sorted_artifact_document []) xs)"
  by (induction xs) (simp_all add: immutable_sorted_artifact)

lemma normal_sorted_artifact:
  "normalize (sorted_artifact_document [] a) = Inr (sorted_artifact_document [] a)"
  by (simp add: sorted_artifact_document_def)

lemma json_ok_opt [simp]: "json_ok (opt_json v)" "json_ok (opt_int_json i)"
  by (cases v; simp) (cases i; simp)

lemma json_ok_normal_manifest:
  "\<forall>x \<in> set ln. json_ok x \<Longrightarrow> length ln \<le> 1 \<Longrightarrow> json_ok (normal_manifest mutable ln m)"
  by (cases ln) (auto simp: normal_manifest_def sorted_manifest_document_def sorted_artifact_document_def)

lemma run_lineage_distinct:
  assumes "run_lineage_document l = Inr d" and "distinct_keys (runtime_lineage_document (ln_runtime l))"
  shows "distinct_keys d"
proof -
  from assms(1) obtain c where "json_document (nl_contract_json (ln_normalization l)) = Inr c"
    by (auto simp: run_lineage_document_def)
  then have "distinct_keys c"
    by (auto simp: json_document_def json_loads_distinct_keys split: option.splits)
  with assms \<open>json_document (nl_contract_json (ln_normalization l)) = Inr c\<close> show ?thesis
    by (auto simp: run_lineage_document_def)
qed

lemma manifest_lineage_ok:
  assumes "manifest_lineage m = Inr ln"
    and "\<And>l. rm_lineage m = Some l \<Longrightarrow> distinct_keys (runtime_lineage_document (ln_runtime l))"
  shows "length ln \<le> 1" and "x \<in> set ln \<Longrightarrow> json_ok x" and "x \<in> set ln \<Longrightarrow> normalize x = Inr x"
  using assms
  by (auto simp: manifest_lineage_def split: option.splits)
    (blast intro: normalize_ok normalize_idem run_lineage_distinct)+

text \<open>
  A stored manifest passes its own checksum: the text \<open>persist_run_manifest\<close> writes has, read
  back and stripped of what may change, the digest \<open>persist_run_manifest\<close> computed.
\<close>

lemma stored_manifest_checksum:
  assumes "serialize_run_manifest m = Inr s" and "run_manifest_checksum sha m = Inr c"
    and lineage: "\<And>l. rm_lineage m = Some l \<Longrightarrow> distinct_keys (runtime_lineage_document (ln_runtime l))"
  shows "persisted_manifest_checksum sha s = Inr c"
proof -
  obtain ln where ln: "manifest_lineage m = Inr ln" and s: "s = dumps (normal_manifest True ln m)"
    using assms(1) normalize_manifest_document [of m True]
    by (cases "manifest_lineage m")
      (auto simp: serialize_run_manifest_def canonical_json_def bindR_assoc [symmetric])
  note ok = manifest_lineage_ok [OF ln lineage]
  have c: "c = sha (dumps (normal_manifest False ln m))"
    using assms(2) normalize_manifest_document [of m False] ln
    by (auto simp: run_manifest_checksum_def canonical_json_def bindR_assoc [symmetric])
  have read: "json_loads s = Some (normal_manifest True ln m)"
    unfolding s using ok by (intro json_loads_dumps json_ok_normal_manifest) auto
  have "normalize (normal_manifest False ln m) = Inr (normal_manifest False ln m)"
    using ok(1,3) normal_JListI [of "map (sorted_artifact_document []) (rm_artifacts m)"]
    by (cases ln) (auto simp: normal_manifest_def sorted_manifest_document_def normal_sorted_artifact)
  then have can: "canonical_json (normal_manifest False ln m) = Inr (dumps (normal_manifest False ln m))"
    by (simp add: canonical_json_def)
  then show ?thesis
    unfolding c persisted_manifest_checksum_def json_document_def read using ok(1)
    by (cases ln) (auto simp: normal_manifest_def sorted_manifest_document_def Let_def
        dict_pop_def mapR_immutable_entries simp del: normalize.simps dumps.simps)
qed

end
