(* ===== verification/Artifact_Store.thy ===== *)
theory Artifact_Store
  imports Lineage
begin

text \<open>
  The artifact operations of \<open>persistence/service.py\<close>: registering an artifact under its
  content digest, checking the file behind a registered artifact, storing a run manifest and
  retrieving a run's artifacts only when manifest, database and checksums agree. The file
  system is a parameter: how it resolves a path, which paths exist, and what they hold; every
  question put to it may raise (a symlink loop, a directory that may not be searched).
\<close>

section \<open>Paths and files\<close>

text \<open>The parts \<open>pathlib\<close> gives a POSIX path: components without empty ones and dots.\<close>

fun split_slash :: "string \<Rightarrow> string list" where
  "split_slash [] = [[]]"
| "split_slash (c # cs) =
     (case split_slash cs of
        [] \<Rightarrow> [[c]]
      | p # ps \<Rightarrow> if c = CHR ''/'' then [] # p # ps else (c # p) # ps)"

definition path_parts :: "string \<Rightarrow> string list" where
  "path_parts s = filter (\<lambda>p. p \<noteq> [] \<and> p \<noteq> ''.'') (split_slash s)"

definition is_absolute :: "string \<Rightarrow> bool" where
  "is_absolute s \<longleftrightarrow> (case s of [] \<Rightarrow> False | c # _ \<Rightarrow> c = CHR ''/'')"

definition path_text :: "string list \<Rightarrow> string" where
  "path_text ps = (if ps = [] then ''/'' else concat (map (\<lambda>p. CHR ''/'' # p) ps))"

record file_system =
  fs_resolve :: "string list \<Rightarrow> exn + string list"
  fs_exists :: "string list \<Rightarrow> exn + bool"
  fs_is_file :: "string list \<Rightarrow> exn + bool"
  fs_read :: "string list \<Rightarrow> exn + string"

section \<open>Registration\<close>

definition artifact_identity ::
  "(string \<Rightarrow> string) \<Rightarrow> string \<Rightarrow> artifact_kind \<Rightarrow> string \<Rightarrow> int \<Rightarrow> exn + string" where
  "artifact_identity sha run_id artifact_type logical_name schema_version =
     identity sha (JObj
       [(''run_id'', JStr run_id), (''artifact_type'', JStr (artifact_kind_value artifact_type)),
        (''logical_name'', JStr logical_name), (''schema_version'', JInt schema_version)])"

text \<open>
  \<open>sha\<close> digests a text, \<open>sha_bytes\<close> the bytes of an artifact. The content is the byte string
  the caller passes or its stream yields.
\<close>

definition register_artifact ::
  "(string \<Rightarrow> string) \<Rightarrow> (string \<Rightarrow> string) \<Rightarrow> string \<Rightarrow> string \<Rightarrow> artifact_kind \<Rightarrow> string \<Rightarrow> string \<Rightarrow>
   string \<Rightarrow> string \<Rightarrow> string \<Rightarrow> int \<Rightarrow> artifact_availability \<Rightarrow> db \<Rightarrow> (exn + artifact_contract) \<times> db" where
  "register_artifact sha sha_bytes now run_id artifact_type logical_name media_type format location
     content schema_version availability_state d =
     (if logical_name = [] \<or> media_type = [] \<or> format = [] \<or> location = [] \<or> schema_version < 1
      then (Inl (ValueError ''artifact metadata must be non-empty and schema_version positive''), d)
      else
        (case artifact_identity sha run_id artifact_type logical_name schema_version of
           Inl e \<Rightarrow> (Inl e, d)
         | Inr identity_key \<Rightarrow>
             transaction (register_artifact_contract now run_id artifact_type logical_name
               schema_version media_type format (sha_bytes content) (int (length content)) location
               availability_state identity_key) d))"

section \<open>Validation\<close>

definition validation ::
  "artifact_contract \<Rightarrow> artifact_availability \<Rightarrow> bool \<Rightarrow> string \<Rightarrow> string option \<Rightarrow> int option \<Rightarrow>
   string option \<Rightarrow> artifact_validation" where
  "validation a state valid reason actual_checksum actual_size resolved =
     \<lparr>av_artifact_id = ac_id a, av_availability = state, av_valid = valid, av_reason = reason,
      av_expected_checksum = ac_checksum a, av_actual_checksum = actual_checksum,
      av_expected_size = ac_size_bytes a, av_actual_size = actual_size, av_resolved_path = resolved\<rparr>"

definition validate_contract ::
  "(string \<Rightarrow> string) \<Rightarrow> file_system \<Rightarrow> string list \<Rightarrow> artifact_contract \<Rightarrow> exn + artifact_validation" where
  "validate_contract sha_bytes fs artifact_root a =
     bindR (fs_resolve fs artifact_root) (\<lambda>root.
     case ac_location a of
       None \<Rightarrow> Inl (TypeError ''expected str, bytes or os.PathLike object, not NoneType'')
     | Some location \<Rightarrow>
         if is_absolute location \<or> ''..'' \<in> set (path_parts location)
         then Inr (validation a AV_CORRUPT False ''unsafe_artifact_location'' None None None)
         else
           bindR (fs_resolve fs (root @ path_parts location)) (\<lambda>candidate.
           if \<not> prefix root candidate
           then Inr (validation a AV_CORRUPT False ''artifact_location_escapes_root'' None None None)
           else
             let resolved = Some (path_text candidate) in
             bindR (fs_exists fs candidate) (\<lambda>found.
             if \<not> found
             then Inr (validation a AV_MISSING False ''artifact_missing'' None None resolved)
             else
               bindR (fs_is_file fs candidate) (\<lambda>regular.
               if \<not> regular
               then Inr (validation a AV_CORRUPT False ''artifact_not_regular_file'' None None resolved)
               else
                 bindR (fs_read fs candidate) (\<lambda>content.
                 let checksum = sha_bytes content; size = int (length content) in
                 if Some size \<noteq> ac_size_bytes a
                 then Inr (validation a AV_CORRUPT False ''artifact_size_mismatch''
                        (Some checksum) (Some size) resolved)
                 else if Some checksum \<noteq> ac_checksum a
                 then Inr (validation a AV_CORRUPT False ''artifact_checksum_mismatch''
                        (Some checksum) (Some size) resolved)
                 else Inr (validation a AV_AVAILABLE True ''validated''
                        (Some checksum) (Some size) resolved))))))"

definition validate_artifact ::
  "(string \<Rightarrow> string) \<Rightarrow> file_system \<Rightarrow> string list \<Rightarrow> nat \<Rightarrow> db \<Rightarrow> exn + artifact_validation" where
  "validate_artifact sha_bytes fs artifact_root artifact_id d =
     bindR (get_artifact_contract artifact_id d) (validate_contract sha_bytes fs artifact_root)"

section \<open>Manifests in the database\<close>

definition manifest_get :: "string \<Rightarrow> db \<Rightarrow> manifest_row option" where
  "manifest_get run_id d = tget mf_run_id run_id (manifests d)"

definition put_manifest :: "manifest_row \<Rightarrow> db \<Rightarrow> exn + db" where
  "put_manifest r d =
     (case manifest_get (mf_run_id r) d of
        Some _ \<Rightarrow> Inr (d\<lparr>manifests := tupd mf_run_id (mf_run_id r) (\<lambda>_. r) (manifests d)\<rparr>)
      | None \<Rightarrow>
          bindR (guardR (run_get (mf_run_id r) d \<noteq> None) fk_error) (\<lambda>_.
          Inr (d\<lparr>manifests := manifests d @ [r]\<rparr>)))"

definition build_run_manifest ::
  "(string \<Rightarrow> string) \<Rightarrow> string \<Rightarrow> string \<Rightarrow> string option \<Rightarrow> db \<Rightarrow> exn + run_manifest" where
  "build_run_manifest sha now run_id created_at d =
     (case run_get run_id d of
        None \<Rightarrow> Inl (KeyError (''unknown run '' @ run_id))
      | Some r \<Rightarrow>
          bindR (get_run_lineage sha run_id d) (\<lambda>l.
          bindR (list_artifact_contracts run_id d) (\<lambda>arts.
          Inr \<lparr>rm_schema_version = RUN_MANIFEST_SCHEMA_VERSION, rm_run_id = rn_id r,
               rm_configuration_id = rn_configuration_id r, rm_strategy_id = rn_strategy_id r,
               rm_strategy_version = rn_strategy_version r, rm_lineage = Some l,
               rm_artifacts = arts, rm_created_at = str_or created_at now\<rparr>)))"

definition persist_run_manifest :: "(string \<Rightarrow> string) \<Rightarrow> run_manifest \<Rightarrow> db \<Rightarrow> (exn + unit) \<times> db" where
  "persist_run_manifest sha m d =
     (case bindR (serialize_run_manifest m) (\<lambda>s. bindR (run_manifest_checksum sha m) (\<lambda>c. Inr (s, c))) of
        Inl e \<Rightarrow> (Inl e, d)
      | Inr (serialized, checksum) \<Rightarrow>
          transaction
            (bindB (readB (manifest_get (rm_run_id m))) (\<lambda>existing.
             bindB (liftB (guardR (case existing of None \<Rightarrow> True | Some e \<Rightarrow> mf_checksum e = checksum)
               (ValueError ''persisted run manifest conflicts with proposed immutable lineage''))) (\<lambda>_.
             updB (put_manifest
               \<lparr>mf_run_id = rm_run_id m, mf_schema_version = rm_schema_version m,
                mf_json = serialized, mf_checksum = checksum, mf_created_at = rm_created_at m\<rparr>)))) d)"

definition read_persisted_run_manifest :: "string \<Rightarrow> db \<Rightarrow> (string \<times> string) option" where
  "read_persisted_run_manifest run_id d =
     map_option (\<lambda>r. (mf_json r, mf_checksum r)) (manifest_get run_id d)"

definition EXCLUDED_LOGICAL_NAMES :: "string list" where
  "EXCLUDED_LOGICAL_NAMES = [''evidence_decision_record'', ''review_context'']"

definition retrieve_run_artifacts ::
  "(string \<Rightarrow> string) \<Rightarrow> (string \<Rightarrow> string) \<Rightarrow> file_system \<Rightarrow> string list \<Rightarrow> string \<Rightarrow> db \<Rightarrow>
   exn + run_artifact_retrieval" where
  "retrieve_run_artifacts sha sha_bytes fs artifact_root run_id d =
     (case run_get run_id d of
        None \<Rightarrow> Inl (KeyError (''unknown run '' @ run_id))
      | Some _ \<Rightarrow>
     (case read_persisted_run_manifest run_id d of
        None \<Rightarrow> Inl (RuntimeError (''run '' @ run_id @ '' has no persisted manifest''))
      | Some (manifest_json, manifest_checksum) \<Rightarrow>
     bindR (json_document manifest_json) (\<lambda>doc.
     bindR (guardR (case doc of JObj _ \<Rightarrow> True | _ \<Rightarrow> False)
       (ValueError ''stored run manifest is not a JSON object'')) (\<lambda>_.
     bindR (guardR (jget ''run_id'' doc = JStr run_id)
       (ValueError (''stored run manifest identity does not match requested run '' @ run_id))) (\<lambda>_.
     bindR (persisted_manifest_checksum sha manifest_json) (\<lambda>computed.
     bindR (guardR (computed = manifest_checksum)
       (ValueError (''stored run manifest checksum mismatch for run '' @ run_id))) (\<lambda>_.
     bindR (list_artifact_contracts run_id d) (\<lambda>arts.
     (case jget ''artifacts'' doc of
        JList entries \<Rightarrow>
          bindR (mapR (immutable_artifact ''stored run manifest artifact is not a JSON object'') entries)
            (\<lambda>manifest_artifacts.
          let database_artifacts =
                map (\<lambda>a. JObj (artifact_contract_document a))
                  (filter (\<lambda>a. ac_logical_name a \<notin> Some ` set EXCLUDED_LOGICAL_NAMES) arts)
          in
          bindR (canonical_json (JList manifest_artifacts)) (\<lambda>a.
          bindR (canonical_json (JList database_artifacts)) (\<lambda>b.
          bindR (guardR (a = b)
            (ValueError (''stored run manifest artifacts do not match database records for run '' @ run_id)))
            (\<lambda>_.
          bindR (mapR (\<lambda>x. validate_artifact sha_bytes fs artifact_root (ac_id x) d) arts) (\<lambda>vs.
          Inr \<lparr>ra_run_id = run_id, ra_manifest_json = manifest_json,
               ra_manifest_checksum = manifest_checksum, ra_artifacts = arts,
               ra_validations = vs\<rparr>)))))
      | _ \<Rightarrow> Inl (ValueError ''stored run manifest artifacts are not a JSON array''))))))))))"

end
