(* ===== verification/Db_History.thy ===== *)
theory Db_History
  imports Artifact_Store
begin

text \<open>
  How the database may change, as two relations carried through every repository method by the
  interface \<open>evolution\<close>: \<open>extends\<close> (what was recorded stays recorded: events and audits are
  append-only, configurations and result rows never change, run and submission identities are
  fixed and their states move only along the life cycles) and \<open>keeps_ok\<close> (the well-formedness
  \<open>db_ok\<close> of keys, references and rows).
\<close>

section \<open>Tables that grow\<close>

text \<open>The old rows are still there, in place and related by \<open>P\<close>; new ones come after them.\<close>

definition grows :: "('r \<Rightarrow> 'r \<Rightarrow> bool) \<Rightarrow> 'r list \<Rightarrow> 'r list \<Rightarrow> bool" where
  "grows P xs ys \<longleftrightarrow> (\<exists>ys1 ys2. ys = ys1 @ ys2 \<and> list_all2 P xs ys1)"

lemma grows_refl: "(\<And>r. P r r) \<Longrightarrow> grows P xs xs"
  by (auto simp: grows_def list_all2_refl intro: exI [of _ xs])

lemma grows_append: "(\<And>r. P r r) \<Longrightarrow> grows P xs (xs @ zs)"
  by (auto simp: grows_def list_all2_refl)

lemma grows_tupd: "(\<And>r. P r r) \<Longrightarrow> (\<And>r. r \<in> set xs \<Longrightarrow> key r = k \<Longrightarrow> P r (f r)) \<Longrightarrow> grows P xs (tupd key k f xs)"
  unfolding grows_def tupd_def
  by (intro exI [of _ "map (\<lambda>r. if key r = k then f r else r) xs"] exI [of _ "[]"])
    (auto simp: list.rel_map intro!: list.rel_refl_strong)

lemma grows_trans:
  assumes "\<And>a b c. P a b \<Longrightarrow> P b c \<Longrightarrow> P a c" and "grows P xs ys" and "grows P ys zs"
  shows "grows P xs zs"
proof -
  from assms(2) obtain y1 y2 where y: "ys = y1 @ y2" "list_all2 P xs y1" by (auto simp: grows_def)
  from assms(3) obtain z1 z2 where z: "zs = z1 @ z2" "list_all2 P ys z1" by (auto simp: grows_def)
  from y(1) z(2) obtain u v where u: "z1 = u @ v" "list_all2 P y1 u" by (auto simp: list_all2_append1)
  have "list_all2 P xs u" using y(2) u(2) by (rule list_all2_trans [OF assms(1), rotated 2]) auto
  with z(1) u(1) show ?thesis by (auto simp: grows_def)
qed

lemma grows_member: "grows P xs ys \<Longrightarrow> r \<in> set xs \<Longrightarrow> \<exists>r' \<in> set ys. P r r'"
  by (auto simp: grows_def list_all2_conv_all_nth in_set_conv_nth nth_append intro!: bexI)

lemma grows_tget:
  assumes "grows P xs ys" and "tget key k xs = Some r" and "\<And>a b. P a b \<Longrightarrow> key b = key a"
  shows "\<exists>r'. tget key k ys = Some r' \<and> P r r'"
proof -
  from assms(1) obtain y1 y2 where y: "ys = y1 @ y2" "list_all2 P xs y1" by (auto simp: grows_def)
  from y(2) assms(2) have "\<exists>r'. tget key k y1 = Some r' \<and> P r r'"
    by (induction rule: list_all2_induct) (auto simp: assms(3) split: if_splits)
  with y(1) show ?thesis by (auto simp: tget_append)
qed

lemma grows_eq_prefix: "grows (=) xs ys \<longleftrightarrow> prefix xs ys"
  by (auto simp: grows_def prefix_def list.rel_eq)

section \<open>How a row may change\<close>

definition status_moves :: "run_status \<Rightarrow> run_status \<Rightarrow> bool" where
  "status_moves s t \<longleftrightarrow> s = t \<or> t \<in> set (RUN_STATUS_TRANSITIONS s)
     \<or> (\<exists>u \<in> set (RUN_STATUS_TRANSITIONS s). t \<in> set (RUN_STATUS_TRANSITIONS u))"

definition run_moves :: "run \<Rightarrow> run \<Rightarrow> bool" where
  "run_moves r r' \<longleftrightarrow>
     rn_id r' = rn_id r \<and> rn_configuration_id r' = rn_configuration_id r \<and>
     rn_strategy_id r' = rn_strategy_id r \<and> rn_strategy_version r' = rn_strategy_version r \<and>
     rn_stage r' = rn_stage r \<and>
     (rn_status r \<noteq> CREATED \<longrightarrow> rn_environment_json r' = rn_environment_json r) \<and>
     rn_created_at r' = rn_created_at r \<and> rn_attempt_count r \<le> rn_attempt_count r' \<and>
     status_moves (rn_status r) (rn_status r') \<and>
     (rn_started_at r \<notin> {None, Some []} \<longrightarrow> rn_started_at r' = rn_started_at r) \<and>
     (terminal (rn_status r) \<longrightarrow>
        rn_started_at r' = rn_started_at r \<and> rn_completed_at r' = rn_completed_at r \<and>
        rn_error_summary r' = rn_error_summary r)"

fun SUBMISSION_TRANSITIONS :: "submission_state \<Rightarrow> submission_state list" where
  "SUBMISSION_TRANSITIONS SUB_CLAIMED = [SUB_INVOKING, SUB_FAILED_BEFORE_SUBMISSION]"
| "SUBMISSION_TRANSITIONS SUB_INVOKING = [SUB_ACKNOWLEDGED, SUB_SUBMISSION_UNKNOWN]"
| "SUBMISSION_TRANSITIONS SUB_SUBMISSION_UNKNOWN = [SUB_ACKNOWLEDGED, SUB_ABANDONED]"
| "SUBMISSION_TRANSITIONS SUB_ACKNOWLEDGED = []"
| "SUBMISSION_TRANSITIONS SUB_FAILED_BEFORE_SUBMISSION = []"
| "SUBMISSION_TRANSITIONS SUB_ABANDONED = []"

definition submission_edges :: "(submission_state \<times> submission_state) set" where
  "submission_edges = {(s, t). t \<in> set (SUBMISSION_TRANSITIONS s)}"

definition submission_moves :: "submission \<Rightarrow> submission \<Rightarrow> bool" where
  "submission_moves s t \<longleftrightarrow>
     sb_key t = sb_key s \<and> sb_run_id t = sb_run_id s \<and>
     sb_configuration_id t = sb_configuration_id s \<and>
     sb_canonical_request_json t = sb_canonical_request_json s \<and>
     sb_request_fingerprint t = sb_request_fingerprint s \<and> sb_claimed_at t = sb_claimed_at s \<and>
     (sb_state s, sb_state t) \<in> submission_edges\<^sup>* \<and>
     (sb_state s \<in> {SUB_ACKNOWLEDGED, SUB_FAILED_BEFORE_SUBMISSION, SUB_ABANDONED} \<longrightarrow> t = s) \<and>
     (sb_dispatcher s \<noteq> None \<and> sb_state s \<noteq> SUB_CLAIMED \<longrightarrow>
        sb_dispatcher t = sb_dispatcher s \<and> sb_invocation_started_at t = sb_invocation_started_at s)"

definition artifact_moves :: "artifact_row \<Rightarrow> artifact_row \<Rightarrow> bool" where
  "artifact_moves r r' \<longleftrightarrow> (\<exists>a. r' = r\<lparr>ar_availability := a\<rparr>)"

definition manifest_moves :: "manifest_row \<Rightarrow> manifest_row \<Rightarrow> bool" where
  "manifest_moves r r' \<longleftrightarrow> mf_run_id r' = mf_run_id r \<and> mf_checksum r' = mf_checksum r"

definition strategy_moves :: "strategy \<Rightarrow> strategy \<Rightarrow> bool" where
  "strategy_moves r r' \<longleftrightarrow> st_key r' = st_key r \<and> st_created_at r' = st_created_at r"

lemma status_moves_refl [simp]: "status_moves s s"
  by (simp add: status_moves_def)

lemma status_moves_trans: "status_moves a b \<Longrightarrow> status_moves b c \<Longrightarrow> status_moves a c"
  by (cases a; cases b; cases c) (simp_all add: status_moves_def)

lemma status_moves_terminal: "status_moves s t \<Longrightarrow> terminal s \<Longrightarrow> t = s"
  by (cases s; cases t) (simp_all add: status_moves_def)

lemma status_moves_started: "status_moves s t \<Longrightarrow> s \<noteq> CREATED \<Longrightarrow> t \<noteq> CREATED"
  by (cases s; cases t) (simp_all add: status_moves_def)

lemma run_moves_refl [simp]: "run_moves r r"
  by (simp add: run_moves_def)

lemma run_moves_trans: "run_moves a b \<Longrightarrow> run_moves b c \<Longrightarrow> run_moves a c"
  by (auto simp: run_moves_def intro: status_moves_trans
      dest: status_moves_terminal status_moves_started)

lemma submission_moves_refl [simp]: "submission_moves s s"
  by (simp add: submission_moves_def)

lemma submission_edges_from_claimed: "(s, t) \<in> submission_edges\<^sup>* \<Longrightarrow> s \<noteq> SUB_CLAIMED \<Longrightarrow> t \<noteq> SUB_CLAIMED"
proof (induction rule: rtrancl_induct)
  case (step y z)
  then show ?case by (cases y) (auto simp: submission_edges_def)
qed simp

lemma submission_moves_trans: "submission_moves a b \<Longrightarrow> submission_moves b c \<Longrightarrow> submission_moves a c"
  using submission_edges_from_claimed [of "sb_state a" "sb_state b"]
  by (auto simp: submission_moves_def intro: rtrancl_trans)

lemma artifact_moves_refl [simp]: "artifact_moves r r"
  by (auto simp: artifact_moves_def intro: exI [of _ "ar_availability r"])

lemma artifact_moves_trans: "artifact_moves a b \<Longrightarrow> artifact_moves b c \<Longrightarrow> artifact_moves a c"
  by (auto simp: artifact_moves_def)

lemma manifest_moves_refl [simp]: "manifest_moves r r"
  by (simp add: manifest_moves_def)

lemma strategy_moves_refl [simp]: "strategy_moves r r"
  by (simp add: strategy_moves_def)

section \<open>The history relation\<close>

definition extends :: "db \<Rightarrow> db \<Rightarrow> bool" where
  "extends d d' \<longleftrightarrow>
     prefix (events d) (events d') \<and> prefix (audits d) (audits d') \<and>
     prefix (configurations d) (configurations d') \<and>
     prefix (parameter_results d) (parameter_results d') \<and>
     prefix (provenances d) (provenances d') \<and> prefix (assumptions d) (assumptions d') \<and>
     grows strategy_moves (strategies d) (strategies d') \<and>
     grows run_moves (runs d) (runs d') \<and>
     grows submission_moves (submissions d) (submissions d') \<and>
     grows artifact_moves (artifacts d) (artifacts d') \<and>
     grows manifest_moves (manifests d) (manifests d') \<and>
     next_event d \<le> next_event d' \<and> next_artifact d \<le> next_artifact d' \<and>
     next_audit d \<le> next_audit d'"

lemma extends_refl [simp]: "extends d d"
  by (simp add: extends_def grows_refl)

lemma extends_trans: "extends a b \<Longrightarrow> extends b c \<Longrightarrow> extends a c"
  unfolding extends_def
  by (auto intro: prefix_order.trans
      grows_trans [OF run_moves_trans] grows_trans [OF submission_moves_trans]
      grows_trans [OF artifact_moves_trans] grows_trans [of strategy_moves]
      grows_trans [of manifest_moves] simp: strategy_moves_def manifest_moves_def)

section \<open>The statements extend the history\<close>

lemmas grow_simps = grows_refl grows_append

lemma insert_extends:
  "ins_strategy r1 d = Inr d' \<Longrightarrow> extends d d'"
  "ins_configuration r2 d = Inr d' \<Longrightarrow> extends d d'"
  "ins_draft r3 d = Inr d' \<Longrightarrow> extends d d'"
  "upd_draft k3 f3 d = Inr d' \<Longrightarrow> extends d d'"
  "ins_run r4 d = Inr d' \<Longrightarrow> extends d d'"
  "ins_event r5 d = Inr d' \<Longrightarrow> extends d d'"
  "ins_submission r6 d = Inr d' \<Longrightarrow> extends d d'"
  "ins_parameter_result r7 d = Inr d' \<Longrightarrow> extends d d'"
  "ins_provenance r8 d = Inr d' \<Longrightarrow> extends d d'"
  "ins_assumptions r9 d = Inr d' \<Longrightarrow> extends d d'"
  "ins_artifact r10 d = Inr d' \<Longrightarrow> extends d d'"
  by (auto simp: extends_def grow_simps ins_strategy_def ins_configuration_Inr ins_draft_Inr
      upd_draft_Inr ins_run_Inr ins_event_Inr ins_submission_Inr ins_parameter_result_def
      ins_provenance_def ins_assumptions_def ins_artifact_Inr tput_Inr_iff split: option.splits)

lemma update_extends:
  "(\<And>r. st_key r = k1 \<Longrightarrow> strategy_moves r (f1 r)) \<Longrightarrow> extends d (upd_strategy k1 f1 d)"
  "(\<And>r. r \<in> set (runs d) \<Longrightarrow> rn_id r = k2 \<Longrightarrow> run_moves r (f2 r)) \<Longrightarrow> extends d (upd_run k2 f2 d)"
  "(\<And>r. artifact_moves r (f3 r)) \<Longrightarrow> extends d (upd_artifact k3 f3 d)"
  "extends d (del_unlinked_draft k4 d)"
  "extends d (ins_audit a d)"
  "extends d (put_review v d)"
  by (auto simp: extends_def grow_simps upd_strategy_def upd_run_def upd_artifact_def
      del_unlinked_draft_def ins_audit_def put_review_def intro!: grows_tupd split: option.splits)

section \<open>Well-formed databases\<close>

definition run_ok :: "run \<Rightarrow> bool" where
  "run_ok r \<longleftrightarrow>
     (rn_status r = CREATED \<longrightarrow> rn_started_at r = None \<and> rn_completed_at r = None) \<and>
     (rn_status r = RUNNING \<longrightarrow> rn_started_at r \<noteq> None \<and> rn_completed_at r = None) \<and>
     (terminal (rn_status r) \<longrightarrow> rn_completed_at r \<noteq> None) \<and> 0 \<le> rn_attempt_count r"

fun submission_ok :: "submission \<Rightarrow> bool" where
  "submission_ok s \<longleftrightarrow>
     (case sb_state s of
        SUB_CLAIMED \<Rightarrow>
          sb_dispatcher s = None \<and> sb_invocation_started_at s = None \<and> sb_acknowledged_at s = None \<and>
          sb_prefect_flow_run_id s = None \<and> sb_unknown_at s = None \<and> sb_resolved_at s = None \<and>
          sb_unknown_evidence s = None
      | SUB_INVOKING \<Rightarrow>
          sb_dispatcher s \<noteq> None \<and> sb_invocation_started_at s \<noteq> None \<and> sb_acknowledged_at s = None \<and>
          sb_prefect_flow_run_id s = None \<and> sb_unknown_at s = None \<and> sb_resolved_at s = None \<and>
          sb_unknown_evidence s = None
      | SUB_ACKNOWLEDGED \<Rightarrow>
          sb_dispatcher s \<noteq> None \<and> sb_invocation_started_at s \<noteq> None \<and> sb_acknowledged_at s \<noteq> None \<and>
          sb_prefect_flow_run_id s \<noteq> None \<and> sb_resolved_at s = None
      | SUB_SUBMISSION_UNKNOWN \<Rightarrow>
          sb_dispatcher s \<noteq> None \<and> sb_invocation_started_at s \<noteq> None \<and> sb_acknowledged_at s = None \<and>
          sb_prefect_flow_run_id s = None \<and> sb_unknown_at s \<noteq> None \<and> sb_resolved_at s = None
      | SUB_FAILED_BEFORE_SUBMISSION \<Rightarrow>
          sb_dispatcher s = None \<and> sb_invocation_started_at s = None \<and> sb_acknowledged_at s = None \<and>
          sb_prefect_flow_run_id s = None \<and> sb_unknown_at s = None \<and> sb_resolved_at s \<noteq> None
      | SUB_ABANDONED \<Rightarrow>
          sb_dispatcher s \<noteq> None \<and> sb_invocation_started_at s \<noteq> None \<and> sb_acknowledged_at s = None \<and>
          sb_prefect_flow_run_id s = None \<and> sb_unknown_at s \<noteq> None \<and> sb_resolved_at s \<noteq> None \<and>
          sb_resolution_evidence s \<noteq> None)"

text \<open>Keys and unique indexes.\<close>

definition prefect_ids_unique :: "submission list \<Rightarrow> bool" where
  "prefect_ids_unique ss \<longleftrightarrow>
     (\<forall>s \<in> set ss. \<forall>t \<in> set ss. sb_prefect_flow_run_id s \<noteq> None \<longrightarrow>
        sb_prefect_flow_run_id s = sb_prefect_flow_run_id t \<longrightarrow> sb_key s = sb_key t)"

definition keys_ok :: "db \<Rightarrow> bool" where
  "keys_ok d \<longleftrightarrow>
     distinct (map st_key (strategies d)) \<and> distinct (map cf_id (configurations d)) \<and>
     distinct (map cf_hash (configurations d)) \<and> distinct (map dr_id (idea_drafts d)) \<and>
     distinct (map rn_id (runs d)) \<and> distinct (map sb_key (submissions d)) \<and>
     distinct (map sb_run_id (submissions d)) \<and> distinct (map pr_key (parameter_results d)) \<and>
     distinct (map dp_run_id (provenances d)) \<and> distinct (map ex_run_id (assumptions d)) \<and>
     distinct (map mf_run_id (manifests d)) \<and> distinct (map rv_key (reviews d)) \<and>
     distinct (map ev_id (events d)) \<and> distinct (map ar_id (artifacts d)) \<and>
     distinct (map ra_id (audits d)) \<and>
     (\<forall>e \<in> set (events d). ev_id e < next_event d) \<and>
     (\<forall>r \<in> set (artifacts d). ar_id r < next_artifact d) \<and>
     (\<forall>r \<in> set (audits d). ra_id r < next_audit d) \<and>
     prefect_ids_unique (submissions d)"

text \<open>Foreign keys.\<close>

definition refs_ok :: "db \<Rightarrow> bool" where
  "refs_ok d \<longleftrightarrow>
     (\<lambda>c. (cf_strategy_id c, cf_strategy_version c)) ` set (configurations d) \<subseteq> st_key ` set (strategies d) \<and>
     rn_configuration_id ` set (runs d) \<subseteq> cf_id ` set (configurations d) \<and>
     (\<lambda>r. (rn_strategy_id r, rn_strategy_version r)) ` set (runs d) \<subseteq> st_key ` set (strategies d) \<and>
     Option.these (dr_configuration_id ` set (idea_drafts d)) \<subseteq> cf_id ` set (configurations d) \<and>
     sb_run_id ` set (submissions d) \<subseteq> rn_id ` set (runs d) \<and>
     sb_configuration_id ` set (submissions d) \<subseteq> cf_id ` set (configurations d) \<and>
     ev_run_id ` set (events d) \<subseteq> rn_id ` set (runs d) \<and>
     pr_run_id ` set (parameter_results d) \<subseteq> rn_id ` set (runs d) \<and>
     dp_run_id ` set (provenances d) \<subseteq> rn_id ` set (runs d) \<and>
     ex_run_id ` set (assumptions d) \<subseteq> rn_id ` set (runs d) \<and>
     ar_run_id ` set (artifacts d) \<subseteq> rn_id ` set (runs d) \<and>
     mf_run_id ` set (manifests d) \<subseteq> rn_id ` set (runs d)"

definition rows_ok :: "db \<Rightarrow> bool" where
  "rows_ok d \<longleftrightarrow>
     (\<forall>r \<in> set (runs d). run_ok r) \<and>
     (\<forall>s \<in> set (submissions d). submission_ok s \<and> submission_check s) \<and>
     (\<forall>r \<in> set (idea_drafts d). draft_check r)"

definition db_ok :: "db \<Rightarrow> bool" where
  "db_ok d \<longleftrightarrow> keys_ok d \<and> refs_ok d \<and> rows_ok d"

declare submission_ok.simps [simp del]

lemma empty_db_ok: "db_ok empty_db"
  by (simp add: db_ok_def keys_ok_def refs_ok_def rows_ok_def empty_db_def prefect_ids_unique_def)

text \<open>One step of the database: from a well-formed state to a well-formed one, keeping history.\<close>

definition evolves :: "db \<Rightarrow> db \<Rightarrow> bool" where
  "evolves d d' \<longleftrightarrow> (db_ok d \<longrightarrow> db_ok d' \<and> extends d d')"

interpretation evo: evolution evolves
  by unfold_locales (auto simp: evolves_def intro: extends_trans)

lemma get_member:
  "strategy_get sid ver d = None \<longleftrightarrow> (sid, ver) \<notin> st_key ` set (strategies d)"
  "configuration_get cid d = None \<longleftrightarrow> cid \<notin> cf_id ` set (configurations d)"
  "run_get k d = None \<longleftrightarrow> k \<notin> rn_id ` set (runs d)"
  "submission_get k d = None \<longleftrightarrow> k \<notin> sb_key ` set (submissions d)"
  "submission_get_for_run k d = None \<longleftrightarrow> k \<notin> sb_run_id ` set (submissions d)"
  "idea_get k d = None \<longleftrightarrow> k \<notin> dr_id ` set (idea_drafts d)"
  by (simp_all add: strategy_get_def configuration_get_def run_get_def submission_get_def
      submission_get_for_run_def idea_get_def tget_None_iff)

text \<open>The parts of \<open>db_ok\<close> the proofs below use.\<close>

lemma db_ok_parts:
  assumes "db_ok d"
  shows "distinct (map dr_id (idea_drafts d))" "distinct (map rn_id (runs d))"
    "distinct (map sb_key (submissions d))" "distinct (map sb_run_id (submissions d))"
    "distinct (map ar_id (artifacts d))" "distinct (map cf_id (configurations d))"
    "distinct (map ev_id (events d))"
    "prefect_ids_unique (submissions d)" "\<forall>r \<in> set (runs d). run_ok r"
    "\<forall>s \<in> set (submissions d). submission_ok s" "\<forall>r \<in> set (artifacts d). ar_id r < next_artifact d"
    "\<forall>e \<in> set (events d). ev_id e < next_event d"
    "Option.these (dr_configuration_id ` set (idea_drafts d)) \<subseteq> cf_id ` set (configurations d)"
    "rn_configuration_id ` set (runs d) \<subseteq> cf_id ` set (configurations d)"
    "(\<lambda>r. (rn_strategy_id r, rn_strategy_version r)) ` set (runs d) \<subseteq> st_key ` set (strategies d)"
    "sb_run_id ` set (submissions d) \<subseteq> rn_id ` set (runs d)"
    "\<forall>s \<in> set (submissions d). submission_check s"
  using assms by (simp_all add: db_ok_def keys_ok_def refs_ok_def rows_ok_def)

lemma db_okI: "keys_ok d \<Longrightarrow> refs_ok d \<Longrightarrow> rows_ok d \<Longrightarrow> db_ok d"
  by (simp add: db_ok_def)

lemma ins_strategy_ok:
  assumes "ins_strategy r d = Inr d'" and "db_ok d"
  shows "db_ok d'"
proof (rule db_okI)
  show "keys_ok d'"
    using assms by (clarsimp simp: ins_strategy_def tput_Inr_iff tget_None_iff db_ok_def keys_ok_def)
  show "refs_ok d'"
    using assms by (clarsimp simp: ins_strategy_def tput_Inr_iff tget_None_iff db_ok_def refs_ok_def subset_insertI2 split: option.splits)
  show "rows_ok d'"
    using assms by (clarsimp simp: ins_strategy_def tput_Inr_iff tget_None_iff db_ok_def rows_ok_def)
qed

lemma ins_configuration_ok:
  assumes "ins_configuration r d = Inr d'" and "db_ok d"
  shows "db_ok d'"
proof (rule db_okI)
  show "keys_ok d'"
    using assms by (clarsimp simp: ins_configuration_Inr get_member tget_None_iff db_ok_def keys_ok_def)
  show "refs_ok d'"
    using assms by (clarsimp simp: ins_configuration_Inr get_member tget_None_iff db_ok_def refs_ok_def subset_insertI2 split: option.splits)
  show "rows_ok d'"
    using assms by (clarsimp simp: ins_configuration_Inr get_member tget_None_iff db_ok_def rows_ok_def)
qed

lemma ins_draft_ok:
  assumes "ins_draft r d = Inr d'" and "db_ok d"
  shows "db_ok d'"
proof (rule db_okI)
  show "keys_ok d'"
    using assms by (clarsimp simp: ins_draft_Inr get_member draft_fk_def db_ok_def keys_ok_def)
  show "refs_ok d'"
    using assms by (clarsimp simp: ins_draft_Inr get_member draft_fk_def db_ok_def refs_ok_def subset_insertI2 split: option.splits)
  show "rows_ok d'"
    using assms by (clarsimp simp: ins_draft_Inr get_member draft_fk_def db_ok_def rows_ok_def)
qed

lemma ins_run_ok:
  assumes "ins_run r d = Inr d'" and "db_ok d" and "run_ok r"
  shows "db_ok d'"
proof (rule db_okI)
  show "keys_ok d'"
    using assms by (clarsimp simp: ins_run_Inr get_member db_ok_def keys_ok_def)
  show "refs_ok d'"
    using assms by (clarsimp simp: ins_run_Inr get_member db_ok_def refs_ok_def subset_insertI2 split: option.splits)
  show "rows_ok d'"
    using assms by (clarsimp simp: ins_run_Inr get_member db_ok_def rows_ok_def)
qed

lemma fresh_above: "\<forall>e \<in> set es. f e < (n :: nat) \<Longrightarrow> n \<notin> f ` set es"
  by auto

lemma bounded_Suc: "\<forall>e \<in> A. f e < (n :: nat) \<Longrightarrow> \<forall>e \<in> A. f e < Suc n"
  using less_SucI by blast

lemma ins_event_ok:
  assumes "ins_event r d = Inr d'" and "db_ok d"
  shows "db_ok d'"
proof -
  have d': "run_get (ev_run_id r) d \<noteq> None"
    "d' = d\<lparr>events := events d @ [r\<lparr>ev_id := next_event d\<rparr>], next_event := next_event d + 1\<rparr>"
    using assms(1) by (simp_all add: ins_event_Inr)
  have "keys_ok d'"
    using assms(2) fresh_above [of "events d" ev_id] bounded_Suc [of "set (events d)" ev_id]
    by (clarsimp simp: d' db_ok_def keys_ok_def)
  moreover have "refs_ok d'" "rows_ok d'"
    using assms(2) d'(1) by (simp_all add: d'(2) db_ok_def refs_ok_def rows_ok_def get_member)
  ultimately show ?thesis by (clarsimp simp: db_ok_def)
qed

lemma ins_artifact_ok:
  assumes "ins_artifact r d = Inr d'" and "db_ok d"
  shows "db_ok d'"
proof -
  have d': "run_get (ar_run_id r) d \<noteq> None"
    "d' = d\<lparr>artifacts := artifacts d @ [r\<lparr>ar_id := next_artifact d\<rparr>], next_artifact := next_artifact d + 1\<rparr>"
    using assms(1) by (simp_all add: ins_artifact_Inr)
  have "keys_ok d'"
    using assms(2) fresh_above [of "artifacts d" ar_id] bounded_Suc [of "set (artifacts d)" ar_id]
    by (clarsimp simp: d' db_ok_def keys_ok_def)
  moreover have "refs_ok d'" "rows_ok d'"
    using assms(2) d'(1) by (simp_all add: d'(2) db_ok_def refs_ok_def rows_ok_def get_member)
  ultimately show ?thesis by (clarsimp simp: db_ok_def)
qed

lemma ins_audit_ok: "db_ok d \<Longrightarrow> db_ok (ins_audit r d)"
  using fresh_above [of "audits d" ra_id] bounded_Suc [of "set (audits d)" ra_id]
  by (clarsimp simp: ins_audit_def db_ok_def keys_ok_def refs_ok_def rows_ok_def)

lemma prefect_ids_append:
  assumes "prefect_ids_unique ss" and "sb_prefect_flow_run_id r = None"
  shows "prefect_ids_unique (ss @ [r])"
  unfolding prefect_ids_unique_def
proof (intro ballI impI)
  fix s t
  assume st: "s \<in> set (ss @ [r])" "t \<in> set (ss @ [r])" "sb_prefect_flow_run_id s \<noteq> None"
    "sb_prefect_flow_run_id s = sb_prefect_flow_run_id t"
  have "x \<in> set ss" if "x \<in> set (ss @ [r])" "sb_prefect_flow_run_id x \<noteq> None" for x
    using that assms(2) by auto
  then have "s \<in> set ss" "t \<in> set ss" using st by metis+
  with assms(1) st(3,4) show "sb_key s = sb_key t" unfolding prefect_ids_unique_def by blast
qed

lemma ins_submission_ok:
  assumes "ins_submission r d = Inr d'" and "db_ok d" and "submission_ok r"
    and "sb_prefect_flow_run_id r = None"
  shows "db_ok d'"
proof (rule db_okI)
  have "prefect_ids_unique (submissions d @ [r])"
    by (rule prefect_ids_append [OF db_ok_parts(8) [OF assms(2)] assms(4)])
  then show "keys_ok d'"
    using assms(1,2) by (clarsimp simp: ins_submission_Inr get_member db_ok_def keys_ok_def)
  show "refs_ok d'"
    using assms(1,2) by (clarsimp simp: ins_submission_Inr get_member db_ok_def refs_ok_def subset_insertI2 split: option.splits)
  show "rows_ok d'"
    using assms(1-3) by (clarsimp simp: ins_submission_Inr db_ok_def rows_ok_def)
qed

lemma ins_parameter_result_ok:
  assumes "ins_parameter_result r d = Inr d'" and "db_ok d"
  shows "db_ok d'"
proof (rule db_okI)
  show "keys_ok d'"
    using assms by (clarsimp simp: ins_parameter_result_def tput_Inr_iff tget_None_iff get_member db_ok_def keys_ok_def)
  show "refs_ok d'"
    using assms by (clarsimp simp: ins_parameter_result_def tput_Inr_iff tget_None_iff get_member db_ok_def refs_ok_def subset_insertI2 split: option.splits)
  show "rows_ok d'"
    using assms by (clarsimp simp: ins_parameter_result_def tput_Inr_iff tget_None_iff get_member db_ok_def rows_ok_def)
qed

lemma ins_provenance_ok:
  assumes "ins_provenance r d = Inr d'" and "db_ok d"
  shows "db_ok d'"
proof (rule db_okI)
  show "keys_ok d'"
    using assms by (clarsimp simp: ins_provenance_def tput_Inr_iff tget_None_iff get_member db_ok_def keys_ok_def)
  show "refs_ok d'"
    using assms by (clarsimp simp: ins_provenance_def tput_Inr_iff tget_None_iff get_member db_ok_def refs_ok_def subset_insertI2 split: option.splits)
  show "rows_ok d'"
    using assms by (clarsimp simp: ins_provenance_def tput_Inr_iff tget_None_iff get_member db_ok_def rows_ok_def)
qed

lemma ins_assumptions_ok:
  assumes "ins_assumptions r d = Inr d'" and "db_ok d"
  shows "db_ok d'"
proof (rule db_okI)
  show "keys_ok d'"
    using assms by (clarsimp simp: ins_assumptions_def tput_Inr_iff tget_None_iff get_member db_ok_def keys_ok_def)
  show "refs_ok d'"
    using assms by (clarsimp simp: ins_assumptions_def tput_Inr_iff tget_None_iff get_member db_ok_def refs_ok_def subset_insertI2 split: option.splits)
  show "rows_ok d'"
    using assms by (clarsimp simp: ins_assumptions_def tput_Inr_iff tget_None_iff get_member db_ok_def rows_ok_def)
qed

text \<open>Updates keep the keys of the rows they change.\<close>

lemma set_tupd: "r' \<in> set (tupd key k f xs) \<Longrightarrow> \<exists>r \<in> set xs. r' = r \<or> key r = k \<and> r' = f r"
  by (auto simp: tupd_def)

lemma image_tupd: "(\<And>r. g (f r) = g r) \<Longrightarrow> g ` set (tupd key k f xs) = g ` set xs"
  by (induction xs) auto

lemma map_tupd: "(\<And>r. g (f r) = g r) \<Longrightarrow> map g (tupd key k f xs) = map g xs"
  by (auto simp: tupd_def)

lemma upd_strategy_ok: "(\<And>r. st_key (f r) = st_key r) \<Longrightarrow> db_ok d \<Longrightarrow> db_ok (upd_strategy k f d)"
  by (simp add: upd_strategy_def db_ok_def keys_ok_def refs_ok_def rows_ok_def map_tupd image_tupd)

lemma upd_run_ok:
  assumes "db_ok d" and "\<And>r. rn_id (f r) = rn_id r"
    and "\<And>r. r \<in> set (runs d) \<Longrightarrow> rn_id r = k \<Longrightarrow> run_ok r \<Longrightarrow> run_ok (f r) \<and>
      rn_configuration_id (f r) = rn_configuration_id r \<and>
      (rn_strategy_id (f r), rn_strategy_version (f r)) = (rn_strategy_id r, rn_strategy_version r)"
  shows "db_ok (upd_run k f d)"
proof -
  have keys: "keys_ok (upd_run k f d)"
    using assms(1,2) by (simp add: upd_run_def db_ok_def keys_ok_def map_tupd)
  have old: "\<forall>r \<in> set (runs d). run_ok r" using assms(1) by (simp add: db_ok_def rows_ok_def)
  have rows: "rows_ok (upd_run k f d)"
    using assms(1,3) by (auto simp: upd_run_def db_ok_def rows_ok_def dest!: set_tupd)
  have "\<exists>r \<in> set (runs d). rn_configuration_id r' = rn_configuration_id r \<and>
      rn_strategy_id r' = rn_strategy_id r \<and> rn_strategy_version r' = rn_strategy_version r"
    if "r' \<in> set (tupd rn_id k f (runs d))" for r'
    using set_tupd [OF that] assms(3) old by fastforce
  then have "rn_configuration_id ` set (tupd rn_id k f (runs d)) \<subseteq> rn_configuration_id ` set (runs d)"
    "(\<lambda>r. (rn_strategy_id r, rn_strategy_version r)) ` set (tupd rn_id k f (runs d))
       \<subseteq> (\<lambda>r. (rn_strategy_id r, rn_strategy_version r)) ` set (runs d)"
    by (force simp: image_iff)+
  then have "rn_configuration_id ` set (tupd rn_id k f (runs d)) \<subseteq> cf_id ` set (configurations d)"
    "(\<lambda>r. (rn_strategy_id r, rn_strategy_version r)) ` set (tupd rn_id k f (runs d))
       \<subseteq> st_key ` set (strategies d)"
    using db_ok_parts(14,15) [OF assms(1)] by (blast intro: subset_trans)+
  then have "refs_ok (upd_run k f d)"
    using assms(1,2) by (simp add: upd_run_def db_ok_def refs_ok_def image_tupd)
  with keys rows show ?thesis by (simp add: db_ok_def)
qed

lemma upd_draft_ok:
  assumes "upd_draft k f d = Inr d'" and "\<And>r. dr_id (f r) = dr_id r" and "db_ok d"
  shows "db_ok d'"
proof (cases "idea_get k d")
  case None
  with assms show ?thesis by (simp add: upd_draft_Inr)
next
  case (Some r)
  with assms(1) have d': "draft_check (f r)" "draft_fk (f r) d"
    "d' = d\<lparr>idea_drafts := tupd dr_id k f (idea_drafts d)\<rparr>" by (simp_all add: upd_draft_Inr)
  have r: "r \<in> set (idea_drafts d)" "dr_id r = k"
    using Some tget_SomeD unfolding idea_get_def by fastforce+
  have uniq: "x = r" if "x \<in> set (idea_drafts d)" "dr_id x = k" for x
    using that r db_ok_parts(1) [OF assms(3)] by (auto simp: distinct_map inj_on_def)
  have mem: "x \<in> set (idea_drafts d) \<or> x = f r" if "x \<in> set (tupd dr_id k f (idea_drafts d))" for x
    using set_tupd [OF that] uniq by auto
  have "keys_ok d'" using assms(2,3) by (simp add: d' db_ok_def keys_ok_def map_tupd)
  moreover have "\<forall>x \<in> set (tupd dr_id k f (idea_drafts d)). draft_check x"
    using mem d'(1) assms(3) unfolding db_ok_def rows_ok_def by blast
  then have "rows_ok d'" using assms(3) by (simp add: d'(3) db_ok_def rows_ok_def)
  moreover have refs: "c \<in> cf_id ` set (configurations d)"
    if "x \<in> set (idea_drafts d)" "dr_configuration_id x = Some c" for x c
    using that db_ok_parts(13) [OF assms(3)] by (force simp: Option.these_def)
  have "c \<in> cf_id ` set (configurations d)"
    if "x \<in> set (tupd dr_id k f (idea_drafts d))" "dr_configuration_id x = Some c" for x c
    using mem [OF that(1)] that(2) d'(2) refs by (auto simp: draft_fk_def get_member)
  then have "Option.these (dr_configuration_id ` set (tupd dr_id k f (idea_drafts d)))
      \<subseteq> cf_id ` set (configurations d)"
    by (auto simp: Option.these_def)
  then have "refs_ok d'" using assms(3) by (simp add: d'(3) db_ok_def refs_ok_def)
  ultimately show ?thesis by (simp add: db_ok_def)
qed

lemma del_draft_ok: "db_ok d \<Longrightarrow> db_ok (del_unlinked_draft k d)"
proof -
  let ?ds = "filter (\<lambda>r. \<not> (dr_id r = k \<and> dr_configuration_id r = None)) (idea_drafts d)"
  assume ok: "db_ok d"
  have "Option.these (dr_configuration_id ` set ?ds) \<subseteq> Option.these (dr_configuration_id ` set (idea_drafts d))"
    by (auto simp: Option.these_def)
  with db_ok_parts(13) [OF ok] have "Option.these (dr_configuration_id ` set ?ds) \<subseteq> cf_id ` set (configurations d)"
    by blast
  with ok show ?thesis
    by (simp add: del_unlinked_draft_def db_ok_def keys_ok_def refs_ok_def rows_ok_def distinct_map_filter)
qed

lemma upd_artifact_ok:
  "(\<And>r. ar_id (f r) = ar_id r) \<Longrightarrow> (\<And>r. ar_run_id (f r) = ar_run_id r) \<Longrightarrow> db_ok d \<Longrightarrow> db_ok (upd_artifact k f d)"
proof -
  assume f: "\<And>r. ar_id (f r) = ar_id r" "\<And>r. ar_run_id (f r) = ar_run_id r" and ok: "db_ok d"
  have "\<forall>r \<in> set (tupd ar_id k f (artifacts d)). ar_id r < next_artifact d"
    using db_ok_parts(11) [OF ok] f(1) by (auto dest!: set_tupd)
  with f ok show ?thesis
    by (simp add: upd_artifact_def db_ok_def keys_ok_def refs_ok_def rows_ok_def map_tupd image_tupd)
qed

lemma keys_tupd_const: "map key (tupd key (key r) (\<lambda>_. r) xs) = map key xs"
  by (induction xs) auto

lemma put_review_ok: "db_ok d \<Longrightarrow> db_ok (put_review r d)"
  by (simp add: put_review_def db_ok_def keys_ok_def refs_ok_def rows_ok_def tget_None_iff
      keys_tupd_const split: option.splits)

end
