(* ===== verification/Db_Evolution.thy ===== *)
theory Db_Evolution
  imports Db_History
begin

text \<open>
  Every repository method is a step of \<open>evolves\<close>: from a well-formed database it reaches a
  well-formed one that extends the history. The rules are collected in \<open>evo_moves\<close>, so that a
  service operation is handled by reading its body.
\<close>

named_theorems evo_moves \<open>bodies that are steps of the database's evolution\<close>

lemmas [evo_moves] = evo.evo_rules

lemma evolvesI: "(db_ok d \<Longrightarrow> db_ok d') \<Longrightarrow> (db_ok d \<Longrightarrow> extends d d') \<Longrightarrow> evolves d d'"
  by (simp add: evolves_def)

section \<open>Statements\<close>

lemma evo_insert [evo_moves]:
  "moves evolves (updB (ins_strategy r1))" "moves evolves (updB (ins_configuration r2))"
  "moves evolves (updB (ins_draft r3))" "moves evolves (updB (ins_event r5))"
  "moves evolves (updB (ins_parameter_result r7))" "moves evolves (updB (ins_provenance r8))"
  "moves evolves (updB (ins_assumptions r9))" "moves evolves (updB (ins_artifact r10))"
  "moves evolves (modB (del_unlinked_draft k4))" "moves evolves (modB (ins_audit a))"
  "moves evolves (modB (put_review v))"
  by (rule evo.moves_upd evo.moves_mod, rule evolvesI;
      (erule insert_extends ins_strategy_ok ins_configuration_ok ins_draft_ok ins_event_ok
         ins_parameter_result_ok ins_provenance_ok ins_assumptions_ok ins_artifact_ok del_draft_ok
         ins_audit_ok put_review_ok, assumption?
       | rule update_extends))+

lemma evo_ins_run [evo_moves]: "run_ok r \<Longrightarrow> moves evolves (updB (ins_run r))"
  by (rule evo.moves_upd, rule evolvesI) (blast intro: ins_run_ok insert_extends)+

lemma evo_ins_submission [evo_moves]:
  "submission_ok r \<Longrightarrow> sb_prefect_flow_run_id r = None \<Longrightarrow> moves evolves (updB (ins_submission r))"
  by (rule evo.moves_upd, rule evolvesI) (blast intro: ins_submission_ok insert_extends)+

lemma evo_upd_draft [evo_moves]:
  "(\<And>r. dr_id (f r) = dr_id r) \<Longrightarrow> moves evolves (updB (upd_draft k f))"
  by (rule evo.moves_upd, rule evolvesI) (blast intro: upd_draft_ok insert_extends)+

lemma evo_upd_strategy [evo_moves]:
  "(\<And>r. strategy_moves r (f r)) \<Longrightarrow> moves evolves (modB (upd_strategy k f))"
  by (rule evo.moves_mod, rule evolvesI)
    (auto intro!: upd_strategy_ok update_extends simp: strategy_moves_def)

lemma evo_upd_artifact [evo_moves]:
  "(\<And>r. artifact_moves r (f r)) \<Longrightarrow> moves evolves (modB (upd_artifact k f))"
proof (rule evo.moves_mod, rule evolvesI)
  fix d
  assume f: "\<And>r. artifact_moves r (f r)"
  have "ar_id (f r) = ar_id r" "ar_run_id (f r) = ar_run_id r" for r
    using f [of r] by (auto simp: artifact_moves_def)
  then show "db_ok d \<Longrightarrow> db_ok (upd_artifact k f d)" by (intro upd_artifact_ok)
  show "extends d (upd_artifact k f d)" using f by (intro update_extends)
qed

lemma evo_assert_row [evo_moves]: "moves evolves (assert_row f)"
  unfolding assert_row_def by (intro evo_moves)

section \<open>Repository methods\<close>

lemma evo_strategy [evo_moves]:
  "moves evolves (strategy_upsert now sid ver nm ds lc act)"
  "moves evolves (strategy_update_lifecycle now sid ver lc act)"
  unfolding strategy_upsert_def strategy_update_lifecycle_def
  by (intro evo_moves; simp add: strategy_moves_def st_key_def)+

lemma evo_configuration [evo_moves]:
  "moves evolves (configuration_upsert sha now doc)"
  "moves evolves (configuration_insert_record sha c)"
  unfolding configuration_upsert_def configuration_insert_record_def by (intro evo_moves)+

lemma evo_idea [evo_moves]:
  "moves evolves (idea_save now k ti de so at no)"
  "moves evolves (idea_set_candidate_packet now k c)"
  "moves evolves (idea_link_configuration now k cid rp)"
  "moves evolves (idea_delete k)"
  unfolding idea_save_def idea_set_candidate_packet_def idea_link_configuration_def idea_delete_def
  by (intro evo_moves; simp)+

lemma evo_run_create [evo_moves]:
  "moves evolves (run_create now k cid sid ver stage status env)"
  unfolding run_create_def
  by (intro evo_moves) (cases status; simp add: run_ok_def)

lemma run_by_key:
  assumes "db_ok d" and "run_get k d = Some r" and "x \<in> set (runs d)" and "rn_id x = k"
  shows "x = r"
  using assms db_ok_parts(2) [OF assms(1)] tget_SomeD [of rn_id k "runs d" r]
  by (auto simp: run_get_def distinct_map inj_on_def)

lemma transition_row_moves:
  "s \<in> set (RUN_STATUS_TRANSITIONS (rn_status r)) \<Longrightarrow> run_moves r (transition_row now s e r)"
  by (cases "rn_status r") (auto simp: run_moves_def transition_row_def status_moves_def opt_or_kept)

lemma transition_row_ok:
  "run_ok r \<Longrightarrow> s \<in> set (RUN_STATUS_TRANSITIONS (rn_status r)) \<Longrightarrow> run_ok (transition_row now s e r)"
  by (cases "rn_status r") (auto simp: run_ok_def transition_row_def opt_or_None)

lemma evo_run_transition [evo_moves]: "moves evolves (run_transition now k s e)"
proof (rule movesI, rule evolvesI)
  fix d x d'
  assume "run_transition now k s e d = Inr (x, d')"
  then obtain r where r: "run_get k d = Some r" "s \<in> set (RUN_STATUS_TRANSITIONS (rn_status r))"
    and d': "d' = upd_run k (transition_row now s e) d" by (auto simp: run_transition_Inr)
  assume ok: "db_ok d"
  note uniq = run_by_key [OF ok r(1)]
  show "db_ok d'"
    unfolding d' using ok
    by (rule upd_run_ok) (use uniq r(2) transition_row_ok in \<open>auto simp: transition_row_def\<close>)
  show "extends d d'"
    unfolding d' using uniq r(2) transition_row_moves by (intro update_extends) blast
qed

lemma evo_run_attempt [evo_moves]: "moves evolves (run_increment_attempt k)"
  unfolding run_increment_attempt_def
  by (intro evo_moves evo.moves_mod evolvesI upd_run_ok update_extends)
    (auto simp: run_ok_def run_moves_def)

lemma evo_event_append [evo_moves]: "moves evolves (event_append now k ty sev msg src at)"
  unfolding event_append_def by (intro evo_moves)

lemma evo_results [evo_moves]:
  "moves evolves (add_parameter_result k row ps ms pos st rej)"
  "moves evolves (set_data_provenance p)" "moves evolves (set_execution_assumptions x)"
  unfolding add_parameter_result_def set_data_provenance_def set_execution_assumptions_def
  by (intro evo_moves)+

lemma evo_artifacts [evo_moves]:
  "moves evolves (get_artifact i)"
  "moves evolves (add_artifact now k ty ver path st av ck)"
  "moves evolves (register_artifact_contract now k kind nm ver mt fm dg sz loc av idk)"
  "moves evolves (update_artifact_availability i av)"
  unfolding get_artifact_def add_artifact_def register_artifact_contract_def
    update_artifact_availability_def
  by (intro evo_moves; auto simp: artifact_moves_def)+

lemma evo_review [evo_moves]: "moves evolves (review_update now tt ti st nt op)"
  unfolding review_update_def by (intro evo_moves)

section \<open>Submissions\<close>

lemma submission_by_key:
  assumes "db_ok d" and "submission_get k d = Some r" and "x \<in> set (submissions d)" and "sb_key x = k"
  shows "x = r"
  using assms db_ok_parts(3) [OF assms(1)] tget_SomeD [of sb_key k "submissions d" r]
  by (auto simp: submission_get_def distinct_map inj_on_def)

lemma map_tupd_on:
  "(\<And>r. r \<in> set xs \<Longrightarrow> key r = k \<Longrightarrow> g (f r) = g r) \<Longrightarrow> map g (tupd key k f xs) = map g xs"
  by (auto simp: tupd_def)

lemma upd_submission_ok:
  assumes ok: "db_ok d" and get: "submission_get k d = Some r" and moves: "submission_moves r (f r)"
    and new: "submission_ok (f r)" and free: "\<not> prefect_id_taken k (f r) d"
  shows "db_ok (d\<lparr>submissions := tupd sb_key k f (submissions d)\<rparr>)"
proof (rule db_okI)
  let ?ss = "tupd sb_key k f (submissions d)"
  note uniq = submission_by_key [OF ok get]
  have same: "sb_key (f r) = sb_key r" "sb_run_id (f r) = sb_run_id r"
    "sb_configuration_id (f r) = sb_configuration_id r"
    "sb_request_fingerprint (f r) = sb_request_fingerprint r"
    using moves by (simp_all add: submission_moves_def)
  have r: "r \<in> set (submissions d)" "sb_key r = k"
    using get tget_SomeD [of sb_key k "submissions d" r] by (auto simp: submission_get_def)
  have maps: "map sb_key ?ss = map sb_key (submissions d)" "map sb_run_id ?ss = map sb_run_id (submissions d)"
    "map sb_configuration_id ?ss = map sb_configuration_id (submissions d)"
    by (rule map_tupd_on; use uniq same in blast)+
  then have sets: "sb_run_id ` set ?ss = sb_run_id ` set (submissions d)"
    "sb_configuration_id ` set ?ss = sb_configuration_id ` set (submissions d)"
    by (simp_all flip: set_map)
  have mem: "x = f r \<or> x \<in> set (submissions d) \<and> sb_key x \<noteq> k" if "x \<in> set ?ss" for x
    using that uniq by (auto simp: tupd_def split: if_splits)
  have "prefect_ids_unique ?ss"
    unfolding prefect_ids_unique_def
  proof (intro ballI impI)
    fix s t
    assume st: "s \<in> set ?ss" "t \<in> set ?ss" "sb_prefect_flow_run_id s \<noteq> None"
      "sb_prefect_flow_run_id s = sb_prefect_flow_run_id t"
    then obtain p where p: "sb_prefect_flow_run_id s = Some p" "sb_prefect_flow_run_id t = Some p"
      by auto
    have clash: "sb_prefect_flow_run_id x \<noteq> Some p"
      if "x \<in> set (submissions d)" "sb_key x \<noteq> k" "sb_prefect_flow_run_id (f r) = Some p" for x
      using free that by (auto simp: prefect_id_taken_def)
    show "sb_key s = sb_key t"
      using mem [OF st(1)] mem [OF st(2)]
    proof (elim disjE)
      assume "s \<in> set (submissions d) \<and> sb_key s \<noteq> k" "t \<in> set (submissions d) \<and> sb_key t \<noteq> k"
      then show ?thesis
        using db_ok_parts(8) [OF ok] st(3,4) unfolding prefect_ids_unique_def by blast
    qed (use clash p in auto)
  qed
  then show "keys_ok (d\<lparr>submissions := ?ss\<rparr>)"
    using ok maps by (simp add: db_ok_def keys_ok_def)
  show "refs_ok (d\<lparr>submissions := ?ss\<rparr>)"
    using ok sets by (simp add: db_ok_def refs_ok_def)
  have "submission_check (f r)"
    using db_ok_parts(17) [OF ok] r(1) same by (simp add: submission_check_def)
  then have "\<forall>s \<in> set ?ss. submission_ok s \<and> submission_check s"
    using mem new db_ok_parts(10,17) [OF ok] by blast
  then show "rows_ok (d\<lparr>submissions := ?ss\<rparr>)"
    using ok by (simp add: db_ok_def rows_ok_def)
qed

lemma upd_submission_extends:
  assumes "db_ok d" and "submission_get k d = Some r" and "submission_moves r (f r)"
  shows "extends d (d\<lparr>submissions := tupd sb_key k f (submissions d)\<rparr>)"
proof -
  have "grows submission_moves (submissions d) (tupd sb_key k f (submissions d))"
    using submission_by_key [OF assms(1,2)] assms(3) by (intro grows_tupd) auto
  then show ?thesis by (simp add: extends_def grow_simps)
qed

lemma evo_upd_submission:
  assumes "\<And>r. sb_state r \<in> set allowed \<Longrightarrow> submission_ok r \<Longrightarrow> submission_moves r (f r) \<and> submission_ok (f r)"
  shows "moves evolves (upd_submission k allowed f)"
proof (rule movesI, rule evolvesI)
  fix d b d'
  assume upd: "upd_submission k allowed f d = Inr (b, d')" and ok: "db_ok d"
  show "db_ok d'" "extends d d'"
  proof -
    have "db_ok d' \<and> extends d d'"
    proof (cases b)
      case True
      with upd obtain r where r: "submission_get k d = Some r" "sb_state r \<in> set allowed"
        "\<not> prefect_id_taken k (f r) d" "d' = d\<lparr>submissions := tupd sb_key k f (submissions d)\<rparr>"
        by (auto simp: upd_submission_Inr)
      have "r \<in> set (submissions d)"
        using r(1) tget_SomeD [of sb_key k "submissions d" r] by (auto simp: submission_get_def)
      then have "submission_moves r (f r)" "submission_ok (f r)"
        using assms r(2) db_ok_parts(10) [OF ok] by blast+
      with ok r show ?thesis by (simp add: upd_submission_ok upd_submission_extends)
    qed (use upd ok in \<open>simp add: upd_submission_Inr\<close>)
    then show "db_ok d'" "extends d d'" by simp_all
  qed
qed

lemma submission_edge: "t \<in> set (SUBMISSION_TRANSITIONS s) \<Longrightarrow> (s, t) \<in> submission_edges\<^sup>*"
  by (auto simp: submission_edges_def)

lemma evo_submission [evo_moves]:
  "moves evolves (set_invoking k disp now)" "moves evolves (set_unknown k now err ev)"
  "moves evolves (set_acknowledged k fr url now)"
  "moves evolves (set_failed_before_submission k now err)"
  "moves evolves (set_abandoned k now err evd)"
  unfolding set_invoking_def set_unknown_def set_acknowledged_def set_failed_before_submission_def
    set_abandoned_def
  by (rule evo_upd_submission; auto simp: submission_ok.simps submission_moves_def submission_edge
      invoking_row_def unknown_row_def acknowledged_row_def failed_row_def abandoned_row_def)+

lemma evo_submission_create [evo_moves]:
  "moves evolves (submission_create key k cid req fp now)"
  unfolding submission_create_def by (intro evo_moves) (simp_all add: submission_ok.simps)

end
