(* ===== verification/Py_Time.thy ===== *)
theory Py_Time
  imports Py_Json
begin

text \<open>
  Dates and timestamps as the code uses \<open>datetime\<close>: the proleptic Gregorian calendar of
  \<open>datetime.date\<close> with its ordinals, and \<open>_parse_utc_timestamp\<close> of
  \<open>persistence/service.py\<close>. \<open>datetime.fromisoformat\<close> is modelled on the extended format
  \<open>YYYY-MM-DD\<close>, one separator, \<open>HH:MM[:SS[.ffffff]]\<close> and an offset \<open>+HH:MM[:SS]\<close>, which
  is the format \<open>isoformat\<close> writes and the database stores; its other formats are refused.
\<close>

section \<open>The calendar\<close>

definition is_leap :: "int \<Rightarrow> bool" where
  "is_leap y \<longleftrightarrow> y mod 4 = 0 \<and> (y mod 100 \<noteq> 0 \<or> y mod 400 = 0)"

definition days_in_month :: "int \<Rightarrow> int \<Rightarrow> int" where
  "days_in_month y m =
     (if m = 2 then (if is_leap y then 29 else 28)
      else if m = 4 \<or> m = 6 \<or> m = 9 \<or> m = 11 then 30 else 31)"

definition valid_date :: "int \<Rightarrow> int \<Rightarrow> int \<Rightarrow> bool" where
  "valid_date y m d \<longleftrightarrow>
     1 \<le> y \<and> y \<le> 9999 \<and> 1 \<le> m \<and> m \<le> 12 \<and> 1 \<le> d \<and> d \<le> days_in_month y m"

definition days_before_year :: "int \<Rightarrow> int" where
  "days_before_year y = (let p = y - 1 in p * 365 + p div 4 - p div 100 + p div 400)"

definition days_before_month :: "int \<Rightarrow> int \<Rightarrow> int" where
  "days_before_month y m =
     [0, 31, 59, 90, 120, 151, 181, 212, 243, 273, 304, 334] ! nat (m - 1)
       + (if 2 < m \<and> is_leap y then 1 else 0)"

definition ordinal :: "int \<Rightarrow> int \<Rightarrow> int \<Rightarrow> int" where
  "ordinal y m d = days_before_year y + days_before_month y m + d"

lemma days_in_month_bounds: "28 \<le> days_in_month y m" "days_in_month y m \<le> 31"
  by (simp_all add: days_in_month_def)

lemma ordinal_epoch: "ordinal 1 1 1 = 1" "ordinal 1970 1 1 = 719163" "ordinal 2024 2 29 = 738945"
  by (simp_all add: ordinal_def days_before_year_def days_before_month_def is_leap_def)

lemma div_step:
  assumes "0 < (n :: int)"
  shows "y div n = (y - 1) div n + (if y mod n = 0 then 1 else 0)"
proof (cases "y mod n = 0")
  case True
  have "y - 1 = n * (y div n - 1) + (n - 1)"
    using mult_div_mod_eq [of n y] True by (simp add: right_diff_distrib)
  then have "(y - 1) div n = y div n - 1" using assms by (intro int_div_pos_eq [of _ _ _ "n - 1"]) auto
  with True show ?thesis by simp
next
  case False
  have "y - 1 = n * (y div n) + (y mod n - 1)" using mult_div_mod_eq [of n y] by simp
  moreover have "0 < y mod n" using False pos_mod_sign [OF assms, of y] by linarith
  moreover have "y mod n < n" using pos_mod_bound [OF assms] .
  ultimately have "(y - 1) div n = y div n" by (intro int_div_pos_eq [of _ _ _ "y mod n - 1"]) auto
  with False show ?thesis by simp
qed

lemma leap_count:
  assumes "a' = a + (if p then 1 else 0)" "b' = b + (if q then 1 else 0)" "c' = c + (if r then 1 else 0)"
    and "r \<Longrightarrow> q" and "q \<Longrightarrow> p"
  shows "y * 365 + a' - b' + c' = (y - 1) * 365 + a - b + c + (if p \<and> (\<not> q \<or> r) then 366 else 365 :: int)"
  using assms by (cases p; cases q; cases r) simp_all

lemma days_before_next_year:
  "days_before_year (y + 1) = days_before_year y + (if is_leap y then 366 else 365)"
proof -
  have e: "y + 1 - 1 = y" by simp
  have "y mod 400 = 0 \<Longrightarrow> y mod 100 = 0" "y mod 100 = 0 \<Longrightarrow> y mod 4 = 0"
    using dvd_trans [of 100 400 y] dvd_trans [of 4 100 y] by (simp_all add: mod_eq_0_iff_dvd)
  note m = this
  show ?thesis
    unfolding days_before_year_def is_leap_def Let_def e
    by (rule leap_count [OF div_step div_step div_step m]) (simp_all only: zero_less_numeral)
qed

section \<open>Timestamps\<close>

definition num2 :: "char \<Rightarrow> char \<Rightarrow> int option" where
  "num2 a b = (if is_digit a \<and> is_digit b then Some (int (10 * digit_val a + digit_val b)) else None)"

text \<open>The first six digits of a fraction, in microseconds.\<close>

definition micros :: "string \<Rightarrow> int" where
  "micros ds = int (digits_val (take 6 (ds @ ''000000'')))"

definition parse_date :: "string \<Rightarrow> (int \<times> string) option" where
  "parse_date s =
     (case s of
        y1 # y2 # y3 # y4 # s1 # m1 # m2 # s2 # d1 # d2 # r \<Rightarrow>
          (case (num2 y1 y2, num2 y3 y4, num2 m1 m2, num2 d1 d2) of
             (Some yh, Some yl, Some m, Some d) \<Rightarrow>
               if s1 = CHR ''-'' \<and> s2 = CHR ''-'' \<and> valid_date (100 * yh + yl) m d
               then Some (ordinal (100 * yh + yl) m d, r) else None
           | _ \<Rightarrow> None)
      | _ \<Rightarrow> None)"

text \<open>A time of day \<open>HH:MM[:SS[.f]]\<close> in microseconds, and what follows it.\<close>

definition parse_clock :: "string \<Rightarrow> (int \<times> string) option" where
  "parse_clock s =
     (case s of
        h1 # h2 # c1 # m1 # m2 # r \<Rightarrow>
          (case (num2 h1 h2, num2 m1 m2) of
             (Some h, Some m) \<Rightarrow>
               if c1 \<noteq> CHR '':'' \<or> h > 23 \<or> m > 59 then None
               else
                 (case r of
                    c2 # s1 # s2 # r' \<Rightarrow>
                      if c2 \<noteq> CHR '':'' then Some ((h * 3600 + m * 60) * 1000000, r)
                      else
                        (case num2 s1 s2 of
                           None \<Rightarrow> None
                         | Some sec \<Rightarrow>
                             if sec > 59 then None
                             else
                               (case r' of
                                  c3 # r'' \<Rightarrow>
                                    if c3 = CHR ''.'' \<or> c3 = CHR '',''
                                    then if takeWhile is_digit r'' = [] then None
                                         else Some ((h * 3600 + m * 60 + sec) * 1000000
                                                + micros (takeWhile is_digit r''), dropWhile is_digit r'')
                                    else Some ((h * 3600 + m * 60 + sec) * 1000000, r')
                                | [] \<Rightarrow> Some ((h * 3600 + m * 60 + sec) * 1000000, [])))
                  | _ \<Rightarrow> Some ((h * 3600 + m * 60) * 1000000, r))
           | _ \<Rightarrow> None)
      | _ \<Rightarrow> None)"

text \<open>The UTC offset: absent, or a sign and a time of day that uses up the text.\<close>

definition parse_offset :: "string \<Rightarrow> int option option" where
  "parse_offset s =
     (case s of
        [] \<Rightarrow> Some None
      | c # r \<Rightarrow>
          if c = CHR ''+'' \<or> c = CHR ''-'' then
            (case parse_clock r of
               Some (us, []) \<Rightarrow> Some (Some (if c = CHR ''-'' then - us else us))
             | _ \<Rightarrow> None)
          else None)"

definition DAY_MICROS :: int where
  "DAY_MICROS = 86400 * 1000000"

text \<open>\<open>datetime.fromisoformat\<close>: microseconds since the first ordinal, and the offset if any.\<close>

definition fromisoformat :: "string \<Rightarrow> (int \<times> int option) option" where
  "fromisoformat s =
     (case parse_date s of
        None \<Rightarrow> None
      | Some (day, []) \<Rightarrow> Some (day * DAY_MICROS, None)
      | Some (day, sep # r) \<Rightarrow>
          (case parse_clock r of
             None \<Rightarrow> None
           | Some (us, r') \<Rightarrow>
               (case parse_offset r' of
                  None \<Rightarrow> None
                | Some off \<Rightarrow> Some (day * DAY_MICROS + us, off))))"

definition zulu :: "string \<Rightarrow> string" where
  "zulu s = concat (map (\<lambda>c. if c = CHR ''Z'' then ''+00:00'' else [c]) s)"

definition parse_utc_timestamp :: "string \<Rightarrow> string \<Rightarrow> exn + int" where
  "parse_utc_timestamp label value =
     (case fromisoformat (zulu value) of
        None \<Rightarrow> Inl (ValueError (label @ '' must be an ISO-8601 UTC timestamp''))
      | Some (us, None) \<Rightarrow> Inl (ValueError (label @ '' must include a UTC offset''))
      | Some (us, Some off) \<Rightarrow> Inr (us - off))"

lemma digit_facts:
  "is_digit (CHR ''0'')" "is_digit (CHR ''1'')" "is_digit (CHR ''7'')" "is_digit (CHR ''9'')"
  "digit_val (CHR ''0'') = 0" "digit_val (CHR ''1'') = 1" "digit_val (CHR ''7'') = 7"
  "digit_val (CHR ''9'') = 9" "\<not> is_digit (CHR ''-'')" "\<not> is_digit (CHR '':'')"
  by (simp_all add: is_digit_def digit_val_def)

lemma parse_utc_example:
  "parse_utc_timestamp l ''1970-01-01T00:00:01Z'' = Inr (719163 * DAY_MICROS + 1000000)"
  by (simp add: parse_utc_timestamp_def fromisoformat_def zulu_def parse_date_def parse_clock_def
      parse_offset_def num2_def digit_facts valid_date_def days_in_month_def ordinal_epoch
      DAY_MICROS_def)

lemma parse_naive_example: "\<exists>e. parse_utc_timestamp l ''1970-01-01T00:00:01'' = Inl e"
  by (simp add: parse_utc_timestamp_def fromisoformat_def zulu_def parse_date_def parse_clock_def
      parse_offset_def num2_def digit_facts valid_date_def days_in_month_def ordinal_epoch)

end
