(* ===== verification/Run_Service.thy ===== *)
theory Run_Service
  imports Db_Evolution Py_Time
begin

text \<open>
  The transactional operations of \<open>PersistenceService\<close> (\<open>persistence/service.py\<close>) that move
  runs through their life cycle, and the strategy, configuration, draft and review operations
  beside them, with \<open>save_candidate_idea\<close> of \<open>persistence/candidate_ideas.py\<close>. Each method
  is \<open>transaction\<close> around its body; the times it reads are its first arguments, in the order
  the code reads them.
\<close>

type_synonym 'a service = "db \<Rightarrow> (exn + 'a) \<times> db"

section \<open>Strategies, configurations, drafts, reviews\<close>

definition register_strategy ::
  "string \<Rightarrow> string \<Rightarrow> string \<Rightarrow> string \<Rightarrow> string \<Rightarrow> strategy_lifecycle \<Rightarrow> bool \<Rightarrow> strategy service" where
  "register_strategy now sid ver name descr lifecycle active =
     transaction (strategy_upsert now sid ver name descr lifecycle active)"

definition update_strategy_lifecycle ::
  "string \<Rightarrow> string \<Rightarrow> string \<Rightarrow> strategy_lifecycle \<Rightarrow> bool \<Rightarrow> strategy service" where
  "update_strategy_lifecycle now sid ver lifecycle active =
     transaction (strategy_update_lifecycle now sid ver lifecycle active)"

definition upsert_configuration :: "(string \<Rightarrow> string) \<Rightarrow> string \<Rightarrow> json \<Rightarrow> configuration service" where
  "upsert_configuration sha now document = transaction (configuration_upsert sha now document)"

text \<open>\<open>fresh\<close> is the text \<open>uuid4().hex\<close> gives when no draft identity is passed.\<close>

definition save_idea_draft ::
  "string \<Rightarrow> stamp \<Rightarrow> string \<Rightarrow> string \<Rightarrow> string \<Rightarrow> string \<Rightarrow> string \<Rightarrow> string option \<Rightarrow>
   idea_draft service" where
  "save_idea_draft fresh now title description source_url attribution notes draft_id =
     transaction (idea_save now (str_or draft_id (''idea_'' @ fresh)) title description source_url
       attribution notes)"

definition delete_idea_draft :: "string \<Rightarrow> bool service" where
  "delete_idea_draft draft_id = transaction (idea_delete draft_id)"

definition set_idea_candidate_packet :: "string \<Rightarrow> string \<Rightarrow> string \<Rightarrow> idea_draft service" where
  "set_idea_candidate_packet now draft_id candidate =
     transaction (idea_set_candidate_packet now draft_id candidate)"

definition link_idea_configuration :: "string \<Rightarrow> string \<Rightarrow> string \<Rightarrow> idea_draft service" where
  "link_idea_configuration now draft_id configuration_id =
     transaction (idea_link_configuration now draft_id configuration_id False)"

definition upsert_idea_configuration ::
  "(string \<Rightarrow> string) \<Rightarrow> string \<Rightarrow> string \<Rightarrow> string \<Rightarrow> json \<Rightarrow> bool \<Rightarrow>
   (idea_draft \<times> configuration) service" where
  "upsert_idea_configuration sha t0 t1 draft_id document replace =
     transaction
       (bindB (configuration_upsert sha t0 document) (\<lambda>c.
        bindB (idea_link_configuration t1 draft_id (cf_id c) replace) (\<lambda>draft.
        retB (draft, c))))"

definition update_review ::
  "string \<Rightarrow> string \<Rightarrow> string \<Rightarrow> review_state \<Rightarrow> string \<Rightarrow> string \<Rightarrow> review service" where
  "update_review now target_type target_id state note operator =
     transaction (review_update now target_type target_id state note operator)"

definition save_candidate_idea ::
  "stamp \<Rightarrow> stamp \<Rightarrow> string \<Rightarrow> string \<Rightarrow> string \<Rightarrow> string \<Rightarrow> string \<Rightarrow> string \<Rightarrow> string \<Rightarrow>
   (idea_draft \<times> bool) service" where
  "save_candidate_idea t0 t1 draft_id title candidate_json description source_url attribution notes =
     transaction
       (bindB (readB (idea_get draft_id)) (\<lambda>existing.
        case existing of
          Some e \<Rightarrow>
            if dr_candidate_json e \<noteq> candidate_json
            then raiseB (ValueError ''candidate identity already has different content'')
            else retB (e, False)
        | None \<Rightarrow>
            bindB (idea_save t0 draft_id title description source_url attribution notes) (\<lambda>_.
            bindB (idea_set_candidate_packet t1 draft_id candidate_json) (\<lambda>draft.
            retB (draft, True)))))"

lemma candidate_saved:
  assumes "save_candidate_idea t0 t1 k ti cj de so at2 no d = (Inr (draft, created), d')"
  shows "idea_get k d' = Some draft \<and> dr_candidate_json draft = cj \<and> (\<not> created \<longrightarrow> d' = d) \<and>
    (created \<longleftrightarrow> idea_get k d = None)"
proof (cases "idea_get k d")
  case None
  with assms obtain d1 x where d1: "idea_save t0 k ti de so at2 no d = Inr (x, d1)"
    and d2: "idea_set_candidate_packet t1 k cj d1 = Inr (draft, d')" and "created"
    by (auto simp: save_candidate_idea_def transaction_Inr_iff)
  from d1 have x: "idea_get k d1 = Some x" by (auto simp: idea_save_def Let_def)
  then have "dr_id x = k" by (auto simp: idea_get_def dest: tget_SomeD)
  from d2 x have get: "idea_get k d' = Some draft"
    and d': "d' = d1\<lparr>idea_drafts := tupd dr_id k (\<lambda>r. r\<lparr>dr_candidate_json := cj, dr_updated_at := t1\<rparr>) (idea_drafts d1)\<rparr>"
    by (auto simp: idea_set_candidate_packet_def upd_draft_Inr split: if_splits)
  have "idea_get k d' = Some (x\<lparr>dr_candidate_json := cj, dr_updated_at := t1\<rparr>)"
    using x by (simp add: d' idea_get_def tget_tupd)
  with get None \<open>created\<close> show ?thesis by auto
next
  case (Some e)
  with assms show ?thesis
    by (auto simp: save_candidate_idea_def transaction_Inr_iff split: if_splits)
qed

section \<open>Creating and moving runs\<close>

definition create_run ::
  "(string \<Rightarrow> string) \<Rightarrow> exn + runtime_lineage \<Rightarrow> string \<Rightarrow> string \<Rightarrow> string \<Rightarrow> string \<Rightarrow> string \<Rightarrow>
   run_stage \<Rightarrow> string option \<Rightarrow> run_status \<Rightarrow> (string \<times> json) list option \<Rightarrow> run service" where
  "create_run sha captured fresh now configuration_id strategy_id strategy_version stage run_id
     status environment =
     transaction
       (bindB (liftB (freeze_environment sha captured environment)) (\<lambda>env.
        run_create now (str_or run_id (''run_'' @ fresh)) configuration_id strategy_id
          strategy_version stage status (Some env)))"

definition create_run_with_event_body ::
  "(string \<Rightarrow> string) \<Rightarrow> exn + runtime_lineage \<Rightarrow> string \<Rightarrow> string \<Rightarrow> string \<Rightarrow> string \<Rightarrow> string \<Rightarrow> run_stage \<Rightarrow>
   string \<Rightarrow> run_status \<Rightarrow> (string \<times> json) list option \<Rightarrow> run_event_type \<Rightarrow> event_severity \<Rightarrow>
   string \<Rightarrow> string \<Rightarrow> (db, run) body" where
  "create_run_with_event_body sha captured now t1 configuration_id strategy_id strategy_version stage
     run_id status environment event_type severity message source =
     bindB (liftB (freeze_environment sha captured environment)) (\<lambda>env.
     bindB (run_create now run_id configuration_id strategy_id strategy_version stage status
       (Some env)) (\<lambda>r.
     bindB (event_append t1 (rn_id r) event_type severity message source (Some (rn_created_at r)))
       (\<lambda>_. retB r)))"

definition create_run_with_operator_event ::
  "(string \<Rightarrow> string) \<Rightarrow> exn + runtime_lineage \<Rightarrow> string \<Rightarrow> string \<Rightarrow> string \<Rightarrow> string \<Rightarrow> string \<Rightarrow> run_stage \<Rightarrow>
   string \<Rightarrow> run_status \<Rightarrow> (string \<times> json) list option \<Rightarrow> run_event_type \<Rightarrow> event_severity \<Rightarrow>
   string \<Rightarrow> string \<Rightarrow> run service" where
  "create_run_with_operator_event sha captured now t1 configuration_id strategy_id strategy_version
     stage run_id status environment event_type severity message source =
     transaction (create_run_with_event_body sha captured now t1 configuration_id strategy_id
       strategy_version stage run_id status environment event_type severity message source)"

definition transition_run :: "string \<Rightarrow> string \<Rightarrow> run_status \<Rightarrow> string option \<Rightarrow> run service" where
  "transition_run now run_id status error_summary =
     transaction (run_transition now run_id status error_summary)"

definition increment_run_attempt :: "string \<Rightarrow> run service" where
  "increment_run_attempt run_id = transaction (run_increment_attempt run_id)"

definition require_active_run_for_completion :: "string \<Rightarrow> db \<Rightarrow> exn + run" where
  "require_active_run_for_completion run_id d =
     (case run_get run_id d of
        None \<Rightarrow> Inl (KeyError (''unknown run '' @ run_id))
      | Some r \<Rightarrow>
          if rn_status r \<noteq> RUNNING
          then Inl (RunCompletionRejectedError (''run '' @ run_id @ '' is ''
            @ run_status_value (rn_status r) @ '' and cannot accept completion output''))
          else Inr r)"

definition transition_with_event_body ::
  "string \<Rightarrow> string \<Rightarrow> string \<Rightarrow> run_status \<Rightarrow> run_event_type \<Rightarrow> event_severity \<Rightarrow> string \<Rightarrow>
   string option \<Rightarrow> string \<Rightarrow> (db, run) body" where
  "transition_with_event_body t0 t1 run_id status event_type severity message error_summary source =
     bindB (run_transition t0 run_id status error_summary) (\<lambda>r.
     bindB (event_append t1 (rn_id r) event_type severity message source
       (Some (str_or (rn_completed_at r) (str_or (rn_started_at r) (rn_created_at r))))) (\<lambda>_.
     retB r))"

definition transition_run_with_operator_event ::
  "string \<Rightarrow> string \<Rightarrow> string \<Rightarrow> run_status \<Rightarrow> run_event_type \<Rightarrow> event_severity \<Rightarrow> string \<Rightarrow>
   string option \<Rightarrow> string \<Rightarrow> run service" where
  "transition_run_with_operator_event t0 t1 run_id status event_type severity message
     error_summary source =
     transaction (transition_with_event_body t0 t1 run_id status event_type severity message
       error_summary source)"

definition append_run_event ::
  "string \<Rightarrow> string \<Rightarrow> run_event_type \<Rightarrow> event_severity \<Rightarrow> string \<Rightarrow> string \<Rightarrow> string option \<Rightarrow>
   run_event service" where
  "append_run_event now run_id event_type severity message source occurred_at =
     transaction (event_append now run_id event_type severity message source occurred_at)"

section \<open>Cancellation\<close>

definition cancellation_event :: "string \<Rightarrow> db \<Rightarrow> bool" where
  "cancellation_event run_id d \<longleftrightarrow>
     (\<exists>e \<in> set (event_list_for_run run_id d). ev_type e = EV_RUN_CANCELLATION_REQUESTED)"

definition cancellation_requested :: "string \<Rightarrow> db \<Rightarrow> exn + bool" where
  "cancellation_requested run_id d =
     (case run_get run_id d of
        None \<Rightarrow> Inl (KeyError (''unknown run '' @ run_id))
      | Some _ \<Rightarrow> Inr (cancellation_event run_id d))"

definition quant_factory :: string where
  "quant_factory = ''quant_factory''"

definition request_run_cancellation :: "string \<Rightarrow> string \<Rightarrow> run service" where
  "request_run_cancellation now run_id =
     transaction
       (bindB (readB (run_get run_id)) (\<lambda>found.
        case found of
          None \<Rightarrow> raiseB (KeyError (''unknown run '' @ run_id))
        | Some r \<Rightarrow>
            if terminal (rn_status r) then retB r
            else if rn_status r \<noteq> RUNNING
            then raiseB (ValueError (''run '' @ run_id @ '' is not active and cannot be cancelled''))
            else
              bindB (readB (cancellation_event run_id)) (\<lambda>asked.
              if asked then retB r
              else
                bindB (event_append now run_id EV_RUN_CANCELLATION_REQUESTED SEV_INFO
                  ''Cancellation requested; waiting for fixture acknowledgement.'' quant_factory None)
                  (\<lambda>_. retB r))))"

definition acknowledge_run_cancellation :: "string \<Rightarrow> string \<Rightarrow> string \<Rightarrow> run service" where
  "acknowledge_run_cancellation t0 t1 run_id =
     transaction
       (bindB (readB (run_get run_id)) (\<lambda>found.
        case found of
          None \<Rightarrow> raiseB (KeyError (''unknown run '' @ run_id))
        | Some r \<Rightarrow>
            if terminal (rn_status r) then retB r
            else if rn_status r \<noteq> RUNNING
            then raiseB (ValueError
              (''run '' @ run_id @ '' is not active and cannot acknowledge cancellation''))
            else
              bindB (readB (cancellation_event run_id)) (\<lambda>asked.
              if \<not> asked then raiseB (ValueError (''run '' @ run_id @ '' has no cancellation request''))
              else
                bindB (run_transition t0 run_id CANCELLED None) (\<lambda>r'.
                bindB (event_append t1 run_id EV_RUN_CANCELLED SEV_INFO
                  ''Run cancelled after fixture acknowledgement.'' quant_factory (rn_completed_at r'))
                  (\<lambda>_. retB r')))))"

section \<open>Timeouts and stale runs\<close>

definition fail_run_for_timeout ::
  "stamp \<Rightarrow> stamp \<Rightarrow> stamp \<Rightarrow> stamp \<Rightarrow> stamp \<Rightarrow> string \<Rightarrow> string \<Rightarrow> string \<Rightarrow> run service" where
  "fail_run_for_timeout t0 t1 t2 t3 t4 run_id timeout_message error_summary =
     transaction
       (bindB (readB (run_get run_id)) (\<lambda>found.
        case found of
          None \<Rightarrow> raiseB (KeyError (''unknown run '' @ run_id))
        | Some r \<Rightarrow>
            if terminal (rn_status r) then retB r
            else
              bindB
                (if rn_status r = CREATED then
                   bindB (run_transition t0 run_id RUNNING None) (\<lambda>s.
                   bindB (event_append t1 (rn_id s) EV_RUN_STARTED SEV_INFO
                     ''Run started through Prefect fixture execution.'' quant_factory
                     (rn_started_at s)) (\<lambda>_. retB s))
                 else retB r) (\<lambda>s.
              bindB (event_append t2 (rn_id s) EV_RUN_TIMED_OUT SEV_ERROR timeout_message
                quant_factory None) (\<lambda>_.
              bindB (run_transition t3 run_id FAILED (Some error_summary)) (\<lambda>f.
              bindB (event_append t4 (rn_id f) EV_RUN_FAILED SEV_ERROR
                ''Run failed; see the Prefect reference for technical details.'' quant_factory
                (rn_completed_at f)) (\<lambda>_.
              retB f))))))"

text \<open>
  One turn of the loop over the fixture runs; a run that is not stale adds nothing. The clock is
  read three times for a recovered run, \<open>clock run_id 0\<close> to \<open>clock run_id 2\<close>.
\<close>

definition recover_stale_run :: "(string \<Rightarrow> nat \<Rightarrow> string) \<Rightarrow> int \<Rightarrow> run \<Rightarrow> (db, run list) body" where
  "recover_stale_run clock cutoff r =
     (if rn_status r \<notin> {CREATED, RUNNING} then retB []
      else
        bindB
          (case (if rn_status r = CREATED then Some (rn_created_at r) else rn_started_at r) of
             None \<Rightarrow> raiseB (RuntimeError (''running run '' @ rn_id r @ '' has no started_at timestamp''))
           | Some reference \<Rightarrow> liftB (parse_utc_timestamp ''run timestamp'' reference)) (\<lambda>stamp.
        if cutoff \<le> stamp then retB []
        else
          bindB (event_append (clock (rn_id r) 0) (rn_id r) EV_RUN_STALE_RECOVERED SEV_ERROR
            (''Stale '' @ run_status_value (rn_status r) @ '' fixture run recovered to failed.'')
            quant_factory None) (\<lambda>_.
          bindB (run_transition (clock (rn_id r) 1) (rn_id r) FAILED
            (Some (''Fixture run remained '' @ run_status_value (rn_status r)
              @ '' beyond the stale recovery cutoff.''))) (\<lambda>f.
          bindB (event_append (clock (rn_id r) 2) (rn_id f) EV_RUN_FAILED SEV_ERROR
            ''Run failed after stale recovery.'' quant_factory (rn_completed_at f)) (\<lambda>_.
          retB [f])))))"

definition recover_stale_fixture_runs :: "(string \<Rightarrow> nat \<Rightarrow> string) \<Rightarrow> string \<Rightarrow> run list service" where
  "recover_stale_fixture_runs clock stale_before d =
     (case parse_utc_timestamp ''stale_before'' stale_before of
        Inl e \<Rightarrow> (Inl e, d)
      | Inr cutoff \<Rightarrow>
          transaction
            (bindB (readB (run_list None None (Some STAGE_FIXTURE))) (\<lambda>rs.
             bindB (forB (recover_stale_run clock cutoff) rs) (\<lambda>recovered.
             retB (concat recovered)))) d)"

section \<open>Every operation is a step of the evolution\<close>

lemma evo_recover [evo_moves]: "moves evolves (recover_stale_run clock cutoff r)"
  unfolding recover_stale_run_def by (intro evo_moves)

lemma evo_create_with_event [evo_moves]:
  "moves evolves (create_run_with_event_body sha cap now t1 cid sid ver stage k st env ty sev msg src)"
  "moves evolves (transition_with_event_body t0 t1 k st ty sev msg err src)"
  unfolding create_run_with_event_body_def transition_with_event_body_def by (intro evo_moves)+

lemma run_service_evolves:
  "evolves d (snd (create_run sha cap fresh now cid sid ver stage rid st env d))"
  "evolves d (snd (create_run_with_operator_event sha cap now t1 cid sid ver stage k st env ty sev msg src d))"
  "evolves d (snd (transition_run now k st err d))"
  "evolves d (snd (transition_run_with_operator_event t0 t1 k st ty sev msg err src d))"
  "evolves d (snd (increment_run_attempt k d))"
  "evolves d (snd (append_run_event now k ty sev msg src at d))"
  "evolves d (snd (request_run_cancellation now k d))"
  "evolves d (snd (acknowledge_run_cancellation t0 t1 k d))"
  "evolves d (snd (fail_run_for_timeout t0 t1 t2 t3 t4 k tm es d))"
  unfolding create_run_def create_run_with_operator_event_def transition_run_def
    transition_run_with_operator_event_def increment_run_attempt_def append_run_event_def
    request_run_cancellation_def acknowledge_run_cancellation_def fail_run_for_timeout_def
  by (rule evo.moves_transaction; intro evo_moves)+

lemma recover_evolves: "evolves d (snd (recover_stale_fixture_runs clock before d))"
proof (cases "parse_utc_timestamp ''stale_before'' before")
  case (Inr cutoff)
  then show ?thesis
    by (simp add: recover_stale_fixture_runs_def) (intro evo.moves_transaction evo_moves)
qed (simp add: recover_stale_fixture_runs_def evo.evo_refl)

lemma record_service_evolves:
  "evolves d (snd (register_strategy now sid ver nm ds lc act d))"
  "evolves d (snd (update_strategy_lifecycle now sid ver lc act d))"
  "evolves d (snd (upsert_configuration sha now doc d))"
  "evolves d (snd (save_idea_draft fresh now ti de so at no did d))"
  "evolves d (snd (delete_idea_draft k d))"
  "evolves d (snd (set_idea_candidate_packet now k c d))"
  "evolves d (snd (link_idea_configuration now k cid d))"
  "evolves d (snd (upsert_idea_configuration sha t0 t1 k doc rp d))"
  "evolves d (snd (update_review now tt tid st nt op d))"
  "evolves d (snd (save_candidate_idea t0 t1 k ti cj de so at no d))"
  unfolding register_strategy_def update_strategy_lifecycle_def upsert_configuration_def
    save_idea_draft_def delete_idea_draft_def set_idea_candidate_packet_def
    link_idea_configuration_def upsert_idea_configuration_def update_review_def
    save_candidate_idea_def
  by (rule evo.moves_transaction; intro evo_moves)+

section \<open>Artifacts and manifests\<close>

definition set_artifact_availability :: "nat \<Rightarrow> artifact_availability \<Rightarrow> artifact_contract service" where
  "set_artifact_availability k availability = transaction (update_artifact_availability k availability)"

lemma register_artifact_evolves:
  "evolves d (snd (register_artifact sha shab now k ty nm mt fm loc content ver av d))"
proof (cases "artifact_identity sha k ty nm ver")
  case (Inr i)
  then show ?thesis
    unfolding register_artifact_def by (auto simp: evo.evo_refl intro!: evo.moves_transaction evo_moves)
qed (simp add: register_artifact_def evo.evo_refl)

lemma availability_evolves: "evolves d (snd (set_artifact_availability k av d))"
  unfolding set_artifact_availability_def by (rule evo.moves_transaction) (intro evo_moves)

lemma manifest_row_unique:
  assumes "db_ok d" and "manifest_get k d = Some e" and "r \<in> set (manifests d)" and "mf_run_id r = k"
  shows "r = e"
proof -
  have "distinct (map mf_run_id (manifests d))" using assms(1) by (simp add: db_ok_def keys_ok_def)
  with assms(2-4) tget_SomeD [of mf_run_id k "manifests d" e] show ?thesis
    by (auto simp: manifest_get_def distinct_map inj_on_def)
qed

lemma put_manifest_ok:
  assumes "put_manifest r d = Inr d'" and "db_ok d"
  shows "db_ok d'"
proof (cases "manifest_get (mf_run_id r) d")
  case None
  then have d': "run_get (mf_run_id r) d \<noteq> None" "d' = d\<lparr>manifests := manifests d @ [r]\<rparr>"
    and fresh: "mf_run_id r \<notin> mf_run_id ` set (manifests d)"
    using assms(1) by (simp_all add: put_manifest_def) (simp add: manifest_get_def tget_None_iff)
  show ?thesis
    using assms(2) d'(1) fresh
    by (simp add: d'(2) db_ok_def keys_ok_def refs_ok_def rows_ok_def get_member)
next
  case (Some e)
  then have d': "d' = d\<lparr>manifests := tupd mf_run_id (mf_run_id r) (\<lambda>_. r) (manifests d)\<rparr>"
    using assms(1) by (simp add: put_manifest_def)
  have "mf_run_id ` set (tupd mf_run_id (mf_run_id r) (\<lambda>_. r) (manifests d)) = mf_run_id ` set (manifests d)"
    using keys_tupd_const [of mf_run_id r "manifests d"] by (simp flip: set_map)
  then show ?thesis
    using assms(2)
    by (simp add: d' db_ok_def keys_ok_def refs_ok_def rows_ok_def keys_tupd_const)
qed

lemma put_manifest_extends:
  assumes "put_manifest r d = Inr d'" and "db_ok d"
    and "\<And>e. manifest_get (mf_run_id r) d = Some e \<Longrightarrow> mf_checksum e = mf_checksum r"
  shows "extends d d'"
proof (cases "manifest_get (mf_run_id r) d")
  case None
  with assms(1) show ?thesis by (auto simp: put_manifest_def extends_def grow_simps)
next
  case (Some e)
  have "grows manifest_moves (manifests d) (tupd mf_run_id (mf_run_id r) (\<lambda>_. r) (manifests d))"
    using manifest_row_unique [OF assms(2) Some] assms(3) [OF Some]
    by (intro grows_tupd) (auto simp: manifest_moves_def)
  with assms(1) Some show ?thesis by (auto simp: put_manifest_def extends_def grow_simps)
qed

lemma persist_manifest_outcome:
  assumes "persist_run_manifest sha m d = (res, d')"
  shows "(\<exists>s c. serialize_run_manifest m = Inr s \<and> run_manifest_checksum sha m = Inr c \<and> res = Inr () \<and>
      (\<forall>e. manifest_get (rm_run_id m) d = Some e \<longrightarrow> mf_checksum e = c) \<and>
      put_manifest \<lparr>mf_run_id = rm_run_id m, mf_schema_version = rm_schema_version m, mf_json = s,
        mf_checksum = c, mf_created_at = rm_created_at m\<rparr> d = Inr d')
    \<or> (\<exists>e. res = Inl e) \<and> d' = d"
  using assms
  by (cases "serialize_run_manifest m"; cases "run_manifest_checksum sha m";
      cases "manifest_get (rm_run_id m) d")
    (auto simp: persist_run_manifest_def transaction_def body_step guardR_def
      split: sum.splits if_splits)

lemma persist_manifest_evolves: "evolves d (snd (persist_run_manifest sha m d))"
proof (cases "persist_run_manifest sha m d")
  case (Pair res d')
  from persist_manifest_outcome [OF Pair] show ?thesis
  proof (elim disjE exE conjE)
    fix s c
    assume c: "\<forall>e. manifest_get (rm_run_id m) d = Some e \<longrightarrow> mf_checksum e = c"
      and put: "put_manifest \<lparr>mf_run_id = rm_run_id m, mf_schema_version = rm_schema_version m,
        mf_json = s, mf_checksum = c, mf_created_at = rm_created_at m\<rparr> d = Inr d'"
    show ?thesis
      using put_manifest_ok [OF put] put_manifest_extends [OF put] c Pair by (auto intro: evolvesI)
  qed (simp add: Pair evo.evo_refl)
qed

section \<open>What the run operations do\<close>

text \<open>Changing one run leaves the others alone; adding an event leaves all runs alone.\<close>

lemma event_append_runs:
  "event_append now k ty sev msg src at d = Inr (e, d') \<Longrightarrow>
   runs d' = runs d \<and> (\<exists>x. events d' = events d @ [x] \<and> ev_run_id x = k \<and> ev_type x = ty
     \<and> ev_severity x = sev \<and> ev_message x = strip msg)"
  by (auto simp: event_append_def Let_def ins_event_Inr)

lemma event_append_get:
  "event_append now k ty sev msg src at d = Inr (e, d') \<Longrightarrow> \<forall>j. run_get j d' = run_get j d"
  by (auto simp: run_get_def dest: event_append_runs)

lemma event_append_ok:
  assumes "run_get k d = Some r" and "strip msg \<noteq> []" and "length (strip msg) \<le> 500"
    and "\<forall>e \<in> set (events d). ev_id e < next_event d"
  obtains e d' where "event_append now k ty sev msg src at d = Inr (e, d')"
proof -
  have "tget ev_id (next_event d) (events d) = None" using assms(4) by (auto simp: tget_None_iff)
  then show ?thesis
    using assms(1-3) that by (simp add: event_append_def Let_def body_step ins_event_def
        assert_row_step tget_append)
qed

lemma upd_run_events [simp]: "events (upd_run k f d) = events d" "next_event (upd_run k f d) = next_event d"
  by (simp_all add: upd_run_def)

lemma transition_get:
  "run_transition now k s e d = Inr (r', d') \<Longrightarrow>
   (\<forall>j. run_get j d' = (if j = k then Some r' else run_get j d)) \<and> events d' = events d"
  by (auto simp: run_transition_Inr run_get_upd)

text \<open>
  A timed-out run ends in a terminal status, and asking again changes nothing: the second call
  returns the same run and writes no event.
\<close>

lemma timeout_terminal:
  assumes "fail_run_for_timeout t0 t1 t2 t3 t4 k tm es d = (Inr r, d')"
  shows "terminal (rn_status r) \<and> run_get k d' = Some r"
  using assms
  unfolding fail_run_for_timeout_def transaction_Inr_iff
  by (auto simp: run_transition_Inr transition_row_def run_get_upd dest!: event_append_get
      split: option.splits if_splits)

lemma timeout_again:
  assumes "run_get k d = Some r" and "terminal (rn_status r)"
  shows "fail_run_for_timeout t0 t1 t2 t3 t4 k tm es d = (Inr r, d)"
  using assms by (simp add: fail_run_for_timeout_def transaction_def body_step)

lemma acknowledge_outcome:
  assumes "acknowledge_run_cancellation t0 t1 k d = (Inr r, d')"
  shows "\<exists>r0. run_get k d = Some r0 \<and> terminal (rn_status r) \<and>
    (terminal (rn_status r0) \<and> r = r0 \<and> d' = d \<or>
     rn_status r0 = RUNNING \<and> cancellation_event k d \<and> r = transition_row t0 CANCELLED None r0 \<and>
     (\<forall>j. run_get j d' = (if j = k then Some r else run_get j d)) \<and>
     (\<exists>x. events d' = events d @ [x] \<and> ev_run_id x = k \<and> ev_type x = EV_RUN_CANCELLED))"
proof -
  from assms obtain r0 where r0: "run_get k d = Some r0"
    and cases: "terminal (rn_status r0) \<and> r = r0 \<and> d' = d \<or>
      (rn_status r0 = RUNNING \<and> cancellation_event k d \<and>
        (\<exists>d1 e. run_transition t0 k CANCELLED None d = Inr (r, d1) \<and>
           event_append t1 k EV_RUN_CANCELLED SEV_INFO
             ''Run cancelled after fixture acknowledgement.'' quant_factory (rn_completed_at r) d1
             = Inr (e, d')))"
    unfolding acknowledge_run_cancellation_def transaction_Inr_iff
    by (auto split: option.splits if_splits)
  from cases show ?thesis
  proof (elim disjE conjE exE)
    fix d1 e
    assume run: "rn_status r0 = RUNNING"
      and c: "cancellation_event k d" and t: "run_transition t0 k CANCELLED None d = Inr (r, d1)"
      and a: "event_append t1 k EV_RUN_CANCELLED SEV_INFO
             ''Run cancelled after fixture acknowledgement.'' quant_factory (rn_completed_at r) d1
             = Inr (e, d')"
    have r: "r = transition_row t0 CANCELLED None r0" using t r0 by (auto simp: run_transition_Inr)
    have d1: "d1 = upd_run k (transition_row t0 CANCELLED None) d" using t by (auto simp: run_transition_Inr)
    have "run_get j d' = run_get j d1" for j using event_append_get [OF a] by simp
    then have "\<forall>j. run_get j d' = (if j = k then Some r else run_get j d)"
      using r0 r by (simp add: d1 run_get_upd)
    moreover have "\<exists>x. events d' = events d @ [x] \<and> ev_run_id x = k \<and> ev_type x = EV_RUN_CANCELLED"
      using event_append_runs [OF a] by (auto simp: d1 upd_run_def)
    moreover have "terminal (rn_status r)" by (simp add: r transition_row_def)
    ultimately show ?thesis using r0 run c r by blast
  qed (use r0 in simp)
qed

section \<open>Stale recovery\<close>

text \<open>The runs the recovery fails, and what each becomes.\<close>

definition reference_time :: "run \<Rightarrow> string option" where
  "reference_time r = (if rn_status r = CREATED then Some (rn_created_at r) else rn_started_at r)"

definition stale :: "int \<Rightarrow> run \<Rightarrow> bool" where
  "stale cutoff r \<longleftrightarrow>
     rn_status r \<in> {CREATED, RUNNING} \<and>
     (\<exists>t stamp. reference_time r = Some t \<and> parse_utc_timestamp ''run timestamp'' t = Inr stamp
        \<and> stamp < cutoff)"

definition recovered_run :: "(string \<Rightarrow> nat \<Rightarrow> string) \<Rightarrow> run \<Rightarrow> run" where
  "recovered_run clock r =
     transition_row (clock (rn_id r) 1) FAILED
       (Some (''Fixture run remained '' @ run_status_value (rn_status r)
          @ '' beyond the stale recovery cutoff.'')) r"

lemma recover_one:
  assumes "recover_stale_run clock cutoff r d = Inr (fs, d')" and "run_get (rn_id r) d = Some r"
  shows "fs = (if stale cutoff r then [recovered_run clock r] else [])"
    and "run_get j d' = (if j = rn_id r \<and> stale cutoff r then Some (recovered_run clock r) else run_get j d)"
proof -
  have "fs = (if stale cutoff r then [recovered_run clock r] else []) \<and>
    run_get j d' = (if j = rn_id r \<and> stale cutoff r then Some (recovered_run clock r) else run_get j d)"
  proof (cases "rn_status r \<in> {CREATED, RUNNING}")
    case False
    then show ?thesis using assms by (simp add: recover_stale_run_def stale_def)
  next
    case True
    with assms(1) obtain t stamp where t: "reference_time r = Some t"
      "parse_utc_timestamp ''run timestamp'' t = Inr stamp"
      by (auto simp: recover_stale_run_def reference_time_def split: option.splits if_splits)
    show ?thesis
    proof (cases "stamp < cutoff")
      case False
      then have "\<not> stale cutoff r" using t by (auto simp: stale_def)
      with assms(1) True t False show ?thesis
        by (auto simp: recover_stale_run_def reference_time_def split: if_splits)
    next
      case c: True
      then have st: "stale cutoff r" using t True by (auto simp: stale_def)
      from assms(1) True t c obtain d1 e1 f d2 e2 where
        e1: "event_append (clock (rn_id r) 0) (rn_id r) EV_RUN_STALE_RECOVERED SEV_ERROR
            (''Stale '' @ run_status_value (rn_status r) @ '' fixture run recovered to failed.'')
            quant_factory None d = Inr (e1, d1)"
        and f: "run_transition (clock (rn_id r) 1) (rn_id r) FAILED
            (Some (''Fixture run remained '' @ run_status_value (rn_status r)
              @ '' beyond the stale recovery cutoff.'')) d1 = Inr (f, d2)"
        and e2: "event_append (clock (rn_id r) 2) (rn_id f) EV_RUN_FAILED SEV_ERROR
            ''Run failed after stale recovery.'' quant_factory (rn_completed_at f) d2 = Inr (e2, d')"
        and fs: "fs = [f]"
        by (auto simp: recover_stale_run_def reference_time_def split: if_splits)
      have g1: "run_get j d1 = run_get j d" for j using event_append_get [OF e1] by simp
      have "f = recovered_run clock r"
        using f assms(2) g1 by (auto simp: run_transition_Inr recovered_run_def)
      then show ?thesis
        using st fs g1 transition_get [OF f] event_append_get [OF e2] by simp
    qed
  qed
  then show "fs = (if stale cutoff r then [recovered_run clock r] else [])"
    and "run_get j d' = (if j = rn_id r \<and> stale cutoff r then Some (recovered_run clock r) else run_get j d)"
    by simp_all
qed

lemma recover_all:
  assumes "forB (recover_stale_run clock cutoff) rs d = Inr (fss, d')"
    and "distinct (map rn_id rs)" and "\<forall>r \<in> set rs. run_get (rn_id r) d = Some r"
  shows "concat fss = map (recovered_run clock) (filter (stale cutoff) rs) \<and>
    (\<forall>r \<in> set rs. run_get (rn_id r) d' = Some (if stale cutoff r then recovered_run clock r else r)) \<and>
    (\<forall>j. j \<notin> rn_id ` set rs \<longrightarrow> run_get j d' = run_get j d)"
  using assms
proof (induction rs arbitrary: d fss)
  case (Cons r rs)
  from Cons.prems(1) obtain fs d1 fss' where one: "recover_stale_run clock cutoff r d = Inr (fs, d1)"
    and rest: "forB (recover_stale_run clock cutoff) rs d1 = Inr (fss', d')" "fss = fs # fss'"
    by auto
  have r: "run_get (rn_id r) d = Some r" using Cons.prems(3) by simp
  note eff = recover_one [OF one r]
  have "\<forall>x \<in> set rs. run_get (rn_id x) d1 = Some x"
    using Cons.prems(2,3) eff(2) by (auto simp: image_iff)
  with Cons.IH [OF rest(1)] Cons.prems(2) have ih:
    "concat fss' = map (recovered_run clock) (filter (stale cutoff) rs)"
    "\<forall>x \<in> set rs. run_get (rn_id x) d' = Some (if stale cutoff x then recovered_run clock x else x)"
    "\<forall>j. j \<notin> rn_id ` set rs \<longrightarrow> run_get j d' = run_get j d1" by auto
  have "run_get (rn_id r) d' = run_get (rn_id r) d1" using ih(3) Cons.prems(2) by simp
  then show ?case
    using ih rest(2) eff r by auto
qed simp

lemma set_run_list:
  "set (run_list None None (Some stage) d) = {r \<in> set (runs d). rn_stage r = stage}"
  by (auto simp: run_list_def)

lemma distinct_sort_key: "distinct (map g xs) \<Longrightarrow> distinct (map g (sort_key f xs))"
  by (simp add: distinct_map)

lemma distinct_run_list: "db_ok d \<Longrightarrow> distinct (map rn_id (run_list None None (Some stage) d))"
  using db_ok_parts(2) [of d]
  by (auto simp: run_list_def order_desc_def distinct_map intro: inj_on_subset)

lemma run_list_get:
  "db_ok d \<Longrightarrow> r \<in> set (runs d) \<Longrightarrow> run_get (rn_id r) d = Some r"
  using db_ok_parts(2) [of d] by (simp add: run_get_def tget_distinct)

text \<open>
  Stale recovery, whole: every fixture run older than the cutoff is failed, every other run is
  as it was, and the runs returned are exactly the recovered ones.
\<close>

lemma recover_stale_outcome:
  assumes "db_ok d" and "recover_stale_fixture_runs clock before d = (Inr fs, d')"
    and "parse_utc_timestamp ''stale_before'' before = Inr cutoff"
  shows "set fs = recovered_run clock ` {r \<in> set (runs d). rn_stage r = STAGE_FIXTURE \<and> stale cutoff r}"
    and "r \<in> set (runs d) \<Longrightarrow> run_get (rn_id r) d' =
      Some (if rn_stage r = STAGE_FIXTURE \<and> stale cutoff r then recovered_run clock r else r)"
proof -
  let ?rs = "run_list None None (Some STAGE_FIXTURE) d"
  from assms(2,3) obtain fss where fss: "forB (recover_stale_run clock cutoff) ?rs d = Inr (fss, d')"
    "fs = concat fss"
    by (auto simp: recover_stale_fixture_runs_def transaction_Inr_iff)
  have get: "\<forall>r \<in> set ?rs. run_get (rn_id r) d = Some r"
    using run_list_get [OF assms(1)] by (auto simp: set_run_list)
  note all = recover_all [OF fss(1) distinct_run_list [OF assms(1)] get]
  then show "set fs = recovered_run clock ` {r \<in> set (runs d). rn_stage r = STAGE_FIXTURE \<and> stale cutoff r}"
    using fss(2) by (auto simp: set_run_list)
  assume r: "r \<in> set (runs d)"
  show "run_get (rn_id r) d' =
      Some (if rn_stage r = STAGE_FIXTURE \<and> stale cutoff r then recovered_run clock r else r)"
  proof (cases "rn_stage r = STAGE_FIXTURE")
    case True
    with all r show ?thesis by (auto simp: set_run_list)
  next
    case False
    have "rn_id r \<notin> rn_id ` set ?rs"
      using False r run_list_get [OF assms(1)] by (auto simp: set_run_list) (metis option.inject)
    with all False run_list_get [OF assms(1) r] show ?thesis by simp
  qed
qed

end
