(* ===== verification/Launch_Claims.thy ===== *)
theory Launch_Claims
  imports Run_Service
begin

text \<open>
  The durable launch service of \<open>orchestration/research_launch_claims.py\<close>. One launch key owns
  at most one run, one submission and one invocation; every refusal leaves the database as it
  was, except for the integrity events an acknowledgement records before it is refused. The
  contract a service was built with, SHA-256, the clock readings and the run-id factory's value
  are arguments. SQLite's contention error is an outcome that changes nothing and is left out.
\<close>

section \<open>Contracts and requests\<close>

record launch_contract =
  lc_protocol_version :: json
  lc_policy :: string
  lc_stage :: run_stage
  lc_lifecycle :: strategy_lifecycle
  lc_stage_field :: string
  lc_created_message :: string
  lc_started_message :: string

definition FIXTURE_LAUNCH_CONTRACT :: launch_contract where
  "FIXTURE_LAUNCH_CONTRACT =
     \<lparr>lc_protocol_version = JInt 1, lc_policy = ''milestone23_infrastructure_fixture_only'',
      lc_stage = STAGE_FIXTURE, lc_lifecycle = SL_INFRASTRUCTURE_FIXTURE,
      lc_stage_field = ''fixture_stage'',
      lc_created_message = ''Run created for durable research fixture submission.'',
      lc_started_message = ''Run started through acknowledged Prefect fixture execution.''\<rparr>"

definition CANDIDATE_SCREENING_LAUNCH_CONTRACT :: launch_contract where
  "CANDIDATE_SCREENING_LAUNCH_CONTRACT =
     \<lparr>lc_protocol_version = JStr ''candidate_screening_v1'',
      lc_policy = ''owner_approved_candidate_screening_only'',
      lc_stage = STAGE_SCREENING, lc_lifecycle = SL_CANDIDATE,
      lc_stage_field = ''candidate_stage'',
      lc_created_message = ''Run created for explicit candidate screening submission.'',
      lc_started_message = ''Run started through acknowledged Prefect candidate screening execution.''\<rparr>"

definition SUPPORTED_LAUNCH_CONTRACTS :: "launch_contract list" where
  "SUPPORTED_LAUNCH_CONTRACTS = [FIXTURE_LAUNCH_CONTRACT, CANDIDATE_SCREENING_LAUNCH_CONTRACT]"

definition ALLOWED_LINEAGE_KEYS :: "string list" where
  "ALLOWED_LINEAGE_KEYS =
     [''parent_run_id'', ''reproduction_of_run_id'', ''source_manifest_checksum'',
      ''source_runtime_identity'', ''source_dataset_identity'',
      ''source_execution_assumptions_identity'']"

text \<open>The operation arrives as text; a lineage mapping is an association list.\<close>

record launch_request =
  rq_operation :: string
  rq_configuration_id :: string
  rq_source_run_id :: "string option"
  rq_source_lineage :: "(string \<times> string) list option"

record launch_claim =
  cm_submission :: submission
  cm_run :: run
  cm_created :: bool

record dispatch_decision =
  dd_submission :: submission
  dd_should_invoke :: bool

record 'v dispatch_result =
  ds_submission :: submission
  ds_invoked :: bool
  ds_value :: "'v option"

section \<open>Validators\<close>

definition key_char :: "char \<Rightarrow> bool" where
  "key_char c \<longleftrightarrow> is_ascii_alnum c \<or> c = CHR ''_'' \<or> c = CHR ''-''"

definition quoted :: "string \<Rightarrow> string" where
  "quoted s = CHR 0x27 # s @ [CHR 0x27]"

definition validate_launch_key :: "string \<Rightarrow> exn + string" where
  "validate_launch_key k =
     (if 16 \<le> length k \<and> length k \<le> 128 \<and> (\<forall>c \<in> set k. key_char c) then Inr k
      else Inl (ResearchLaunchKeyError
        (''research launch key must contain 16-128 letters, digits, '' @ quoted ''_'' @ '' or ''
          @ quoted ''-'')))"

definition run_id_char :: "char \<Rightarrow> bool" where
  "run_id_char c \<longleftrightarrow> is_ascii_alnum c \<or> c \<in> set ''_.:-''"

definition validate_run_id :: "string \<Rightarrow> exn + string" where
  "validate_run_id k =
     (if 1 \<le> length k \<and> length k \<le> 160 \<and> (\<forall>c \<in> set k. run_id_char c) then Inr k
      else Inl (ValueError ''research run ID has an invalid format''))"

text \<open>
  \<open>str(UUID(value)) == value.lower()\<close> holds exactly for 36 characters with hyphens in four
  places and hexadecimal digits, of either case, in the others. The code refuses anything else
  with one of two \<open>ValueError\<close> texts; the model gives the second.
\<close>

definition canonical_uuid :: "string \<Rightarrow> bool" where
  "canonical_uuid v \<longleftrightarrow>
     length v = 36 \<and>
     (\<forall>i \<in> set [0..<36]. if i \<in> {8, 13, 18, 23} then v ! i = CHR ''-'' else hex_val (v ! i) \<noteq> None)"

definition validate_dispatcher_id :: "string \<Rightarrow> exn + string" where
  "validate_dispatcher_id v =
     (if canonical_uuid v then Inr v
      else Inl (ValueError ''dispatcher instance ID must use canonical UUID text''))"

definition bounded_text :: "string \<Rightarrow> nat \<Rightarrow> string \<Rightarrow> exn + string" where
  "bounded_text label maximum value =
     (let v = strip value in
      if v = [] \<or> length v > maximum \<or> (\<exists>c \<in> set v. (of_char c :: nat) < 32)
      then Inl (ValueError (label @ '' must be non-empty printable text up to '' @ nat_str maximum
        @ '' characters''))
      else Inr v)"

fun optional_bounded_text :: "string \<Rightarrow> nat \<Rightarrow> string option \<Rightarrow> exn + string option" where
  "optional_bounded_text label maximum None = Inr None"
| "optional_bounded_text label maximum (Some v) =
     bindR (bounded_text label maximum v) (\<lambda>t. Inr (Some t))"

definition request_fingerprint :: "(string \<Rightarrow> string) \<Rightarrow> string \<Rightarrow> string" where
  "request_fingerprint sha canonical_request_json = sha canonical_request_json"

text \<open>Python's \<open>==\<close> between a JSON value and the protocol version of a contract.\<close>

fun py_eq :: "json \<Rightarrow> json \<Rightarrow> bool" where
  "py_eq j (JInt i) \<longleftrightarrow>
     j = JInt i \<or> (i = 1 \<and> j = JBool True) \<or> (i = 0 \<and> j = JBool False) \<or> j = JFloat (int_str i @ ''.0'')"
| "py_eq j k \<longleftrightarrow> j = k"

definition lineage_json :: "(string \<times> string) list \<Rightarrow> (string \<times> json) list" where
  "lineage_json l = map (\<lambda>(k, v). (k, JStr v)) l"

text \<open>Dictionary equality: the same members in any order. Both sides have distinct keys.\<close>

definition json_is_lineage :: "json \<Rightarrow> (string \<times> string) list \<Rightarrow> bool" where
  "json_is_lineage j l \<longleftrightarrow>
     (case j of JObj kvs \<Rightarrow> set kvs = set (lineage_json l) | _ \<Rightarrow> False)"

definition normalize_request ::
  "launch_request \<Rightarrow> exn + (launch_operation \<times> string \<times> string option \<times> (string \<times> string) list)" where
  "normalize_request rq =
     (case coerce_enum launch_operation_value launch_operations (rq_operation rq) of
        Inl _ \<Rightarrow> Inl (ValueError ''unsupported research launch operation'')
      | Inr operation \<Rightarrow>
     bindR (bounded_text ''configuration ID'' 200 (rq_configuration_id rq)) (\<lambda>configuration_id.
     bindR (optional_bounded_text ''source run ID'' 160 (rq_source_run_id rq)) (\<lambda>source_run_id.
     let lineage = (case rq_source_lineage rq of None \<Rightarrow> [] | Some l \<Rightarrow> l) in
     bindR (guardR (\<forall>kv \<in> set lineage. fst kv \<in> set ALLOWED_LINEAGE_KEYS)
       (ValueError ''source lineage contains unsupported identity fields'')) (\<lambda>_.
     bindR (mapR (\<lambda>(k, v).
         bindR (bounded_text ''source lineage key'' 64 k) (\<lambda>k'.
         bindR (bounded_text (''source lineage '' @ k) 256 v) (\<lambda>v'. Inr (k', v')))) lineage)
       (\<lambda>normalized.
     if operation = OP_RUN_TEST then
       (if source_run_id \<noteq> None \<or> normalized \<noteq> []
        then Inl (ValueError ''run_test cannot carry source-run lineage'')
        else Inr (operation, configuration_id, source_run_id, normalized))
     else if source_run_id = None
     then Inl (ValueError (launch_operation_value operation @ '' requires an immutable source run''))
     else Inr (operation, configuration_id, source_run_id, normalized))))))"

section \<open>Source evidence\<close>

definition integrity :: "string \<Rightarrow> exn" where
  "integrity m = ResearchLaunchIntegrityError m"

text \<open>\<open>_manifest_checksum\<close>: the document of a stored manifest and its immutable digest.\<close>

definition launch_manifest_checksum :: "(string \<Rightarrow> string) \<Rightarrow> string \<Rightarrow> exn + ((string \<times> json) list \<times> string)" where
  "launch_manifest_checksum sha manifest_json =
     (case json_loads manifest_json of
        None \<Rightarrow> Inl (integrity ''source run manifest is not valid JSON'')
      | Some (JObj kvs) \<Rightarrow>
          (let immutable = dict_pop ''created_at'' kvs in
           case map_of immutable ''artifacts'' of
             Some (JList xs) \<Rightarrow>
               bindR (mapR (\<lambda>a. case a of
                   JObj m \<Rightarrow> Inr (JObj (dict_pop ''availability_state'' m))
                 | _ \<Rightarrow> Inl (integrity ''source run manifest contains an invalid artifact'')) xs) (\<lambda>ys.
               bindR (canonical_json (JObj (dict_put ''artifacts'' (JList ys) immutable))) (\<lambda>t.
               Inr (kvs, sha t)))
           | _ \<Rightarrow> Inl (integrity ''source run manifest artifacts are invalid''))
      | Some _ \<Rightarrow> Inl (integrity ''source run manifest is not a JSON object''))"

text \<open>The \<open>try\<close> block that picks the five identities out of a manifest's lineage.\<close>

definition truthy :: "json \<Rightarrow> bool" where
  "truthy j = (case j of
     JNull \<Rightarrow> False | JBool b \<Rightarrow> b | JInt i \<Rightarrow> i \<noteq> 0 | JFloat t \<Rightarrow> t \<notin> {''0.0'', ''-0.0''}
   | JStr s \<Rightarrow> s \<noteq> [] | JList xs \<Rightarrow> xs \<noteq> [] | JObj kvs \<Rightarrow> kvs \<noteq> [])"

definition manifest_identities :: "run \<Rightarrow> string \<Rightarrow> json \<Rightarrow> exn + (string \<times> json) list" where
  "manifest_identities source checksum lineage =
     bindR (index ''configuration'' lineage) (\<lambda>configuration_lineage.
     bindR (index ''data'' lineage) (\<lambda>data_lineage.
     bindR (index ''execution_assumptions'' lineage) (\<lambda>execution_lineage.
     bindR (index ''runtime'' lineage) (\<lambda>runtime_lineage.
     bindR (index ''configuration_id'' configuration_lineage) (\<lambda>cid.
     bindR (guardR (cid = JStr (rn_configuration_id source)) (KeyError ''configuration'')) (\<lambda>_.
     bindR (index ''config_hash'' configuration_lineage) (\<lambda>ch.
     bindR (guardR (truthy ch) (KeyError ''configuration'')) (\<lambda>_.
     bindR (index ''runtime_identity'' runtime_lineage) (\<lambda>rt.
     bindR (index ''dataset_identity'' data_lineage) (\<lambda>ds.
     bindR (index ''execution_assumptions_identity'' execution_lineage) (\<lambda>ex.
     Inr [(''reproduction_of_run_id'', JStr (rn_id source)),
          (''source_manifest_checksum'', JStr checksum), (''source_runtime_identity'', rt),
          (''source_dataset_identity'', ds),
          (''source_execution_assumptions_identity'', ex)])))))))))))"

definition identity_text :: "string \<times> json \<Rightarrow> exn + (string \<times> string)" where
  "identity_text kv =
     (case snd kv of
        JStr v \<Rightarrow> bindR (bounded_text (fst kv) 256 v) (\<lambda>_. Inr (fst kv, v))
      | _ \<Rightarrow> Inl (ValueError (fst kv @ '' must be text'')))"

definition derive_source_lineage ::
  "(string \<Rightarrow> string) \<Rightarrow> launch_operation \<Rightarrow> string option \<Rightarrow> run_stage \<Rightarrow> string \<Rightarrow> string \<Rightarrow>
   string \<Rightarrow> db \<Rightarrow> exn + (string \<times> string) list" where
  "derive_source_lineage sha operation source_run_id source_stage configuration_id strategy_id
     strategy_version d =
     (if operation = OP_RUN_TEST then Inr []
      else
     (case source_run_id of
        None \<Rightarrow> Inl AssertionError
      | Some sid \<Rightarrow>
     (case run_get sid d of
        None \<Rightarrow> Inl (integrity (''source run '' @ sid @ '' does not exist''))
      | Some source \<Rightarrow>
     bindR (guardR (rn_stage source = source_stage)
       (integrity (''source run '' @ sid @ '' is not a '' @ run_stage_value source_stage @ '' run''))) (\<lambda>_.
     bindR (guardR (rn_configuration_id source = configuration_id \<and> rn_strategy_id source = strategy_id
         \<and> rn_strategy_version source = strategy_version)
       (integrity ''source run identity does not match the requested saved configuration'')) (\<lambda>_.
     if operation = OP_HISTORICAL_RELAUNCH then Inr [(''parent_run_id'', rn_id source)]
     else
     bindR (guardR (rn_status source = SUCCEEDED)
       (integrity (''source run '' @ sid @ '' is not succeeded and cannot be reproduced''))) (\<lambda>_.
     (case manifest_get (rn_id source) d of
        None \<Rightarrow> Inl (integrity (''source run '' @ sid @ '' has no persisted manifest''))
      | Some stored \<Rightarrow>
     bindR (launch_manifest_checksum sha (mf_json stored)) (\<lambda>(manifest, calculated).
     bindR (guardR (calculated = mf_checksum stored)
       (integrity (''source run '' @ sid @ '' manifest checksum is invalid''))) (\<lambda>_.
     let field = (\<lambda>k. jget k (JObj manifest)) in
     bindR (guardR (field ''run_id'' = JStr (rn_id source)
         \<and> field ''configuration_id'' = JStr (rn_configuration_id source)
         \<and> field ''strategy_id'' = JStr (rn_strategy_id source)
         \<and> field ''strategy_version'' = JStr (rn_strategy_version source))
       (integrity (''source run '' @ sid @ '' manifest identity is mismatched''))) (\<lambda>_.
     (case field ''lineage'' of
        JObj l \<Rightarrow>
          (case manifest_identities source (mf_checksum stored) (JObj l) of
             Inl (KeyError _) \<Rightarrow> Inl (integrity (''source run '' @ sid @ '' manifest lineage is incomplete''))
           | Inl (TypeError _) \<Rightarrow> Inl (integrity (''source run '' @ sid @ '' manifest lineage is incomplete''))
           | Inl e \<Rightarrow> Inl e
           | Inr derived \<Rightarrow> mapR identity_text derived)
      | _ \<Rightarrow> Inl (integrity (''source run '' @ sid @ '' manifest has no complete lineage'')))))))))))))"

section \<open>The canonical request\<close>

definition request_document ::
  "launch_contract \<Rightarrow> launch_operation \<Rightarrow> configuration \<Rightarrow> string option \<Rightarrow> (string \<times> string) list \<Rightarrow> json"
  where
  "request_document c operation cfg source_run_id source_lineage =
     JObj
       [(''protocol_version'', lc_protocol_version c),
        (''operation_kind'', JStr (launch_operation_value operation)),
        (''configuration_id'', JStr (cf_id cfg)), (''configuration_hash'', JStr (cf_hash cfg)),
        (''strategy_id'', JStr (cf_strategy_id cfg)),
        (''strategy_version'', JStr (cf_strategy_version cfg)),
        (lc_stage_field c, JStr (run_stage_value (lc_stage c))),
        (''accepted_launch_policy'', JStr (lc_policy c)), (''source_run_id'', opt_json source_run_id),
        (''source_lineage'', JObj (lineage_json source_lineage))]"

text \<open>A saved configuration an enabled contract may launch; its failures in the code's order.\<close>

definition launchable_configuration ::
  "(string \<Rightarrow> string) \<Rightarrow> launch_contract \<Rightarrow> string \<Rightarrow> db \<Rightarrow> exn + configuration" where
  "launchable_configuration sha c configuration_id d =
     (case configuration_get configuration_id d of
        None \<Rightarrow> Inl (KeyError (''unknown Quant Factory configuration: '' @ configuration_id))
      | Some cfg \<Rightarrow>
     bindR (guardR (cf_hash cfg = sha (cf_canonical_json cfg))
       (integrity (''saved configuration '' @ configuration_id @ '' failed its immutable hash check''))) (\<lambda>_.
     (case json_loads (cf_canonical_json cfg) of
        None \<Rightarrow> Inl (integrity (''saved configuration '' @ configuration_id @ '' has invalid canonical JSON''))
      | Some doc \<Rightarrow>
     bindR (guardR (case doc of JObj _ \<Rightarrow> True | _ \<Rightarrow> False)
       (integrity ''saved configuration is not a JSON object'')) (\<lambda>_.
     bindR (guardR (jget ''strategy_id'' doc = JStr (cf_strategy_id cfg)
         \<and> jget ''strategy_version'' doc = JStr (cf_strategy_version cfg))
       (integrity (''saved configuration '' @ configuration_id @ '' has mismatched strategy identity''))) (\<lambda>_.
     bindR (guardR (case doc of
           JObj kvs \<Rightarrow> map_of kvs ''parameters'' \<noteq> None \<and> map_of kvs ''execution'' \<noteq> None | _ \<Rightarrow> False)
       (integrity (''saved configuration '' @ configuration_id @ '' lacks launch inputs''))) (\<lambda>_.
     (case strategy_get (cf_strategy_id cfg) (cf_strategy_version cfg) d of
        None \<Rightarrow> Inl (integrity (''saved configuration '' @ configuration_id
          @ '' references an unregistered strategy''))
      | Some s \<Rightarrow>
     bindR (guardR (st_active s \<and> st_lifecycle s = lc_lifecycle c)
       (ResearchLaunchError
         (if c = FIXTURE_LAUNCH_CONTRACT
          then ''saved configuration '' @ configuration_id @ '' is not an approved infrastructure fixture''
          else ''saved configuration '' @ configuration_id @ '' is not approved for ''
            @ run_stage_value (lc_stage c) @ '' launch''))) (\<lambda>_.
     Inr cfg))))))))"

definition canonical_request ::
  "(string \<Rightarrow> string) \<Rightarrow> launch_contract \<Rightarrow> launch_request \<Rightarrow> db \<Rightarrow>
   exn + (string \<times> string \<times> configuration)" where
  "canonical_request sha c rq d =
     bindR (normalize_request rq) (\<lambda>(operation, configuration_id, source_run_id, expected).
     bindR (launchable_configuration sha c configuration_id d) (\<lambda>cfg.
     bindR (derive_source_lineage sha operation source_run_id (lc_stage c) (cf_id cfg)
       (cf_strategy_id cfg) (cf_strategy_version cfg) d) (\<lambda>source_lineage.
     bindR (guardR (expected = [] \<or> set expected = set source_lineage)
       (integrity ''provided source lineage does not match persisted source evidence'')) (\<lambda>_.
     bindR (canonical_json (request_document c operation cfg source_run_id source_lineage)) (\<lambda>serialized.
     Inr (serialized, request_fingerprint sha serialized, cfg))))))"

section \<open>Checking a stored claim\<close>

definition validate_persisted_claim ::
  "(string \<Rightarrow> string) \<Rightarrow> launch_contract \<Rightarrow> submission \<Rightarrow> bool \<Rightarrow> bool \<Rightarrow> db \<Rightarrow> exn + run" where
  "validate_persisted_claim sha c s require_created_run require_launchable_configuration d =
     bindR (guardR (request_fingerprint sha (sb_canonical_request_json s) = sb_request_fingerprint s)
       (integrity ''stored research submission fingerprint is invalid'')) (\<lambda>_.
     (case json_loads (sb_canonical_request_json s) of
        None \<Rightarrow> Inl (integrity ''stored research submission request is invalid JSON'')
      | Some doc \<Rightarrow>
     bindR (case doc of
         JObj _ \<Rightarrow>
           bindR (canonical_json doc) (\<lambda>t.
           guardR (t = sb_canonical_request_json s)
             (integrity ''stored research submission request is not canonical''))
       | _ \<Rightarrow> Inl (integrity ''stored research submission request is not canonical'')) (\<lambda>_.
     bindR (case jget ''operation_kind'' doc of
         JStr k \<Rightarrow>
           (case coerce_enum launch_operation_value launch_operations k of
              Inl _ \<Rightarrow> Inl (integrity ''stored research submission operation is invalid'')
            | Inr op \<Rightarrow> Inr op)
       | _ \<Rightarrow> Inl (integrity ''stored research submission operation is invalid'')) (\<lambda>operation.
     bindR (guardR (py_eq (jget ''protocol_version'' doc) (lc_protocol_version c)
         \<and> jget ''accepted_launch_policy'' doc = JStr (lc_policy c)
         \<and> jget (lc_stage_field c) doc = JStr (run_stage_value (lc_stage c))
         \<and> jget ''configuration_id'' doc = JStr (sb_configuration_id s))
       (integrity ''stored research submission request contract is invalid'')) (\<lambda>_.
     (case configuration_get (sb_configuration_id s) d of
        None \<Rightarrow> Inl (integrity ''research submission references a missing saved configuration'')
      | Some cfg \<Rightarrow>
     bindR (guardR (sha (cf_canonical_json cfg) = cf_hash cfg
         \<and> jget ''configuration_hash'' doc = JStr (cf_hash cfg)
         \<and> jget ''strategy_id'' doc = JStr (cf_strategy_id cfg)
         \<and> jget ''strategy_version'' doc = JStr (cf_strategy_version cfg))
       (integrity ''research submission saved-configuration identity is inconsistent'')) (\<lambda>_.
     (case strategy_get (cf_strategy_id cfg) (cf_strategy_version cfg) d of
        None \<Rightarrow> Inl (integrity ''research submission references a missing strategy'')
      | Some st \<Rightarrow>
     bindR (guardR (\<not> require_launchable_configuration \<or> (st_active st \<and> st_lifecycle st = lc_lifecycle c))
       (integrity ''research submission configuration is no longer launchable'')) (\<lambda>_.
     (case run_get (sb_run_id s) d of
        None \<Rightarrow> Inl (integrity ''research submission references a missing run'')
      | Some r \<Rightarrow>
     bindR (guardR (rn_configuration_id r = sb_configuration_id s \<and> rn_strategy_id r = cf_strategy_id cfg
         \<and> rn_strategy_version r = cf_strategy_version cfg \<and> rn_stage r = lc_stage c)
       (integrity ''research submission run identity is inconsistent'')) (\<lambda>_.
     bindR (guardR (\<not> require_created_run \<or> rn_status r = CREATED)
       (integrity ''research submission run is not in Created state'')) (\<lambda>_.
     bindR (case jget ''source_run_id'' doc of
         JNull \<Rightarrow> Inr None
       | JStr t \<Rightarrow> Inr (Some t)
       | _ \<Rightarrow> Inl (integrity ''stored research submission source-run identity is invalid'')) (\<lambda>source_run_id.
     bindR (case jget ''source_lineage'' doc of
         JObj kvs \<Rightarrow>
           (if \<forall>kv \<in> set kvs. case snd kv of JStr _ \<Rightarrow> True | _ \<Rightarrow> False then Inr kvs
            else Inl (integrity ''stored research submission source lineage is invalid''))
       | _ \<Rightarrow> Inl (integrity ''stored research submission source lineage is invalid'')) (\<lambda>source_lineage.
     bindR (if operation = OP_RUN_TEST
         then guardR (source_run_id = None \<and> source_lineage = [])
           (integrity ''run_test submission contains prohibited source lineage'')
         else guardR (source_run_id \<noteq> None)
           (integrity (launch_operation_value operation @ '' submission has no source run''))) (\<lambda>_.
     bindR (derive_source_lineage sha operation source_run_id (lc_stage c) (cf_id cfg)
       (cf_strategy_id cfg) (cf_strategy_version cfg) d) (\<lambda>derived.
     bindR (guardR (json_is_lineage (JObj source_lineage) derived)
       (integrity ''stored research submission source lineage is inconsistent'')) (\<lambda>_.
     Inr r)))))))))))))))))"

section \<open>Claiming\<close>

text \<open>The request a key is replayed with must mean what the stored one meant.\<close>

definition replay_matches ::
  "json \<Rightarrow> launch_operation \<Rightarrow> string \<Rightarrow> string option \<Rightarrow> (string \<times> string) list \<Rightarrow> exn + bool" where
  "replay_matches doc operation configuration_id source_run_id expected =
     bindR (dict_get ''operation_kind'' doc) (\<lambda>ok.
     Inr (ok = JStr (launch_operation_value operation)
        \<and> jget ''configuration_id'' doc = JStr configuration_id
        \<and> jget ''source_run_id'' doc = opt_json source_run_id
        \<and> (expected = [] \<or> json_is_lineage (jget ''source_lineage'' doc) expected)))"

definition replay_claim ::
  "(string \<Rightarrow> string) \<Rightarrow> launch_contract \<Rightarrow> launch_request \<Rightarrow> submission \<Rightarrow> db \<Rightarrow> exn + launch_claim" where
  "replay_claim sha c rq existing d =
     bindR (normalize_request rq) (\<lambda>(operation, configuration_id, source_run_id, expected).
     (case json_loads (sb_canonical_request_json existing) of
        None \<Rightarrow> Inl (integrity ''stored research submission request is invalid JSON'')
      | Some doc \<Rightarrow>
     bindR (replay_matches doc operation configuration_id source_run_id expected) (\<lambda>same.
     bindR (guardR same (ResearchLaunchConflictError
       ''research launch key is already bound to a different request'')) (\<lambda>_.
     bindR (validate_persisted_claim sha c existing False False d) (\<lambda>r.
     Inr \<lparr>cm_submission = existing, cm_run = r, cm_created = False\<rparr>)))))"

definition inject_failure :: "(string \<Rightarrow> exn option) \<Rightarrow> string \<Rightarrow> (db, unit) body" where
  "inject_failure injector step = (case injector step of None \<Rightarrow> retB () | Some e \<Rightarrow> raiseB e)"

definition environment_of :: "string \<Rightarrow> (string \<times> json) list" where
  "environment_of t = (case json_loads t of Some (JObj kvs) \<Rightarrow> kvs | _ \<Rightarrow> [])"

text \<open>
  \<open>t0\<close> is the claim time, \<open>t1\<close> and \<open>t2\<close> what \<open>runs.create\<close> and \<open>events.append\<close> read;
  \<open>run_id\<close> is what the run-id factory returns and \<open>injector\<close> the failure hook of the tests.
\<close>

definition claim_body ::
  "(string \<Rightarrow> string) \<Rightarrow> launch_contract \<Rightarrow> (string \<Rightarrow> exn option) \<Rightarrow> string \<Rightarrow> string \<Rightarrow> string \<Rightarrow>
   string \<Rightarrow> string \<Rightarrow> launch_request \<Rightarrow> string \<Rightarrow> (db, launch_claim) body" where
  "claim_body sha c injector t0 t1 t2 factory_run_id key rq environment_json =
     bindB (readB (submission_get key)) (\<lambda>existing.
     case existing of
       Some s \<Rightarrow> bindB (readB (replay_claim sha c rq s)) liftB
     | None \<Rightarrow>
         bindB (bindB (readB (canonical_request sha c rq)) liftB) (\<lambda>(serialized, fingerprint, cfg).
         bindB (liftB (validate_run_id factory_run_id)) (\<lambda>run_id.
         bindB (run_create t1 run_id (cf_id cfg) (cf_strategy_id cfg) (cf_strategy_version cfg)
           (lc_stage c) CREATED (Some (environment_of environment_json))) (\<lambda>r.
         bindB (inject_failure injector ''after_run_create'') (\<lambda>_.
         bindB (event_append t2 (rn_id r) EV_RUN_CREATED SEV_INFO (lc_created_message c)
           quant_factory (Some (rn_created_at r))) (\<lambda>_.
         bindB (inject_failure injector ''after_run_created_event'') (\<lambda>_.
         bindB (submission_create key (rn_id r) (rn_configuration_id r) serialized fingerprint t0) (\<lambda>s.
         bindB (inject_failure injector ''after_submission_create'') (\<lambda>_.
         retB \<lparr>cm_submission = s, cm_run = r, cm_created = True\<rparr>)))))))))"

definition claim ::
  "(string \<Rightarrow> string) \<Rightarrow> launch_contract \<Rightarrow> (string \<Rightarrow> exn option) \<Rightarrow> string \<Rightarrow> string \<Rightarrow> string \<Rightarrow>
   string \<Rightarrow> string \<Rightarrow> launch_request \<Rightarrow> (string \<times> json) list option \<Rightarrow> launch_claim service" where
  "claim sha c injector t0 t1 t2 factory_run_id idempotency_key rq environment d =
     (case bindR (validate_launch_key idempotency_key) (\<lambda>key.
           bindR (canonical_json (JObj (case environment of None \<Rightarrow> [] | Some kvs \<Rightarrow> kvs))) (\<lambda>env.
           Inr (key, env))) of
        Inl e \<Rightarrow> (Inl e, d)
      | Inr (key, env) \<Rightarrow>
          transaction (claim_body sha c injector t0 t1 t2 factory_run_id key rq env) d)"

definition launch_get :: "string \<Rightarrow> db \<Rightarrow> exn + submission option" where
  "launch_get idempotency_key d =
     bindR (validate_launch_key idempotency_key) (\<lambda>key. Inr (submission_get key d))"

definition launch_get_for_run :: "string \<Rightarrow> db \<Rightarrow> exn + submission option" where
  "launch_get_for_run run_id d =
     bindR (validate_run_id run_id) (\<lambda>k. Inr (submission_get_for_run k d))"

section \<open>Dispatch\<close>

definition unknown_key :: "string \<Rightarrow> exn" where
  "unknown_key key = KeyError (''unknown research launch key: '' @ key)"

text \<open>Look the submission up, or raise; the rest of every handler works on what was found.\<close>

definition with_submission :: "string \<Rightarrow> (submission \<Rightarrow> (db, 'a) body) \<Rightarrow> (db, 'a) body" where
  "with_submission key f =
     bindB (readB (submission_get key)) (\<lambda>found.
     case found of None \<Rightarrow> raiseB (unknown_key key) | Some s \<Rightarrow> f s)"

definition begin_dispatch_body ::
  "(string \<Rightarrow> string) \<Rightarrow> launch_contract \<Rightarrow> string \<Rightarrow> string \<Rightarrow> string \<Rightarrow> (db, dispatch_decision) body" where
  "begin_dispatch_body sha c now key dispatcher =
     with_submission key (\<lambda>existing.
     bindB
       (if sb_state existing = SUB_CLAIMED
        then bindB (bindB (readB (validate_persisted_claim sha c existing True True)) liftB) (\<lambda>_. retB ())
        else retB ()) (\<lambda>_.
     bindB (set_invoking key dispatcher now) (\<lambda>won.
     bindB (assert_row (submission_get key)) (\<lambda>current.
     retB \<lparr>dd_submission = current, dd_should_invoke = won\<rparr>))))"

definition begin_dispatch ::
  "(string \<Rightarrow> string) \<Rightarrow> launch_contract \<Rightarrow> string \<Rightarrow> string \<Rightarrow> string \<Rightarrow> dispatch_decision service" where
  "begin_dispatch sha c now idempotency_key dispatcher_instance_id d =
     (case bindR (validate_launch_key idempotency_key) (\<lambda>key.
           bindR (validate_dispatcher_id dispatcher_instance_id) (\<lambda>dispatcher. Inr (key, dispatcher))) of
        Inl e \<Rightarrow> (Inl e, d)
      | Inr (key, dispatcher) \<Rightarrow> transaction (begin_dispatch_body sha c now key dispatcher) d)"

section \<open>Binding the Prefect identity\<close>

definition binding_mismatch ::
  "(string \<Rightarrow> string) \<Rightarrow> submission \<Rightarrow> string \<Rightarrow> string \<Rightarrow> string \<Rightarrow> string \<Rightarrow> bool" where
  "binding_mismatch sha s run_id configuration_id canonical_request_json fingerprint \<longleftrightarrow>
     sb_run_id s \<noteq> run_id \<or> sb_configuration_id s \<noteq> configuration_id \<or>
     sb_canonical_request_json s \<noteq> canonical_request_json \<or>
     sb_request_fingerprint s \<noteq> fingerprint \<or>
     request_fingerprint sha canonical_request_json \<noteq> fingerprint"

definition append_integrity_event :: "string \<Rightarrow> submission \<Rightarrow> string \<Rightarrow> (db, unit) body" where
  "append_integrity_event now s message =
     bindB (readB (\<lambda>d. \<exists>e \<in> set (event_list_for_run (sb_run_id s) d).
        ev_type e = EV_SERVICE_INTEGRITY_ERROR \<and> ev_message e = message)) (\<lambda>known.
     if known then retB ()
     else bindB (event_append now (sb_run_id s) EV_SERVICE_INTEGRITY_ERROR SEV_ERROR message
            quant_factory None) (\<lambda>_. retB ()))"

text \<open>
  What the transaction of \<open>bind_prefect_identity\<close> leaves: an integrity error to raise after the
  commit, or the submission to return.
\<close>

type_synonym binding_outcome = "exn option \<times> submission"

definition refuse :: "string \<Rightarrow> submission \<Rightarrow> string \<Rightarrow> string \<Rightarrow> (db, binding_outcome) body" where
  "refuse now s message error =
     bindB (append_integrity_event now s message) (\<lambda>_. retB (Some (integrity error), s))"

definition updated_environment ::
  "(string \<times> json) list \<Rightarrow> string \<Rightarrow> string option \<Rightarrow> (string \<times> json) list" where
  "updated_environment env flow_run_id api_url =
     (let base = dict_put ''prefect_reference_source'' (JStr ''durable_research_claim'')
            (dict_put ''prefect_flow_run_id'' (JStr flow_run_id)
              (dict_put ''prefect_identity_storage'' (JStr ''technical_run_environment'') env))
      in case api_url of None \<Rightarrow> base | Some u \<Rightarrow> dict_put ''prefect_api_url'' (JStr u) base)"

text \<open>
  The accepting branch: environment, submission, run and event change together.
\<close>

definition commit_binding ::
  "launch_contract \<Rightarrow> string \<Rightarrow> string \<Rightarrow> string \<Rightarrow> submission \<Rightarrow> run \<Rightarrow> string \<Rightarrow> string option \<Rightarrow>
   string \<Rightarrow> (db, binding_outcome) body" where
  "commit_binding c t0 t1 t2 s r flow_run_id api_url environment_json =
     bindB (modB (upd_run (rn_id r) (\<lambda>x. x\<lparr>rn_environment_json := environment_json\<rparr>))) (\<lambda>_.
     bindB (set_acknowledged (sb_key s) flow_run_id api_url t0) (\<lambda>changed.
     if \<not> changed
     then raiseB (integrity ''research submission changed during acknowledgement'')
     else
       bindB (run_transition t1 (rn_id r) RUNNING None) (\<lambda>running.
       bindB (event_append t2 (rn_id r) EV_RUN_STARTED SEV_INFO (lc_started_message c)
         quant_factory (rn_started_at running)) (\<lambda>_.
       bindB (assert_row (submission_get (sb_key s))) (\<lambda>current.
       retB (None, current))))))"

text \<open>
  \<open>stored_prefect_id not in {None, id}\<close> hashes the stored value, so a stored list or object
  raises \<open>TypeError\<close>.
\<close>

definition accept_binding ::
  "launch_contract \<Rightarrow> string \<Rightarrow> string \<Rightarrow> string \<Rightarrow> submission \<Rightarrow> run \<Rightarrow> string \<Rightarrow> string option \<Rightarrow>
   (db, binding_outcome) body" where
  "accept_binding c t0 t1 t2 s r flow_run_id api_url =
     (case json_loads (rn_environment_json r) of
        Some (JObj env) \<Rightarrow>
          (let stored = jget ''prefect_flow_run_id'' (JObj env) in
           if (case stored of JList _ \<Rightarrow> True | JObj _ \<Rightarrow> True | _ \<Rightarrow> False)
           then raiseB (TypeError ''unhashable type'')
           else if stored \<noteq> JNull \<and> stored \<noteq> JStr flow_run_id
           then refuse t0 s ''Research submission run had a conflicting Prefect identity.''
                  ''research claim run has a different Prefect identity''
           else
             bindB (liftB (canonical_json (JObj (updated_environment env flow_run_id api_url))))
               (commit_binding c t0 t1 t2 s r flow_run_id api_url))
      | _ \<Rightarrow>
          refuse t0 s ''Research submission run environment was invalid.''
            ''research claim run environment is invalid'')"

definition check_claim_for_binding ::
  "(string \<Rightarrow> string) \<Rightarrow> launch_contract \<Rightarrow> string \<Rightarrow> submission \<Rightarrow> (db, exn option) body" where
  "check_claim_for_binding sha c now s =
     bindB (readB (validate_persisted_claim sha c s (sb_state s \<noteq> SUB_ACKNOWLEDGED) False)) (\<lambda>v.
     case v of
       Inr _ \<Rightarrow> retB None
     | Inl e \<Rightarrow>
         (case e of
            ResearchLaunchIntegrityError m \<Rightarrow>
              bindB (readB (run_get (sb_run_id s))) (\<lambda>found.
              bindB
                (case found of
                   None \<Rightarrow> retB ()
                 | Some _ \<Rightarrow> append_integrity_event now s
                     ''Research submission persisted identity failed acknowledgement validation.'') (\<lambda>_.
              retB (Some e)))
          | _ \<Rightarrow> raiseB e))"

definition bind_body ::
  "(string \<Rightarrow> string) \<Rightarrow> launch_contract \<Rightarrow> stamp \<Rightarrow> stamp \<Rightarrow> stamp \<Rightarrow> string \<Rightarrow> string \<Rightarrow> string \<Rightarrow>
   string \<Rightarrow> string \<Rightarrow> string \<Rightarrow> string option \<Rightarrow> (db, binding_outcome) body" where
  "bind_body sha c t0 t1 t2 key run_id configuration_id canonical_request_json fingerprint
     flow_run_id api_url =
     with_submission key (\<lambda>s.
     bindB (check_claim_for_binding sha c t0 s) (\<lambda>failed.
     bindB (readB (\<lambda>d. \<exists>x \<in> set (submissions d).
       sb_prefect_flow_run_id x = Some flow_run_id \<and> sb_key x \<noteq> key)) (\<lambda>duplicate_prefect.
     case failed of
       Some e \<Rightarrow> retB (Some e, s)
     | None \<Rightarrow>
         if binding_mismatch sha s run_id configuration_id canonical_request_json fingerprint
           \<or> duplicate_prefect
         then refuse t0 s ''Research submission identity did not match the Prefect acknowledgement.''
                ''Prefect acknowledgement did not match the durable research claim''
         else if sb_state s = SUB_ACKNOWLEDGED
         then
           (if sb_prefect_flow_run_id s \<noteq> Some flow_run_id \<or> sb_prefect_api_url s \<noteq> api_url
            then refuse t0 s ''Research submission received a conflicting Prefect acknowledgement.''
                   ''research launch already has a different Prefect identity''
            else retB (None, s))
         else if sb_state s \<notin> {SUB_INVOKING, SUB_SUBMISSION_UNKNOWN}
         then refuse t0 s ''Research submission acknowledgement arrived in an invalid state.''
                (''cannot acknowledge a '' @ submission_state_value (sb_state s) @ '' research submission'')
         else
           bindB (readB (run_get run_id)) (\<lambda>found.
           case found of
             None \<Rightarrow> refuse t0 s ''Research submission run was not Created at acknowledgement.''
                       ''research claim run is not in Created state''
           | Some r \<Rightarrow>
               if rn_status r \<noteq> CREATED
               then refuse t0 s ''Research submission run was not Created at acknowledgement.''
                      ''research claim run is not in Created state''
               else accept_binding c t0 t1 t2 s r flow_run_id api_url))))"

definition raise_after_commit :: "(exn + binding_outcome) \<times> db \<Rightarrow> (exn + submission) \<times> db" where
  "raise_after_commit z =
     (case z of
        (Inl e, d) \<Rightarrow> (Inl e, d)
      | (Inr (Some e, _), d) \<Rightarrow> (Inl e, d)
      | (Inr (None, s), d) \<Rightarrow> (Inr s, d))"

definition bind_prefect_identity ::
  "(string \<Rightarrow> string) \<Rightarrow> launch_contract \<Rightarrow> stamp \<Rightarrow> stamp \<Rightarrow> stamp \<Rightarrow> string \<Rightarrow> string \<Rightarrow> string \<Rightarrow>
   string \<Rightarrow> string \<Rightarrow> string \<Rightarrow> string option \<Rightarrow> submission service" where
  "bind_prefect_identity sha c t0 t1 t2 idempotency_key run_id configuration_id
     canonical_request_json fingerprint flow_run_id api_url d =
     (case bindR (validate_launch_key idempotency_key) (\<lambda>key.
           bindR (validate_run_id run_id) (\<lambda>rid.
           bindR (bounded_text ''configuration ID'' 200 configuration_id) (\<lambda>cid.
           bindR (bounded_text ''Prefect flow-run ID'' 200 flow_run_id) (\<lambda>fid.
           bindR (optional_bounded_text ''Prefect API URL'' 2048 api_url) (\<lambda>url.
           Inr (key, rid, cid, fid, url)))))) of
        Inl e \<Rightarrow> (Inl e, d)
      | Inr (key, rid, cid, fid, url) \<Rightarrow>
          raise_after_commit (transaction (bind_body sha c t0 t1 t2 key rid cid canonical_request_json
            fingerprint fid url) d))"

section \<open>Ambiguity and its resolution\<close>

definition cannot :: "string \<Rightarrow> submission \<Rightarrow> string \<Rightarrow> exn" where
  "cannot verb s rest =
     ResearchLaunchConflictError (''cannot '' @ verb @ '' a '' @ submission_state_value (sb_state s) @ rest)"

definition mark_unknown_body ::
  "string \<Rightarrow> string \<Rightarrow> string \<Rightarrow> string \<Rightarrow> (db, submission) body" where
  "mark_unknown_body now key dispatcher summary =
     with_submission key (\<lambda>s.
     if sb_state s = SUB_SUBMISSION_UNKNOWN then
       (if sb_dispatcher s \<noteq> Some dispatcher \<or> sb_error_summary s \<noteq> Some summary
           \<or> sb_unknown_evidence s \<noteq> None
        then raiseB (ResearchLaunchConflictError
          ''unknown-submission replay does not match the recorded ambiguity'')
        else retB s)
     else if sb_state s = SUB_ACKNOWLEDGED then retB s
     else if sb_state s \<noteq> SUB_INVOKING then raiseB (cannot ''mark'' s '' submission unknown'')
     else if sb_dispatcher s \<noteq> Some dispatcher
     then raiseB (ResearchLaunchConflictError
       ''only the invocation-marker winner may report submission ambiguity'')
     else
       bindB (set_unknown key now summary None) (\<lambda>changed.
       if \<not> changed
       then raiseB (integrity ''research submission changed while recording ambiguity'')
       else assert_row (submission_get key)))"

definition mark_invocation_unknown ::
  "string \<Rightarrow> string \<Rightarrow> string \<Rightarrow> string \<Rightarrow> submission service" where
  "mark_invocation_unknown now idempotency_key dispatcher_instance_id error_summary d =
     (case bindR (validate_launch_key idempotency_key) (\<lambda>key.
           bindR (validate_dispatcher_id dispatcher_instance_id) (\<lambda>dispatcher.
           bindR (bounded_text ''error summary'' 500 error_summary) (\<lambda>summary.
           Inr (key, dispatcher, summary)))) of
        Inl e \<Rightarrow> (Inl e, d)
      | Inr (key, dispatcher, summary) \<Rightarrow> transaction (mark_unknown_body now key dispatcher summary) d)"

definition recover_invoking_body ::
  "string \<Rightarrow> string \<Rightarrow> string \<Rightarrow> string \<Rightarrow> (db, submission) body" where
  "recover_invoking_body now key departed evidence =
     with_submission key (\<lambda>s.
     if sb_state s = SUB_SUBMISSION_UNKNOWN then
       (if sb_dispatcher s \<noteq> Some departed \<or> sb_unknown_evidence s \<noteq> Some evidence
        then raiseB (ResearchLaunchConflictError
          ''exit-barrier replay does not match the recorded recovery evidence'')
        else retB s)
     else if sb_state s \<noteq> SUB_INVOKING then raiseB (cannot ''recover'' s '' submission as unknown'')
     else if sb_dispatcher s \<noteq> Some departed
     then raiseB (ResearchLaunchConflictError
       ''exit evidence does not name the recorded dispatcher generation'')
     else
       bindB (set_unknown key now
         ''The recorded dispatcher exited before Prefect acknowledgement could be confirmed.''
         (Some evidence)) (\<lambda>changed.
       if \<not> changed
       then raiseB (integrity ''research submission changed during exit-barrier recovery'')
       else assert_row (submission_get key)))"

definition recover_invoking_after_process_exit ::
  "string \<Rightarrow> string \<Rightarrow> string \<Rightarrow> string \<Rightarrow> submission service" where
  "recover_invoking_after_process_exit now idempotency_key departed_dispatcher evidence_reference d =
     (case bindR (validate_launch_key idempotency_key) (\<lambda>key.
           bindR (validate_dispatcher_id departed_dispatcher) (\<lambda>departed.
           bindR (bounded_text ''process-exit evidence reference'' 500 evidence_reference) (\<lambda>evidence.
           Inr (key, departed, evidence)))) of
        Inl e \<Rightarrow> (Inl e, d)
      | Inr (key, departed, evidence) \<Rightarrow>
          transaction (recover_invoking_body now key departed evidence) d)"

definition fail_before_body ::
  "(string \<Rightarrow> string) \<Rightarrow> launch_contract \<Rightarrow> string \<Rightarrow> string \<Rightarrow> string \<Rightarrow> string \<Rightarrow> string \<Rightarrow>
   (db, submission) body" where
  "fail_before_body sha c t0 t1 t2 key summary =
     with_submission key (\<lambda>s.
     if sb_state s = SUB_FAILED_BEFORE_SUBMISSION then
       (if sb_error_summary s \<noteq> Some summary
        then raiseB (ResearchLaunchConflictError
          ''terminal research submission has different failure evidence'')
        else retB s)
     else if sb_state s \<noteq> SUB_CLAIMED then raiseB (cannot ''fail'' s '' submission before invocation'')
     else
       bindB (bindB (readB (validate_persisted_claim sha c s True False)) liftB) (\<lambda>r.
       bindB (set_failed_before_submission key t0 summary) (\<lambda>changed.
       if \<not> changed
       then raiseB (integrity ''research submission changed during pre-submission failure'')
       else
         bindB (run_transition t1 (rn_id r) FAILED (Some summary)) (\<lambda>failed.
         bindB (event_append t2 (rn_id r) EV_RUN_FAILED SEV_ERROR
           ''Run failed before any Prefect submission occurred.'' quant_factory
           (rn_completed_at failed)) (\<lambda>_.
         assert_row (submission_get key))))))"

definition fail_before_submission ::
  "(string \<Rightarrow> string) \<Rightarrow> launch_contract \<Rightarrow> string \<Rightarrow> string \<Rightarrow> string \<Rightarrow> string \<Rightarrow> string \<Rightarrow>
   submission service" where
  "fail_before_submission sha c t0 t1 t2 idempotency_key error_summary d =
     (case bindR (validate_launch_key idempotency_key) (\<lambda>key.
           bindR (bounded_text ''error summary'' 500 error_summary) (\<lambda>summary. Inr (key, summary))) of
        Inl e \<Rightarrow> (Inl e, d)
      | Inr (key, summary) \<Rightarrow> transaction (fail_before_body sha c t0 t1 t2 key summary) d)"

definition abandon_body ::
  "(string \<Rightarrow> string) \<Rightarrow> launch_contract \<Rightarrow> string \<Rightarrow> string \<Rightarrow> string \<Rightarrow> string \<Rightarrow> string \<Rightarrow> string \<Rightarrow>
   (db, submission) body" where
  "abandon_body sha c t0 t1 t2 key evidence summary =
     with_submission key (\<lambda>s.
     if sb_state s = SUB_ABANDONED then
       (if sb_resolution_evidence s \<noteq> Some evidence \<or> sb_error_summary s \<noteq> Some summary
        then raiseB (ResearchLaunchConflictError
          ''terminal research submission has different resolution evidence'')
        else retB s)
     else if sb_state s \<noteq> SUB_SUBMISSION_UNKNOWN then raiseB (cannot ''abandon'' s '' submission'')
     else
       bindB (bindB (readB (validate_persisted_claim sha c s True False)) liftB) (\<lambda>r.
       bindB (set_abandoned key t0 summary evidence) (\<lambda>changed.
       if \<not> changed
       then raiseB (integrity ''research submission changed during abandonment'')
       else
         bindB (run_transition t1 (rn_id r) FAILED (Some summary)) (\<lambda>failed.
         bindB (event_append t2 (rn_id r) EV_RUN_FAILED SEV_ERROR
           ''Unresolved submission was abandoned without accepted result evidence.'' quant_factory
           (rn_completed_at failed)) (\<lambda>_.
         assert_row (submission_get key))))))"

definition abandon_unknown ::
  "(string \<Rightarrow> string) \<Rightarrow> launch_contract \<Rightarrow> string \<Rightarrow> string \<Rightarrow> string \<Rightarrow> string \<Rightarrow> string \<Rightarrow> string \<Rightarrow>
   submission service" where
  "abandon_unknown sha c t0 t1 t2 idempotency_key evidence_reference error_summary d =
     (case bindR (validate_launch_key idempotency_key) (\<lambda>key.
           bindR (bounded_text ''resolution evidence reference'' 500 evidence_reference) (\<lambda>evidence.
           bindR (bounded_text ''error summary'' 500 error_summary) (\<lambda>summary.
           Inr (key, evidence, summary)))) of
        Inl e \<Rightarrow> (Inl e, d)
      | Inr (key, evidence, summary) \<Rightarrow>
          transaction (abandon_body sha c t0 t1 t2 key evidence summary) d)"

section \<open>Operator actions by run\<close>

definition no_submission :: "string \<Rightarrow> exn" where
  "no_submission run_id = KeyError (''run '' @ run_id @ '' has no durable research submission'')"

definition reconcile_unknown_for_run ::
  "(string \<Rightarrow> string) \<Rightarrow> launch_contract \<Rightarrow> string \<Rightarrow> string \<Rightarrow> string \<Rightarrow> string \<Rightarrow> string \<Rightarrow>
   string option \<Rightarrow> submission service" where
  "reconcile_unknown_for_run sha c t0 t1 t2 run_id flow_run_id api_url d =
     (case launch_get_for_run run_id d of
        Inl e \<Rightarrow> (Inl e, d)
      | Inr None \<Rightarrow> (Inl (no_submission run_id), d)
      | Inr (Some s) \<Rightarrow>
          if sb_state s \<notin> {SUB_SUBMISSION_UNKNOWN, SUB_ACKNOWLEDGED}
          then (Inl (cannot ''reconcile'' s '' submission''), d)
          else bind_prefect_identity sha c t0 t1 t2 (sb_key s) (sb_run_id s) (sb_configuration_id s)
                 (sb_canonical_request_json s) (sb_request_fingerprint s) flow_run_id api_url d)"

definition abandon_unknown_for_run ::
  "(string \<Rightarrow> string) \<Rightarrow> launch_contract \<Rightarrow> string \<Rightarrow> string \<Rightarrow> string \<Rightarrow> string \<Rightarrow> string \<Rightarrow> string \<Rightarrow>
   submission service" where
  "abandon_unknown_for_run sha c t0 t1 t2 run_id evidence_reference error_summary d =
     (case launch_get_for_run run_id d of
        Inl e \<Rightarrow> (Inl e, d)
      | Inr None \<Rightarrow> (Inl (no_submission run_id), d)
      | Inr (Some s) \<Rightarrow>
          abandon_unknown sha c t0 t1 t2 (sb_key s) evidence_reference error_summary d)"

section \<open>The dispatcher\<close>

text \<open>
  \<open>dispatch\<close> calls the injected \<open>invoke\<close> only for the winner of the marker. The callable is
  code outside this module: it runs against the database (the flow it starts binds its identity
  there) and returns a value or raises an \<open>Exception\<close>; what the handler does not catch is left out.
\<close>

definition MARK_DEFAULT :: string where
  "MARK_DEFAULT = ''Prefect submission acknowledgement could not be confirmed.''"

definition dispatch ::
  "(string \<Rightarrow> string) \<Rightarrow> launch_contract \<Rightarrow> string \<Rightarrow> string \<Rightarrow> (submission \<Rightarrow> 'v service) \<Rightarrow> string \<Rightarrow>
   string \<Rightarrow> 'v dispatch_result service" where
  "dispatch sha c t0 t1 invoke idempotency_key dispatcher_instance_id d =
     (case begin_dispatch sha c t0 idempotency_key dispatcher_instance_id d of
        (Inl e, d1) \<Rightarrow> (Inl e, d1)
      | (Inr decision, d1) \<Rightarrow>
          if \<not> dd_should_invoke decision
          then (Inr \<lparr>ds_submission = dd_submission decision, ds_invoked = False, ds_value = None\<rparr>, d1)
          else
            (case invoke (dd_submission decision) d1 of
               (Inl exc, d2) \<Rightarrow>
                 (case mark_invocation_unknown t1 idempotency_key dispatcher_instance_id MARK_DEFAULT d2 of
                    (Inl e, d3) \<Rightarrow> (Inl e, d3)
                  | (Inr current, d3) \<Rightarrow>
                      if sb_state current = SUB_SUBMISSION_UNKNOWN
                      then (Inl (ResearchLaunchInvocationUnknownError
                        ''research submission outcome is unknown and will not be retried automatically''), d3)
                      else (Inl (ResearchLaunchInvocationError
                        ''research submission was acknowledged but invocation reported an error''), d3))
             | (Inr value, d2) \<Rightarrow>
                 (case launch_get idempotency_key d2 of
                    Inl e \<Rightarrow> (Inl e, d2)
                  | Inr None \<Rightarrow> (Inl AssertionError, d2)
                  | Inr (Some current) \<Rightarrow>
                      if sb_state current = SUB_INVOKING
                      then
                        (case mark_invocation_unknown t1 idempotency_key dispatcher_instance_id
                            ''Prefect invocation returned without durable acknowledgement.'' d2 of
                           (Inl e, d3) \<Rightarrow> (Inl e, d3)
                         | (Inr _, d3) \<Rightarrow> (Inl (ResearchLaunchInvocationUnknownError
                             ''research submission returned without durable acknowledgement''), d3))
                      else (Inr \<lparr>ds_submission = current, ds_invoked = True, ds_value = Some value\<rparr>, d2))))"

section \<open>Every launch operation is a step of the evolution\<close>

lemma evo_with_submission [evo_moves]:
  "(\<And>s. moves evolves (f s)) \<Longrightarrow> moves evolves (with_submission key f)"
  unfolding with_submission_def by (intro evo_moves)

lemma evo_claim_body [evo_moves]:
  "moves evolves (claim_body sha c injr t0 t1 t2 rid key rq env)"
  unfolding claim_body_def inject_failure_def by (intro evo_moves)

lemma evo_begin_dispatch [evo_moves]: "moves evolves (begin_dispatch_body sha c now key disp)"
  unfolding begin_dispatch_body_def by (intro evo_moves)

lemma evo_integrity_event [evo_moves]:
  "moves evolves (append_integrity_event now s m)" "moves evolves (refuse now s m e)"
  unfolding refuse_def append_integrity_event_def by (intro evo_moves)+

text \<open>The environment of a run may be rewritten only while the run is Created.\<close>

lemma environment_evolves:
  assumes "run_get k d = Some r" and "rn_status r = CREATED"
  shows "evolves d (upd_run k (\<lambda>x. x\<lparr>rn_environment_json := t\<rparr>) d)"
proof (rule evolvesI)
  assume ok: "db_ok d"
  note uniq = run_by_key [OF ok assms(1)]
  show "db_ok (upd_run k (\<lambda>x. x\<lparr>rn_environment_json := t\<rparr>) d)"
    using ok by (rule upd_run_ok) (auto simp: run_ok_def)
  show "extends d (upd_run k (\<lambda>x. x\<lparr>rn_environment_json := t\<rparr>) d)"
    using uniq assms(2) by (intro update_extends) (auto simp: run_moves_def)
qed

lemma commit_binding_evolves:
  assumes "commit_binding c t0 t1 t2 s r fid url env d = Inr (x, d')"
    and "run_get (rn_id r) d = Some r" and "rn_status r = CREATED"
  shows "evolves d d'"
proof -
  let ?d1 = "upd_run (rn_id r) (\<lambda>x. x\<lparr>rn_environment_json := env\<rparr>) d"
  let ?m = "bindB (set_acknowledged (sb_key s) fid url t0) (\<lambda>changed.
      if \<not> changed then raiseB (integrity ''research submission changed during acknowledgement'')
      else
        bindB (run_transition t1 (rn_id r) RUNNING None) (\<lambda>running.
        bindB (event_append t2 (rn_id r) EV_RUN_STARTED SEV_INFO (lc_started_message c)
          quant_factory (rn_started_at running)) (\<lambda>_.
        bindB (assert_row (submission_get (sb_key s))) (\<lambda>current.
        retB (None, current)))))"
  have "?m ?d1 = Inr (x, d')" using assms(1) unfolding commit_binding_def body_step .
  moreover have "moves evolves ?m" by (intro evo_moves)
  ultimately have "evolves ?d1 d'" by (blast dest: movesD)
  with environment_evolves [OF assms(2,3)] show ?thesis by (rule evo.evo_trans)
qed

text \<open>An acknowledgement that reached a Created run is refused, raises, or is committed.\<close>

lemma accept_binding_cases:
  obtains m e where "accept_binding c t0 t1 t2 s r fid url d = refuse t0 s m e d"
  | e where "accept_binding c t0 t1 t2 s r fid url d = Inl e"
  | env ej where "json_loads (rn_environment_json r) = Some (JObj env)"
      "jget ''prefect_flow_run_id'' (JObj env) \<in> {JNull, JStr fid}"
      "canonical_json (JObj (updated_environment env fid url)) = Inr ej"
      "accept_binding c t0 t1 t2 s r fid url d = commit_binding c t0 t1 t2 s r fid url ej d"
proof (cases "json_loads (rn_environment_json r)")
  case None
  then show ?thesis using that(1) by (simp add: accept_binding_def)
next
  case (Some doc)
  show ?thesis
  proof (cases doc)
    case (JObj env)
    let ?st = "jget ''prefect_flow_run_id'' (JObj env)"
    consider "?st \<in> {JNull, JStr fid}" | "\<exists>x. ?st = JList x \<or> (\<exists>y. ?st = JObj y)"
      | "?st \<notin> {JNull, JStr fid}" "\<nexists>x. ?st = JList x" "\<nexists>y. ?st = JObj y" by blast
    then show ?thesis
    proof cases
      case 1
      show ?thesis
      proof (cases "canonical_json (JObj (updated_environment env fid url))")
        case (Inl e)
        with 1 Some JObj have "accept_binding c t0 t1 t2 s r fid url d = Inl e"
          by (auto simp: accept_binding_def Let_def body_step)
        then show ?thesis by (rule that(2))
      next
        case (Inr ej)
        with 1 Some JObj
        have "accept_binding c t0 t1 t2 s r fid url d = commit_binding c t0 t1 t2 s r fid url ej d"
          by (auto simp: accept_binding_def Let_def body_step)
        with 1 Some JObj Inr show ?thesis by (intro that(3)) auto
      qed
    next
      case 2
      with Some JObj have "accept_binding c t0 t1 t2 s r fid url d = Inl (TypeError ''unhashable type'')"
        by (auto simp: accept_binding_def Let_def body_step)
      then show ?thesis by (rule that(2))
    next
      case 3
      with Some JObj have "accept_binding c t0 t1 t2 s r fid url =
          refuse t0 s ''Research submission run had a conflicting Prefect identity.''
            ''research claim run has a different Prefect identity''"
        by (cases ?st) (simp_all add: accept_binding_def Let_def del: jget.simps)
      then show ?thesis using that(1) by metis
    qed
  qed (use Some that(1) in \<open>simp add: accept_binding_def\<close>)+
qed

lemma accept_binding_evolves:
  assumes "accept_binding c t0 t1 t2 s r fid url d = Inr (x, d')"
    and "run_get (rn_id r) d = Some r" and "rn_status r = CREATED"
  shows "evolves d d'"
proof (cases rule: accept_binding_cases [of c t0 t1 t2 s r fid url d])
  case (1 m e)
  with assms(1) show ?thesis by (metis movesD evo_integrity_event(2))
next
  case (3 env ej)
  with assms(1) have "commit_binding c t0 t1 t2 s r fid url ej d = Inr (x, d')" by simp
  then show ?thesis using assms(2,3) by (rule commit_binding_evolves)
qed (use assms in simp)

lemma evo_bind_body [evo_moves]:
  "moves evolves (bind_body sha c t0 t1 t2 key rid cid req fp fid url)"
proof -
  have check: "moves evolves (check_claim_for_binding sha c t0 s)" for s
    unfolding check_claim_for_binding_def
  proof (rule evo.moves_bind [OF evo.moves_read])
    fix v :: "exn + run"
    show "moves evolves (case v of
       Inr _ \<Rightarrow> retB None
     | Inl e \<Rightarrow>
         (case e of
            ResearchLaunchIntegrityError m \<Rightarrow>
              bindB (readB (run_get (sb_run_id s))) (\<lambda>found.
              bindB
                (case found of
                   None \<Rightarrow> retB ()
                 | Some _ \<Rightarrow> append_integrity_event t0 s
                     ''Research submission persisted identity failed acknowledgement validation.'') (\<lambda>_.
              retB (Some e)))
          | _ \<Rightarrow> raiseB e))"
      by (auto split: sum.splits exn.splits intro!: evo_moves)
  qed
  have last: "moves evolves (bindB (readB (run_get rid)) (\<lambda>found. case found of
      None \<Rightarrow> refuse t0 s m1 e1
    | Some r \<Rightarrow> if rn_status r \<noteq> CREATED then refuse t0 s m1 e1 else accept_binding c t0 t1 t2 s r fid url))"
    for s m1 e1
  proof (rule movesI)
    fix d x d'
    assume run: "bindB (readB (run_get rid)) (\<lambda>found. case found of
      None \<Rightarrow> refuse t0 s m1 e1
    | Some r \<Rightarrow> if rn_status r \<noteq> CREATED then refuse t0 s m1 e1 else accept_binding c t0 t1 t2 s r fid url) d
      = Inr (x, d')"
    show "evolves d d'"
    proof (cases "run_get rid d")
      case None
      with run show ?thesis by (auto simp: body_step intro: movesD [OF evo_integrity_event(2)])
    next
      case (Some r)
      then have "rn_id r = rid" by (auto simp: run_get_def dest: tget_SomeD)
      with run Some show ?thesis
        by (auto simp: body_step split: if_splits
            intro: movesD [OF evo_integrity_event(2)] accept_binding_evolves)
    qed
  qed
  show ?thesis
    unfolding bind_body_def by (intro evo_moves check last)
qed

lemma evo_resolution [evo_moves]:
  "moves evolves (mark_unknown_body now key disp sm)"
  "moves evolves (recover_invoking_body now key dep evd)"
  "moves evolves (fail_before_body sha c t0 t1 t2 key sm)"
  "moves evolves (abandon_body sha c t0 t1 t2 key evd sm)"
  unfolding mark_unknown_body_def recover_invoking_body_def fail_before_body_def abandon_body_def
  by (intro evo_moves)+

lemma claim_evolves: "evolves d (snd (claim sha c injr t0 t1 t2 rid key rq env d))"
  unfolding claim_def
  by (auto split: sum.splits simp: evo.evo_refl intro!: evo.moves_transaction evo_moves)

lemma begin_dispatch_evolves: "evolves d (snd (begin_dispatch sha c now key disp d))"
  unfolding begin_dispatch_def
  by (auto split: sum.splits simp: evo.evo_refl intro!: evo.moves_transaction evo_moves)

lemma raise_after_commit_state: "snd (raise_after_commit z) = snd z"
  by (auto simp: raise_after_commit_def split: prod.splits sum.splits option.splits)

lemma bind_evolves:
  "evolves d (snd (bind_prefect_identity sha c t0 t1 t2 key rid cid req fp fid url d))"
  unfolding bind_prefect_identity_def
  by (auto split: sum.splits simp: evo.evo_refl raise_after_commit_state
      intro!: evo.moves_transaction evo_moves)

lemma resolution_evolves:
  "evolves d (snd (mark_invocation_unknown now key disp sm d))"
  "evolves d (snd (recover_invoking_after_process_exit now key dep evd d))"
  "evolves d (snd (fail_before_submission sha c t0 t1 t2 key sm d))"
  "evolves d (snd (abandon_unknown sha c t0 t1 t2 key evd sm d))"
  unfolding mark_invocation_unknown_def recover_invoking_after_process_exit_def
    fail_before_submission_def abandon_unknown_def
  by (auto split: sum.splits simp: evo.evo_refl intro!: evo.moves_transaction evo_moves)

lemma operator_evolves:
  "evolves d (snd (reconcile_unknown_for_run sha c t0 t1 t2 rid fid url d))"
  "evolves d (snd (abandon_unknown_for_run sha c t0 t1 t2 rid evd sm d))"
  unfolding reconcile_unknown_for_run_def abandon_unknown_for_run_def
  by (auto split: sum.splits option.splits simp: evo.evo_refl bind_evolves resolution_evolves)

text \<open>A dispatch is a step of the evolution whenever the injected callable is one.\<close>

lemma dispatch_evolves:
  assumes "\<And>s d. evolves d (snd (invoke s d))"
  shows "evolves d (snd (dispatch sha c t0 t1 invoke key disp d))"
proof (cases "begin_dispatch sha c t0 key disp d")
  case (Pair r1 d1)
  have e1: "evolves d d1" using begin_dispatch_evolves [of d sha c t0 key disp] Pair by simp
  show ?thesis
  proof (cases r1)
    case (Inl e)
    with Pair e1 show ?thesis by (simp add: dispatch_def)
  next
    case (Inr dec)
    obtain r2 d2 where i: "invoke (dd_submission dec) d1 = (r2, d2)"
      by (cases "invoke (dd_submission dec) d1")
    then have e2: "evolves d d2" using assms [of d1 "dd_submission dec"] e1 evo.evo_trans by fastforce
    have e3: "evolves d (snd (mark_invocation_unknown t1 key disp sm d2))" for sm
      using evo.evo_trans [OF e2 resolution_evolves(1)] .
    then have e3': "mark_invocation_unknown t1 key disp sm d2 = (z, d3) \<Longrightarrow> evolves d d3" for sm z d3
      by (metis snd_conv)
    show ?thesis
      using Pair Inr i e1 e2
      by (auto simp: dispatch_def split: sum.splits prod.splits option.splits dest: e3')
  qed
qed

end
