(* ===== verification/Launch_Protocol.thy ===== *)
theory Launch_Protocol
  imports Launch_Claims
begin

text \<open>
  What the durable launch protocol guarantees, from the handlers of \<open>Launch_Claims\<close>: the exact
  outcome of every handler, the coupling of a submission with its run, and the histories in which
  any service operation may come between two launch operations. The invariants are proved by rule
  induction over those histories.
\<close>

section \<open>Reading the check of a stored claim\<close>

lemma case_json_Inr:
  "(case doc of JObj kvs \<Rightarrow> f kvs | _ \<Rightarrow> Inl e) = Inr r \<longleftrightarrow> (\<exists>kvs. doc = JObj kvs \<and> f kvs = Inr r)"
  by (cases doc) simp_all

definition stored_operation :: "json \<Rightarrow> launch_operation option" where
  "stored_operation doc =
     (case jget ''operation_kind'' doc of
        JStr k \<Rightarrow> (case coerce_enum launch_operation_value launch_operations k of
                    Inl _ \<Rightarrow> None | Inr op \<Rightarrow> Some op)
      | _ \<Rightarrow> None)"

definition stored_source :: "json \<Rightarrow> string option option" where
  "stored_source doc =
     (case jget ''source_run_id'' doc of JNull \<Rightarrow> Some None | JStr t \<Rightarrow> Some (Some t) | _ \<Rightarrow> None)"

text \<open>Everything a claim that passes the check agrees on.\<close>

definition claim_agrees ::
  "(string \<Rightarrow> string) \<Rightarrow> launch_contract \<Rightarrow> submission \<Rightarrow> (string \<times> json) list \<Rightarrow> launch_operation \<Rightarrow>
   configuration \<Rightarrow> run \<Rightarrow> string option \<Rightarrow> (string \<times> json) list \<Rightarrow> bool" where
  "claim_agrees sha c s kvs op cfg r src lin \<longleftrightarrow>
     request_fingerprint sha (sb_canonical_request_json s) = sb_request_fingerprint s \<and>
     json_loads (sb_canonical_request_json s) = Some (JObj kvs) \<and>
     canonical_json (JObj kvs) = Inr (sb_canonical_request_json s) \<and>
     stored_operation (JObj kvs) = Some op \<and>
     py_eq (jget ''protocol_version'' (JObj kvs)) (lc_protocol_version c) \<and>
     jget ''accepted_launch_policy'' (JObj kvs) = JStr (lc_policy c) \<and>
     jget (lc_stage_field c) (JObj kvs) = JStr (run_stage_value (lc_stage c)) \<and>
     jget ''configuration_id'' (JObj kvs) = JStr (sb_configuration_id s) \<and>
     sha (cf_canonical_json cfg) = cf_hash cfg \<and>
     jget ''configuration_hash'' (JObj kvs) = JStr (cf_hash cfg) \<and>
     jget ''strategy_id'' (JObj kvs) = JStr (cf_strategy_id cfg) \<and>
     jget ''strategy_version'' (JObj kvs) = JStr (cf_strategy_version cfg) \<and>
     rn_configuration_id r = sb_configuration_id s \<and> rn_strategy_id r = cf_strategy_id cfg \<and>
     rn_strategy_version r = cf_strategy_version cfg \<and> rn_stage r = lc_stage c \<and>
     stored_source (JObj kvs) = Some src \<and> jget ''source_lineage'' (JObj kvs) = JObj lin \<and>
     (\<forall>kv \<in> set lin. \<exists>t. snd kv = JStr t) \<and>
     (if op = OP_RUN_TEST then src = None \<and> lin = [] else src \<noteq> None)"

lemma validate_claim_iff:
  "validate_persisted_claim sha c s cr lc d = Inr r \<longleftrightarrow>
   (\<exists>kvs op cfg st src lin derived.
      claim_agrees sha c s kvs op cfg r src lin \<and>
      configuration_get (sb_configuration_id s) d = Some cfg \<and>
      strategy_get (cf_strategy_id cfg) (cf_strategy_version cfg) d = Some st \<and>
      (lc \<longrightarrow> st_active st \<and> st_lifecycle st = lc_lifecycle c) \<and>
      run_get (sb_run_id s) d = Some r \<and> (cr \<longrightarrow> rn_status r = CREATED) \<and>
      derive_source_lineage sha op src (lc_stage c) (cf_id cfg) (cf_strategy_id cfg)
        (cf_strategy_version cfg) d = Inr derived \<and>
      json_is_lineage (JObj lin) derived)"
proof -
  have op: "(case j of JStr k \<Rightarrow>
           (case coerce_enum launch_operation_value launch_operations k of
              Inl _ \<Rightarrow> Inl e | Inr op \<Rightarrow> Inr op) | _ \<Rightarrow> Inl e) = Inr x \<longleftrightarrow>
      (case j of JStr k \<Rightarrow> (case coerce_enum launch_operation_value launch_operations k of
                    Inl _ \<Rightarrow> None | Inr op \<Rightarrow> Some op) | _ \<Rightarrow> None) = Some x"
    for j and e :: exn and x
    by (auto split: json.splits sum.splits)
  have src: "(case j of JNull \<Rightarrow> Inr None | JStr t \<Rightarrow> Inr (Some t) | _ \<Rightarrow> Inl e) = Inr x \<longleftrightarrow>
      (case j of JNull \<Rightarrow> Some None | JStr t \<Rightarrow> Some (Some t) | _ \<Rightarrow> None) = Some x"
    for j and e :: exn and x
    by (auto split: json.splits)
  have str: "(case j of JStr x \<Rightarrow> True | _ \<Rightarrow> False) \<longleftrightarrow> (\<exists>t. j = JStr t)" for j
    by (cases j) simp_all
  have ifI: "(if b then Inr x else Inl e) = Inr y \<longleftrightarrow> b \<and> x = y" for b and x y :: 'y and e :: exn
    by auto
  have ite: "(if b then guardR p e1 else guardR q e2) = Inr u \<longleftrightarrow> (if b then p else q)" for b p q e1 e2 u
    by simp
  show ?thesis
    unfolding validate_persisted_claim_def claim_agrees_def stored_operation_def stored_source_def
      bindR_Inr_iff case_option_Inr case_json_Inr op src str ifI ite guardR_Inr_iff sum.inject disj_not1
    by (rule iffI; elim exE conjE; hypsubst?; (rule exI conjI refl | assumption)+)
qed

lemma validate_claim_run:
  "validate_persisted_claim sha c s cr lc d = Inr r \<Longrightarrow>
   run_get (sb_run_id s) d = Some r \<and> (cr \<longrightarrow> rn_status r = CREATED)"
  by (auto simp: validate_claim_iff)
section \<open>What leaves the submissions alone\<close>

definition same_submissions :: "db \<Rightarrow> db \<Rightarrow> bool" where
  "same_submissions d d' \<longleftrightarrow> submissions d' = submissions d"

interpretation sub: evolution same_submissions
  by unfold_locales (simp_all add: same_submissions_def)

named_theorems still_moves \<open>bodies that leave the submission table alone\<close>

lemmas [still_moves] = sub.evo_rules

lemma still_statement [still_moves]:
  "moves same_submissions (updB (ins_strategy r1))" "moves same_submissions (updB (ins_configuration r2))"
  "moves same_submissions (updB (ins_draft r3))" "moves same_submissions (updB (ins_run r4))"
  "moves same_submissions (updB (ins_event r5))" "moves same_submissions (updB (upd_draft k f))"
  "moves same_submissions (updB (ins_artifact r6))"
  by (rule sub.moves_upd; auto simp: same_submissions_def ins_strategy_def ins_configuration_Inr
      ins_draft_Inr upd_draft_Inr ins_run_Inr ins_event_Inr ins_artifact_Inr tput_Inr_iff
      split: option.splits)+

lemma still_update [still_moves]:
  "moves same_submissions (modB (del_unlinked_draft k4))" "moves same_submissions (modB (ins_audit a))"
  "moves same_submissions (modB (put_review v))" "moves same_submissions (modB (upd_strategy k1 f1))"
  "moves same_submissions (modB (upd_run k2 f2))" "moves same_submissions (modB (upd_artifact k3 f3))"
  by (rule sub.moves_mod; simp add: same_submissions_def del_unlinked_draft_def ins_audit_def
      put_review_def upd_strategy_def upd_run_def upd_artifact_def split: option.splits)+

lemma still_method [still_moves]:
  "moves same_submissions (assert_row get)"
  "moves same_submissions (strategy_upsert now sid ver nm ds lc act)"
  "moves same_submissions (strategy_update_lifecycle now sid ver lc act)"
  "moves same_submissions (configuration_upsert sha now doc)"
  "moves same_submissions (idea_save now k ti de so at no)"
  "moves same_submissions (idea_set_candidate_packet now k c)"
  "moves same_submissions (idea_link_configuration now k cid rp)"
  "moves same_submissions (idea_delete k)"
  "moves same_submissions (run_create now k cid sid ver stage status env)"
  "moves same_submissions (run_transition now k st e)"
  "moves same_submissions (run_increment_attempt k)"
  "moves same_submissions (event_append now k ty sev msg src at2)"
  "moves same_submissions (review_update now tt ti rs nt op)"
  "moves same_submissions (register_artifact_contract now k kind nm vr mt fm dg sz loc av idk)"
  "moves same_submissions (update_artifact_availability i av)"
  unfolding assert_row_def strategy_upsert_def strategy_update_lifecycle_def configuration_upsert_def
    idea_save_def idea_set_candidate_packet_def idea_link_configuration_def idea_delete_def
    run_create_def run_transition_def run_increment_attempt_def event_append_def review_update_def
    register_artifact_contract_def update_artifact_availability_def get_artifact_def assert_row_def
  by (intro still_moves)+

lemma still_body [still_moves]:
  "moves same_submissions (create_run_with_event_body sha cap now t1 cid sid ver stage k st env ty sev msg src)"
  "moves same_submissions (transition_with_event_body t0 t1 k st ty sev msg err src)"
  "moves same_submissions (recover_stale_run clock cutoff r)"
  "moves same_submissions (append_integrity_event now s m)"
  "moves same_submissions (refuse now s m x)"
  unfolding create_run_with_event_body_def transition_with_event_body_def recover_stale_run_def
    refuse_def append_integrity_event_def
  by (intro still_moves)+

lemma record_service_still:
  "same_submissions d (snd (register_strategy now sid ver nm ds lc act d))"
  "same_submissions d (snd (update_strategy_lifecycle now sid ver lc act d))"
  "same_submissions d (snd (upsert_configuration sha now doc d))"
  "same_submissions d (snd (save_idea_draft fresh now ti de so at no did d))"
  "same_submissions d (snd (delete_idea_draft k d))"
  "same_submissions d (snd (set_idea_candidate_packet now k c d))"
  "same_submissions d (snd (link_idea_configuration now k cid d))"
  "same_submissions d (snd (upsert_idea_configuration sha t0 t1 k doc rp d))"
  "same_submissions d (snd (update_review now tt tid st nt op d))"
  "same_submissions d (snd (save_candidate_idea t0 t1 k ti cj de so at no d))"
  unfolding register_strategy_def update_strategy_lifecycle_def upsert_configuration_def
    save_idea_draft_def delete_idea_draft_def set_idea_candidate_packet_def
    link_idea_configuration_def upsert_idea_configuration_def update_review_def
    save_candidate_idea_def
  by (rule sub.moves_transaction; intro still_moves)+

lemma run_service_still:
  "same_submissions d (snd (create_run sha cap fresh now cid sid ver stage rid st env d))"
  "same_submissions d (snd (create_run_with_operator_event sha cap now t1 cid sid ver stage k st env ty sev msg src d))"
  "same_submissions d (snd (transition_run now k st err d))"
  "same_submissions d (snd (transition_run_with_operator_event t0 t1 k st ty sev msg err src d))"
  "same_submissions d (snd (increment_run_attempt k d))"
  "same_submissions d (snd (append_run_event now k ty sev msg src at2 d))"
  "same_submissions d (snd (request_run_cancellation now k d))"
  "same_submissions d (snd (acknowledge_run_cancellation t0 t1 k d))"
  "same_submissions d (snd (fail_run_for_timeout t0 t1 t2 t3 t4 k tm es d))"
  "same_submissions d (snd (set_artifact_availability i av d))"
  unfolding create_run_def create_run_with_operator_event_def transition_run_def
    transition_run_with_operator_event_def increment_run_attempt_def append_run_event_def
    request_run_cancellation_def acknowledge_run_cancellation_def fail_run_for_timeout_def
    set_artifact_availability_def
  by (rule sub.moves_transaction; intro still_moves)+

lemma recover_still: "same_submissions d (snd (recover_stale_fixture_runs clock before d))"
proof (cases "parse_utc_timestamp ''stale_before'' before")
  case (Inr cutoff)
  then show ?thesis
    by (simp add: recover_stale_fixture_runs_def) (intro sub.moves_transaction still_moves)
qed (simp add: recover_stale_fixture_runs_def sub.evo_refl)

lemma register_artifact_still:
  "same_submissions d (snd (register_artifact sha shab now k ty nm mt fm loc content ver av d))"
  unfolding register_artifact_def
  by (cases "artifact_identity sha k ty nm ver")
    (auto simp: sub.evo_refl intro!: sub.moves_transaction still_moves)

lemma persist_manifest_still: "same_submissions d (snd (persist_run_manifest sha m d))"
proof (cases "persist_run_manifest sha m d")
  case (Pair res d')
  from persist_manifest_outcome [OF Pair] show ?thesis
    by (elim disjE exE conjE)
      (auto simp: Pair put_manifest_def same_submissions_def split: option.splits if_splits)
qed
section \<open>What each handler does\<close>

lemma with_submission_Inr [simp]:
  "with_submission key f d = Inr (x, d') \<longleftrightarrow> (\<exists>s. submission_get key d = Some s \<and> f s d = Inr (x, d'))"
  by (auto simp: with_submission_def split: option.splits)

text \<open>The row a guarded update of a submission leaves.\<close>

definition put_submission :: "submission \<Rightarrow> db \<Rightarrow> db" where
  "put_submission s d = d\<lparr>submissions := tupd sb_key (sb_key s) (\<lambda>_. s) (submissions d)\<rparr>"

lemma submission_get_key: "submission_get k d = Some s \<Longrightarrow> sb_key s = k"
  by (auto simp: submission_get_def dest: tget_SomeD)

lemma run_get_key: "run_get k d = Some r \<Longrightarrow> rn_id r = k"
  by (auto simp: run_get_def dest: tget_SomeD)

lemma tget_set: "tget key k xs = Some r \<Longrightarrow> r \<in> set xs"
  by (auto dest: tget_SomeD)

lemma submission_get_put:
  assumes "submission_get (sb_key s) d \<noteq> None"
  shows "submission_get j (put_submission s d) = (if j = sb_key s then Some s else submission_get j d)"
  using assms by (auto simp: put_submission_def submission_get_def tget_replace)

lemma put_submission_tables [simp]:
  "runs (put_submission s d) = runs d" "events (put_submission s d) = events d"
  "run_get k (put_submission s d) = run_get k d"
  "configurations (put_submission s d) = configurations d"
  "strategies (put_submission s d) = strategies d" "manifests (put_submission s d) = manifests d"
  "next_event (put_submission s d) = next_event d"
  by (simp_all add: put_submission_def run_get_def)

lemma tupd_only:
  assumes "\<And>x. x \<in> set xs \<Longrightarrow> key x = k \<Longrightarrow> x = r"
  shows "tupd key k f xs = tupd key k (\<lambda>_. f r) xs"
  using assms by (auto simp: tupd_def)

lemma upd_submission_put:
  assumes "db_ok d" and "submission_get k d = Some s" and "\<And>r. sb_key (f r) = sb_key r"
    and "upd_submission k allowed f d = Inr (b, d')"
  shows "(b \<and> sb_state s \<in> set allowed \<and> d' = put_submission (f s) d)
    \<or> (\<not> b \<and> sb_state s \<notin> set allowed \<and> d' = d)"
  using assms tupd_only [of "submissions d" sb_key k s f] submission_by_key [OF assms(1,2)]
    submission_get_key [OF assms(2)]
  by (auto simp: upd_submission_Inr put_submission_def split: if_splits)

lemma set_member_put:
  assumes "x \<in> set (submissions (put_submission s d))"
  shows "x = s \<or> x \<in> set (submissions d) \<and> sb_key x \<noteq> sb_key s"
  using assms by (auto simp: put_submission_def tupd_def split: if_splits)

text \<open>The winner of the marker is the caller that found the submission Claimed.\<close>

lemma begin_dispatch_cases:
  assumes "db_ok d" and "begin_dispatch sha c now key disp d = (Inr dec, d')"
  obtains s where "submission_get key d = Some s" "sb_state s = SUB_CLAIMED"
      "\<exists>r. validate_persisted_claim sha c s True True d = Inr r"
      "dec = \<lparr>dd_submission = invoking_row disp now s, dd_should_invoke = True\<rparr>"
      "d' = put_submission (invoking_row disp now s) d"
  | s where "submission_get key d = Some s" "sb_state s \<noteq> SUB_CLAIMED"
      "dec = \<lparr>dd_submission = s, dd_should_invoke = False\<rparr>" "d' = d"
proof -
  from assms(2) obtain s where s: "submission_get key d = Some s"
    and v: "sb_state s = SUB_CLAIMED \<Longrightarrow> \<exists>r. validate_persisted_claim sha c s True True d = Inr r"
    and m: "\<exists>b. set_invoking key disp now d = Inr (b, d') \<and>
        (\<exists>cur. submission_get key d' = Some cur \<and> dec = \<lparr>dd_submission = cur, dd_should_invoke = b\<rparr>)"
    by (auto simp: begin_dispatch_def validate_launch_key_def validate_dispatcher_id_def
        transaction_Inr_iff begin_dispatch_body_def split: if_splits sum.splits)
  from m obtain b cur where b: "set_invoking key disp now d = Inr (b, d')"
    and cur: "submission_get key d' = Some cur" "dec = \<lparr>dd_submission = cur, dd_should_invoke = b\<rparr>" by auto
  note key = submission_get_key [OF s]
  from upd_submission_put [OF assms(1) s, of "invoking_row disp now" "[SUB_CLAIMED]" b d'] b
  show thesis
    using that s v cur key submission_get_put [of "invoking_row disp now s" d key]
    by (auto simp: set_invoking_def)
qed

lemma mark_cases:
  assumes "db_ok d" and "mark_invocation_unknown now key disp sm d = (Inr s', d')"
  obtains s where "submission_get key d = Some s" "sb_state s \<in> {SUB_SUBMISSION_UNKNOWN, SUB_ACKNOWLEDGED}"
      "s' = s" "d' = d"
  | s where "submission_get key d = Some s" "sb_state s = SUB_INVOKING" "sb_dispatcher s = Some disp"
      "s' = unknown_row now (strip sm) None s" "d' = put_submission s' d"
proof -
  from assms(2) have m: "mark_unknown_body now key disp (strip sm) d = Inr (s', d')"
    by (auto simp: mark_invocation_unknown_def validate_launch_key_def validate_dispatcher_id_def
        bounded_text_def Let_def transaction_Inr_iff split: if_splits sum.splits)
  then obtain s where s: "submission_get key d = Some s" by (auto simp: mark_unknown_body_def)
  note key = submission_get_key [OF s]
  consider "sb_state s \<in> {SUB_SUBMISSION_UNKNOWN, SUB_ACKNOWLEDGED}" "s' = s" "d' = d"
    | "sb_state s = SUB_INVOKING" "sb_dispatcher s = Some disp"
      "set_unknown key now (strip sm) None d = Inr (True, d')" "submission_get key d' = Some s'"
    using m s by (auto simp: mark_unknown_body_def split: if_splits)
  then show thesis
  proof cases
    case 2
    with upd_submission_put [OF assms(1) s, of "unknown_row now (strip sm) None" "[SUB_INVOKING]" True d']
    have "d' = put_submission (unknown_row now (strip sm) None s) d"
      by (auto simp: set_unknown_def)
    then show thesis
      using that(2) 2 s key submission_get_put [of "unknown_row now (strip sm) None s" d key] by auto
  qed (use that(1) s in blast)
qed

lemma event_append_state:
  assumes "event_append now k ty sev msg src at2 d = Inr (e, d')"
  obtains x where "d' = d\<lparr>events := events d @ [x], next_event := next_event d + 1\<rparr>"
    "ev_run_id x = k" "ev_type x = ty" "ev_severity x = sev" "ev_message x = strip msg"
  using assms by (auto simp: event_append_def Let_def ins_event_Inr)
lemma recover_invoking_cases:
  assumes "db_ok d" and "recover_invoking_after_process_exit now key dep evd d = (Inr s', d')"
  obtains s where "submission_get key d = Some s" "sb_state s = SUB_SUBMISSION_UNKNOWN" "s' = s" "d' = d"
  | s where "submission_get key d = Some s" "sb_state s = SUB_INVOKING" "sb_dispatcher s = Some dep"
      "s' = unknown_row now
         ''The recorded dispatcher exited before Prefect acknowledgement could be confirmed.''
         (Some (strip evd)) s" "d' = put_submission s' d"
proof -
  let ?f = "unknown_row now
         ''The recorded dispatcher exited before Prefect acknowledgement could be confirmed.''
         (Some (strip evd))"
  from assms(2) have m: "recover_invoking_body now key dep (strip evd) d = Inr (s', d')"
    by (auto simp: recover_invoking_after_process_exit_def validate_launch_key_def
        validate_dispatcher_id_def bounded_text_def Let_def transaction_Inr_iff
        split: if_splits sum.splits)
  then obtain s where s: "submission_get key d = Some s" by (auto simp: recover_invoking_body_def)
  note key = submission_get_key [OF s]
  consider "sb_state s = SUB_SUBMISSION_UNKNOWN" "s' = s" "d' = d"
    | "sb_state s = SUB_INVOKING" "sb_dispatcher s = Some dep"
      "upd_submission key [SUB_INVOKING] ?f d = Inr (True, d')" "submission_get key d' = Some s'"
    using m s by (auto simp: recover_invoking_body_def set_unknown_def split: if_splits)
  then show thesis
  proof cases
    case 2
    have d': "d' = put_submission (?f s) d"
      using upd_submission_put [OF assms(1) s, of ?f "[SUB_INVOKING]" True d'] 2(3) by simp
    have "s' = ?f s" using 2(4) s key submission_get_put [of "?f s" d key] by (simp add: d')
    then show thesis using that(2) s 2(1,2) d' by blast
  qed (use that(1) s in blast)
qed

text \<open>
  A submission row and a run that belong together: an acknowledged submission has a run that left
  Created and, where the clock readings are not empty, has its start time; a submission resolved
  without an acknowledgement has a failed run that never started.
\<close>

definition link_ok :: "bool \<Rightarrow> submission_state \<Rightarrow> run \<Rightarrow> bool" where
  "link_ok timed s r \<longleftrightarrow>
     (s = SUB_ACKNOWLEDGED \<longrightarrow>
        rn_status r \<noteq> CREATED \<and> (timed \<longrightarrow> rn_started_at r \<notin> {None, Some []})) \<and>
     (s \<in> {SUB_FAILED_BEFORE_SUBMISSION, SUB_ABANDONED} \<longrightarrow>
        rn_status r = FAILED \<and> rn_started_at r = None)"

text \<open>The end of the two operator verdicts: row, run and event change together.\<close>

lemma verdict_outcome:
  assumes "db_ok d" and "submission_get key d = Some s" and "\<And>r. sb_key (f r) = sb_key r"
    and "upd_submission key allowed f d = Inr (True, d1)"
    and "run_transition t1 k FAILED (Some sm) d1 = Inr (failed, d2)"
    and "event_append t2 (rn_id failed) EV_RUN_FAILED SEV_ERROR msg src (rn_completed_at failed) d2
      = Inr (e, d3)"
    and "submission_get key d3 = Some s'"
  shows "sb_state s \<in> set allowed \<and> s' = f s \<and> submissions d3 = submissions (put_submission (f s) d) \<and>
    (\<exists>r. run_get k d = Some r \<and> failed = transition_row t1 FAILED (Some sm) r) \<and>
    (\<forall>j. run_get j d3 = (if j = k then Some failed else run_get j d)) \<and> rn_status failed = FAILED \<and>
    (\<exists>x. events d3 = events d @ [x] \<and> ev_type x = EV_RUN_FAILED \<and> ev_run_id x = k)"
proof -
  note key = submission_get_key [OF assms(2)]
  from upd_submission_put [OF assms(1-4)]
  have d1: "sb_state s \<in> set allowed" "d1 = put_submission (f s) d" by simp_all
  from assms(5) obtain r where r: "run_get k d = Some r" "failed = transition_row t1 FAILED (Some sm) r"
    and d2: "d2 = upd_run k (transition_row t1 FAILED (Some sm)) d1"
    by (auto simp: run_transition_Inr d1(2))
  have id: "rn_id failed = k" using r run_get_key by simp
  from assms(6) obtain x where x: "d3 = d2\<lparr>events := events d2 @ [x], next_event := next_event d2 + 1\<rparr>"
    "ev_type x = EV_RUN_FAILED" "ev_run_id x = k"
    using id by (elim event_append_state) simp
  have sub: "submissions d3 = submissions (put_submission (f s) d)"
    by (simp add: x(1) d2 d1(2) upd_run_def)
  have "s' = f s"
    using assms(2,7) key submission_get_put [of "f s" d key] assms(3) sub by (simp add: submission_get_def)
  moreover have "run_get j d3 = (if j = k then Some failed else run_get j d)" for j
  proof -
    have "run_get j d3 = run_get j d2" by (simp add: x(1) run_get_def)
    also have "\<dots> = (if j = k then Some failed else run_get j d)"
      using r by (simp add: d2 run_get_upd d1(2))
    finally show ?thesis .
  qed
  moreover have "events d3 = events d @ [x]" by (simp add: x(1) d2 d1(2))
  ultimately show ?thesis using d1(1) r sub x by (auto simp: transition_row_def)
qed

lemma fail_before_cases:
  assumes "db_ok d" and "fail_before_submission sha c t0 t1 t2 key sm d = (Inr s', d')"
  obtains "submission_get key d = Some s'" "sb_state s' = SUB_FAILED_BEFORE_SUBMISSION" "d' = d"
  | s r where "submission_get key d = Some s" "sb_state s = SUB_CLAIMED"
      "s' = failed_row t0 (strip sm) s" "submissions d' = submissions (put_submission s' d)"
      "run_get (sb_run_id s) d = Some r" "rn_status r = CREATED"
      "\<forall>j. run_get j d' = (if j = sb_run_id s
         then Some (transition_row t1 FAILED (Some (strip sm)) r) else run_get j d)"
      "\<exists>x. events d' = events d @ [x] \<and> ev_type x = EV_RUN_FAILED \<and> ev_run_id x = sb_run_id s"
proof -
  let ?sm = "strip sm"
  from assms(2) have m: "fail_before_body sha c t0 t1 t2 key ?sm d = Inr (s', d')"
    by (auto simp: fail_before_submission_def validate_launch_key_def bounded_text_def Let_def
        transaction_Inr_iff split: if_splits sum.splits)
  then obtain s where s: "submission_get key d = Some s" by (auto simp: fail_before_body_def)
  consider "sb_state s = SUB_FAILED_BEFORE_SUBMISSION" "s' = s" "d' = d"
    | r d1 failed d2 e where "sb_state s = SUB_CLAIMED" "validate_persisted_claim sha c s True False d = Inr r"
      "set_failed_before_submission key t0 ?sm d = Inr (True, d1)"
      "run_transition t1 (rn_id r) FAILED (Some ?sm) d1 = Inr (failed, d2)"
      "event_append t2 (rn_id r) EV_RUN_FAILED SEV_ERROR
         ''Run failed before any Prefect submission occurred.'' quant_factory
         (rn_completed_at failed) d2 = Inr (e, d')" "submission_get key d' = Some s'"
    using m s by (auto simp: fail_before_body_def split: if_splits)
  then show thesis
  proof cases
    case 2
    note r = validate_claim_run [OF 2(2)]
    then have id: "rn_id r = sb_run_id s" using run_get_key by blast
    have "rn_id failed = rn_id r"
      using 2(4) by (auto simp: run_transition_Inr dest: run_get_key)
    with 2(5) have ev: "event_append t2 (rn_id failed) EV_RUN_FAILED SEV_ERROR
         ''Run failed before any Prefect submission occurred.'' quant_factory
         (rn_completed_at failed) d2 = Inr (e, d')" by simp
    from verdict_outcome [OF assms(1) s _ 2(3) [unfolded set_failed_before_submission_def] 2(4) ev 2(6)]
    show thesis
      using that(2) [OF s 2(1)] r id by auto
  qed (use that(1) s in blast)
qed

lemma abandon_cases:
  assumes "db_ok d" and "abandon_unknown sha c t0 t1 t2 key evd sm d = (Inr s', d')"
  obtains "submission_get key d = Some s'" "sb_state s' = SUB_ABANDONED" "d' = d"
  | s r where "submission_get key d = Some s" "sb_state s = SUB_SUBMISSION_UNKNOWN"
      "s' = abandoned_row t0 (strip sm) (strip evd) s"
      "submissions d' = submissions (put_submission s' d)"
      "run_get (sb_run_id s) d = Some r" "rn_status r = CREATED"
      "\<forall>j. run_get j d' = (if j = sb_run_id s
         then Some (transition_row t1 FAILED (Some (strip sm)) r) else run_get j d)"
      "\<exists>x. events d' = events d @ [x] \<and> ev_type x = EV_RUN_FAILED \<and> ev_run_id x = sb_run_id s"
proof -
  let ?sm = "strip sm" and ?ev = "strip evd"
  from assms(2) have m: "abandon_body sha c t0 t1 t2 key ?ev ?sm d = Inr (s', d')"
    by (auto simp: abandon_unknown_def validate_launch_key_def bounded_text_def Let_def
        transaction_Inr_iff split: if_splits sum.splits)
  then obtain s where s: "submission_get key d = Some s" by (auto simp: abandon_body_def)
  consider "sb_state s = SUB_ABANDONED" "s' = s" "d' = d"
    | r d1 failed d2 e where "sb_state s = SUB_SUBMISSION_UNKNOWN"
      "validate_persisted_claim sha c s True False d = Inr r"
      "set_abandoned key t0 ?sm ?ev d = Inr (True, d1)"
      "run_transition t1 (rn_id r) FAILED (Some ?sm) d1 = Inr (failed, d2)"
      "event_append t2 (rn_id r) EV_RUN_FAILED SEV_ERROR
         ''Unresolved submission was abandoned without accepted result evidence.'' quant_factory
         (rn_completed_at failed) d2 = Inr (e, d')" "submission_get key d' = Some s'"
    using m s by (auto simp: abandon_body_def split: if_splits)
  then show thesis
  proof cases
    case 2
    note r = validate_claim_run [OF 2(2)]
    then have id: "rn_id r = sb_run_id s" using run_get_key by blast
    have "rn_id failed = rn_id r"
      using 2(4) by (auto simp: run_transition_Inr dest: run_get_key)
    with 2(5) have ev: "event_append t2 (rn_id failed) EV_RUN_FAILED SEV_ERROR
         ''Unresolved submission was abandoned without accepted result evidence.'' quant_factory
         (rn_completed_at failed) d2 = Inr (e, d')" by simp
    from verdict_outcome [OF assms(1) s _ 2(3) [unfolded set_abandoned_def] 2(4) ev 2(6)]
    show thesis
      using that(2) [OF s 2(1)] r id by auto
  qed (use that(1) s in blast)
qed
section \<open>Binding\<close>

lemma commit_binding_outcome:
  assumes ok: "db_ok d" and s: "submission_get (sb_key s) d = Some s"
    and r: "run_get (rn_id r) d = Some r"
    and c: "commit_binding c t0 t1 t2 s r fid url ej d = Inr (out, d')"
  shows "out = (None, acknowledged_row fid url t0 s) \<and>
    sb_state s \<in> {SUB_INVOKING, SUB_SUBMISSION_UNKNOWN} \<and>
    submissions d' = submissions (put_submission (acknowledged_row fid url t0 s) d) \<and>
    configurations d' = configurations d \<and> strategies d' = strategies d \<and> manifests d' = manifests d \<and>
    (\<forall>j. run_get j d' = (if j = rn_id r
       then Some (transition_row t1 RUNNING None (r\<lparr>rn_environment_json := ej\<rparr>)) else run_get j d)) \<and>
    (\<exists>x. events d' = events d @ [x] \<and> ev_type x = EV_RUN_STARTED \<and> ev_run_id x = rn_id r)"
proof -
  let ?d0 = "upd_run (rn_id r) (\<lambda>x. x\<lparr>rn_environment_json := ej\<rparr>) d" and ?f = "acknowledged_row fid url t0"
  from c obtain d1 running d2 e cur where
    d1: "set_acknowledged (sb_key s) fid url t0 ?d0 = Inr (True, d1)"
    and d2: "run_transition t1 (rn_id r) RUNNING None d1 = Inr (running, d2)"
    and d3: "event_append t2 (rn_id r) EV_RUN_STARTED SEV_INFO (lc_started_message c) quant_factory
        (rn_started_at running) d2 = Inr (e, d')"
    and cur: "submission_get (sb_key s) d' = Some cur" and out: "out = (None, cur)"
    by (auto simp: commit_binding_def split: if_splits)
  have subs: "submissions ?d0 = submissions d" by (simp add: upd_run_def)
  have put: "sb_state s \<in> {SUB_INVOKING, SUB_SUBMISSION_UNKNOWN}" "d1 = put_submission (?f s) ?d0"
  proof -
    have eq: "tupd sb_key (sb_key s) ?f (submissions d) = tupd sb_key (sb_key s) (\<lambda>_. ?f s) (submissions d)"
      using submission_by_key [OF ok s] by (intro tupd_only) simp
    have s0: "submission_get (sb_key s) ?d0 = Some s" using s by (simp add: submission_get_def subs)
    from d1 s0 show "sb_state s \<in> {SUB_INVOKING, SUB_SUBMISSION_UNKNOWN}" "d1 = put_submission (?f s) ?d0"
      by (auto simp: set_acknowledged_def upd_submission_Inr put_submission_def subs eq)
  qed
  have g0: "run_get j ?d0 = (if j = rn_id r then Some (r\<lparr>rn_environment_json := ej\<rparr>) else run_get j d)" for j
    using r by (simp add: run_get_upd)
  have d2': "d2 = upd_run (rn_id r) (transition_row t1 RUNNING None) d1"
    using d2 by (auto simp: run_transition_Inr)
  from d3 obtain x where x: "d' = d2\<lparr>events := events d2 @ [x], next_event := next_event d2 + 1\<rparr>"
    "ev_type x = EV_RUN_STARTED" "ev_run_id x = rn_id r" by (rule event_append_state) blast
  have sub: "submissions d' = submissions (put_submission (?f s) d)"
    by (simp add: x(1) d2' put(2) upd_run_def put_submission_def)
  have "cur = ?f s"
    using cur s sub submission_get_put [of "?f s" d "sb_key s"] by (simp add: submission_get_def)
  moreover have "run_get j d' = (if j = rn_id r
       then Some (transition_row t1 RUNNING None (r\<lparr>rn_environment_json := ej\<rparr>)) else run_get j d)" for j
  proof -
    have "run_get j d' = run_get j d2" by (simp add: x(1) run_get_def)
    also have "\<dots> = (if j = rn_id r then map_option (transition_row t1 RUNNING None) (run_get j ?d0)
        else run_get j d)" by (simp add: d2' run_get_upd put(2) g0)
    finally show ?thesis by (simp add: g0)
  qed
  moreover have "configurations d' = configurations d" "strategies d' = strategies d"
    "manifests d' = manifests d" "events d' = events d @ [x]"
    by (simp_all add: x(1) d2' put(2) upd_run_def put_submission_def)
  ultimately show ?thesis using out put(1) sub x(2,3) by blast
qed

text \<open>An integrity event, or none if the same message is already on the run.\<close>

definition noted :: "submission \<Rightarrow> db \<Rightarrow> db \<Rightarrow> bool" where
  "noted s d d' \<longleftrightarrow> d' = d \<or>
     (\<exists>x. d' = d\<lparr>events := events d @ [x], next_event := next_event d + 1\<rparr> \<and>
        ev_run_id x = sb_run_id s \<and> ev_type x = EV_SERVICE_INTEGRITY_ERROR \<and> ev_severity x = SEV_ERROR)"

lemma noted_refl [simp]: "noted s d d"
  by (simp add: noted_def)

lemma integrity_event_noted:
  "append_integrity_event now s m d = Inr (u, d') \<Longrightarrow> noted s d d'"
  by (auto simp: append_integrity_event_def noted_def split: if_splits elim!: event_append_state)

lemma refuse_noted: "refuse now s m e d = Inr (out, d') \<Longrightarrow> noted s d d' \<and> out = (Some (integrity e), s)"
  by (auto simp: refuse_def dest: integrity_event_noted)

lemma check_for_binding_outcome:
  assumes "check_claim_for_binding sha c now s d = Inr (failed, d1)"
  shows "(failed = None \<and> d1 = d \<and>
      (\<exists>r. validate_persisted_claim sha c s (sb_state s \<noteq> SUB_ACKNOWLEDGED) False d = Inr r))
    \<or> (failed \<noteq> None \<and> noted s d d1)"
proof (cases "validate_persisted_claim sha c s (sb_state s \<noteq> SUB_ACKNOWLEDGED) False d")
  case (Inl e)
  with assms show ?thesis
    by (cases e) (auto simp: check_claim_for_binding_def split: option.splits
        dest: integrity_event_noted)
next
  case (Inr r)
  with assms show ?thesis by (simp add: check_claim_for_binding_def)
qed

lemma bind_body_cases:
  assumes "bind_body sha c t0 t1 t2 key rid cid req fp fid url d = Inr (out, d')"
  obtains s e where "submission_get key d = Some s" "out = (Some e, s)" "noted s d d'"
  | s where "submission_get key d = Some s" "sb_state s = SUB_ACKNOWLEDGED"
      "\<not> binding_mismatch sha s rid cid req fp" "sb_prefect_flow_run_id s = Some fid"
      "sb_prefect_api_url s = url" "\<exists>v. validate_persisted_claim sha c s False False d = Inr v"
      "out = (None, s)" "d' = d"
  | s r env ej where "submission_get key d = Some s" "run_get rid d = Some r" "rn_status r = CREATED"
      "\<not> binding_mismatch sha s rid cid req fp"
      "validate_persisted_claim sha c s True False d = Inr r"
      "json_loads (rn_environment_json r) = Some (JObj env)"
      "jget ''prefect_flow_run_id'' (JObj env) \<in> {JNull, JStr fid}"
      "canonical_json (JObj (updated_environment env fid url)) = Inr ej"
      "commit_binding c t0 t1 t2 s r fid url ej d = Inr (out, d')"
proof -
  from assms obtain s failed d1 where s: "submission_get key d = Some s"
    and chk: "check_claim_for_binding sha c t0 s d = Inr (failed, d1)"
    and body: "(case failed of Some e \<Rightarrow> retB (Some e, s) | None \<Rightarrow>
         if binding_mismatch sha s rid cid req fp \<or> (\<exists>x \<in> set (submissions d1).
             sb_prefect_flow_run_id x = Some fid \<and> sb_key x \<noteq> key)
         then refuse t0 s ''Research submission identity did not match the Prefect acknowledgement.''
                ''Prefect acknowledgement did not match the durable research claim''
         else if sb_state s = SUB_ACKNOWLEDGED
         then (if sb_prefect_flow_run_id s \<noteq> Some fid \<or> sb_prefect_api_url s \<noteq> url
            then refuse t0 s ''Research submission received a conflicting Prefect acknowledgement.''
                   ''research launch already has a different Prefect identity''
            else retB (None, s))
         else if sb_state s \<notin> {SUB_INVOKING, SUB_SUBMISSION_UNKNOWN}
         then refuse t0 s ''Research submission acknowledgement arrived in an invalid state.''
                (''cannot acknowledge a '' @ submission_state_value (sb_state s) @ '' research submission'')
         else bindB (readB (run_get rid)) (\<lambda>found. case found of
             None \<Rightarrow> refuse t0 s ''Research submission run was not Created at acknowledgement.''
                       ''research claim run is not in Created state''
           | Some r \<Rightarrow> if rn_status r \<noteq> CREATED
               then refuse t0 s ''Research submission run was not Created at acknowledgement.''
                      ''research claim run is not in Created state''
               else accept_binding c t0 t1 t2 s r fid url)) d1 = Inr (out, d')"
    by (auto simp: bind_body_def)
  show thesis
  proof (cases failed)
    case (Some e)
    with chk have "noted s d d1" by (auto dest!: check_for_binding_outcome)
    with Some body show thesis using that(1) s by auto
  next
    case None
    with chk obtain v where d1: "d1 = d"
      and v: "validate_persisted_claim sha c s (sb_state s \<noteq> SUB_ACKNOWLEDGED) False d = Inr v"
      by (auto dest!: check_for_binding_outcome)
    show thesis
    proof (cases "\<exists>m e. refuse t0 s m e d = Inr (out, d')")
      case True
      then obtain m e where "refuse t0 s m e d = Inr (out, d')" by blast
      from refuse_noted [OF this] show thesis using that(1) s by blast
    next
      case nor: False
      with body None d1 have ok: "\<not> binding_mismatch sha s rid cid req fp" by auto
      show thesis
      proof (cases "sb_state s = SUB_ACKNOWLEDGED")
        case True
        with body None d1 nor ok v show thesis using that(2) [OF s True] by (auto split: if_splits)
      next
        case False
        with body None d1 nor obtain r where r: "run_get rid d = Some r" "rn_status r = CREATED"
          and acc: "accept_binding c t0 t1 t2 s r fid url d = Inr (out, d')"
          by (auto split: if_splits option.splits)
        have "sb_run_id s = rid" using ok by (simp add: binding_mismatch_def)
        with v False validate_claim_run [OF v] r(1)
        have v': "validate_persisted_claim sha c s True False d = Inr r" by auto
        show thesis
        proof (cases rule: accept_binding_cases [of c t0 t1 t2 s r fid url d])
          case (3 env ej)
          with acc show thesis using that(3) [OF s r ok v'] by auto
        qed (use acc nor in auto)
      qed
    qed
  qed
qed

section \<open>A submission and its run move together\<close>

definition coupled :: "bool \<Rightarrow> db \<Rightarrow> bool" where
  "coupled timed d \<longleftrightarrow>
     (\<forall>s \<in> set (submissions d). \<forall>r. run_get (sb_run_id s) d = Some r \<longrightarrow>
        link_ok timed (sb_state s) r)"

lemma run_get_extends:
  assumes "extends d d'" and "run_get k d = Some r"
  shows "\<exists>r'. run_get k d' = Some r' \<and> run_moves r r'"
  using assms grows_tget [of run_moves "runs d" "runs d'" rn_id k r]
  by (auto simp: extends_def run_get_def run_moves_def)

lemma link_ok_moves: "link_ok timed s r \<Longrightarrow> run_moves r r' \<Longrightarrow> link_ok timed s r'"
  by (auto simp: link_ok_def run_moves_def dest: status_moves_started status_moves_terminal)

lemma submission_run_exists:
  assumes "db_ok d" and "s \<in> set (submissions d)"
  shows "\<exists>r. run_get (sb_run_id s) d = Some r"
proof -
  have "sb_run_id s \<in> rn_id ` set (runs d)" using db_ok_parts(16) [OF assms(1)] assms(2) by blast
  then show ?thesis using get_member(3) [of "sb_run_id s" d] by (cases "run_get (sb_run_id s) d") auto
qed

text \<open>The step that keeps the coupling: a row is old, or in a state that asks nothing, or linked.\<close>

lemma coupled_step:
  assumes "db_ok d" and "evolves d d'" and "coupled timed d"
    and "\<And>s. s \<in> set (submissions d') \<Longrightarrow> s \<in> set (submissions d) \<or>
      sb_state s \<in> {SUB_CLAIMED, SUB_INVOKING, SUB_SUBMISSION_UNKNOWN} \<or>
      (\<exists>r. run_get (sb_run_id s) d' = Some r \<and> link_ok timed (sb_state s) r)"
  shows "coupled timed d'"
  unfolding coupled_def
proof (intro ballI allI impI)
  fix s r'
  assume s: "s \<in> set (submissions d')" and r': "run_get (sb_run_id s) d' = Some r'"
  have ext: "extends d d'" using assms(1,2) by (simp add: evolves_def)
  from assms(4) [OF s] show "link_ok timed (sb_state s) r'"
  proof (elim disjE)
    assume old: "s \<in> set (submissions d)"
    then obtain r where r: "run_get (sb_run_id s) d = Some r"
      using submission_run_exists [OF assms(1)] by blast
    with assms(3) old have "link_ok timed (sb_state s) r" by (auto simp: coupled_def)
    moreover have "run_moves r r'" using run_get_extends [OF ext r] r' by auto
    ultimately show ?thesis by (rule link_ok_moves)
  qed (use r' in \<open>auto simp: link_ok_def\<close>)
qed

lemma coupled_still:
  "db_ok d \<Longrightarrow> evolves d d' \<Longrightarrow> same_submissions d d' \<Longrightarrow> coupled timed d \<Longrightarrow> coupled timed d'"
  by (rule coupled_step) (auto simp: same_submissions_def)

lemma coupled_put:
  assumes "db_ok d" and "evolves d d'" and "coupled timed d"
    and "submissions d' = submissions (put_submission s' d)"
    and "sb_state s' \<in> {SUB_CLAIMED, SUB_INVOKING, SUB_SUBMISSION_UNKNOWN} \<or>
      (\<exists>r. run_get (sb_run_id s') d' = Some r \<and> link_ok timed (sb_state s') r)"
  shows "coupled timed d'"
  using assms(1-3) by (rule coupled_step) (use assms(4,5) in \<open>auto dest!: set_member_put\<close>)

lemma coupled_empty: "coupled timed empty_db"
  by (simp add: coupled_def empty_db_def)

lemma transaction_state:
  "snd (transaction m d) = d \<or> (\<exists>x. m d = Inr (x, snd (transaction m d)))"
  by (auto simp: transaction_def split: sum.splits prod.splits)

lemma coupled_claim:
  assumes "db_ok d" and "coupled timed d"
  shows "coupled timed (snd (claim sha c injr t0 t1 t2 rid key rq env d))"
proof (cases "claim sha c injr t0 t1 t2 rid key rq env d")
  case (Pair res d')
  note evo = claim_evolves [of d sha c injr t0 t1 t2 rid key rq env, unfolded Pair snd_conv]
  show ?thesis
  proof (cases res)
    case (Inl e)
    with Pair have "d' = d" by (auto simp: claim_def transaction_Inl_iff split: sum.splits)
    with assms Pair show ?thesis by simp
  next
    case (Inr cm)
    have new: "s \<in> set (submissions d) \<or> sb_state s = SUB_CLAIMED" if "s \<in> set (submissions d')" for s
    proof -
      obtain ej where body: "claim_body sha c injr t0 t1 t2 rid key rq ej d = Inr (cm, d')"
        using Pair Inr by (auto simp: claim_def validate_launch_key_def transaction_Inr_iff
            split: sum.splits if_splits)
      have run: "submissions d1 = submissions d0"
        if "run_create t1 i cid sid ver st stt e d0 = Inr (r, d1)" for i cid sid ver st stt e d0 r d1
        using movesD [OF still_method(9) that] by (simp add: same_submissions_def)
      have ev: "submissions d1 = submissions d0"
        if "event_append t2 i ty sev msg src at2 d0 = Inr (r, d1)" for i ty sev msg src at2 d0 r d1
        using movesD [OF still_method(12) that] by (simp add: same_submissions_def)
      have inj: "inject_failure injr st d0 = Inr (u, d1) \<Longrightarrow> d1 = d0" for st d0 u d1
        by (auto simp: inject_failure_def split: option.splits)
      from body that show ?thesis
        by (auto simp: claim_body_def submission_create_def ins_submission_Inr
            split: option.splits dest!: run ev inj)
    qed
    have "coupled timed d'" using assms(1) evo assms(2) by (rule coupled_step) (use new in auto)
    with Pair show ?thesis by simp
  qed
qed

lemma noted_still: "noted s d d' \<Longrightarrow> same_submissions d d'"
  by (auto simp: noted_def same_submissions_def)

text \<open>No run carries an empty start time: the clock readings behind it were timestamps.\<close>

definition stamped :: "db \<Rightarrow> bool" where
  "stamped d \<longleftrightarrow> (\<forall>r \<in> set (runs d). rn_started_at r \<noteq> Some [])"

lemma stamped_run: "stamped d \<Longrightarrow> run_get k d = Some r \<Longrightarrow> rn_started_at r \<noteq> Some []"
  using tget_set [of rn_id k "runs d" r] by (auto simp: stamped_def run_get_def)

lemma created_run_fresh:
  assumes "db_ok d" and "run_get k d = Some r" and "rn_status r = CREATED"
  shows "rn_started_at r = None"
proof -
  have "r \<in> set (runs d)" using assms(2) tget_set by (simp add: run_get_def)
  then have "run_ok r" using db_ok_parts(9) [OF assms(1)] by blast
  with assms(3) show ?thesis by (simp add: run_ok_def)
qed

lemma coupled_bind:
  assumes "db_ok d" and "coupled timed d"
    and "timed \<longrightarrow> stamped (snd (bind_prefect_identity sha c t0 t1 t2 key rid cid req fp fid url d))"
  shows "coupled timed (snd (bind_prefect_identity sha c t0 t1 t2 key rid cid req fp fid url d))"
proof (cases "bind_prefect_identity sha c t0 t1 t2 key rid cid req fp fid url d")
  case (Pair res d')
  note evo = bind_evolves [of d sha c t0 t1 t2 key rid cid req fp fid url, unfolded Pair snd_conv]
  consider "d' = d"
    | k i ci f u out where "bind_body sha c t0 t1 t2 k i ci req fp f u d = Inr (out, d')"
    using Pair
    by (auto simp: bind_prefect_identity_def raise_after_commit_def transaction_def
        split: sum.splits option.splits prod.splits)
  then have "coupled timed d'"
  proof cases
    case 2
    then show ?thesis
    proof (cases rule: bind_body_cases)
      case (1 s e)
      have "same_submissions d d'" using 1(3) by (rule noted_still)
      then show ?thesis using coupled_still [OF assms(1) evo] assms(2) by blast
    next
      case (3 s r env ej)
      have key: "sb_key s = k" "rn_id r = i" using submission_get_key [OF 3(1)] run_get_key [OF 3(2)] by simp_all
      have got: "submission_get (sb_key s) d = Some s" "run_get (rn_id r) d = Some r"
        using 3(1,2) unfolding key .
      note out = commit_binding_outcome [OF assms(1) got 3(9)]
      have id: "sb_run_id s = rn_id r" using 3(4) key by (simp add: binding_mismatch_def)
      show ?thesis
        using assms(1) evo assms(2)
      proof (rule coupled_put)
        show "submissions d' = submissions (put_submission (acknowledged_row f u t0 s) d)"
          using out by blast
        show "sb_state (acknowledged_row f u t0 s) \<in> {SUB_CLAIMED, SUB_INVOKING, SUB_SUBMISSION_UNKNOWN} \<or>
          (\<exists>r. run_get (sb_run_id (acknowledged_row f u t0 s)) d' = Some r \<and>
            link_ok timed (sb_state (acknowledged_row f u t0 s)) r)"
          using out id created_run_fresh [OF assms(1) 3(2,3)] stamped_run [of d' "rn_id r"] assms(3) Pair
          by (auto simp: acknowledged_row_def link_ok_def transition_row_def)
      qed
    qed (use assms in simp)
  qed (use assms in simp)
  with Pair show ?thesis by simp
qed

text \<open>
  A handler that fails without a write, and otherwise changes nothing or one submission, keeps
  the coupling.
\<close>

lemma coupled_handler:
  assumes "db_ok d" and "coupled timed d" and "evolves d (snd z)" and "\<And>e. fst z = Inl e \<Longrightarrow> snd z = d"
    and "\<And>x d'. z = (Inr x, d') \<Longrightarrow> d' = d \<or> (\<exists>s'. submissions d' = submissions (put_submission s' d) \<and>
      (sb_state s' \<in> {SUB_CLAIMED, SUB_INVOKING, SUB_SUBMISSION_UNKNOWN} \<or>
       (\<exists>r. run_get (sb_run_id s') d' = Some r \<and> link_ok timed (sb_state s') r)))"
  shows "coupled timed (snd z)"
proof (cases z)
  case (Pair res d')
  show ?thesis
  proof (cases res)
    case (Inr x)
    with Pair have "z = (Inr x, d')" by simp
    from assms(5) [OF this] show ?thesis
      using assms(1-3) Pair by (auto intro: coupled_put)
  qed (use assms(2,4) Pair in auto)
qed

lemma handler_error:
  "fst (begin_dispatch sha c now key disp d) = Inl e \<Longrightarrow> snd (begin_dispatch sha c now key disp d) = d"
  "fst (mark_invocation_unknown now key disp sm d) = Inl e \<Longrightarrow>
    snd (mark_invocation_unknown now key disp sm d) = d"
  "fst (recover_invoking_after_process_exit now key dep evd d) = Inl e \<Longrightarrow>
    snd (recover_invoking_after_process_exit now key dep evd d) = d"
  "fst (fail_before_submission sha c t0 t1 t2 key sm d) = Inl e \<Longrightarrow>
    snd (fail_before_submission sha c t0 t1 t2 key sm d) = d"
  "fst (abandon_unknown sha c t0 t1 t2 key evd sm d) = Inl e \<Longrightarrow>
    snd (abandon_unknown sha c t0 t1 t2 key evd sm d) = d"
  by (auto simp: begin_dispatch_def mark_invocation_unknown_def fail_before_submission_def
      recover_invoking_after_process_exit_def abandon_unknown_def transaction_def
      split: sum.splits prod.splits)

lemma coupled_begin_dispatch:
  assumes "db_ok d" and "coupled timed d"
  shows "coupled timed (snd (begin_dispatch sha c now key disp d))"
  using assms begin_dispatch_evolves handler_error(1)
proof (rule coupled_handler)
  fix dec d'
  assume "begin_dispatch sha c now key disp d = (Inr dec, d')"
  with assms(1) show "d' = d \<or> (\<exists>s'. submissions d' = submissions (put_submission s' d) \<and>
      (sb_state s' \<in> {SUB_CLAIMED, SUB_INVOKING, SUB_SUBMISSION_UNKNOWN} \<or>
       (\<exists>r. run_get (sb_run_id s') d' = Some r \<and> link_ok timed (sb_state s') r)))"
    by (cases rule: begin_dispatch_cases) (force simp: invoking_row_def)+
qed

lemma coupled_unknown:
  assumes "db_ok d" and "coupled timed d"
  shows "coupled timed (snd (mark_invocation_unknown now key disp sm d))"
    "coupled timed (snd (recover_invoking_after_process_exit now key dep evd d))"
proof -
  have put: "d' = put_submission s' d \<Longrightarrow> sb_state s' = SUB_SUBMISSION_UNKNOWN \<Longrightarrow>
      \<exists>s'. submissions d' = submissions (put_submission s' d) \<and>
      (sb_state s' \<in> {SUB_CLAIMED, SUB_INVOKING, SUB_SUBMISSION_UNKNOWN} \<or>
       (\<exists>r. run_get (sb_run_id s') d' = Some r \<and> link_ok timed (sb_state s') r))" for s' d'
    by blast
  show "coupled timed (snd (mark_invocation_unknown now key disp sm d))"
    using assms resolution_evolves(1) handler_error(2)
  proof (rule coupled_handler)
    fix x d' assume "mark_invocation_unknown now key disp sm d = (Inr x, d')"
    with assms(1) show "d' = d \<or> (\<exists>s'. submissions d' = submissions (put_submission s' d) \<and>
      (sb_state s' \<in> {SUB_CLAIMED, SUB_INVOKING, SUB_SUBMISSION_UNKNOWN} \<or>
       (\<exists>r. run_get (sb_run_id s') d' = Some r \<and> link_ok timed (sb_state s') r)))"
      by (cases rule: mark_cases) (simp, intro disjI2 put, assumption, simp add: unknown_row_def)
  qed
  show "coupled timed (snd (recover_invoking_after_process_exit now key dep evd d))"
    using assms resolution_evolves(2) handler_error(3)
  proof (rule coupled_handler)
    fix x d' assume "recover_invoking_after_process_exit now key dep evd d = (Inr x, d')"
    with assms(1) show "d' = d \<or> (\<exists>s'. submissions d' = submissions (put_submission s' d) \<and>
      (sb_state s' \<in> {SUB_CLAIMED, SUB_INVOKING, SUB_SUBMISSION_UNKNOWN} \<or>
       (\<exists>r. run_get (sb_run_id s') d' = Some r \<and> link_ok timed (sb_state s') r)))"
      by (cases rule: recover_invoking_cases) (simp, intro disjI2 put, assumption, simp add: unknown_row_def)
  qed
qed

lemma coupled_verdict:
  assumes "db_ok d" and "coupled timed d"
  shows "coupled timed (snd (fail_before_submission sha c t0 t1 t2 key sm d))"
    "coupled timed (snd (abandon_unknown sha c t0 t1 t2 key evd sm d))"
proof -
  show "coupled timed (snd (fail_before_submission sha c t0 t1 t2 key sm d))"
    using assms resolution_evolves(3) handler_error(4)
  proof (rule coupled_handler)
    fix x d' assume "fail_before_submission sha c t0 t1 t2 key sm d = (Inr x, d')"
    with assms(1) show "d' = d \<or> (\<exists>s'. submissions d' = submissions (put_submission s' d) \<and>
      (sb_state s' \<in> {SUB_CLAIMED, SUB_INVOKING, SUB_SUBMISSION_UNKNOWN} \<or>
       (\<exists>r. run_get (sb_run_id s') d' = Some r \<and> link_ok timed (sb_state s') r)))"
    proof (cases rule: fail_before_cases)
      case (2 s r)
      then show ?thesis
        using created_run_fresh [OF assms(1)]
        by (intro disjI2 exI [of _ x]) (simp add: failed_row_def transition_row_def link_ok_def)
    qed simp
  qed
  show "coupled timed (snd (abandon_unknown sha c t0 t1 t2 key evd sm d))"
    using assms resolution_evolves(4) handler_error(5)
  proof (rule coupled_handler)
    fix x d' assume "abandon_unknown sha c t0 t1 t2 key evd sm d = (Inr x, d')"
    with assms(1) show "d' = d \<or> (\<exists>s'. submissions d' = submissions (put_submission s' d) \<and>
      (sb_state s' \<in> {SUB_CLAIMED, SUB_INVOKING, SUB_SUBMISSION_UNKNOWN} \<or>
       (\<exists>r. run_get (sb_run_id s') d' = Some r \<and> link_ok timed (sb_state s') r)))"
    proof (cases rule: abandon_cases)
      case (2 s r)
      then show ?thesis
        using created_run_fresh [OF assms(1)]
        by (intro disjI2 exI [of _ x]) (simp add: abandoned_row_def transition_row_def link_ok_def)
    qed simp
  qed
qed

lemma coupled_operator:
  assumes "db_ok d" and "coupled timed d"
  shows "(timed \<longrightarrow> stamped (snd (reconcile_unknown_for_run sha c t0 t1 t2 rid fid url d))) \<Longrightarrow>
      coupled timed (snd (reconcile_unknown_for_run sha c t0 t1 t2 rid fid url d))"
    "coupled timed (snd (abandon_unknown_for_run sha c t0 t1 t2 rid evd sm d))"
  using assms
  by (auto simp: reconcile_unknown_for_run_def abandon_unknown_for_run_def coupled_bind coupled_verdict
      split: sum.splits option.splits)

section \<open>Histories\<close>

text \<open>
  One call of a persistence or launch operation, with any arguments, under any contract, failing
  or not. \<open>begin_dispatch\<close> is left to the histories below, which record who won the marker.
\<close>

inductive service_op :: "(string \<Rightarrow> string) \<Rightarrow> db \<Rightarrow> db \<Rightarrow> bool" for sha :: "string \<Rightarrow> string" where
  op_register_strategy: "service_op sha d (snd (register_strategy now sid ver nm ds lc act d))"
| op_update_lifecycle: "service_op sha d (snd (update_strategy_lifecycle now sid ver lc act d))"
| op_upsert_configuration: "service_op sha d (snd (upsert_configuration sha now doc d))"
| op_save_draft: "service_op sha d (snd (save_idea_draft fresh now ti de so atr no did d))"
| op_delete_draft: "service_op sha d (snd (delete_idea_draft k d))"
| op_candidate_packet: "service_op sha d (snd (set_idea_candidate_packet now k cj d))"
| op_link: "service_op sha d (snd (link_idea_configuration now k cid d))"
| op_upsert_idea: "service_op sha d (snd (upsert_idea_configuration sha t0 t1 k doc rp d))"
| op_review: "service_op sha d (snd (update_review now tt tid rs nt opr d))"
| op_candidate: "service_op sha d (snd (save_candidate_idea t0 t1 k ti cj de so atr no d))"
| op_create_run: "service_op sha d (snd (create_run sha cap fresh now cid sid ver stage rid st env d))"
| op_create_run_event: "service_op sha d (snd (create_run_with_operator_event sha cap now t1 cid sid
    ver stage k st env ty sev msg src d))"
| op_transition: "service_op sha d (snd (transition_run now k st err d))"
| op_transition_event: "service_op sha d (snd (transition_run_with_operator_event t0 t1 k st ty sev
    msg err src d))"
| op_attempt: "service_op sha d (snd (increment_run_attempt k d))"
| op_event: "service_op sha d (snd (append_run_event now k ty sev msg src occ d))"
| op_request_cancel: "service_op sha d (snd (request_run_cancellation now k d))"
| op_acknowledge_cancel: "service_op sha d (snd (acknowledge_run_cancellation t0 t1 k d))"
| op_timeout: "service_op sha d (snd (fail_run_for_timeout t0 t1 t2 t3 t4 k tm es d))"
| op_recover_stale: "service_op sha d (snd (recover_stale_fixture_runs clock before d))"
| op_artifact: "service_op sha d (snd (register_artifact sha shab now k ty nm mt fm loc content ver av d))"
| op_availability: "service_op sha d (snd (set_artifact_availability i av d))"
| op_manifest: "service_op sha d (snd (persist_run_manifest sha m d))"
| op_claim: "service_op sha d (snd (claim sha c injr t0 t1 t2 rid key rq env d))"
| op_bind: "service_op sha d (snd (bind_prefect_identity sha c t0 t1 t2 key rid cid req fp fid url d))"
| op_mark_unknown: "service_op sha d (snd (mark_invocation_unknown now key disp sm d))"
| op_recover: "service_op sha d (snd (recover_invoking_after_process_exit now key dep evd d))"
| op_fail_before: "service_op sha d (snd (fail_before_submission sha c t0 t1 t2 key sm d))"
| op_abandon: "service_op sha d (snd (abandon_unknown sha c t0 t1 t2 key evd sm d))"
| op_reconcile_run: "service_op sha d (snd (reconcile_unknown_for_run sha c t0 t1 t2 rid fid url d))"
| op_abandon_run: "service_op sha d (snd (abandon_unknown_for_run sha c t0 t1 t2 rid evd sm d))"

lemmas service_evolves =
  record_service_evolves run_service_evolves recover_evolves register_artifact_evolves
  availability_evolves persist_manifest_evolves claim_evolves bind_evolves resolution_evolves
  operator_evolves

lemmas service_still =
  record_service_still run_service_still recover_still register_artifact_still persist_manifest_still

lemmas launch_coupled =
  coupled_claim coupled_bind coupled_unknown coupled_verdict coupled_operator

lemma service_op_evolves: "service_op sha d d' \<Longrightarrow> evolves d d'"
  by (induction rule: service_op.induct) (rule service_evolves)+

lemma service_op_split:
  "service_op sha d d' \<Longrightarrow> same_submissions d d' \<or>
    (db_ok d \<longrightarrow> coupled timed d \<longrightarrow> (timed \<longrightarrow> stamped d') \<longrightarrow> coupled timed d')"
  by (induction rule: service_op.induct)
    ((rule disjI1, rule service_still) | (intro disjI2 impI, rule launch_coupled; assumption))+

lemma service_op_coupled:
  "service_op sha d d' \<Longrightarrow> db_ok d \<Longrightarrow> coupled timed d \<Longrightarrow> (timed \<longrightarrow> stamped d') \<Longrightarrow> coupled timed d'"
  using service_op_split service_op_evolves coupled_still by blast

text \<open>
  A history of the database: the keys whose marker was won, in order, and the state reached.
  Every interleaving of callers is such a sequence, since each call is one transaction.
\<close>

inductive launch_history :: "(string \<Rightarrow> string) \<Rightarrow> string list \<Rightarrow> db \<Rightarrow> bool"
  for sha :: "string \<Rightarrow> string" where
  history_start: "launch_history sha [] empty_db"
| history_op: "launch_history sha ws d \<Longrightarrow> service_op sha d d' \<Longrightarrow> launch_history sha ws d'"
| history_dispatch: "launch_history sha ws d \<Longrightarrow>
    begin_dispatch sha c now key disp d = (Inr dec, d') \<Longrightarrow>
    launch_history sha (if dd_should_invoke dec then ws @ [key] else ws) d'"
| history_refused: "launch_history sha ws d \<Longrightarrow>
    begin_dispatch sha c now key disp d = (Inl e, d') \<Longrightarrow> launch_history sha ws d'"

lemma dispatch_evolves_to: "begin_dispatch sha c now key disp d = (res, d') \<Longrightarrow> evolves d d'"
  using begin_dispatch_evolves [of d sha c now key disp] by simp

lemma history_ok: "launch_history sha ws d \<Longrightarrow> db_ok d"
  by (induction rule: launch_history.induct)
    (auto simp: empty_db_ok evolves_def dest: service_op_evolves dispatch_evolves_to)

lemma history_coupled: "launch_history sha ws d \<Longrightarrow> coupled False d"
proof (induction rule: launch_history.induct)
  case (history_dispatch ws d c now key disp dec d')
  then show ?case
    using coupled_begin_dispatch [OF history_ok [OF history_dispatch(1)], of False sha c now key disp] by simp
next
  case (history_refused ws d c now key disp e d')
  then show ?case
    using coupled_begin_dispatch [OF history_ok [OF history_refused(1)], of False sha c now key disp] by simp
qed (simp_all add: coupled_empty history_ok service_op_coupled)

text \<open>The histories whose clock gave no empty reading: \<open>utc_now\<close> always gives a timestamp.\<close>

inductive stamped_history :: "(string \<Rightarrow> string) \<Rightarrow> db \<Rightarrow> bool" for sha :: "string \<Rightarrow> string" where
  stamped_start: "stamped_history sha empty_db"
| stamped_op: "stamped_history sha d \<Longrightarrow> service_op sha d d' \<Longrightarrow> stamped d' \<Longrightarrow> stamped_history sha d'"
| stamped_dispatch: "stamped_history sha d \<Longrightarrow>
    stamped_history sha (snd (begin_dispatch sha c now key disp d))"

lemma stamped_history_coupled: "stamped_history sha d \<Longrightarrow> db_ok d \<and> coupled True d"
proof (induction rule: stamped_history.induct)
  case (stamped_dispatch d c now key disp)
  then show ?case
    using coupled_begin_dispatch begin_dispatch_evolves [of d sha c now key disp] by (simp add: evolves_def)
next
  case (stamped_op d d')
  then show ?case using service_op_coupled service_op_evolves by (auto simp: evolves_def)
qed (simp_all add: coupled_empty empty_db_ok)

text \<open>The submission of a won key has left Claimed for good.\<close>

definition dispatched :: "db \<Rightarrow> string \<Rightarrow> bool" where
  "dispatched d key \<longleftrightarrow> (\<exists>s. submission_get key d = Some s \<and> sb_state s \<noteq> SUB_CLAIMED \<and> sb_dispatcher s \<noteq> None)"

lemma submission_get_extends:
  assumes "extends d d'" and "submission_get k d = Some s"
  shows "\<exists>s'. submission_get k d' = Some s' \<and> submission_moves s s'"
  using assms grows_tget [of submission_moves "submissions d" "submissions d'" sb_key k s]
  by (auto simp: extends_def submission_get_def submission_moves_def)

lemma dispatched_stays:
  assumes "extends d d'" and "dispatched d key"
  shows "dispatched d' key"
proof -
  from assms(2) obtain s where s: "submission_get key d = Some s" "sb_state s \<noteq> SUB_CLAIMED"
    "sb_dispatcher s \<noteq> None" by (auto simp: dispatched_def)
  from submission_get_extends [OF assms(1) s(1)] obtain s' where
    "submission_get key d' = Some s'" "submission_moves s s'" by blast
  then show ?thesis
    using s(2,3) submission_edges_from_claimed by (auto simp: dispatched_def submission_moves_def)
qed

lemma history_winners:
  "launch_history sha ws d \<Longrightarrow> distinct ws \<and> (\<forall>key \<in> set ws. dispatched d key)"
proof (induction rule: launch_history.induct)
  case (history_op ws d d')
  then have "extends d d'" using history_ok service_op_evolves by (auto simp: evolves_def)
  with history_op show ?case using dispatched_stays by blast
next
  case (history_dispatch ws d c now key disp dec d')
  have ok: "db_ok d" using history_dispatch(1) by (rule history_ok)
  have ext: "extends d d'" using dispatch_evolves_to [OF history_dispatch(2)] ok by (simp add: evolves_def)
  note stays = dispatched_stays [OF ext]
  from ok history_dispatch(2) show ?case
  proof (cases rule: begin_dispatch_cases)
    case (1 s)
    then have "\<not> dispatched d key" by (simp add: dispatched_def)
    moreover have "dispatched d' key"
      using 1 submission_get_key [OF 1(1)] submission_get_put [of "invoking_row disp now s" d key]
      by (simp add: dispatched_def) (simp add: invoking_row_def)
    ultimately show ?thesis using 1(4) history_dispatch.IH stays by auto
  next
    case (2 s)
    then show ?thesis using history_dispatch.IH by auto
  qed
next
  case (history_refused ws d c now key disp e d')
  then have "extends d d'" using history_ok dispatch_evolves_to by (fastforce simp: evolves_def)
  with history_refused show ?case using dispatched_stays by blast
qed simp

section \<open>A stored claim stays valid\<close>

text \<open>
  Whatever the service does next, a claim that passed the check passes the replay check: its
  configuration and strategy stay registered, its run keeps its identity, and its source run, once
  succeeded, stays so. New manifests do no harm; only a stored one that was rewritten with another
  text or checksum could disturb a reproduction.
\<close>

lemma configuration_get_extends:
  assumes "extends d d'" and "configuration_get k d = Some c"
  shows "configuration_get k d' = Some c"
  using assms by (auto simp: extends_def configuration_get_def prefix_def tget_append)

lemma strategy_get_extends:
  assumes "extends d d'" and "strategy_get sid ver d = Some s"
  shows "\<exists>s'. strategy_get sid ver d' = Some s'"
  using assms grows_tget [of strategy_moves "strategies d" "strategies d'" st_key "(sid, ver)" s]
  by (auto simp: extends_def strategy_get_def strategy_moves_def)

lemma status_moves_succeeded: "status_moves SUCCEEDED t \<Longrightarrow> t = SUCCEEDED"
  by (auto dest: status_moves_terminal)

definition manifests_kept :: "db \<Rightarrow> db \<Rightarrow> bool" where
  "manifests_kept d d' \<longleftrightarrow>
     (\<forall>k m. manifest_get k d = Some m \<longrightarrow>
        (\<exists>m'. manifest_get k d' = Some m' \<and> mf_json m' = mf_json m \<and> mf_checksum m' = mf_checksum m))"

lemma manifests_kept_same: "manifests d' = manifests d \<Longrightarrow> manifests_kept d d'"
  by (simp add: manifests_kept_def manifest_get_def)

lemma derive_frame:
  assumes "extends d d'" and "manifests_kept d d'"
    and "derive_source_lineage sha op src st cid sid ver d = Inr l"
  shows "derive_source_lineage sha op src st cid sid ver d' = Inr l"
proof (cases "op = OP_RUN_TEST \<or> src = None")
  case True
  then show ?thesis using assms(3) by (auto simp: derive_source_lineage_def)
next
  case False
  then obtain k where k: "src = Some k" by auto
  with False assms(3) obtain r where r: "run_get k d = Some r"
    by (auto simp: derive_source_lineage_def split: option.splits)
  obtain r' where r': "run_get k d' = Some r'" "run_moves r r'"
    using run_get_extends [OF assms(1) r] by blast
  have same: "rn_id r' = rn_id r" "rn_stage r' = rn_stage r"
    "rn_configuration_id r' = rn_configuration_id r" "rn_strategy_id r' = rn_strategy_id r"
    "rn_strategy_version r' = rn_strategy_version r"
    using r'(2) by (simp_all add: run_moves_def)
  have ids: "manifest_identities r' ck l = manifest_identities r ck l" for ck l
    by (simp add: manifest_identities_def same)
  have ok: "rn_status r = SUCCEEDED \<Longrightarrow> rn_status r' = SUCCEEDED"
    using r'(2) by (auto simp: run_moves_def dest: status_moves_succeeded)
  have "derive_source_lineage sha op src st cid sid ver d' = derive_source_lineage sha op src st cid sid ver d"
  proof (cases "op = OP_HISTORICAL_RELAUNCH")
    case True
    then show ?thesis by (simp add: derive_source_lineage_def k r r'(1) same)
  next
    case rep: False
    with False k r assms(3) have "rn_status r = SUCCEEDED" by (auto simp: derive_source_lineage_def)
    with ok have st: "rn_status r' = rn_status r" by simp
    from False rep k r assms(3) obtain m where m: "manifest_get (rn_id r) d = Some m"
      by (auto simp: derive_source_lineage_def split: option.splits)
    with assms(2) obtain m' where m': "manifest_get (rn_id r) d' = Some m'" "mf_json m' = mf_json m"
      "mf_checksum m' = mf_checksum m" by (auto simp: manifests_kept_def)
    show ?thesis
      unfolding derive_source_lineage_def k option.case r r'(1) same m m' ids st by (rule refl)
  qed
  then show ?thesis using assms(3) by simp
qed

lemma claim_agrees_frame:
  assumes "claim_agrees sha c s kvs op cfg r src lin" and "submission_moves s s'" and "run_moves r r'"
  shows "claim_agrees sha c s' kvs op cfg r' src lin"
  using assms unfolding claim_agrees_def submission_moves_def run_moves_def
  by (elim conjE, intro conjI; simp only:)

lemma validate_frame:
  assumes "validate_persisted_claim sha c s cr lc d = Inr r"
    and "extends d d'" and "manifests_kept d d'" and "submission_moves s s'"
    and "run_get (sb_run_id s) d' = Some r'" and "run_moves r r'"
  shows "validate_persisted_claim sha c s' False False d' = Inr r'"
proof -
  from assms(1) obtain kvs op cfg st src lin derived where
    agree: "claim_agrees sha c s kvs op cfg r src lin"
    and cfg: "configuration_get (sb_configuration_id s) d = Some cfg"
    and st: "strategy_get (cf_strategy_id cfg) (cf_strategy_version cfg) d = Some st"
    and der: "derive_source_lineage sha op src (lc_stage c) (cf_id cfg) (cf_strategy_id cfg)
        (cf_strategy_version cfg) d = Inr derived"
    and lin: "json_is_lineage (JObj lin) derived"
    by (auto simp: validate_claim_iff)
  obtain st' where "strategy_get (cf_strategy_id cfg) (cf_strategy_version cfg) d' = Some st'"
    using strategy_get_extends [OF assms(2) st] by blast
  moreover have "sb_run_id s' = sb_run_id s" "sb_configuration_id s' = sb_configuration_id s"
    using assms(4) by (simp_all add: submission_moves_def)
  ultimately show ?thesis
    using claim_agrees_frame [OF agree assms(4,6)] configuration_get_extends [OF assms(2) cfg]
      derive_frame [OF assms(2,3) der] lin assms(5) unfolding validate_claim_iff by (simp, blast)
qed

section \<open>A fresh claim passes its own check\<close>

lemma canonical_request_Inr:
  "canonical_request sha c rq d = Inr (ser, fp, cfg) \<longleftrightarrow>
   (\<exists>op cid src expd lin.
      normalize_request rq = Inr (op, cid, src, expd) \<and> launchable_configuration sha c cid d = Inr cfg \<and>
      derive_source_lineage sha op src (lc_stage c) (cf_id cfg) (cf_strategy_id cfg)
        (cf_strategy_version cfg) d = Inr lin \<and>
      (expd = [] \<or> set expd = set lin) \<and>
      canonical_json (request_document c op cfg src lin) = Inr ser \<and> fp = sha ser)"
  by (auto simp: canonical_request_def request_fingerprint_def)

lemma launchable_Inr:
  assumes "launchable_configuration sha c cid d = Inr cfg"
  shows "configuration_get cid d = Some cfg" "cf_id cfg = cid" "sha (cf_canonical_json cfg) = cf_hash cfg"
    "\<exists>st. strategy_get (cf_strategy_id cfg) (cf_strategy_version cfg) d = Some st \<and>
       st_active st \<and> st_lifecycle st = lc_lifecycle c"
proof -
  show get: "configuration_get cid d = Some cfg"
    using assms by (auto simp: launchable_configuration_def split: option.splits)
  then show "cf_id cfg = cid" by (auto simp: configuration_get_def dest: tget_SomeD)
  show "sha (cf_canonical_json cfg) = cf_hash cfg"
    "\<exists>st. strategy_get (cf_strategy_id cfg) (cf_strategy_version cfg) d = Some st \<and>
       st_active st \<and> st_lifecycle st = lc_lifecycle c"
    using assms get by (auto simp: launchable_configuration_def split: option.splits)
qed

lemma identity_text_key: "identity_text kv = Inr kv' \<Longrightarrow> fst kv' = fst kv"
  by (cases kv) (auto simp: identity_text_def split: json.splits)

lemma derived_keys:
  assumes "derive_source_lineage sha op src st cid sid ver d = Inr lin"
  shows "distinct (map fst lin)"
proof -
  have keys: "map fst ys = map fst xs" if "mapR identity_text xs = Inr ys" for xs ys
    using mapR_Inr_list_all2 [OF that] by (induction rule: list_all2_induct) (auto simp: identity_text_key)
  consider "lin = []" | k where "lin = [(''parent_run_id'', k)]"
    | r ck l xs where "manifest_identities r ck l = Inr xs" "mapR identity_text xs = Inr lin"
    using assms
    by (auto simp: derive_source_lineage_def Let_def split: if_splits option.splits json.splits
        sum.splits exn.splits)
  then show ?thesis
  proof cases
    case 3
    then have "map fst xs = [''reproduction_of_run_id'', ''source_manifest_checksum'',
        ''source_runtime_identity'', ''source_dataset_identity'', ''source_execution_assumptions_identity'']"
      by (auto simp: manifest_identities_def)
    with keys [OF 3(2)] show ?thesis by simp
  qed simp_all
qed

lemma derived_run_test:
  "derive_source_lineage sha OP_RUN_TEST src st cid sid ver d = Inr lin \<Longrightarrow> lin = []"
  by (simp add: derive_source_lineage_def)

lemma normalized_source:
  "normalize_request rq = Inr (op, cid, src, expd) \<Longrightarrow> (op = OP_RUN_TEST \<longleftrightarrow> src = None) \<and>
     (op = OP_RUN_TEST \<longrightarrow> expd = [])"
  by (auto simp: normalize_request_def Let_def split: sum.splits if_splits)

text \<open>What the stored text of a request says, read back.\<close>

definition says ::
  "launch_contract \<Rightarrow> launch_operation \<Rightarrow> configuration \<Rightarrow> string option \<Rightarrow> (string \<times> string) list \<Rightarrow>
   (string \<times> json) list \<Rightarrow> bool" where
  "says c op cfg src lin kvs \<longleftrightarrow>
     jget ''protocol_version'' (JObj kvs) = lc_protocol_version c \<and>
     jget ''operation_kind'' (JObj kvs) = JStr (launch_operation_value op) \<and>
     map_of kvs ''operation_kind'' = Some (JStr (launch_operation_value op)) \<and>
     jget ''configuration_id'' (JObj kvs) = JStr (cf_id cfg) \<and>
     jget ''configuration_hash'' (JObj kvs) = JStr (cf_hash cfg) \<and>
     jget ''strategy_id'' (JObj kvs) = JStr (cf_strategy_id cfg) \<and>
     jget ''strategy_version'' (JObj kvs) = JStr (cf_strategy_version cfg) \<and>
     jget (lc_stage_field c) (JObj kvs) = JStr (run_stage_value (lc_stage c)) \<and>
     jget ''accepted_launch_policy'' (JObj kvs) = JStr (lc_policy c) \<and>
     jget ''source_run_id'' (JObj kvs) = opt_json src \<and>
     (\<exists>ms. jget ''source_lineage'' (JObj kvs) = JObj ms \<and> set ms = set (lineage_json lin))"

lemma fst_lineage_json [simp]: "map fst (lineage_json l) = map fst l"
  by (auto simp: lineage_json_def)

lemma normalize_lineage:
  assumes "distinct (map fst lin)" and "normalize (JObj (lineage_json lin)) = Inr k"
  shows "\<exists>ms. k = JObj ms \<and> set ms = set (lineage_json lin)"
proof -
  have dl: "distinct (map fst (lineage_json lin))" using assms(1) by simp
  obtain ms where ms: "k = JObj ms" "distinct (map fst ms)"
    "\<And>x. same_at (map_of (lineage_json lin) x) (map_of ms x)"
    by (rule normalize_JObj_Inr [OF dl assms(2)]) blast
  have "map_of ms x = map_of (lineage_json lin) x" for x
  proof (cases "map_of (lineage_json lin) x")
    case None
    with ms(3) [of x] show ?thesis by (simp add: same_at_def)
  next
    case (Some v)
    then have "\<exists>t. v = JStr t" by (auto simp: lineage_json_def dest!: map_of_SomeD)
    with ms(3) [of x] Some show ?thesis by (auto simp: same_at_def)
  qed
  then have "set ms = set (lineage_json lin)"
    using dl ms(2) by (metis map_of_eq_Some_iff subrelI subset_antisym)
  with ms(1) show ?thesis by blast
qed

lemma request_document_keys:
  assumes "c \<in> set SUPPORTED_LAUNCH_CONTRACTS" and "distinct (map fst lin)"
  shows "distinct_keys (request_document c op cfg src lin)"
proof -
  have "distinct_keys (JObj (lineage_json lin))"
    using assms(2) by (auto simp: lineage_json_def comp_def split_def)
  with assms(1) show ?thesis
    by (auto simp: request_document_def SUPPORTED_LAUNCH_CONTRACTS_def FIXTURE_LAUNCH_CONTRACT_def
        CANDIDATE_SCREENING_LAUNCH_CONTRACT_def)
qed

lemma same_at_simps [simp]:
  "same_at (Some (JStr s)) v \<longleftrightarrow> v = Some (JStr s)" "same_at (Some (JInt i)) v \<longleftrightarrow> v = Some (JInt i)"
  "same_at (Some (opt_json u)) v \<longleftrightarrow> v = Some (opt_json u)"
  by (auto simp: same_at_def)

lemma supported_protocol:
  assumes "c \<in> set SUPPORTED_LAUNCH_CONTRACTS"
  shows "same_at (Some (lc_protocol_version c)) v \<longleftrightarrow> v = Some (lc_protocol_version c)"
    and "py_eq (lc_protocol_version c) (lc_protocol_version c)"
  using assms
  by (auto simp: SUPPORTED_LAUNCH_CONTRACTS_def FIXTURE_LAUNCH_CONTRACT_def
      CANDIDATE_SCREENING_LAUNCH_CONTRACT_def)

lemma request_members:
  assumes "c \<in> set SUPPORTED_LAUNCH_CONTRACTS" and "request_document c op cfg src lin = JObj kvs"
  shows "map_of kvs ''protocol_version'' = Some (lc_protocol_version c)"
    "map_of kvs ''operation_kind'' = Some (JStr (launch_operation_value op))"
    "map_of kvs ''configuration_id'' = Some (JStr (cf_id cfg))"
    "map_of kvs ''configuration_hash'' = Some (JStr (cf_hash cfg))"
    "map_of kvs ''strategy_id'' = Some (JStr (cf_strategy_id cfg))"
    "map_of kvs ''strategy_version'' = Some (JStr (cf_strategy_version cfg))"
    "map_of kvs (lc_stage_field c) = Some (JStr (run_stage_value (lc_stage c)))"
    "map_of kvs ''accepted_launch_policy'' = Some (JStr (lc_policy c))"
    "map_of kvs ''source_run_id'' = Some (opt_json src)"
    "map_of kvs ''source_lineage'' = Some (JObj (lineage_json lin))"
  using assms
  by (auto simp: request_document_def SUPPORTED_LAUNCH_CONTRACTS_def FIXTURE_LAUNCH_CONTRACT_def
      CANDIDATE_SCREENING_LAUNCH_CONTRACT_def)

lemma stored_request:
  assumes "c \<in> set SUPPORTED_LAUNCH_CONTRACTS" and "distinct (map fst lin)"
    and "canonical_json (request_document c op cfg src lin) = Inr ser"
  shows "\<exists>kvs. json_loads ser = Some (JObj kvs) \<and> canonical_json (JObj kvs) = Inr ser \<and>
    says c op cfg src lin kvs"
proof -
  let ?doc = "request_document c op cfg src lin"
  note dk = request_document_keys [OF assms(1,2), of op cfg src]
  obtain k where k: "normalize ?doc = Inr k" "json_loads ser = Some k"
    using canonical_json_read [OF dk assms(3)] by blast
  have canon: "canonical_json k = Inr ser" using canonical_json_normal [OF dk k(1)] assms(3) by simp
  obtain kvs where doc: "?doc = JObj kvs" by (simp add: request_document_def)
  obtain ms where ms: "k = JObj ms" "\<And>x. same_at (map_of kvs x) (map_of ms x)"
    by (rule normalize_JObj_Inr [of kvs k]) (use dk k doc in auto)
  note fields = request_members [OF assms(1) doc]
  have at: "map_of kvs x = Some v \<Longrightarrow> same_at (Some v) (map_of ms x)" for x v
    using ms(2) [of x] by simp
  have read: "map_of ms ''protocol_version'' = Some (lc_protocol_version c)"
    using at [OF fields(1)] supported_protocol(1) [OF assms(1)] by blast
  obtain ns where ns: "map_of ms ''source_lineage'' = Some (JObj ns)" "set ns = set (lineage_json lin)"
    using at [OF fields(10)] normalize_lineage [OF assms(2)] by (auto simp: same_at_def)
  have "says c op cfg src lin ms"
    unfolding says_def jget.simps
    using read ns at [OF fields(2)] at [OF fields(3)] at [OF fields(4)] at [OF fields(5)]
      at [OF fields(6)] at [OF fields(7)] at [OF fields(8)] at [OF fields(9)]
    by simp
  with k(2) canon ms(1) show ?thesis by blast
qed

end
