(* ===== verification/Launch_Replay.thy ===== *)
theory Launch_Replay
  imports Launch_Protocol
begin

text \<open>
  Idempotence of the launch protocol. A claim that created its submission is valid by the check
  every later handler makes, so claiming the same request again under the same key gives the same
  submission and run; an acknowledgement repeated after it was accepted changes nothing.
\<close>

section \<open>The outcome of a claim\<close>

lemma run_create_Inr:
  assumes "run_create now k cid sid ver stage CREATED env d = Inr (r, d')"
  shows "run_get k d = None" "d' = d\<lparr>runs := runs d @ [r]\<rparr>"
    "rn_id r = k" "rn_configuration_id r = cid" "rn_strategy_id r = sid" "rn_strategy_version r = ver"
    "rn_stage r = stage" "rn_status r = CREATED" "rn_created_at r = now"
proof -
  from assms obtain e where "d' = d\<lparr>runs := runs d @ [r]\<rparr> \<and> run_get k d = None \<and>
      r = \<lparr>rn_id = k, rn_configuration_id = cid, rn_strategy_id = sid, rn_strategy_version = ver,
        rn_stage = stage, rn_status = CREATED, rn_started_at = None, rn_completed_at = None,
        rn_error_summary = None, rn_environment_json = e, rn_created_at = now, rn_attempt_count = 0\<rparr>"
    by (auto simp: run_create_def ins_run_Inr run_get_def tget_append split: option.splits)
  then show "run_get k d = None" "d' = d\<lparr>runs := runs d @ [r]\<rparr>"
    "rn_id r = k" "rn_configuration_id r = cid" "rn_strategy_id r = sid" "rn_strategy_version r = ver"
    "rn_stage r = stage" "rn_status r = CREATED" "rn_created_at r = now"
    by simp_all
qed

lemma submission_create_Inr:
  assumes "submission_create key k cid req fp now d = Inr (s, d')"
  shows "submission_get key d = None" "d' = d\<lparr>submissions := submissions d @ [s]\<rparr>"
    "sb_key s = key" "sb_run_id s = k" "sb_configuration_id s = cid" "sb_canonical_request_json s = req"
    "sb_request_fingerprint s = fp" "sb_state s = SUB_CLAIMED" "sb_dispatcher s = None"
proof -
  let ?s = "\<lparr>sb_key = key, sb_run_id = k, sb_configuration_id = cid,
        sb_canonical_request_json = req, sb_request_fingerprint = fp, sb_state = SUB_CLAIMED,
        sb_dispatcher = None, sb_prefect_flow_run_id = None, sb_prefect_api_url = None,
        sb_claimed_at = now, sb_invocation_started_at = None, sb_acknowledged_at = None,
        sb_unknown_at = None, sb_unknown_evidence = None, sb_resolved_at = None,
        sb_resolution_evidence = None, sb_updated_at = now, sb_error_summary = None\<rparr>"
  from assms have d': "submission_get key d = None" "d' = d\<lparr>submissions := submissions d @ [?s]\<rparr>"
    "submission_get key d' = Some s"
    by (auto simp: submission_create_def ins_submission_Inr)
  then have "s = ?s" by (simp add: submission_get_def tget_append)
  with d'(1,2) show "submission_get key d = None" "d' = d\<lparr>submissions := submissions d @ [s]\<rparr>"
    "sb_key s = key" "sb_run_id s = k" "sb_configuration_id s = cid" "sb_canonical_request_json s = req"
    "sb_request_fingerprint s = fp" "sb_state s = SUB_CLAIMED" "sb_dispatcher s = None"
    by simp_all
qed

lemma validate_launch_key_Inr: "validate_launch_key k = Inr k' \<Longrightarrow> k' = k"
  by (simp add: validate_launch_key_def split: if_splits)

lemma inject_failure_Inr: "inject_failure injr st d = Inr (u, d') \<Longrightarrow> d' = d"
  by (auto simp: inject_failure_def split: option.splits)

definition fresh_claim ::
  "(string \<Rightarrow> string) \<Rightarrow> launch_contract \<Rightarrow> string \<Rightarrow> launch_request \<Rightarrow> db \<Rightarrow> submission \<Rightarrow> run \<Rightarrow> db \<Rightarrow> bool"
  where
  "fresh_claim sha c key rq d s r d' \<longleftrightarrow>
     (\<exists>ser fp cfg x.
        canonical_request sha c rq d = Inr (ser, fp, cfg) \<and>
        submission_get key d = None \<and> run_get (rn_id r) d = None \<and>
        sb_key s = key \<and> sb_state s = SUB_CLAIMED \<and> sb_dispatcher s = None \<and>
        sb_run_id s = rn_id r \<and> sb_configuration_id s = cf_id cfg \<and>
        sb_canonical_request_json s = ser \<and> sb_request_fingerprint s = fp \<and>
        rn_status r = CREATED \<and> rn_stage r = lc_stage c \<and> rn_configuration_id r = cf_id cfg \<and>
        rn_strategy_id r = cf_strategy_id cfg \<and> rn_strategy_version r = cf_strategy_version cfg \<and>
        ev_type x = EV_RUN_CREATED \<and> ev_run_id x = rn_id r \<and>
        d' = d\<lparr>runs := runs d @ [r], events := events d @ [x], next_event := next_event d + 1,
               submissions := submissions d @ [s]\<rparr>)"

lemma claim_cases:
  assumes "claim sha c injr t0 t1 t2 rid key rq env d = (Inr cm, d')"
  obtains s where "submission_get key d = Some s" "replay_claim sha c rq s d = Inr cm" "d' = d"
  | s r where "cm = \<lparr>cm_submission = s, cm_run = r, cm_created = True\<rparr>" "fresh_claim sha c key rq d s r d'"
proof -
  from assms obtain k ej where k: "validate_launch_key key = Inr k"
    and body: "claim_body sha c injr t0 t1 t2 rid k rq ej d = Inr (cm, d')"
    by (auto simp: claim_def transaction_Inr_iff split: sum.splits)
  have key: "k = key" using validate_launch_key_Inr [OF k] .
  show thesis
  proof (cases "submission_get key d")
    case (Some s)
    with body key show thesis by (intro that(1) [of s]) (auto simp: claim_body_def)
  next
    case None
    with body key obtain ser fp cfg i r d1 e d2 s d3 where
      q: "canonical_request sha c rq d = Inr (ser, fp, cfg)"
      and c1: "run_create t1 i (cf_id cfg) (cf_strategy_id cfg) (cf_strategy_version cfg)
        (lc_stage c) CREATED (Some (environment_of ej)) d = Inr (r, d1)"
      and c2: "event_append t2 (rn_id r) EV_RUN_CREATED SEV_INFO (lc_created_message c) quant_factory
        (Some (rn_created_at r)) d1 = Inr (e, d2)"
      and c3: "submission_create key (rn_id r) (rn_configuration_id r) ser fp t0 d2 = Inr (s, d')"
      and cm: "cm = \<lparr>cm_submission = s, cm_run = r, cm_created = True\<rparr>"
      by (auto simp: claim_body_def dest!: inject_failure_Inr)
    note r1 = run_create_Inr [OF c1]
    note s1 = submission_create_Inr [OF c3]
    obtain x where x: "d2 = d1\<lparr>events := events d1 @ [x], next_event := next_event d1 + 1\<rparr>"
      "ev_run_id x = rn_id r" "ev_type x = EV_RUN_CREATED" using c2 by (rule event_append_state)
    have "fresh_claim sha c key rq d s r d'"
      unfolding fresh_claim_def
      by (intro exI [of _ ser] exI [of _ fp] exI [of _ cfg] exI [of _ x] conjI; (rule q)?;
          simp add: None r1(3-8) s1(3-9) x(2,3)) (use r1(1,2,3) s1(2) x(1) in auto)
    with cm show thesis by (rule that(2))
  qed
qed

section \<open>A fresh claim is valid\<close>

lemma fresh_claim_gets:
  assumes "fresh_claim sha c key rq d s r d'"
  shows "run_get (rn_id r) d' = Some r" "submission_get key d' = Some s" "manifests d' = manifests d"
    "strategy_get sid ver d' = strategy_get sid ver d" "configuration_get cid d' = configuration_get cid d"
  using assms
  by (auto simp: fresh_claim_def run_get_def submission_get_def strategy_get_def configuration_get_def
      tget_append)

lemma fresh_claim_valid:
  assumes fresh: "fresh_claim sha c key rq d s r d'" and c: "c \<in> set SUPPORTED_LAUNCH_CONTRACTS"
    and ext: "extends d d'"
  shows "validate_persisted_claim sha c s True True d' = Inr r"
proof -
  from fresh obtain ser fp cfg where q: "canonical_request sha c rq d = Inr (ser, fp, cfg)"
    and s: "sb_run_id s = rn_id r" "sb_configuration_id s = cf_id cfg" "sb_canonical_request_json s = ser"
      "sb_request_fingerprint s = fp"
    and r: "rn_status r = CREATED" "rn_stage r = lc_stage c" "rn_configuration_id r = cf_id cfg"
      "rn_strategy_id r = cf_strategy_id cfg" "rn_strategy_version r = cf_strategy_version cfg"
    by (auto simp: fresh_claim_def)
  from q obtain op cid src expd lin where
    n: "normalize_request rq = Inr (op, cid, src, expd)"
    and l: "launchable_configuration sha c cid d = Inr cfg"
    and der: "derive_source_lineage sha op src (lc_stage c) (cf_id cfg) (cf_strategy_id cfg)
        (cf_strategy_version cfg) d = Inr lin"
    and can: "canonical_json (request_document c op cfg src lin) = Inr ser" and fp: "fp = sha ser"
    by (auto simp: canonical_request_Inr)
  note cfg = launchable_Inr [OF l]
  from stored_request [OF c derived_keys [OF der] can] obtain kvs where
    kvs: "json_loads ser = Some (JObj kvs)" "canonical_json (JObj kvs) = Inr ser" "says c op cfg src lin kvs"
    by blast
  from kvs(3) obtain ms where ms: "jget ''source_lineage'' (JObj kvs) = JObj ms"
    "set ms = set (lineage_json lin)" by (auto simp: says_def)
  have texts: "\<forall>kv \<in> set ms. \<exists>t. snd kv = JStr t" using ms(2) by (auto simp: lineage_json_def)
  have rt: "op = OP_RUN_TEST \<Longrightarrow> ms = []"
    using der ms(2) by (auto simp: lineage_json_def dest: derived_run_test)
  have "stored_operation (JObj kvs) = Some op" "stored_source (JObj kvs) = Some src"
    using kvs(3) by (auto simp: says_def stored_operation_def stored_source_def simp del: jget.simps)
      (cases src; simp)
  moreover have "py_eq (jget ''protocol_version'' (JObj kvs)) (lc_protocol_version c)"
    using kvs(3) supported_protocol(2) [OF c] by (simp add: says_def del: jget.simps)
  moreover have "if op = OP_RUN_TEST then src = None \<and> ms = [] else src \<noteq> None"
    using normalized_source [OF n] rt by auto
  ultimately have agree: "claim_agrees sha c s kvs op cfg r src ms"
    using kvs s r cfg(3) fp ms(1) texts
    by (simp add: claim_agrees_def says_def request_fingerprint_def del: jget.simps)
  obtain st where st: "strategy_get (cf_strategy_id cfg) (cf_strategy_version cfg) d = Some st"
    "st_active st \<and> st_lifecycle st = lc_lifecycle c" using cfg(4) by blast
  note gets = fresh_claim_gets [OF fresh]
  have der': "derive_source_lineage sha op src (lc_stage c) (cf_id cfg) (cf_strategy_id cfg)
        (cf_strategy_version cfg) d' = Inr lin" using derive_frame [OF ext manifests_kept_same [OF gets(3)] der] .
  have "json_is_lineage (JObj ms) lin" using ms(2) by (simp add: json_is_lineage_def)
  then show ?thesis
    unfolding validate_claim_iff
    using agree der' st cfg(1,2) s(1,2) gets r(1) by (metis (no_types, lifting))
qed

text \<open>
  The request that made a submission matches it again, however long ago it was: the claim is
  replayed, not repeated.
\<close>

lemma fresh_claim_replays:
  assumes fresh: "fresh_claim sha c key rq d s r d0" and c: "c \<in> set SUPPORTED_LAUNCH_CONTRACTS"
    and ext: "extends d d0" and later: "extends d0 d'" "manifests_kept d0 d'"
    and s': "submission_get key d' = Some s'" "submission_moves s s'"
  shows "\<exists>r'. run_get (sb_run_id s) d' = Some r' \<and> run_moves r r' \<and>
    replay_claim sha c rq s' d' = Inr \<lparr>cm_submission = s', cm_run = r', cm_created = False\<rparr>"
proof -
  note gets = fresh_claim_gets [OF fresh]
  note valid = fresh_claim_valid [OF fresh c ext]
  obtain r' where r': "run_get (sb_run_id s) d' = Some r'" "run_moves r r'"
    using run_get_extends [OF later(1) conjunct1 [OF validate_claim_run [OF valid]]] by blast
  have valid': "validate_persisted_claim sha c s' False False d' = Inr r'"
    using validate_frame [OF valid later s'(2) r'] .
  from fresh obtain ser fp cfg where q: "canonical_request sha c rq d = Inr (ser, fp, cfg)"
    and s: "sb_canonical_request_json s = ser"
    by (auto simp: fresh_claim_def)
  from q obtain op cid src expd lin where
    n: "normalize_request rq = Inr (op, cid, src, expd)"
    and l: "launchable_configuration sha c cid d = Inr cfg"
    and der: "derive_source_lineage sha op src (lc_stage c) (cf_id cfg) (cf_strategy_id cfg)
        (cf_strategy_version cfg) d = Inr lin"
    and expd: "expd = [] \<or> set expd = set lin"
    and can: "canonical_json (request_document c op cfg src lin) = Inr ser"
    by (auto simp: canonical_request_Inr)
  from stored_request [OF c derived_keys [OF der] can] obtain kvs where
    kvs: "json_loads ser = Some (JObj kvs)" "says c op cfg src lin kvs" by blast
  from kvs(2) obtain ms where ms: "jget ''source_lineage'' (JObj kvs) = JObj ms"
    "set ms = set (lineage_json lin)" by (auto simp: says_def)
  have "expd = [] \<or> json_is_lineage (JObj ms) expd"
    using expd ms(2) by (auto simp: json_is_lineage_def lineage_json_def)
  then have "replay_matches (JObj kvs) op cid src expd = Inr True"
    using kvs(2) launchable_Inr(2) [OF l] ms(1)
    by (simp add: replay_matches_def says_def dict_get_def index_def del: jget.simps)
  moreover have "sb_canonical_request_json s' = ser" using s s'(2) by (simp add: submission_moves_def)
  ultimately have "replay_claim sha c rq s' d' = Inr \<lparr>cm_submission = s', cm_run = r', cm_created = False\<rparr>"
    using n kvs(1) valid' by (simp add: replay_claim_def)
  with r' show ?thesis by blast
qed

end
