(* ===== verification/Artifact_Laws.thy ===== *)
theory Artifact_Laws
  imports Run_Service
begin

text \<open>
  What registering, validating and retrieving artifacts guarantees: an artifact is reported
  available exactly when its file is inside the root and holds the registered bytes; a
  registration is found again by every later registration of the same identity and is never
  overwritten; a persisted manifest is read back, passes its own checksum and lists the
  artifacts of the run.
\<close>

section \<open>Validation\<close>

text \<open>The file a location names below a root, if the location may name one; resolving may raise.\<close>

definition artifact_path :: "file_system \<Rightarrow> string list \<Rightarrow> string \<Rightarrow> exn + string list option" where
  "artifact_path fs artifact_root location =
     bindR (fs_resolve fs artifact_root) (\<lambda>root.
     if is_absolute location \<or> ''..'' \<in> set (path_parts location) then Inr None
     else
       bindR (fs_resolve fs (root @ path_parts location)) (\<lambda>candidate.
       Inr (if prefix root candidate then Some candidate else None)))"

definition artifact_intact ::
  "(string \<Rightarrow> string) \<Rightarrow> file_system \<Rightarrow> string list \<Rightarrow> artifact_contract \<Rightarrow> bool" where
  "artifact_intact sha_bytes fs artifact_root a \<longleftrightarrow>
     (\<exists>location path content.
        ac_location a = Some location \<and> artifact_path fs artifact_root location = Inr (Some path) \<and>
        fs_exists fs path = Inr True \<and> fs_is_file fs path = Inr True \<and> fs_read fs path = Inr content \<and>
        ac_size_bytes a = Some (int (length content)) \<and> ac_checksum a = Some (sha_bytes content))"

text \<open>What a located file answers: the end of the check, once the path is known.\<close>

definition file_verdict ::
  "(string \<Rightarrow> string) \<Rightarrow> file_system \<Rightarrow> artifact_contract \<Rightarrow> string list \<Rightarrow> exn + artifact_validation" where
  "file_verdict sha_bytes fs a p =
     (let resolved = Some (path_text p) in
      bindR (fs_exists fs p) (\<lambda>found.
      if \<not> found then Inr (validation a AV_MISSING False ''artifact_missing'' None None resolved)
      else
        bindR (fs_is_file fs p) (\<lambda>regular.
        if \<not> regular
        then Inr (validation a AV_CORRUPT False ''artifact_not_regular_file'' None None resolved)
        else
          bindR (fs_read fs p) (\<lambda>content.
          let checksum = sha_bytes content; size = int (length content) in
          if Some size \<noteq> ac_size_bytes a
          then Inr (validation a AV_CORRUPT False ''artifact_size_mismatch''
                 (Some checksum) (Some size) resolved)
          else if Some checksum \<noteq> ac_checksum a
          then Inr (validation a AV_CORRUPT False ''artifact_checksum_mismatch''
                 (Some checksum) (Some size) resolved)
          else Inr (validation a AV_AVAILABLE True ''validated''
                 (Some checksum) (Some size) resolved)))))"

lemma validate_located:
  assumes "ac_location a = Some loc"
  shows "artifact_path fs root loc = Inl e \<Longrightarrow> validate_contract sha_bytes fs root a = Inl e"
    and "artifact_path fs root loc = Inr None \<Longrightarrow>
      \<exists>reason. reason \<noteq> ''validated'' \<and>
        validate_contract sha_bytes fs root a = Inr (validation a AV_CORRUPT False reason None None None)"
    and "artifact_path fs root loc = Inr (Some p) \<Longrightarrow>
      validate_contract sha_bytes fs root a = file_verdict sha_bytes fs a p"
proof -
  show "artifact_path fs root loc = Inl e \<Longrightarrow> validate_contract sha_bytes fs root a = Inl e"
    using assms
    by (cases "fs_resolve fs root"; cases "fs_resolve fs (projr (fs_resolve fs root) @ path_parts loc)")
      (auto simp: artifact_path_def validate_contract_def split: if_splits)
  show "artifact_path fs root loc = Inr (Some p) \<Longrightarrow>
      validate_contract sha_bytes fs root a = file_verdict sha_bytes fs a p"
    using assms
    by (cases "fs_resolve fs root"; cases "fs_resolve fs (projr (fs_resolve fs root) @ path_parts loc)")
      (auto simp: artifact_path_def validate_contract_def file_verdict_def split: if_splits)
  assume none: "artifact_path fs root loc = Inr None"
  then obtain r where r: "fs_resolve fs root = Inr r" by (cases "fs_resolve fs root") (auto simp: artifact_path_def)
  show "\<exists>reason. reason \<noteq> ''validated'' \<and>
        validate_contract sha_bytes fs root a = Inr (validation a AV_CORRUPT False reason None None None)"
  proof (cases "is_absolute loc \<or> ''..'' \<in> set (path_parts loc)")
    case True
    with assms r show ?thesis
      by (intro exI [of _ "''unsafe_artifact_location''"]) (simp add: validate_contract_def)
  next
    case False
    with none r obtain p where "fs_resolve fs (r @ path_parts loc) = Inr p" "\<not> prefix r p"
      by (cases "fs_resolve fs (r @ path_parts loc)") (auto simp: artifact_path_def split: if_splits)
    with assms r False show ?thesis
      by (intro exI [of _ "''artifact_location_escapes_root''"]) (simp add: validate_contract_def)
  qed
qed

lemma validation_simps [simp]:
  "av_valid (validation a st v rs ck sz rp) = v" "av_availability (validation a st v rs ck sz rp) = st"
  "av_artifact_id (validation a st v rs ck sz rp) = ac_id a"
  "av_resolved_path (validation a st v rs ck sz rp) = rp" "av_reason (validation a st v rs ck sz rp) = rs"
  by (simp_all add: validation_def)

text \<open>What the verdict says of the file, as one equivalence per field.\<close>

definition verdict_agrees ::
  "(string \<Rightarrow> string) \<Rightarrow> file_system \<Rightarrow> string list \<Rightarrow> artifact_contract \<Rightarrow> artifact_validation \<Rightarrow> bool"
  where
  "verdict_agrees sha_bytes fs artifact_root a v \<longleftrightarrow>
     av_artifact_id v = ac_id a \<and>
     (av_valid v \<longleftrightarrow> artifact_intact sha_bytes fs artifact_root a) \<and>
     (av_availability v = AV_AVAILABLE \<longleftrightarrow> av_valid v) \<and>
     (av_reason v = ''validated'' \<longleftrightarrow> av_valid v) \<and>
     (av_availability v = AV_MISSING \<longleftrightarrow>
        (\<exists>location path. ac_location a = Some location \<and>
           artifact_path fs artifact_root location = Inr (Some path) \<and> fs_exists fs path = Inr False)) \<and>
     (av_resolved_path v = None \<longleftrightarrow>
        (\<exists>location. ac_location a = Some location \<and> artifact_path fs artifact_root location = Inr None))"

text \<open>
  What validation raises: the error of resolving the root or the location, of the missing location,
  or of the first question the located file could not answer.
\<close>

definition artifact_fault :: "file_system \<Rightarrow> string list \<Rightarrow> artifact_contract \<Rightarrow> exn \<Rightarrow> bool" where
  "artifact_fault fs artifact_root a e \<longleftrightarrow>
     fs_resolve fs artifact_root = Inl e \<or>
     (\<exists>root. fs_resolve fs artifact_root = Inr root) \<and>
     (ac_location a = None \<and> e = TypeError ''expected str, bytes or os.PathLike object, not NoneType'' \<or>
      (\<exists>location. ac_location a = Some location \<and>
         (artifact_path fs artifact_root location = Inl e \<or>
          (\<exists>path. artifact_path fs artifact_root location = Inr (Some path) \<and>
             (fs_exists fs path = Inl e \<or>
              fs_exists fs path = Inr True \<and>
                (fs_is_file fs path = Inl e \<or> fs_is_file fs path = Inr True \<and> fs_read fs path = Inl e))))))"

lemma located_cases:
  obtains e where "artifact_path fs root loc = Inl e" | "artifact_path fs root loc = Inr None"
    | p where "artifact_path fs root loc = Inr (Some p)"
proof (cases "artifact_path fs root loc")
  case (Inr v)
  then show thesis using that(2,3) by (cases v) auto
qed (use that(1) in blast)

lemma validate_contract_verdict:
  assumes "validate_contract sha_bytes fs root a = Inr v"
  shows "verdict_agrees sha_bytes fs root a v"
proof (cases "ac_location a")
  case None
  with assms show ?thesis by (cases "fs_resolve fs root") (auto simp: validate_contract_def)
next
  case (Some loc)
  show ?thesis
  proof (cases rule: located_cases [of fs root loc])
    case 2
    with validate_located(2) [OF Some, of fs root sha_bytes] assms Some show ?thesis
      by (auto simp: verdict_agrees_def artifact_intact_def)
  next
    case p: (3 p)
    note v = assms [unfolded validate_located(3) [OF Some p]]
    consider "fs_exists fs p = Inr False" | "fs_exists fs p = Inr True" "fs_is_file fs p = Inr False"
      | content where "fs_exists fs p = Inr True" "fs_is_file fs p = Inr True" "fs_read fs p = Inr content"
      using v by (cases "fs_exists fs p"; cases "fs_is_file fs p"; cases "fs_read fs p")
        (auto simp: file_verdict_def Let_def split: if_splits)
    then show ?thesis
      using v Some p by cases (auto simp: verdict_agrees_def artifact_intact_def file_verdict_def Let_def
          split: if_splits)
  qed (use validate_located(1) [OF Some, of fs root] assms in auto)
qed

lemma validate_contract_raises:
  "validate_contract sha_bytes fs root a = Inl e \<longleftrightarrow> artifact_fault fs root a e"
proof (cases "fs_resolve fs root")
  case (Inl x)
  then show ?thesis by (auto simp: validate_contract_def artifact_fault_def)
next
  case root: (Inr r)
  show ?thesis
  proof (cases "ac_location a")
    case None
    with root show ?thesis by (auto simp: validate_contract_def artifact_fault_def)
  next
    case (Some loc)
    show ?thesis
    proof (cases rule: located_cases [of fs root loc])
      case (1 x)
      with validate_located(1) [OF Some, of fs root x sha_bytes] Some root show ?thesis
        by (auto simp: artifact_fault_def)
    next
      case 2
      with validate_located(2) [OF Some, of fs root sha_bytes] Some root show ?thesis
        by (auto simp: artifact_fault_def)
    next
      case p: (3 p)
      have "file_verdict sha_bytes fs a p = Inl e \<longleftrightarrow> fs_exists fs p = Inl e \<or> fs_exists fs p = Inr True \<and>
          (fs_is_file fs p = Inl e \<or> fs_is_file fs p = Inr True \<and> fs_read fs p = Inl e)"
        by (cases "fs_exists fs p"; cases "fs_is_file fs p"; cases "fs_read fs p")
          (auto simp: file_verdict_def Let_def)
      then show ?thesis
        using validate_located(3) [OF Some p, of sha_bytes] Some p root by (auto simp: artifact_fault_def)
    qed
  qed
qed

lemma intact_validates:
  assumes "artifact_intact sha_bytes fs root a"
  shows "\<exists>v. validate_contract sha_bytes fs root a = Inr v \<and> av_valid v"
proof (cases "validate_contract sha_bytes fs root a")
  case (Inl e)
  then have "artifact_fault fs root a e" by (simp add: validate_contract_raises)
  moreover have "\<exists>r. fs_resolve fs root = Inr r"
    using assms by (cases "fs_resolve fs root") (auto simp: artifact_intact_def artifact_path_def)
  ultimately show ?thesis using assms by (auto simp: artifact_fault_def artifact_intact_def)
next
  case (Inr v)
  with assms validate_contract_verdict [OF Inr] show ?thesis by (auto simp: verdict_agrees_def)
qed

section \<open>Registration\<close>

text \<open>The row a registration leaves behind, whether it wrote it or found it.\<close>

definition registered ::
  "(string \<Rightarrow> string) \<Rightarrow> string \<Rightarrow> artifact_kind \<Rightarrow> string \<Rightarrow> string \<Rightarrow> string \<Rightarrow> string \<Rightarrow> string \<Rightarrow> int \<Rightarrow>
   string \<Rightarrow> artifact_row \<Rightarrow> bool" where
  "registered sha_bytes k ty nm mt fm loc content ver idk e \<longleftrightarrow>
     ar_identity_key e = Some idk \<and>
     immutable_columns e =
       (k, artifact_kind_value ty, Some nm, ver, Some mt, Some fm, Some ''sha256'',
        Some (sha_bytes content), Some (int (length content)), Some loc)"

definition contract_of :: "artifact_row \<Rightarrow> artifact_kind \<Rightarrow> artifact_contract" where
  "contract_of r kind =
     \<lparr>ac_id = ar_id r, ac_run_id = ar_run_id r, ac_type = kind, ac_logical_name = ar_logical_name r,
      ac_schema_version = ar_schema_version r, ac_media_type = ar_media_type r,
      ac_format = ar_format r, ac_checksum_algorithm = ar_checksum_algorithm r,
      ac_checksum = ar_checksum r, ac_size_bytes = ar_size_bytes r, ac_location = ar_location r,
      ac_availability = ar_availability r, ac_created_at = ar_created_at r\<rparr>"

lemma contract_of_row_kind:
  "ar_type r = artifact_kind_value ty \<Longrightarrow> contract_of_row r = Inr (contract_of r ty)"
  by (simp add: contract_of_row_def contract_of_def)

lemma register_outcome:
  assumes "register_artifact sha sha_bytes now k ty nm mt fm loc content ver av d = (Inr a, d')"
    and "\<forall>r \<in> set (artifacts d). ar_id r < next_artifact d"
  shows "\<exists>idk e. artifact_identity sha k ty nm ver = Inr idk \<and>
    tget ar_identity_key (Some idk) (artifacts d') = Some e \<and>
    registered sha_bytes k ty nm mt fm loc content ver idk e \<and> a = contract_of e ty \<and>
    artifact_row_get (ar_id e) d' \<noteq> None \<and>
    (d' = d \<or> tget ar_identity_key (Some idk) (artifacts d) = None \<and> ar_availability e = av \<and>
       d' = d\<lparr>artifacts := artifacts d @ [e], next_artifact := next_artifact d + 1\<rparr>)"
proof -
  from assms(1) obtain idk where idk: "artifact_identity sha k ty nm ver = Inr idk"
    and reg: "register_artifact_contract now k ty nm ver mt fm (sha_bytes content)
      (int (length content)) loc av idk d = Inr (a, d')"
    by (auto simp: register_artifact_def transaction_Inr_iff split: if_splits sum.splits)
  show ?thesis
  proof (cases "tget ar_identity_key (Some idk) (artifacts d)")
    case (Some e)
    with reg have cols: "registered sha_bytes k ty nm mt fm loc content ver idk e" "d' = d"
      "contract_of_row e = Inr a"
      by (auto simp: register_artifact_contract_def Let_def registered_def immutable_columns_def
          dest: tget_SomeD split: if_splits)
    then have "a = contract_of e ty"
      using contract_of_row_kind [of e ty] by (simp add: registered_def immutable_columns_def)
    moreover have "artifact_row_get (ar_id e) d \<noteq> None"
      using tget_SomeD [OF Some] by (auto simp: artifact_row_get_def tget_None_iff)
    ultimately show ?thesis using idk Some cols by auto
  next
    case None
    have fresh: "tget ar_id (next_artifact d) (artifacts d) = None"
      using assms(2) by (auto simp: tget_None_iff)
    let ?e = "\<lparr>ar_id = next_artifact d, ar_run_id = k, ar_type = artifact_kind_value ty,
        ar_schema_version = ver, ar_path = loc, ar_validation_status = ''registered'',
        ar_checksum = Some (sha_bytes content), ar_availability = av, ar_created_at = now,
        ar_logical_name = Some nm, ar_media_type = Some mt, ar_format = Some fm,
        ar_checksum_algorithm = Some ''sha256'', ar_size_bytes = Some (int (length content)),
        ar_location = Some loc, ar_identity_key = Some idk\<rparr>"
    from reg None fresh have "d' = d\<lparr>artifacts := artifacts d @ [?e], next_artifact := next_artifact d + 1\<rparr>"
      "contract_of_row ?e = Inr a"
      by (auto simp: register_artifact_contract_def Let_def ins_artifact_Inr artifact_row_get_def
          tget_append)
    moreover have "contract_of_row ?e = Inr (contract_of ?e ty)" by (rule contract_of_row_kind) simp
    ultimately show ?thesis
      using idk None fresh
      by (intro exI [of _ idk] exI [of _ ?e])
        (simp add: tget_append registered_def immutable_columns_def artifact_row_get_def)
  qed
qed

lemma artifact_moves_key: "artifact_moves a b \<Longrightarrow> ar_identity_key b = ar_identity_key a"
  by (auto simp: artifact_moves_def)

lemma registered_stays:
  assumes "extends d d'" and "tget ar_identity_key (Some idk) (artifacts d) = Some e"
    and "registered sha_bytes k ty nm mt fm loc content ver idk e"
  shows "\<exists>e'. tget ar_identity_key (Some idk) (artifacts d') = Some e' \<and>
    registered sha_bytes k ty nm mt fm loc content ver idk e' \<and> artifact_moves e e'"
proof -
  have "grows artifact_moves (artifacts d) (artifacts d')" using assms(1) by (simp add: extends_def)
  from grows_tget [OF this assms(2)] obtain e' where e': "tget ar_identity_key (Some idk) (artifacts d') = Some e'"
    "artifact_moves e e'" using artifact_moves_key by blast
  with assms(3) show ?thesis
    by (auto simp: registered_def artifact_moves_def immutable_columns_def)
qed

lemma register_found:
  assumes "artifact_identity sha k ty nm ver = Inr idk"
    and "tget ar_identity_key (Some idk) (artifacts d) = Some e"
    and "registered sha_bytes k ty nm mt fm loc content ver idk e"
    and "nm \<noteq> []" "mt \<noteq> []" "fm \<noteq> []" "loc \<noteq> []" "1 \<le> ver"
  shows "register_artifact sha sha_bytes now k ty nm mt fm loc content ver av d = (Inr (contract_of e ty), d)"
proof -
  have "ar_type e = artifact_kind_value ty" using assms(3) by (simp add: registered_def immutable_columns_def)
  with assms show ?thesis
    by (simp add: register_artifact_def transaction_def register_artifact_contract_def Let_def body_step
        registered_def immutable_columns_def contract_of_row_kind)
qed

lemma register_conflict:
  assumes "artifact_identity sha k ty nm ver = Inr idk"
    and "tget ar_identity_key (Some idk) (artifacts d) = Some e"
    and "registered sha_bytes k ty nm mt fm loc content ver idk e"
    and "nm \<noteq> []" "mt' \<noteq> []" "fm' \<noteq> []" "loc' \<noteq> []" "1 \<le> ver"
    and "(mt', fm', loc', sha_bytes content', length content') \<noteq> (mt, fm, loc, sha_bytes content, length content)"
  shows "register_artifact sha sha_bytes now k ty nm mt' fm' loc' content' ver av d =
    (Inl (ValueError ''immutable artifact identity conflicts with existing artifact''), d)"
  using assms
  by (auto simp: register_artifact_def transaction_def register_artifact_contract_def Let_def body_step
      registered_def immutable_columns_def)

lemma register_arguments:
  assumes "register_artifact sha sha_bytes now k ty nm mt fm loc content ver av d = (Inr a, d')"
  shows "nm \<noteq> []" "mt \<noteq> []" "fm \<noteq> []" "loc \<noteq> []" "1 \<le> ver"
  using assms by (auto simp: register_artifact_def split: if_splits)

section \<open>Manifests\<close>

lemma index_distinct: "index k j = Inr v \<Longrightarrow> distinct_keys j \<Longrightarrow> distinct_keys v"
  by (auto simp: index_def split: json.splits option.splits dest!: map_of_SomeD)

lemma dict_get_distinct: "dict_get k j = Inr v \<Longrightarrow> distinct_keys j \<Longrightarrow> distinct_keys v"
  by (auto simp: dict_get_def split: json.splits option.splits dest!: map_of_SomeD)

lemma runtime_fields_distinct:
  assumes "runtime_lineage_fields sha j = Inr l" and "distinct_keys j"
  shows "distinct_keys (runtime_lineage_document l)"
proof -
  from assms(1) obtain git py vbt pkg plat where sub: "index ''git'' j = Inr git"
    "index ''python'' j = Inr py" "index ''vectorbtpro'' j = Inr vbt" "index ''packages'' j = Inr pkg"
    "index ''platform'' j = Inr plat"
    and leaf: "index ''commit_sha'' git = Inr (rl_git_commit_sha l)"
    "index ''commit_available'' git = Inr (rl_git_commit_available l)"
    "index ''dirty_state'' git = Inr (rl_git_dirty_state l)"
    "index ''dirty_available'' git = Inr (rl_git_dirty_available l)"
    "index ''dirty_entry_count'' git = Inr (rl_git_dirty_entry_count l)"
    "dict_get ''dirty_fingerprint'' git = Inr (rl_git_dirty_fingerprint l)"
    "index ''implementation'' py = Inr (rl_python_implementation l)"
    "index ''version'' py = Inr (rl_python_version l)" "index ''cache_tag'' py = Inr (rl_python_cache_tag l)"
    "index ''version'' vbt = Inr (rl_vectorbtpro_version l)"
    "index ''available'' vbt = Inr (rl_vectorbtpro_available l)"
    "index ''fingerprint'' pkg = Inr (rl_package_fingerprint l)"
    "index ''count'' pkg = Inr (rl_package_count l)" "index ''system'' plat = Inr (rl_platform_system l)"
    "index ''machine'' plat = Inr (rl_platform_machine l)"
    by (auto simp: runtime_lineage_fields_def Let_def)
  have "distinct_keys git" "distinct_keys py" "distinct_keys vbt" "distinct_keys pkg" "distinct_keys plat"
    using sub assms(2) by (blast intro: index_distinct)+
  show ?thesis
    using leaf \<open>distinct_keys git\<close> \<open>distinct_keys py\<close> \<open>distinct_keys vbt\<close> \<open>distinct_keys pkg\<close>
      \<open>distinct_keys plat\<close>
    by (simp add: runtime_lineage_document_def runtime_contract_def)
      (blast intro: index_distinct dict_get_distinct)
qed

lemma run_runtime_distinct:
  assumes "runtime_lineage_for_run sha r = Inr l"
  shows "distinct_keys (runtime_lineage_document l)"
proof -
  from assms obtain kvs doc where env: "json_loads (rn_environment_json r) = Some (JObj kvs)"
    and doc: "map_of kvs ''runtime_lineage'' = Some (JObj doc)"
    and l: "runtime_lineage_from_document sha (JObj doc) = Inr l"
    by (auto simp: runtime_lineage_for_run_def json_document_def split: option.splits json.splits)
  have "\<forall>kv \<in> set kvs. distinct_keys (snd kv)" using json_loads_distinct_keys [OF env] by simp
  with map_of_SomeD [OF doc] have "distinct_keys (JObj doc)" by fastforce
  then show ?thesis
    using l by (auto simp: runtime_lineage_from_document_def intro: runtime_fields_distinct
        split: sum.splits exn.splits)
qed

lemma run_lineage_runtime_distinct:
  "get_run_lineage sha k d = Inr l \<Longrightarrow> distinct_keys (runtime_lineage_document (ln_runtime l))"
  by (auto simp: get_run_lineage_def case_option_Inr intro: run_runtime_distinct)

text \<open>What the text of a serialized manifest reads as.\<close>

lemma serialized_manifest_read:
  assumes "serialize_run_manifest m = Inr s"
    and "\<And>l. rm_lineage m = Some l \<Longrightarrow> distinct_keys (runtime_lineage_document (ln_runtime l))"
  shows "\<exists>ln. manifest_lineage m = Inr ln \<and> json_loads s = Some (normal_manifest True ln m)"
proof -
  obtain ln where ln: "manifest_lineage m = Inr ln" and s: "s = dumps (normal_manifest True ln m)"
    using assms(1) normalize_manifest_document [of m True]
    by (cases "manifest_lineage m")
      (auto simp: serialize_run_manifest_def canonical_json_def bindR_assoc [symmetric])
  note ok = manifest_lineage_ok [OF ln assms(2)]
  have "json_loads s = Some (normal_manifest True ln m)"
    unfolding s using ok by (intro json_loads_dumps json_ok_normal_manifest) auto
  with ln show ?thesis by blast
qed

lemma canonical_artifact_list:
  "canonical_json (JList (map (sorted_artifact_document []) xs)) =
   canonical_json (JList (map (\<lambda>a. JObj (artifact_contract_document a)) xs))"
  using normalize_manifest_entries(1) [of xs] normal_JListI [of "map (sorted_artifact_document []) xs"]
  by (simp add: canonical_json_def normal_sorted_artifact del: normalize.simps(3))

definition manifest_artifact :: "artifact_contract \<Rightarrow> bool" where
  "manifest_artifact a \<longleftrightarrow> ac_logical_name a \<notin> Some ` set EXCLUDED_LOGICAL_NAMES"

text \<open>
  Retrieval succeeds on a stored manifest as long as the artifacts it lists are the run's
  artifacts: decision records and review contexts may be added later, and availability may change.
\<close>

lemma retrieve_stored:
  assumes run: "run_get k d \<noteq> None" and stored: "manifest_get k d = Some row"
    and row: "mf_json row = s" "mf_checksum row = c"
    and m: "serialize_run_manifest m = Inr s" "run_manifest_checksum sha m = Inr c" "rm_run_id m = k"
    and lineage: "\<And>l. rm_lineage m = Some l \<Longrightarrow> distinct_keys (runtime_lineage_document (ln_runtime l))"
    and arts: "list_artifact_contracts k d = Inr arts"
    and same: "map artifact_contract_document (filter manifest_artifact arts) =
      map artifact_contract_document (rm_artifacts m)"
    and files: "mapR (\<lambda>x. validate_artifact sha_bytes fs root (ac_id x) d) arts = Inr vs"
  shows "retrieve_run_artifacts sha sha_bytes fs root k d =
    Inr \<lparr>ra_run_id = k, ra_manifest_json = s, ra_manifest_checksum = c, ra_artifacts = arts,
         ra_validations = vs\<rparr>"
proof -
  obtain ln where read: "json_loads s = Some (normal_manifest True ln m)"
    using serialized_manifest_read [OF m(1) lineage] by blast
  have check: "persisted_manifest_checksum sha s = Inr c"
    using m(1,2) lineage by (rule stored_manifest_checksum)
  obtain kvs where kvs: "normal_manifest True ln m = JObj kvs"
    by (simp add: normal_manifest_def sorted_manifest_document_def)
  have skip: "map_of (map (Pair ''lineage'') ln) ''run_id'' = None" by (induction ln) auto
  have fields: "jget ''run_id'' (JObj kvs) = JStr k"
    "jget ''artifacts'' (JObj kvs) =
      JList (map (\<lambda>a. sorted_artifact_document [JStr (artifact_availability_value (ac_availability a))] a)
        (rm_artifacts m))"
    using m(3) kvs skip
    by (auto simp: normal_manifest_def sorted_manifest_document_def map_of_append map_add_def)
  let ?entry = "\<lambda>a. JObj (artifact_contract_document a)"
  have "map ?entry (filter manifest_artifact arts) = map ?entry (rm_artifacts m)"
    using arg_cong [OF same, of "map JObj"] by (simp add: comp_def)
  then have canon: "canonical_json (JList (map (sorted_artifact_document []) (rm_artifacts m))) =
      canonical_json (JList (map ?entry (filter manifest_artifact arts)))"
    by (simp add: canonical_artifact_list)
  obtain t where t: "canonical_json (JList (map ?entry (filter manifest_artifact arts))) = Inr t"
    using normalize_manifest_entries(1) [of "filter manifest_artifact arts"] by (simp add: canonical_json_def)
  have filt: "filter (\<lambda>a. ac_logical_name a \<notin> Some ` set EXCLUDED_LOGICAL_NAMES) arts =
      filter manifest_artifact arts" by (intro filter_cong) (simp_all add: manifest_artifact_def)
  show ?thesis
    using run stored row read kvs fields check arts files t canon
    by (auto simp: retrieve_run_artifacts_def read_persisted_run_manifest_def json_document_def Let_def
        mapR_immutable_entries filt simp del: jget.simps normalize.simps split: option.splits)
qed

text \<open>
  The other way round: a manifest that lists a decision record or a review context, because the
  artifact was registered before the manifest was built, never matches the database again.
\<close>

lemma canonical_artifact_list_inj:
  assumes "canonical_json (JList (map (sorted_artifact_document []) xs)) =
    canonical_json (JList (map (sorted_artifact_document []) ys))"
  shows "length xs = length ys"
proof -
  let ?j = "\<lambda>xs. JList (map (sorted_artifact_document []) xs)"
  have n: "normalize (?j xs) = Inr (?j xs)" for xs
    using normal_JListI [of "map (sorted_artifact_document []) xs"] normal_sorted_artifact by simp
  have ok: "json_ok (?j xs)" for xs by (auto simp: sorted_artifact_document_def)
  from assms have "dumps (?j xs) = dumps (?j ys)" by (simp add: canonical_json_def n del: dumps.simps normalize.simps)
  then have "Some (?j xs) = Some (?j ys)" using json_loads_dumps [OF ok] by metis
  then show ?thesis by (auto dest: map_eq_imp_length_eq)
qed

lemma retrieve_excluded:
  assumes run: "run_get k d \<noteq> None" and stored: "manifest_get k d = Some row"
    and row: "mf_json row = s" "mf_checksum row = c"
    and m: "serialize_run_manifest m = Inr s" "run_manifest_checksum sha m = Inr c" "rm_run_id m = k"
    and lineage: "\<And>l. rm_lineage m = Some l \<Longrightarrow> distinct_keys (runtime_lineage_document (ln_runtime l))"
    and arts: "list_artifact_contracts k d = Inr (rm_artifacts m)"
    and other: "a \<in> set (rm_artifacts m)" "\<not> manifest_artifact a"
  shows "retrieve_run_artifacts sha sha_bytes fs root k d = Inl (ValueError
    (''stored run manifest artifacts do not match database records for run '' @ k))"
proof -
  obtain ln where read: "json_loads s = Some (normal_manifest True ln m)"
    using serialized_manifest_read [OF m(1) lineage] by blast
  have check: "persisted_manifest_checksum sha s = Inr c"
    using m(1,2) lineage by (rule stored_manifest_checksum)
  obtain kvs where kvs: "normal_manifest True ln m = JObj kvs"
    by (simp add: normal_manifest_def sorted_manifest_document_def)
  have skip: "map_of (map (Pair ''lineage'') ln) ''run_id'' = None" by (induction ln) auto
  have fields: "jget ''run_id'' (JObj kvs) = JStr k"
    "jget ''artifacts'' (JObj kvs) =
      JList (map (\<lambda>a. sorted_artifact_document [JStr (artifact_availability_value (ac_availability a))] a)
        (rm_artifacts m))"
    using m(3) kvs skip
    by (auto simp: normal_manifest_def sorted_manifest_document_def map_of_append map_add_def)
  let ?xs = "rm_artifacts m" and ?ys = "filter manifest_artifact (rm_artifacts m)"
  have "length ?ys < length ?xs" using other by (auto intro: length_filter_less)
  then have differ: "canonical_json (JList (map (sorted_artifact_document []) ?xs)) \<noteq>
      canonical_json (JList (map (\<lambda>a. JObj (artifact_contract_document a)) ?ys))"
    using canonical_artifact_list_inj [of ?xs ?ys] by (auto simp: canonical_artifact_list [symmetric])
  obtain t where t: "canonical_json (JList (map (\<lambda>a. JObj (artifact_contract_document a)) ?ys)) = Inr t"
    using normalize_manifest_entries(1) [of ?ys] by (simp add: canonical_json_def)
  obtain u where u: "canonical_json (JList (map (sorted_artifact_document []) ?xs)) = Inr u"
    using canonical_artifact_list [of ?xs] normalize_manifest_entries(1) [of ?xs]
    by (simp add: canonical_json_def)
  have filt: "filter (\<lambda>a. ac_logical_name a \<notin> Some ` set EXCLUDED_LOGICAL_NAMES) ?xs = ?ys"
    by (intro filter_cong) (simp_all add: manifest_artifact_def)
  show ?thesis
    using run stored row read kvs fields check arts t u differ
    by (auto simp: retrieve_run_artifacts_def read_persisted_run_manifest_def json_document_def Let_def
        mapR_immutable_entries filt simp del: jget.simps normalize.simps split: option.splits)
qed

end
