(* ===== verification/Worked_Example.thy ===== *)
theory Worked_Example
  imports Launch_Replay Artifact_Laws
begin

text \<open>
  One concrete life of the database, from the empty one: a fixture strategy and configuration are
  registered, a launch is claimed, dispatched and acknowledged. The witnesses of the properties
  are taken from it. The digest is a constant of the right shape, which is enough to run every
  check of the code; each step is the operation evaluated on the state before it.
\<close>

definition demo_hash :: string where
  "demo_hash = replicate 64 (CHR ''a'')"

definition demo_sha :: "string \<Rightarrow> string" where
  "demo_sha t = demo_hash"

definition demo_document :: json where
  "demo_document =
     normalized_configuration_document ''exp'' ''fixture'' ''1'' (JObj []) (JObj []) (JObj []) (JObj [])
       (JObj [])"

definition demo_key :: string where
  "demo_key = ''demo_launch_key_0001''"

definition demo_dispatcher :: string where
  "demo_dispatcher = ''01234567-89ab-cdef-0123-456789abcdef''"

definition demo_request :: launch_request where
  "demo_request = \<lparr>rq_operation = ''run_test'', rq_configuration_id = demo_hash,
     rq_source_run_id = None, rq_source_lineage = None\<rparr>"

definition demo_strategy :: strategy where
  "demo_strategy = \<lparr>st_id = ''fixture'', st_version = ''1'', st_display_name = ''Fixture'',
     st_description = ''demo'', st_lifecycle = SL_INFRASTRUCTURE_FIXTURE, st_active = True,
     st_created_at = ''t0'', st_updated_at = ''t0''\<rparr>"

definition demo_configuration :: configuration where
  "demo_configuration = \<lparr>cf_id = demo_hash, cf_experiment_id = ''exp'', cf_strategy_id = ''fixture'',
     cf_strategy_version = ''1'',
     cf_canonical_json = ''{\"execution\":{},\"experiment_id\":\"exp\",\"market_data\":{},\"parameters\":{},\"ranking\":{},\"screening\":{},\"strategy_id\":\"fixture\",\"strategy_version\":\"1\"}'',
     cf_hash = demo_hash, cf_created_at = ''t1''\<rparr>"

definition demo_run :: run where
  "demo_run = \<lparr>rn_id = ''run_demo'', rn_configuration_id = demo_hash, rn_strategy_id = ''fixture'',
     rn_strategy_version = ''1'', rn_stage = STAGE_FIXTURE, rn_status = CREATED, rn_started_at = None,
     rn_completed_at = None, rn_error_summary = None, rn_environment_json = ''{}'',
     rn_created_at = ''t3'', rn_attempt_count = 0\<rparr>"

definition demo_text :: string where
  "demo_text = ''{\"accepted_launch_policy\":\"milestone23_infrastructure_fixture_only\",\"configuration_hash\":\"aaaaaaaaaaaaaaaaaaaaaaaaaaaaaaaaaaaaaaaaaaaaaaaaaaaaaaaaaaaaaaaa\",\"configuration_id\":\"aaaaaaaaaaaaaaaaaaaaaaaaaaaaaaaaaaaaaaaaaaaaaaaaaaaaaaaaaaaaaaaa\",\"fixture_stage\":\"fixture\",\"operation_kind\":\"run_test\",\"protocol_version\":1,\"source_lineage\":{},\"source_run_id\":null,\"strategy_id\":\"fixture\",\"strategy_version\":\"1\"}''"

definition demo_submission :: submission where
  "demo_submission = \<lparr>sb_key = demo_key, sb_run_id = ''run_demo'', sb_configuration_id = demo_hash,
     sb_canonical_request_json = demo_text, sb_request_fingerprint = demo_hash,
     sb_state = SUB_CLAIMED, sb_dispatcher = None, sb_prefect_flow_run_id = None,
     sb_prefect_api_url = None, sb_claimed_at = ''t2'', sb_invocation_started_at = None,
     sb_acknowledged_at = None, sb_unknown_at = None, sb_unknown_evidence = None,
     sb_resolved_at = None, sb_resolution_evidence = None, sb_updated_at = ''t2'',
     sb_error_summary = None\<rparr>"

definition demo_event :: "nat \<Rightarrow> run_event_type \<Rightarrow> string \<Rightarrow> string \<Rightarrow> run_event" where
  "demo_event i ty stamp msg = \<lparr>ev_id = i, ev_run_id = ''run_demo'', ev_type = ty,
     ev_occurred_at = stamp, ev_severity = SEV_INFO, ev_source = ''quant_factory'', ev_message = msg\<rparr>"

definition demo_registered :: db where
  "demo_registered = empty_db\<lparr>strategies := [demo_strategy]\<rparr>"

definition demo_configured :: db where
  "demo_configured = demo_registered\<lparr>configurations := [demo_configuration]\<rparr>"

definition demo_claimed :: db where
  "demo_claimed = demo_configured\<lparr>runs := [demo_run], submissions := [demo_submission],
     events := [demo_event 1 EV_RUN_CREATED ''t3'' ''Run created for durable research fixture submission.''],
     next_event := 2\<rparr>"

definition demo_invoking :: submission where
  "demo_invoking = invoking_row demo_dispatcher ''t5'' demo_submission"

definition demo_dispatched :: db where
  "demo_dispatched = demo_claimed\<lparr>submissions := [demo_invoking]\<rparr>"

definition demo_acknowledged :: submission where
  "demo_acknowledged = acknowledged_row ''flow-1'' None ''t6'' demo_invoking"

definition demo_bound :: db where
  "demo_bound = demo_dispatched\<lparr>submissions := [demo_acknowledged],
     runs := [demo_run\<lparr>rn_status := RUNNING, rn_started_at := Some ''t7'',
       rn_environment_json := ''{\"prefect_flow_run_id\":\"flow-1\",\"prefect_identity_storage\":\"technical_run_environment\",\"prefect_reference_source\":\"durable_research_claim\"}''\<rparr>],
     events := events demo_claimed @
       [demo_event 2 EV_RUN_STARTED ''t7'' ''Run started through acknowledged Prefect fixture execution.''],
     next_event := 3\<rparr>"

lemma demo_register:
  "register_strategy ''t0'' ''fixture'' ''1'' ''Fixture'' ''demo'' SL_INFRASTRUCTURE_FIXTURE True empty_db
     = (Inr demo_strategy, demo_registered)"
  by code_simp

lemma demo_configure:
  "upsert_configuration demo_sha ''t1'' demo_document demo_registered = (Inr demo_configuration, demo_configured)"
  by code_simp

lemma demo_claim:
  "claim demo_sha FIXTURE_LAUNCH_CONTRACT (\<lambda>_. None) ''t2'' ''t3'' ''t4'' ''run_demo'' demo_key
     demo_request None demo_configured =
   (Inr \<lparr>cm_submission = demo_submission, cm_run = demo_run, cm_created = True\<rparr>, demo_claimed)"
  by code_simp

lemma demo_dispatch:
  "begin_dispatch demo_sha FIXTURE_LAUNCH_CONTRACT ''t5'' demo_key demo_dispatcher demo_claimed =
   (Inr \<lparr>dd_submission = demo_invoking, dd_should_invoke = True\<rparr>, demo_dispatched)"
  by code_simp

lemma demo_bind:
  "bind_prefect_identity demo_sha FIXTURE_LAUNCH_CONTRACT ''t6'' ''t7'' ''t8'' demo_key ''run_demo''
     demo_hash demo_text demo_hash ''flow-1'' None demo_dispatched = (Inr demo_acknowledged, demo_bound)"
  by code_simp

section \<open>The example is a history\<close>

lemma demo_history_configured: "launch_history demo_sha [] demo_configured"
proof -
  have "service_op demo_sha empty_db demo_registered"
    by (metis demo_register op_register_strategy snd_conv)
  moreover have "service_op demo_sha demo_registered demo_configured"
    by (metis demo_configure op_upsert_configuration snd_conv)
  ultimately show ?thesis by (blast intro: history_start history_op)
qed

lemma demo_history_claimed: "launch_history demo_sha [] demo_claimed"
proof -
  have "service_op demo_sha demo_configured demo_claimed" by (metis demo_claim op_claim snd_conv)
  with demo_history_configured show ?thesis by (rule history_op)
qed

lemma demo_history_dispatched: "launch_history demo_sha [demo_key] demo_dispatched"
  using history_dispatch [OF demo_history_claimed demo_dispatch] by simp

lemma demo_step_bound: "service_op demo_sha demo_dispatched demo_bound"
  by (metis demo_bind op_bind snd_conv)

lemma demo_history_bound: "launch_history demo_sha [demo_key] demo_bound"
  using demo_history_dispatched demo_step_bound by (rule history_op)

lemma demo_stamped: "stamped_history demo_sha demo_bound"
proof -
  have "service_op demo_sha empty_db demo_registered" by (metis demo_register op_register_strategy snd_conv)
  moreover have "service_op demo_sha demo_registered demo_configured"
    by (metis demo_configure op_upsert_configuration snd_conv)
  moreover have "service_op demo_sha demo_configured demo_claimed" by (metis demo_claim op_claim snd_conv)
  moreover have "stamped demo_registered" "stamped demo_configured" "stamped demo_claimed" "stamped demo_bound"
    by (simp_all add: stamped_def demo_registered_def demo_configured_def demo_claimed_def demo_bound_def
        demo_dispatched_def empty_db_def demo_run_def)
  ultimately have "stamped_history demo_sha demo_claimed" by (blast intro: stamped_start stamped_op)
  then have "stamped_history demo_sha demo_dispatched"
    using stamped_dispatch [of demo_sha demo_claimed FIXTURE_LAUNCH_CONTRACT "''t5''" demo_key demo_dispatcher]
    by (simp add: demo_dispatch)
  then show ?thesis using demo_step_bound \<open>stamped demo_bound\<close> by (rule stamped_op)
qed

lemmas demo_ok =
  demo_history_configured [THEN history_ok] demo_history_claimed [THEN history_ok]
  demo_history_dispatched [THEN history_ok] demo_history_bound [THEN history_ok]

end
