(* ===== verification/Launch_Guarantees.thy ===== *)
theory Launch_Guarantees
  imports Worked_Example
begin

text \<open>
  The properties of the durable launch service, stated over the operations themselves: over every
  history of calls first, then handler by handler.
\<close>

section \<open>Over every history\<close>

text \<open>
  C1: A launch key is dispatched at most once, whatever other calls come between: the keys whose
  \<open>begin_dispatch\<close> returned \<open>should_invoke\<close> are distinct, and each of them has left Claimed for
  good with its dispatcher recorded.
\<close>

theorem launch_at_most_once:
  assumes "launch_history sha ws d"
  shows "distinct ws \<and>
    (\<forall>key \<in> set ws. \<exists>s. submission_get key d = Some s \<and> sb_state s \<noteq> SUB_CLAIMED \<and> sb_dispatcher s \<noteq> None)"
  using history_winners [OF assms] by (simp add: dispatched_def)

theorem launch_at_most_once_witness:
  "distinct [demo_key] \<and>
    (\<exists>s. submission_get demo_key demo_bound = Some s \<and> sb_state s \<noteq> SUB_CLAIMED \<and> sb_dispatcher s \<noteq> None)"
  using launch_at_most_once [OF demo_history_bound] by simp

text \<open>
  C2: Every reachable database is well formed (keys, references, rows), and every submission has
  its run and agrees with it: the run of an acknowledged one has left Created and, as long as no
  clock reading was an empty text (\<open>utc_now\<close> never gives one), carries its start time; the run of
  one that failed before submission or was abandoned is Failed and never started.
\<close>

theorem launch_database_invariant:
  assumes "launch_history sha ws d"
  shows "db_ok d \<and>
    (\<forall>s \<in> set (submissions d). \<exists>r. run_get (sb_run_id s) d = Some r \<and>
       (sb_state s = SUB_ACKNOWLEDGED \<longrightarrow> rn_status r \<noteq> CREATED \<and>
          (stamped_history sha d \<longrightarrow> rn_started_at r \<notin> {None, Some []})) \<and>
       (sb_state s \<in> {SUB_FAILED_BEFORE_SUBMISSION, SUB_ABANDONED} \<longrightarrow>
          rn_status r = FAILED \<and> rn_started_at r = None))"
proof (intro conjI ballI)
  show ok: "db_ok d" using assms by (rule history_ok)
  fix s
  assume s: "s \<in> set (submissions d)"
  from submission_run_exists [OF ok s] obtain r where r: "run_get (sb_run_id s) d = Some r" by blast
  have "link_ok False (sb_state s) r" using history_coupled [OF assms] s r by (auto simp: coupled_def)
  moreover have "stamped_history sha d \<Longrightarrow> link_ok True (sb_state s) r"
    using stamped_history_coupled s r by (auto simp: coupled_def)
  ultimately show "\<exists>r. run_get (sb_run_id s) d = Some r \<and>
       (sb_state s = SUB_ACKNOWLEDGED \<longrightarrow> rn_status r \<noteq> CREATED \<and>
          (stamped_history sha d \<longrightarrow> rn_started_at r \<notin> {None, Some []})) \<and>
       (sb_state s \<in> {SUB_FAILED_BEFORE_SUBMISSION, SUB_ABANDONED} \<longrightarrow>
          rn_status r = FAILED \<and> rn_started_at r = None)"
    using r by (auto simp: link_ok_def)
qed

theorem launch_database_invariant_witness:
  "\<exists>s r. submissions demo_bound = [s] \<and> sb_state s = SUB_ACKNOWLEDGED \<and>
    run_get (sb_run_id s) demo_bound = Some r \<and> rn_started_at r \<notin> {None, Some []}"
proof -
  have "submissions demo_bound = [demo_acknowledged]" "sb_state demo_acknowledged = SUB_ACKNOWLEDGED"
    by (simp_all add: demo_bound_def demo_acknowledged_def acknowledged_row_def)
  then show ?thesis
    using launch_database_invariant [OF demo_history_bound] demo_stamped by (simp del: insert_iff) blast
qed

lemma terminal_run_frozen:
  assumes "run_moves r r'" and "terminal (rn_status r)"
  shows "r' = r\<lparr>rn_attempt_count := rn_attempt_count r'\<rparr>"
proof -
  have "rn_status r' = rn_status r" using assms by (auto simp: run_moves_def dest: status_moves_terminal)
  moreover have "rn_status r \<noteq> CREATED" using assms(2) by (auto simp: terminal_def TERMINAL_RUN_STATUSES_def)
  ultimately show ?thesis using assms by (intro run.equality) (simp_all add: run_moves_def)
qed

text \<open>
  C3: What the database recorded stays recorded by every later call: events, audits and
  configurations are only appended to, a run that ended keeps its status, times, error and
  environment (only its attempt counter may still move), and a resolved submission never changes.
\<close>

theorem history_is_kept:
  assumes "launch_history sha ws d" and "service_op sha d d'"
  shows "prefix (events d) (events d') \<and> prefix (audits d) (audits d') \<and>
    prefix (configurations d) (configurations d') \<and>
    (\<forall>k r. run_get k d = Some r \<and> terminal (rn_status r) \<longrightarrow>
       (\<exists>n \<ge> rn_attempt_count r. run_get k d' = Some (r\<lparr>rn_attempt_count := n\<rparr>))) \<and>
    (\<forall>key s. submission_get key d = Some s \<and>
       sb_state s \<in> {SUB_ACKNOWLEDGED, SUB_FAILED_BEFORE_SUBMISSION, SUB_ABANDONED} \<longrightarrow>
       submission_get key d' = Some s)"
proof -
  have ext: "extends d d'"
    using assms history_ok service_op_evolves by (auto simp: evolves_def)
  have "\<exists>n \<ge> rn_attempt_count r. run_get k d' = Some (r\<lparr>rn_attempt_count := n\<rparr>)"
    if "run_get k d = Some r" "terminal (rn_status r)" for k r
    using run_get_extends [OF ext that(1)] terminal_run_frozen [OF _ that(2)]
    by (metis run_moves_def)
  moreover have "submission_get key d' = Some s"
    if "submission_get key d = Some s"
      "sb_state s \<in> {SUB_ACKNOWLEDGED, SUB_FAILED_BEFORE_SUBMISSION, SUB_ABANDONED}" for key s
    using submission_get_extends [OF ext that(1)] that(2) by (auto simp: submission_moves_def)
  ultimately show ?thesis using ext by (auto simp: extends_def)
qed

theorem history_is_kept_witness:
  "prefix (events demo_dispatched) (events demo_bound) \<and> length (events demo_bound) = 2"
  using history_is_kept [OF demo_history_dispatched demo_step_bound]
  by (simp add: demo_bound_def demo_claimed_def)

text \<open>
  C4: No two submissions of a reachable database are acknowledged by the same Prefect flow run.
\<close>

theorem prefect_identity_unique:
  assumes "launch_history sha ws d" and "s \<in> set (submissions d)" and "t \<in> set (submissions d)"
    and "sb_prefect_flow_run_id s = Some p" and "sb_prefect_flow_run_id t = Some p"
  shows "s = t"
proof -
  have ok: "db_ok d" using assms(1) by (rule history_ok)
  have key: "sb_key s = sb_key t"
    using bspec [OF bspec [OF db_ok_parts(8) [OF ok, unfolded prefect_ids_unique_def] assms(2)] assms(3)]
      assms(4,5) by simp
  have "inj_on sb_key (set (submissions d))" using db_ok_parts(3) [OF ok] by (simp add: distinct_map)
  from inj_onD [OF this key assms(2,3)] show ?thesis .
qed

theorem prefect_identity_unique_witness:
  "hd (submissions demo_bound) = last (submissions demo_bound)"
  by (rule prefect_identity_unique [OF demo_history_bound, of _ _ "''flow-1''"])
    (simp_all add: demo_bound_def demo_acknowledged_def acknowledged_row_def)

section \<open>Claiming\<close>

text \<open>
  C5: A claim has three outcomes and no other: it raises and changes nothing (whatever raised,
  the injected failures of the three steps included); it finds the key taken, changes nothing and
  returns the stored submission as not created; or it adds exactly one Created run, one
  run-created event and one Claimed submission that belong together.
\<close>

theorem claim_outcome:
  "case claim sha c injr t0 t1 t2 rid key rq env d of
     (Inl e, d') \<Rightarrow> d' = d
   | (Inr cm, d') \<Rightarrow>
       if cm_created cm then fresh_claim sha c key rq d (cm_submission cm) (cm_run cm) d'
       else d' = d \<and> submission_get key d = Some (cm_submission cm)"
proof (cases "claim sha c injr t0 t1 t2 rid key rq env d")
  case (Pair res d')
  show ?thesis
  proof (cases res)
    case (Inl e)
    with Pair have "d' = d" by (auto simp: claim_def transaction_Inl_iff split: sum.splits)
    with Pair Inl show ?thesis by simp
  next
    case (Inr cm)
    with Pair have "claim sha c injr t0 t1 t2 rid key rq env d = (Inr cm, d')" by simp
    then show ?thesis
    proof (cases rule: claim_cases)
      case (1 s)
      then have "cm_submission cm = s" "\<not> cm_created cm"
        by (auto simp: replay_claim_def case_option_Inr)
      with Pair Inr 1 show ?thesis by simp
    qed (simp add: Pair Inr)
  qed
qed

text \<open>
  C6: A claim that created its submission passes, in the state it leaves, the full check of stored
  claims: canonical text and fingerprint, contract, configuration, strategy, run and lineage agree.
\<close>

theorem created_claim_is_valid:
  assumes "db_ok d" and "c \<in> set SUPPORTED_LAUNCH_CONTRACTS"
    and "claim sha c injr t0 t1 t2 rid key rq env d = (Inr cm, d')" and "cm_created cm"
  shows "validate_persisted_claim sha c (cm_submission cm) True True d' = Inr (cm_run cm)"
proof -
  have "extends d d'"
    using claim_evolves [of d sha c injr t0 t1 t2 rid key rq env] assms(1,3) by (simp add: evolves_def)
  from assms(3) show ?thesis
  proof (cases rule: claim_cases)
    case (1 s)
    then show ?thesis using assms(4) by (auto simp: replay_claim_def case_option_Inr)
  next
    case (2 s r)
    with fresh_claim_valid [OF 2(2) assms(2) \<open>extends d d'\<close>] show ?thesis by simp
  qed
qed

theorem created_claim_is_valid_witness:
  "validate_persisted_claim demo_sha FIXTURE_LAUNCH_CONTRACT demo_submission True True demo_claimed
     = Inr demo_run"
  using created_claim_is_valid [OF demo_ok(1) _ demo_claim]
  by (simp add: SUPPORTED_LAUNCH_CONTRACTS_def)

lemma claim_of_known_key:
  assumes "validate_launch_key key = Inr key" and "canonical_json (JObj env) = Inr ej"
    and "submission_get key d = Some s" and "replay_claim sha c rq s d = Inr cm"
  shows "claim sha c injr t0 t1 t2 rid key rq (Some env) d = (Inr cm, d)"
  using assms by (simp add: claim_def transaction_def claim_body_def body_step)

text \<open>
  C7: Claiming again is safe at any later time: as long as every manifest that was stored at the
  first claim is still stored with its text and checksum (new manifests, the launched run's own
  among them, may have been added), the same request under the same key returns the submission and
  run the first claim made, as they are now, and changes nothing, whatever the clock, the run-id
  factory and the failure hook would give.
\<close>

theorem claim_again:
  assumes "db_ok d" and "c \<in> set SUPPORTED_LAUNCH_CONTRACTS"
    and first: "claim sha c injr t0 t1 t2 rid key rq env d = (Inr cm, d1)" and "cm_created cm"
    and later: "extends d1 d2"
      "\<forall>k m. manifest_get k d1 = Some m \<longrightarrow>
         (\<exists>m'. manifest_get k d2 = Some m' \<and> mf_json m' = mf_json m \<and> mf_checksum m' = mf_checksum m)"
    and "canonical_json (JObj env') = Inr ej"
  shows "\<exists>s r. submission_get key d2 = Some s \<and> run_get (rn_id (cm_run cm)) d2 = Some r \<and>
    submission_moves (cm_submission cm) s \<and> run_moves (cm_run cm) r \<and>
    claim sha c injr' u0 u1 u2 rid' key rq (Some env') d2
      = (Inr \<lparr>cm_submission = s, cm_run = r, cm_created = False\<rparr>, d2)"
proof -
  have ext: "extends d d1"
    using claim_evolves [of d sha c injr t0 t1 t2 rid key rq env] assms(1) first by (simp add: evolves_def)
  have key: "validate_launch_key key = Inr key"
    using first validate_launch_key_Inr by (auto simp: claim_def split: sum.splits)
  from first show ?thesis
  proof (cases rule: claim_cases)
    case (1 s)
    then show ?thesis using assms(4) by (auto simp: replay_claim_def case_option_Inr)
  next
    case (2 s r)
    note gets = fresh_claim_gets [OF 2(2)]
    obtain s' where s': "submission_get key d2 = Some s'" "submission_moves s s'"
      using submission_get_extends [OF later(1) gets(2)] by blast
    have "sb_run_id s = rn_id r" using 2(2) by (auto simp: fresh_claim_def)
    with fresh_claim_replays [OF 2(2) assms(2) ext later(1) later(2) [folded manifests_kept_def] s'] obtain r' where
      "run_get (rn_id r) d2 = Some r'" "run_moves r r'"
      "replay_claim sha c rq s' d2 = Inr \<lparr>cm_submission = s', cm_run = r', cm_created = False\<rparr>" by auto
    with claim_of_known_key [OF key assms(7) s'(1)] s' 2(1) show ?thesis by auto
  qed
qed

text \<open>The run completed after the claim and has its manifest.\<close>

definition demo_completed :: db where
  "demo_completed = demo_bound\<lparr>manifests :=
     [\<lparr>mf_run_id = ''run_demo'', mf_schema_version = 1, mf_json = ''{}'', mf_checksum = demo_hash,
       mf_created_at = ''t9''\<rparr>]\<rparr>"

lemma demo_later: "extends demo_claimed demo_completed" "manifests demo_claimed = []"
proof -
  show none: "manifests demo_claimed = []"
    by (simp add: demo_claimed_def demo_configured_def demo_registered_def empty_db_def)
  have "evolves demo_claimed demo_dispatched" using dispatch_evolves_to [OF demo_dispatch] .
  moreover have "evolves demo_dispatched demo_bound" using demo_step_bound by (rule service_op_evolves)
  ultimately have "extends demo_claimed demo_bound"
    using demo_ok(2,3) by (auto simp: evolves_def intro: extends_trans)
  with none show "extends demo_claimed demo_completed"
    by (simp add: extends_def demo_completed_def grows_def)
qed

theorem claim_again_witness:
  "\<exists>s r. submission_get demo_key demo_completed = Some s \<and> run_get ''run_demo'' demo_completed = Some r \<and>
    claim demo_sha FIXTURE_LAUNCH_CONTRACT (\<lambda>_. Some AssertionError) ''u0'' ''u1'' ''u2'' ''other'' demo_key
      demo_request (Some []) demo_completed
      = (Inr \<lparr>cm_submission = s, cm_run = r, cm_created = False\<rparr>, demo_completed)"
proof -
  have empty: "canonical_json (JObj []) = Inr ''{}''" by code_simp
  have "FIXTURE_LAUNCH_CONTRACT \<in> set SUPPORTED_LAUNCH_CONTRACTS" by (simp add: SUPPORTED_LAUNCH_CONTRACTS_def)
  from claim_again [where injr' = "\<lambda>_. Some AssertionError" and ?u0.0 = "''u0''" and ?u1.0 = "''u1''"
      and ?u2.0 = "''u2''" and rid' = "''other''", OF demo_ok(1) this demo_claim _ demo_later(1) _ empty]
  show ?thesis by (auto simp: demo_run_def demo_later(2) manifest_get_def)
qed

section \<open>Dispatching\<close>




text \<open>
  The injected callable is never called by a caller that did not win the marker: \<open>dispatch\<close>
  then gives the same result and state for every callable, and changes nothing.
\<close>

theorem dispatch_without_marker:
  assumes "db_ok d"
    and "\<forall>dec d'. begin_dispatch sha c t0 key disp d = (Inr dec, d') \<longrightarrow> \<not> dd_should_invoke dec"
  shows "dispatch sha c t0 t1 f key disp d = dispatch sha c t0 t1 g key disp d \<and>
    snd (dispatch sha c t0 t1 f key disp d) = d"
proof (cases "begin_dispatch sha c t0 key disp d")
  case (Pair res d')
  show ?thesis
  proof (cases res)
    case (Inl e)
    with Pair handler_error(1) [of sha c t0 key disp d e] show ?thesis by (simp add: dispatch_def)
  next
    case (Inr dec)
    with Pair have b: "begin_dispatch sha c t0 key disp d = (Inr dec, d')" by simp
    then have lost: "\<not> dd_should_invoke dec" using assms(2) by blast
    from assms(1) b have "d' = d" using lost by (cases rule: begin_dispatch_cases) auto
    with b lost show ?thesis by (simp add: dispatch_def)
  qed
qed

theorem dispatch_without_marker_witness:
  "dispatch demo_sha FIXTURE_LAUNCH_CONTRACT ''t9'' ''u0'' (\<lambda>_ d. (Inr True, d)) demo_key demo_dispatcher demo_bound
   = dispatch demo_sha FIXTURE_LAUNCH_CONTRACT ''t9'' ''u0'' (\<lambda>_ d. (Inl AssertionError, empty_db)) demo_key
       demo_dispatcher demo_bound"
proof -
  have "\<forall>dec d'. begin_dispatch demo_sha FIXTURE_LAUNCH_CONTRACT ''t9'' demo_key demo_dispatcher demo_bound
      = (Inr dec, d') \<longrightarrow> \<not> dd_should_invoke dec"
  proof (intro allI impI)
    fix dec d'
    assume "begin_dispatch demo_sha FIXTURE_LAUNCH_CONTRACT ''t9'' demo_key demo_dispatcher demo_bound = (Inr dec, d')"
    with demo_ok(4) show "\<not> dd_should_invoke dec"
      by (cases rule: begin_dispatch_cases)
        (auto simp: demo_bound_def submission_get_def demo_acknowledged_def acknowledged_row_def
          split: if_splits)
  qed
  from dispatch_without_marker [OF demo_ok(4) this] show ?thesis by blast
qed

lemma mark_invoking:
  assumes "db_ok d" and "validate_launch_key key = Inr key" and "validate_dispatcher_id disp = Inr disp"
    and "bounded_text ''error summary'' 500 sm = Inr sm'"
    and "submission_get key d = Some s" and "sb_state s = SUB_INVOKING" and "sb_dispatcher s = Some disp"
  shows "mark_invocation_unknown now key disp sm d =
    (Inr (unknown_row now sm' None s), put_submission (unknown_row now sm' None s) d)"
proof -
  let ?f = "unknown_row now sm' None"
  note key = submission_get_key [OF assms(5)]
  have free: "\<not> prefect_id_taken key (?f s) d"
    using db_ok_parts(10) [OF assms(1)] assms(5,6) tget_set [of sb_key key "submissions d" s]
    by (auto simp: prefect_id_taken_def unknown_row_def submission_ok.simps submission_get_def)
  let ?d' = "d\<lparr>submissions := tupd sb_key key ?f (submissions d)\<rparr>"
  have upd: "upd_submission key [SUB_INVOKING] ?f d = Inr (True, ?d')"
    using assms(5,6) free by (simp add: upd_submission_def)
  have d': "?d' = put_submission (?f s) d"
    using upd_submission_put [OF assms(1,5) _ upd] by simp
  have "submission_get key ?d' = Some (?f s)"
    using assms(5) key submission_get_put [of "?f s" d key] by (simp add: d')
  with upd have body: "mark_unknown_body now key disp sm' d = Inr (?f s, ?d')"
    using assms(5-7) by (simp add: mark_unknown_body_def set_unknown_def with_submission_def body_step
        bindB_ok assert_row_step)
  with assms(2-4) show ?thesis by (simp add: mark_invocation_unknown_def transaction_def d')
qed

lemma bounded_defaults:
  "bounded_text ''error summary'' 500 MARK_DEFAULT = Inr MARK_DEFAULT"
  "bounded_text ''error summary'' 500 ''Prefect invocation returned without durable acknowledgement.''
    = Inr ''Prefect invocation returned without durable acknowledgement.''"
  by code_simp+

lemma mark_leaves_invoking:
  assumes "db_ok d" and "validate_launch_key key = Inr key" and "validate_dispatcher_id disp = Inr disp"
    and "sm \<in> {MARK_DEFAULT, ''Prefect invocation returned without durable acknowledgement.''}"
    and "submission_get key d = Some s" and "sb_state s \<noteq> SUB_CLAIMED" and "sb_dispatcher s = Some disp"
  shows "\<exists>s'. submission_get key (snd (mark_invocation_unknown now key disp sm d)) = Some s' \<and>
    sb_state s' \<notin> {SUB_CLAIMED, SUB_INVOKING}"
proof (cases "sb_state s = SUB_INVOKING")
  case True
  have b: "bounded_text ''error summary'' 500 sm = Inr sm" using assms(4) bounded_defaults by auto
  note key = submission_get_key [OF assms(5)]
  from mark_invoking [OF assms(1-3) b assms(5) True assms(7), of now] show ?thesis
    using assms(5) key submission_get_put [of "unknown_row now sm None s" d key]
    by (auto simp: unknown_row_def)
next
  case False
  have "snd (mark_invocation_unknown now key disp sm d) = d"
  proof (cases "mark_invocation_unknown now key disp sm d")
    case (Pair res d')
    show ?thesis
    proof (cases res)
      case (Inl e)
      with Pair handler_error(2) [of now key disp sm d e] show ?thesis by simp
    next
      case (Inr x)
      with Pair have "mark_invocation_unknown now key disp sm d = (Inr x, d')" by simp
      with assms(1) show ?thesis by (cases rule: mark_cases) (use False assms(5) Pair in auto)
    qed
  qed
  with False assms(5,6) show ?thesis by auto
qed

text \<open>
  C9: A dispatch that won the marker never leaves the submission Claimed or Invoking, whether the
  callable returned or raised an \<open>Exception\<close>, and whatever it did to the database short of breaking
  its evolution: the submission ends acknowledged, resolved, or recorded as unknown, and is never
  retried silently. (A \<open>BaseException\<close> such as an interrupt passes the handler, and a database that
  cannot be locked while the outcome is being recorded raises; both are outside the model.)
\<close>

theorem dispatch_settles:
  assumes "db_ok d" and invoke: "\<forall>s d. evolves d (snd (invoke s d))"
    and won: "begin_dispatch sha c t0 key disp d = (Inr dec, d1)" "dd_should_invoke dec"
  shows "\<exists>s. submission_get key (snd (dispatch sha c t0 t1 invoke key disp d)) = Some s \<and>
    sb_state s \<notin> {SUB_CLAIMED, SUB_INVOKING}"
proof -
  obtain r2 d2 where i: "invoke (dd_submission dec) d1 = (r2, d2)" by (cases "invoke (dd_submission dec) d1")
  have ok1: "db_ok d1" using dispatch_evolves_to [OF won(1)] assms(1) by (simp add: evolves_def)
  have "evolves d1 d2" using invoke [rule_format, of d1 "dd_submission dec"] i by simp
  with ok1 have ok2: "db_ok d2" and ext: "extends d1 d2" by (simp_all add: evolves_def)
  have valid: "validate_launch_key key = Inr key" "validate_dispatcher_id disp = Inr disp"
    using won(1) by (auto simp: begin_dispatch_def validate_launch_key_def validate_dispatcher_id_def
        split: sum.splits if_splits)
  from assms(1) won obtain s where s: "submission_get key d = Some s"
    and d1: "d1 = put_submission (invoking_row disp t0 s) d"
    by (cases rule: begin_dispatch_cases) auto
  have "submission_get key d1 = Some (invoking_row disp t0 s)"
    using s submission_get_key [OF s] submission_get_put [of "invoking_row disp t0 s" d key] by (simp add: d1)
  from submission_get_extends [OF ext this] obtain s2 where s2: "submission_get key d2 = Some s2"
    and mv: "submission_moves (invoking_row disp t0 s) s2" by blast
  have st: "sb_state s2 \<noteq> SUB_CLAIMED" "sb_dispatcher s2 = Some disp"
    using mv submission_edges_from_claimed [of SUB_INVOKING "sb_state s2"]
    by (auto simp: submission_moves_def invoking_row_def)
  note leaves = mark_leaves_invoking [OF ok2 valid _ s2 st, of _ t1]
  show ?thesis
  proof (cases r2)
    case (Inl e)
    have "snd (dispatch sha c t0 t1 invoke key disp d)
        = snd (mark_invocation_unknown t1 key disp MARK_DEFAULT d2)"
      using won i Inl by (simp add: dispatch_def split: prod.splits sum.splits)
    then show ?thesis using leaves [of MARK_DEFAULT] by simp
  next
    case (Inr v)
    show ?thesis
    proof (cases "sb_state s2 = SUB_INVOKING")
      case True
      have "snd (dispatch sha c t0 t1 invoke key disp d) = snd (mark_invocation_unknown t1 key disp
          ''Prefect invocation returned without durable acknowledgement.'' d2)"
        using won i Inr s2 valid True by (simp add: dispatch_def launch_get_def split: prod.splits sum.splits)
      then show ?thesis using leaves by simp
    next
      case False
      then have "snd (dispatch sha c t0 t1 invoke key disp d) = d2"
        using won i Inr s2 valid by (simp add: dispatch_def launch_get_def)
      with False s2 st show ?thesis by auto
    qed
  qed
qed

theorem dispatch_settles_witness:
  "\<exists>s. submission_get demo_key (snd (dispatch demo_sha FIXTURE_LAUNCH_CONTRACT ''t5'' ''t9''
      (\<lambda>_ d. (Inl (OSError ''prefect''), d)) demo_key demo_dispatcher demo_claimed)) = Some s \<and>
    sb_state s \<notin> {SUB_CLAIMED, SUB_INVOKING}"
  by (rule dispatch_settles [OF demo_ok(2) _ demo_dispatch]) (simp_all add: evo.evo_refl)

section \<open>Acknowledging\<close>

lemma bind_Inr:
  assumes "bind_prefect_identity sha c t0 t1 t2 key rid cid req fp fid url d = (Inr s', d')"
  obtains f u where "validate_launch_key key = Inr key" "validate_run_id rid = Inr rid"
    "bounded_text ''configuration ID'' 200 cid = Inr (strip cid)"
    "bounded_text ''Prefect flow-run ID'' 200 fid = Inr (strip fid)"
    "optional_bounded_text ''Prefect API URL'' 2048 url = Inr u" "f = strip fid"
    "bind_body sha c t0 t1 t2 key rid (strip cid) req fp f u d = Inr ((None, s'), d')"
proof -
  from assms obtain k i ci f u out where v: "validate_launch_key key = Inr k" "validate_run_id rid = Inr i"
    "bounded_text ''configuration ID'' 200 cid = Inr ci" "bounded_text ''Prefect flow-run ID'' 200 fid = Inr f"
    "optional_bounded_text ''Prefect API URL'' 2048 url = Inr u"
    and b: "bind_body sha c t0 t1 t2 k i ci req fp f u d = Inr ((None, s'), d')"
    by (auto simp: bind_prefect_identity_def raise_after_commit_def transaction_def
        split: sum.splits option.splits prod.splits)
  have "k = key" "i = rid" "ci = strip cid" "f = strip fid"
    using v by (auto simp: validate_launch_key_def validate_run_id_def bounded_text_def Let_def
        split: if_splits)
  with v b that show thesis by blast
qed

text \<open>
  C10: An acknowledgement that returns leaves the submission acknowledged by exactly the given
  flow run. It either repeats one already accepted, changing nothing, or it found the submission
  Invoking or unknown with a run still Created; then submission, run, run environment and one
  run-started event change together and every other run is as it was.
\<close>

theorem bind_accepted:
  assumes "db_ok d"
    and "bind_prefect_identity sha c t0 t1 t2 key rid cid req fp fid url d = (Inr s', d')"
  shows "sb_state s' = SUB_ACKNOWLEDGED \<and> sb_prefect_flow_run_id s' = Some (strip fid) \<and>
    submission_get key d' = Some s' \<and> sb_run_id s' = rid \<and>
    (d' = d \<or>
     (\<exists>s r env ej u x. submission_get key d = Some s \<and> sb_state s \<in> {SUB_INVOKING, SUB_SUBMISSION_UNKNOWN} \<and>
        s' = acknowledged_row (strip fid) u t0 s \<and> run_get rid d = Some r \<and> rn_status r = CREATED \<and>
        json_loads (rn_environment_json r) = Some (JObj env) \<and>
        canonical_json (JObj (updated_environment env (strip fid) u)) = Inr ej \<and>
        (\<forall>j. run_get j d' = (if j = rid
           then Some (transition_row t1 RUNNING None (r\<lparr>rn_environment_json := ej\<rparr>)) else run_get j d)) \<and>
        events d' = events d @ [x] \<and> ev_type x = EV_RUN_STARTED \<and> ev_run_id x = rid))"
proof -
  obtain f u where f: "f = strip fid"
    and body: "bind_body sha c t0 t1 t2 key rid (strip cid) req fp f u d = Inr ((None, s'), d')"
    using assms(2) by (rule bind_Inr)
  from body show ?thesis
  proof (cases rule: bind_body_cases)
    case (2 s)
    then show ?thesis by (auto simp: f binding_mismatch_def)
  next
    case (3 s r env ej)
    have key: "sb_key s = key" "rn_id r = rid" using submission_get_key [OF 3(1)] run_get_key [OF 3(2)] by simp_all
    have got: "submission_get (sb_key s) d = Some s" "run_get (rn_id r) d = Some r"
      using 3(1,2) unfolding key .
    note out = commit_binding_outcome [OF assms(1) got 3(9)]
    have "submission_get key d' = Some s'"
      using out 3(1) submission_get_put [of "acknowledged_row f u t0 s" d key] key
      by (simp add: submission_get_def)
    moreover have "sb_run_id s = rid" using 3(4) by (simp add: binding_mismatch_def)
    ultimately show ?thesis
      using out 3(1-3,6,8) unfolding key(2) by (auto simp: f acknowledged_row_def)
  qed simp
qed

theorem bind_accepted_witness:
  "sb_state demo_acknowledged = SUB_ACKNOWLEDGED \<and> submission_get demo_key demo_bound = Some demo_acknowledged"
  using bind_accepted [OF demo_ok(3) demo_bind] by blast

text \<open>
  C11: An acknowledgement that raises changes nothing but the record of the refusal: the database
  is as it was, or has one more integrity-error event on the run of the submission it named.
\<close>

theorem bind_refused:
  assumes "bind_prefect_identity sha c t0 t1 t2 key rid cid req fp fid url d = (Inl e, d')"
  shows "d' = d \<or> (\<exists>s. submission_get key d = Some s \<and> noted s d d')"
proof -
  from assms consider "d' = d"
    | k i ci f u s e' where "validate_launch_key key = Inr k"
      "bind_body sha c t0 t1 t2 k i ci req fp f u d = Inr ((Some e', s), d')"
    by (auto simp: bind_prefect_identity_def raise_after_commit_def transaction_def
        split: sum.splits option.splits prod.splits)
  then show ?thesis
  proof cases
    case 2
    from 2(1) have "k = key" by (rule validate_launch_key_Inr)
    from 2(2) show ?thesis
    proof (cases rule: bind_body_cases)
      case (3 s r env ej)
      then show ?thesis by (auto simp: commit_binding_def split: if_splits)
    qed (use \<open>k = key\<close> in auto)
  qed simp
qed

lemma demo_conflict:
  "\<exists>e. bind_prefect_identity demo_sha FIXTURE_LAUNCH_CONTRACT ''t6'' ''t7'' ''t8'' demo_key ''run_demo''
     demo_hash demo_text demo_hash ''flow-2'' None demo_bound =
   (Inl e, demo_bound\<lparr>events := events demo_bound @
      [(demo_event 3 EV_SERVICE_INTEGRITY_ERROR ''t6''
        ''Research submission received a conflicting Prefect acknowledgement.'')\<lparr>ev_severity := SEV_ERROR\<rparr>],
      next_event := 4\<rparr>)"
  by (intro exI [of _ "integrity ''research launch already has a different Prefect identity''"]) code_simp

theorem bind_refused_witness:
  "\<exists>e d'. bind_prefect_identity demo_sha FIXTURE_LAUNCH_CONTRACT ''t6'' ''t7'' ''t8'' demo_key ''run_demo''
     demo_hash demo_text demo_hash ''flow-2'' None demo_bound = (Inl e, d') \<and>
     (d' = demo_bound \<or> (\<exists>s. submission_get demo_key demo_bound = Some s \<and> noted s demo_bound d'))"
  using demo_conflict bind_refused by blast

text \<open>
  Acknowledging twice is acknowledging once: repeating an accepted acknowledgement, at any
  clock reading, returns the same submission and changes nothing.
\<close>

theorem bind_again:
  assumes "db_ok d"
    and "bind_prefect_identity sha c t0 t1 t2 key rid cid req fp fid url d = (Inr s', d')"
  shows "bind_prefect_identity sha c u0 u1 u2 key rid cid req fp fid url d' = (Inr s', d')"
proof -
  have evo: "db_ok d' \<and> extends d d'"
    using bind_evolves [of d sha c t0 t1 t2 key rid cid req fp fid url] assms by (simp add: evolves_def)
  obtain f u where v: "validate_launch_key key = Inr key" "validate_run_id rid = Inr rid"
    "bounded_text ''configuration ID'' 200 cid = Inr (strip cid)"
    "bounded_text ''Prefect flow-run ID'' 200 fid = Inr (strip fid)"
    "optional_bounded_text ''Prefect API URL'' 2048 url = Inr u" "f = strip fid"
    and body: "bind_body sha c t0 t1 t2 key rid (strip cid) req fp f u d = Inr ((None, s'), d')"
    using assms(2) by (rule bind_Inr)
  have again: "bind_body sha c u0 u1 u2 key rid (strip cid) req fp f u d' = Inr ((None, s'), d')"
    if s': "submission_get key d' = Some s'" "sb_state s' = SUB_ACKNOWLEDGED"
      "\<not> binding_mismatch sha s' rid (strip cid) req fp" "sb_prefect_flow_run_id s' = Some f"
      "sb_prefect_api_url s' = u"
      and valid: "\<exists>r. validate_persisted_claim sha c s' False False d' = Inr r"
  proof -
    have "sb_key x = key" if "x \<in> set (submissions d')" "sb_prefect_flow_run_id x = Some f" for x
      using bspec [OF bspec [OF db_ok_parts(8) [OF conjunct1 [OF evo], unfolded prefect_ids_unique_def]
          that(1)] tget_set [OF s'(1) [unfolded submission_get_def]]]
        that(2) s'(4) submission_get_key [OF s'(1)] by simp
    then have dup: "\<not> (\<exists>x \<in> set (submissions d'). sb_prefect_flow_run_id x = Some f \<and> sb_key x \<noteq> key)"
      by blast
    have chk: "check_claim_for_binding sha c u0 s' d' = Inr (None, d')"
      using valid s'(2) by (auto simp: check_claim_for_binding_def body_step)
    show ?thesis
      using s' by (simp add: bind_body_def with_submission_def body_step 
          bindB_ok [where m = "check_claim_for_binding sha c u0 s'", OF chk])
        (use dup in blast)
  qed
  have "bind_body sha c u0 u1 u2 key rid (strip cid) req fp f u d' = Inr ((None, s'), d')"
    using body
  proof (cases rule: bind_body_cases)
    case (2 s)
    then show ?thesis by (intro again) auto
  next
    case (3 s r env ej)
    have key: "sb_key s = key" "rn_id r = rid" using submission_get_key [OF 3(1)] run_get_key [OF 3(2)] by simp_all
    have got: "submission_get (sb_key s) d = Some s" "run_get (rn_id r) d = Some r"
      using 3(1,2) unfolding key .
    note out = commit_binding_outcome [OF assms(1) got 3(9)]
    have s': "s' = acknowledged_row f u t0 s" using out by simp
    have get': "submission_get key d' = Some s'"
      using out 3(1) submission_get_put [of "acknowledged_row f u t0 s" d key] key
      by (simp add: submission_get_def)
    have mv: "submission_moves s s'"
      using submission_get_extends [OF conjunct2 [OF evo] 3(1)] get' by auto
    have id: "sb_run_id s = rid" using 3(4) by (simp add: binding_mismatch_def)
    obtain r' where r': "run_get rid d' = Some r'" "run_moves r r'"
      using run_get_extends [OF conjunct2 [OF evo] 3(2)] by blast
    have "validate_persisted_claim sha c s' False False d' = Inr r'"
      using validate_frame [OF 3(5) conjunct2 [OF evo] manifests_kept_same mv] r' out id by simp
    then show ?thesis
      using 3(4) by (intro again) (auto simp: get' s' acknowledged_row_def binding_mismatch_def)
  qed simp
  with v show ?thesis
    by (simp add: bind_prefect_identity_def transaction_def raise_after_commit_def)
qed

theorem bind_again_witness:
  "bind_prefect_identity demo_sha FIXTURE_LAUNCH_CONTRACT ''v0'' ''v1'' ''v2'' demo_key ''run_demo''
     demo_hash demo_text demo_hash ''flow-1'' None demo_bound = (Inr demo_acknowledged, demo_bound)"
  by (rule bind_again [OF demo_ok(3) demo_bind])

section \<open>Ambiguity and its resolution\<close>

text \<open>
  Recording an ambiguous submission twice is recording it once: a report that returned is
  repeated, at any time, with the same answer and no change.
\<close>

theorem mark_unknown_again:
  assumes "db_ok d" and "mark_invocation_unknown now key disp sm d = (Inr s', d')"
  shows "mark_invocation_unknown later key disp sm d' = (Inr s', d')"
proof -
  from assms(2) have v: "validate_launch_key key = Inr key" "validate_dispatcher_id disp = Inr disp"
    "bounded_text ''error summary'' 500 sm = Inr (strip sm)"
    and body: "mark_unknown_body now key disp (strip sm) d = Inr (s', d')"
    by (auto simp: mark_invocation_unknown_def validate_launch_key_def validate_dispatcher_id_def
        bounded_text_def Let_def transaction_Inr_iff split: if_splits sum.splits)
  have again: "mark_unknown_body later key disp (strip sm) d' = Inr (s', d')"
    if "submission_get key d' = Some s'"
      "sb_state s' = SUB_ACKNOWLEDGED \<or> sb_state s' = SUB_SUBMISSION_UNKNOWN \<and>
        sb_dispatcher s' = Some disp \<and> sb_error_summary s' = Some (strip sm) \<and> sb_unknown_evidence s' = None"
    using that(2) by (elim disjE conjE) (simp_all add: that(1) mark_unknown_body_def with_submission_def body_step)
  from assms have "mark_unknown_body later key disp (strip sm) d' = Inr (s', d')"
  proof (cases rule: mark_cases)
    case (1 s)
    then show ?thesis using body by (intro again) (auto simp: mark_unknown_body_def split: if_splits)
  next
    case (2 s)
    have "submission_ok s" using db_ok_parts(10) [OF assms(1)] tget_set [OF 2(1) [unfolded submission_get_def]] by blast
    then have "sb_unknown_evidence s = None" using 2(2) by (simp add: submission_ok.simps)
    moreover have "submission_get key d' = Some s'"
      using 2 submission_get_key [OF 2(1)] submission_get_put [of s' d key] by (simp add: unknown_row_def)
    ultimately show ?thesis using 2 by (intro again) (auto simp: unknown_row_def)
  qed
  with v show ?thesis by (simp add: mark_invocation_unknown_def transaction_def)
qed

lemma demo_unknown:
  "mark_invocation_unknown ''t6'' demo_key demo_dispatcher ''lost'' demo_dispatched =
   (Inr (unknown_row ''t6'' ''lost'' None demo_invoking),
    demo_dispatched\<lparr>submissions := [unknown_row ''t6'' ''lost'' None demo_invoking]\<rparr>)"
  by code_simp

theorem mark_unknown_again_witness:
  "mark_invocation_unknown ''t9'' demo_key demo_dispatcher ''lost''
     (demo_dispatched\<lparr>submissions := [unknown_row ''t6'' ''lost'' None demo_invoking]\<rparr>) =
   (Inr (unknown_row ''t6'' ''lost'' None demo_invoking),
    demo_dispatched\<lparr>submissions := [unknown_row ''t6'' ''lost'' None demo_invoking]\<rparr>)"
  by (rule mark_unknown_again [OF demo_ok(3) demo_unknown])

text \<open>
  C12: Only the recorded dispatcher can make an Invoking submission unknown, and only by naming
  itself or by exit evidence that names it; any other caller gets an error and changes nothing.
\<close>

theorem unknown_needs_the_dispatcher:
  assumes "db_ok d" and "submission_get key d = Some s" and "sb_state s = SUB_INVOKING"
    and "sb_dispatcher s \<noteq> Some other"
  shows "(\<exists>e. mark_invocation_unknown now key other sm d = (Inl e, d)) \<and>
    (\<exists>e. recover_invoking_after_process_exit now key other evd d = (Inl e, d))"
proof
  show "\<exists>e. mark_invocation_unknown now key other sm d = (Inl e, d)"
  proof (cases "mark_invocation_unknown now key other sm d")
    case (Pair res d')
    show ?thesis
    proof (cases res)
      case (Inl e)
      with Pair handler_error(2) [of now key other sm d e] show ?thesis by simp
    next
      case (Inr x)
      with Pair have "mark_invocation_unknown now key other sm d = (Inr x, d')" by simp
      with assms(1) show ?thesis by (cases rule: mark_cases) (use assms(2-4) in auto)
    qed
  qed
  show "\<exists>e. recover_invoking_after_process_exit now key other evd d = (Inl e, d)"
  proof (cases "recover_invoking_after_process_exit now key other evd d")
    case (Pair res d')
    show ?thesis
    proof (cases res)
      case (Inl e)
      with Pair handler_error(3) [of now key other evd d e] show ?thesis by simp
    next
      case (Inr x)
      with Pair have "recover_invoking_after_process_exit now key other evd d = (Inr x, d')" by simp
      with assms(1) show ?thesis by (cases rule: recover_invoking_cases) (use assms(2-4) in auto)
    qed
  qed
qed

theorem unknown_needs_the_dispatcher_witness:
  "\<exists>e. mark_invocation_unknown ''t6'' demo_key ''11234567-89ab-cdef-0123-456789abcdef'' ''lost'' demo_dispatched
     = (Inl e, demo_dispatched)"
proof -
  have "submission_get demo_key demo_dispatched = Some demo_invoking" by code_simp
  moreover have "sb_state demo_invoking = SUB_INVOKING" by code_simp
  moreover have "sb_dispatcher demo_invoking \<noteq> Some ''11234567-89ab-cdef-0123-456789abcdef''" by code_simp
  ultimately show ?thesis using unknown_needs_the_dispatcher [OF demo_ok(3)] by blast
qed

lemma put_get:
  assumes "submissions d' = submissions (put_submission s' d)" and "submission_get key d = Some s"
    and "sb_key s' = sb_key s"
  shows "submission_get key d' = Some s'"
  using assms submission_get_key [OF assms(2)] submission_get_put [of s' d key]
  by (simp add: submission_get_def)

text \<open>
  A verdict from one state: an error changes nothing; a submission that already has the verdict is
  returned and nothing changes; otherwise the submission was in that state, takes exactly the given
  row, and its run, still Created, fails in the same transaction.
\<close>

definition resolves ::
  "db \<Rightarrow> string \<Rightarrow> submission_state \<Rightarrow> (submission \<Rightarrow> submission) \<Rightarrow> string \<Rightarrow> string \<Rightarrow>
   (exn + submission) \<times> db \<Rightarrow> bool" where
  "resolves d key state row now summary z \<longleftrightarrow>
     (case z of
        (Inl e, d') \<Rightarrow> d' = d
      | (Inr s', d') \<Rightarrow> submission_get key d' = Some s' \<and>
          (d' = d \<and> sb_state s' = sb_state (row s') \<or>
           (\<exists>s r x. submission_get key d = Some s \<and> sb_state s = state \<and> s' = row s \<and>
              run_get (sb_run_id s) d = Some r \<and> rn_status r = CREATED \<and>
              (\<forall>j. run_get j d' = (if j = sb_run_id s
                 then Some (r\<lparr>rn_status := FAILED, rn_completed_at := Some now,
                                rn_error_summary := Some summary\<rparr>)
                 else run_get j d)) \<and>
              events d' = events d @ [x] \<and> ev_type x = EV_RUN_FAILED \<and> ev_run_id x = sb_run_id s)))"

lemma resolvesI:
  assumes "db_ok d" and "\<And>e. fst z = Inl e \<Longrightarrow> snd z = d" and "\<And>s. sb_key (row s) = sb_key s"
    and "\<And>s' d'. z = (Inr s', d') \<Longrightarrow> submission_get key d = Some s' \<and> sb_state s' = sb_state (row s') \<and> d' = d \<or>
      (\<exists>s r. submission_get key d = Some s \<and> sb_state s = state \<and> s' = row s \<and>
         submissions d' = submissions (put_submission s' d) \<and> run_get (sb_run_id s) d = Some r \<and>
         rn_status r = CREATED \<and>
         (\<forall>j. run_get j d' = (if j = sb_run_id s
            then Some (transition_row now FAILED (Some summary) r) else run_get j d)) \<and>
         (\<exists>x. events d' = events d @ [x] \<and> ev_type x = EV_RUN_FAILED \<and> ev_run_id x = sb_run_id s))"
  shows "resolves d key state row now summary z"
proof (cases z)
  case (Pair res d')
  show ?thesis
  proof (cases res)
    case (Inr s')
    with Pair have z: "z = (Inr s', d')" by simp
    have failed: "transition_row now FAILED (Some summary) r =
        r\<lparr>rn_status := FAILED, rn_completed_at := Some now, rn_error_summary := Some summary\<rparr>"
      if "run_get k d = Some r" "rn_status r = CREATED" for k r
      using created_run_fresh [OF assms(1) that]
      by (simp add: transition_row_def terminal_def TERMINAL_RUN_STATUSES_def)
    have put: "submission_get key d' = Some (row s)"
      if "submissions d' = submissions (put_submission (row s) d)" "submission_get key d = Some s" for s
      using that assms(3) submission_get_key [OF that(2)] submission_get_put [of "row s" d key]
      by (simp add: submission_get_def)
    from assms(4) [OF z] show ?thesis
      by (auto simp: resolves_def z failed put)
  qed (use Pair assms(2) in \<open>simp add: resolves_def\<close>)
qed

text \<open>
  C13: The two verdicts, each from its own state only. Failing before submission turns a Claimed
  submission into exactly the failed-before-submission row with the given summary; abandoning turns
  a submission whose outcome is unknown into exactly the abandoned row with the given summary and
  evidence. In both cases the run, still Created, becomes Failed in the same transaction with the
  summary as its error, one run-failed event is appended and every other run is as it was. The same
  verdict on a submission that already has it changes nothing; a call that raises changes nothing;
  no call resolves a submission in any other state.
\<close>

theorem verdict_resolves_both:
  assumes "db_ok d"
  shows "resolves d key SUB_CLAIMED
      (\<lambda>s. s\<lparr>sb_state := SUB_FAILED_BEFORE_SUBMISSION, sb_resolved_at := Some t0, sb_updated_at := t0,
             sb_error_summary := Some (strip sm)\<rparr>)
      t1 (strip sm) (fail_before_submission sha c t0 t1 t2 key sm d) \<and>
    resolves d key SUB_SUBMISSION_UNKNOWN
      (\<lambda>s. s\<lparr>sb_state := SUB_ABANDONED, sb_resolved_at := Some t0, sb_updated_at := t0,
             sb_error_summary := Some (strip sm), sb_resolution_evidence := Some (strip evd)\<rparr>)
      t1 (strip sm) (abandon_unknown sha c t0 t1 t2 key evd sm d)"
proof
  show "resolves d key SUB_CLAIMED
      (\<lambda>s. s\<lparr>sb_state := SUB_FAILED_BEFORE_SUBMISSION, sb_resolved_at := Some t0, sb_updated_at := t0,
             sb_error_summary := Some (strip sm)\<rparr>)
      t1 (strip sm) (fail_before_submission sha c t0 t1 t2 key sm d)"
  proof (rule resolvesI [OF assms handler_error(4)], goal_cases)
    case (3 s' d')
    with assms show ?case by (cases rule: fail_before_cases) (auto simp: failed_row_def)
  qed simp_all
  show "resolves d key SUB_SUBMISSION_UNKNOWN
      (\<lambda>s. s\<lparr>sb_state := SUB_ABANDONED, sb_resolved_at := Some t0, sb_updated_at := t0,
             sb_error_summary := Some (strip sm), sb_resolution_evidence := Some (strip evd)\<rparr>)
      t1 (strip sm) (abandon_unknown sha c t0 t1 t2 key evd sm d)"
  proof (rule resolvesI [OF assms handler_error(5)], goal_cases)
    case (3 s' d')
    with assms show ?case by (cases rule: abandon_cases) (auto simp: abandoned_row_def)
  qed simp_all
qed

lemma demo_fail:
  "fail_before_submission demo_sha FIXTURE_LAUNCH_CONTRACT ''t5'' ''t6'' ''t7'' demo_key ''gave up'' demo_claimed =
   (Inr (failed_row ''t5'' ''gave up'' demo_submission),
    demo_claimed\<lparr>submissions := [failed_row ''t5'' ''gave up'' demo_submission],
      runs := [transition_row ''t6'' FAILED (Some ''gave up'') demo_run],
      events := events demo_claimed @ [(demo_event 2 EV_RUN_FAILED ''t6''
        ''Run failed before any Prefect submission occurred.'')\<lparr>ev_severity := SEV_ERROR\<rparr>],
      next_event := 3\<rparr>)"
  by code_simp

theorem verdict_resolves_both_witness:
  "\<exists>d'. run_get ''run_demo'' d' = Some (demo_run\<lparr>rn_status := FAILED, rn_completed_at := Some ''t6'',
    rn_error_summary := Some ''gave up''\<rparr>)"
proof -
  have "strip ''gave up'' = ''gave up''" by code_simp
  moreover have "submission_get demo_key demo_claimed = Some demo_submission" by code_simp
  moreover have "run_get ''run_demo'' demo_claimed = Some demo_run" by code_simp
  moreover have "sb_run_id demo_submission = ''run_demo''" by code_simp
  moreover have "demo_claimed \<noteq> snd (fail_before_submission demo_sha FIXTURE_LAUNCH_CONTRACT ''t5'' ''t6'' ''t7''
      demo_key ''gave up'' demo_claimed)"
    unfolding demo_fail snd_conv by code_simp
  moreover note verdict_resolves_both [where sha = demo_sha and c = FIXTURE_LAUNCH_CONTRACT
      and ?t0.0 = "''t5''" and ?t1.0 = "''t6''" and ?t2.0 = "''t7''" and key = demo_key
      and sm = "''gave up''" and evd = "''none''", OF demo_ok(2), THEN conjunct1, unfolded demo_fail resolves_def
        prod.case sum.case, THEN conjunct2]
  ultimately show ?thesis
    unfolding demo_fail snd_conv by (auto dest!: spec [of _ "''run_demo''"])
qed

end
