(* ===== verification/Store_Guarantees.thy ===== *)
theory Store_Guarantees
  imports Worked_Example
begin

text \<open>
  The properties of the persistence service, stated over its operations: runs, configurations,
  candidate ideas and reviews, the canonical JSON they are stored as, run manifests and artifacts.
\<close>

section \<open>Runs\<close>

lemma transition_run_eq:
  "transition_run now k status err d =
     (case run_get k d of
        None \<Rightarrow> (Inl (KeyError (''unknown run '' @ k)), d)
      | Some r \<Rightarrow>
          if status \<in> set (RUN_STATUS_TRANSITIONS (rn_status r))
          then (Inr (transition_row now status err r), upd_run k (transition_row now status err) d)
          else (Inl (ValueError (''invalid run-status transition: '' @ run_status_value (rn_status r)
                  @ '' -> '' @ run_status_value status)), d))"
proof (cases "run_get k d")
  case None
  then show ?thesis by (simp add: transition_run_def transaction_def run_transition_unknown)
next
  case (Some r)
  then show ?thesis
    by (simp add: transition_run_def transaction_def run_transition_legal run_transition_illegal)
qed

text \<open>
  C14: \<open>transition_run\<close> on every branch. It raises and changes nothing exactly for a run that does
  not exist and for a status change that is not one of the six legal ones (Created to Running, Failed
  or Cancelled; Running to Succeeded, Failed or Cancelled). A legal change returns the run with the
  new status and the given error summary; a run that starts gets its start time unless it has one, a
  run that ends gets its completion time, and nothing else of the row changes. Every other run and
  every other table is as it was.
\<close>

theorem transition_run_outcome:
  "case transition_run now k status err d of
     (Inl e, d') \<Rightarrow> d' = d \<and>
       (run_get k d = None \<and> e = KeyError (''unknown run '' @ k) \<or>
        (\<exists>r. run_get k d = Some r \<and>
           (rn_status r, status) \<notin> {(CREATED, RUNNING), (CREATED, FAILED), (CREATED, CANCELLED),
             (RUNNING, SUCCEEDED), (RUNNING, FAILED), (RUNNING, CANCELLED)} \<and>
           e = ValueError (''invalid run-status transition: '' @ run_status_value (rn_status r)
             @ '' -> '' @ run_status_value status)))
   | (Inr r', d') \<Rightarrow>
       (\<exists>r. run_get k d = Some r \<and>
          (rn_status r, status) \<in> {(CREATED, RUNNING), (CREATED, FAILED), (CREATED, CANCELLED),
            (RUNNING, SUCCEEDED), (RUNNING, FAILED), (RUNNING, CANCELLED)} \<and>
          r' = r\<lparr>rn_status := status,
                 rn_started_at := (if rn_started_at r \<notin> {None, Some []} then rn_started_at r
                   else if status = RUNNING then Some now else None),
                 rn_completed_at := (if status = RUNNING then rn_completed_at r else Some now),
                 rn_error_summary := err\<rparr> \<and>
          (\<forall>j. run_get j d' = (if j = k then Some r' else run_get j d)) \<and>
          map rn_id (runs d') = map rn_id (runs d) \<and> d'\<lparr>runs := runs d\<rparr> = d)"
proof (cases "run_get k d")
  case (Some r)
  have legal: "(s, t) \<in> {(CREATED, RUNNING), (CREATED, FAILED), (CREATED, CANCELLED),
      (RUNNING, SUCCEEDED), (RUNNING, FAILED), (RUNNING, CANCELLED)} \<longleftrightarrow> t \<in> set (RUN_STATUS_TRANSITIONS s)"
    for s t by (cases s; cases t) simp_all
  show ?thesis
  proof (cases "status \<in> set (RUN_STATUS_TRANSITIONS (rn_status r))")
    case True
    then have ended: "terminal status \<longleftrightarrow> status \<noteq> RUNNING" by (cases "rn_status r") auto
    have start: "opt_or a b = (if a \<notin> {None, Some []} then a else b)" for a b
      by (auto simp: opt_or_def split: option.splits list.splits)
    have row: "transition_row now status err r = r\<lparr>rn_status := status,
                 rn_started_at := (if rn_started_at r \<notin> {None, Some []} then rn_started_at r
                   else if status = RUNNING then Some now else None),
                 rn_completed_at := (if status = RUNNING then rn_completed_at r else Some now),
                 rn_error_summary := err\<rparr>"
      by (simp add: transition_row_def start ended)
    have "map rn_id (runs (upd_run k (transition_row now status err) d)) = map rn_id (runs d)"
      by (simp add: upd_run_def tupd_def transition_row_def comp_def)
    moreover have "(upd_run k (transition_row now status err) d)\<lparr>runs := runs d\<rparr> = d"
      by (simp add: upd_run_def)
    moreover have "run_get j (upd_run k (transition_row now status err) d) =
        (if j = k then Some (transition_row now status err r) else run_get j d)" for j
      using Some by (simp add: run_get_upd)
    ultimately show ?thesis
      unfolding legal transition_run_eq Some option.case if_P [OF True] prod.case sum.case
      using True row by (intro exI [of _ r] conjI refl allI)
  next
    case False
    with Some show ?thesis unfolding legal by (simp add: transition_run_eq)
  qed
qed (simp add: transition_run_eq)

fun transitions :: "string \<Rightarrow> (string \<times> run_status \<times> string option) list \<Rightarrow> db \<Rightarrow> exn + db" where
  "transitions k [] d = Inr d"
| "transitions k ((now, status, err) # ts) d =
     (case transition_run now k status err d of
        (Inl e, _) \<Rightarrow> Inl e
      | (Inr _, d') \<Rightarrow> transitions k ts d')"

fun steps_left :: "run_status \<Rightarrow> nat" where
  "steps_left CREATED = 2"
| "steps_left RUNNING = 1"
| "steps_left _ = 0"

lemma transition_spends: "t \<in> set (RUN_STATUS_TRANSITIONS s) \<Longrightarrow> steps_left t < steps_left s"
  by (cases s) auto

lemma transitions_spend:
  assumes "transitions k ts d = Inr d'" and "run_get k d = Some r"
  shows "length ts \<le> steps_left (rn_status r)"
  using assms
proof (induction k ts d arbitrary: r rule: transitions.induct)
  case (2 k now status err ts d)
  from 2(2,3) have t: "status \<in> set (RUN_STATUS_TRANSITIONS (rn_status r))"
    "transitions k ts (upd_run k (transition_row now status err) d) = Inr d'"
    by (auto simp: transition_run_eq split: if_splits)
  have get: "run_get k (upd_run k (transition_row now status err) d) = Some (transition_row now status err r)"
    using 2(3) by (simp add: run_get_upd)
  have "transition_run now k status err d =
      (Inr (transition_row now status err r), upd_run k (transition_row now status err) d)"
    using 2(3) t(1) by (simp add: transition_run_eq)
  from 2(1) [OF this [symmetric] refl t(2) get] have "length ts \<le> steps_left status"
    by (simp add: transition_row_def)
  with transition_spends [OF t(1)] show ?case by simp
qed simp

text \<open>
  C15: A run makes at most two transitions in its life: any sequence of transition calls on one
  run that all succeed has length at most two.
\<close>

theorem at_most_two_transitions:
  assumes "transitions k ts d = Inr d'" and "run_get k d = Some r"
  shows "length ts \<le> 2"
  using transitions_spend [OF assms] by (cases "rn_status r") simp_all

theorem at_most_two_transitions_witness:
  "length [(''t5'', RUNNING, None), (''t6'', SUCCEEDED, None :: string option)] \<le> 2"
proof -
  let ?ts = "[(''t5'', RUNNING, None), (''t6'', SUCCEEDED, None)]"
  have "run_get ''run_demo'' demo_claimed = Some demo_run" by code_simp
  moreover have "\<exists>d'. transitions ''run_demo'' ?ts demo_claimed = Inr d'"
    by (simp add: transition_run_eq run_get_upd calculation) (simp add: demo_run_def transition_row_def)
  ultimately show ?thesis using at_most_two_transitions by blast
qed

text \<open>
  A run that timed out is over: the call returns it in a terminal status, exactly as it is
  stored, and calling again at any time returns the same run and changes nothing.
\<close>

theorem timeout_settles:
  assumes "fail_run_for_timeout t0 t1 t2 t3 t4 k message summary d = (Inr r, d')"
  shows "terminal (rn_status r) \<and> run_get k d' = Some r \<and>
    fail_run_for_timeout u0 u1 u2 u3 u4 k message' summary' d' = (Inr r, d')"
  using timeout_terminal [OF assms] timeout_again by blast

lemma demo_timeout:
  "fail_run_for_timeout ''t5'' ''t6'' ''t7'' ''t8'' ''t9'' ''run_demo'' ''too slow'' ''timed out'' demo_claimed =
   (Inr (demo_run\<lparr>rn_status := FAILED, rn_started_at := Some ''t5'', rn_completed_at := Some ''t8'',
      rn_error_summary := Some ''timed out''\<rparr>),
    snd (fail_run_for_timeout ''t5'' ''t6'' ''t7'' ''t8'' ''t9'' ''run_demo'' ''too slow'' ''timed out'' demo_claimed))"
  by code_simp

theorem timeout_settles_witness:
  "terminal FAILED \<and> run_get ''run_demo'' (snd (fail_run_for_timeout ''t5'' ''t6'' ''t7'' ''t8'' ''t9''
     ''run_demo'' ''too slow'' ''timed out'' demo_claimed)) =
     Some (demo_run\<lparr>rn_status := FAILED, rn_started_at := Some ''t5'', rn_completed_at := Some ''t8'',
       rn_error_summary := Some ''timed out''\<rparr>)"
  using timeout_settles [OF demo_timeout] by simp

text \<open>
  C16: A run is cancelled only on request. An acknowledged cancellation either found the run already
  ended, and returns it and changes nothing, or found it Running with a cancellation request on
  record: then the run becomes Cancelled with its completion time, one run-cancelled event is
  appended, and every other run is as it was. A run that was only Created is never cancelled this way.
\<close>

theorem cancellation_on_request:
  assumes "acknowledge_run_cancellation t0 t1 k d = (Inr r, d')"
  shows "\<exists>r0. run_get k d = Some r0 \<and> terminal (rn_status r) \<and> run_get k d' = Some r \<and>
    (terminal (rn_status r0) \<and> r = r0 \<and> d' = d \<or>
     rn_status r0 = RUNNING \<and> cancellation_event k d \<and>
     rn_status r = CANCELLED \<and> rn_completed_at r = Some t0 \<and>
     (\<forall>j. run_get j d' = (if j = k then Some r else run_get j d)) \<and>
     (\<exists>x. events d' = events d @ [x] \<and> ev_run_id x = k \<and> ev_type x = EV_RUN_CANCELLED))"
  using acknowledge_outcome [OF assms] by (auto simp: transition_row_def)

definition demo_cancelling :: db where
  "demo_cancelling = demo_bound\<lparr>events := events demo_bound @
     [demo_event 3 EV_RUN_CANCELLATION_REQUESTED ''t9''
        ''Cancellation requested; waiting for fixture acknowledgement.''], next_event := 4\<rparr>"

lemma demo_cancel:
  "snd (request_run_cancellation ''t9'' ''run_demo'' demo_bound) = demo_cancelling"
  "fst (acknowledge_run_cancellation ''u0'' ''u1'' ''run_demo'' demo_cancelling) =
    Inr ((hd (runs demo_bound))\<lparr>rn_status := CANCELLED, rn_completed_at := Some ''u0''\<rparr>)"
  by code_simp+

theorem cancellation_on_request_witness:
  "cancellation_event ''run_demo'' demo_cancelling \<and>
    (\<exists>r0. run_get ''run_demo'' demo_cancelling = Some r0 \<and> rn_status r0 = RUNNING)"
proof -
  let ?z = "acknowledge_run_cancellation ''u0'' ''u1'' ''run_demo'' demo_cancelling"
  have z: "?z = (Inr ((hd (runs demo_bound))\<lparr>rn_status := CANCELLED, rn_completed_at := Some ''u0''\<rparr>), snd ?z)"
    using demo_cancel(2) by (metis prod.collapse)
  have "run_get ''run_demo'' demo_cancelling \<noteq>
      Some ((hd (runs demo_bound))\<lparr>rn_status := CANCELLED, rn_completed_at := Some ''u0''\<rparr>)" by code_simp
  with cancellation_on_request [OF z] show ?thesis by auto
qed

text \<open>
  C17: Stale recovery fails exactly the fixture runs that are Created or Running and older than
  the cutoff: each becomes the recovered run, every other run is as it was, and the recovered ones
  are returned.
\<close>

theorem stale_recovery_exact:
  assumes "db_ok d" and "recover_stale_fixture_runs clock before d = (Inr fs, d')"
    and "parse_utc_timestamp ''stale_before'' before = Inr cutoff"
  shows "set fs = recovered_run clock ` {r \<in> set (runs d). rn_stage r = STAGE_FIXTURE \<and> stale cutoff r} \<and>
    (\<forall>r \<in> set (runs d). run_get (rn_id r) d' =
       Some (if rn_stage r = STAGE_FIXTURE \<and> stale cutoff r then recovered_run clock r else r))"
  using recover_stale_outcome [OF assms] by blast

lemma demo_recovery:
  "fst (recover_stale_fixture_runs (\<lambda>_ _. ''u'') ''2024-01-01T00:00:00+00:00'' empty_db) = Inr []"
  "case parse_utc_timestamp ''stale_before'' ''2024-01-01T00:00:00+00:00'' of Inl _ \<Rightarrow> False | Inr _ \<Rightarrow> True"
  by code_simp+

definition demo_dated :: db where
  "demo_dated = demo_claimed\<lparr>runs := [demo_run\<lparr>rn_created_at := ''2023-05-01T10:00:00+00:00''\<rparr>]\<rparr>"

lemma demo_dated_recovery:
  "fst (recover_stale_fixture_runs (\<lambda>_ _. ''u'') ''2024-01-01T00:00:00+00:00'' demo_dated) =
     Inr [recovered_run (\<lambda>_ _. ''u'') (demo_run\<lparr>rn_created_at := ''2023-05-01T10:00:00+00:00''\<rparr>)]"
  by code_simp

lemma demo_dated_ok: "db_ok demo_dated"
proof -
  have "claim demo_sha FIXTURE_LAUNCH_CONTRACT (\<lambda>_. None) ''t2'' ''2023-05-01T10:00:00+00:00'' ''t4'' ''run_demo''
      demo_key demo_request None demo_configured =
    (Inr \<lparr>cm_submission = demo_submission, cm_run = demo_run\<lparr>rn_created_at := ''2023-05-01T10:00:00+00:00''\<rparr>,
       cm_created = True\<rparr>, demo_dated\<lparr>events := [demo_event 1 EV_RUN_CREATED ''2023-05-01T10:00:00+00:00''
         ''Run created for durable research fixture submission.'']\<rparr>)" by code_simp
  then have "service_op demo_sha demo_configured (demo_dated\<lparr>events := [demo_event 1 EV_RUN_CREATED
      ''2023-05-01T10:00:00+00:00'' ''Run created for durable research fixture submission.'']\<rparr>)"
    by (metis op_claim snd_conv)
  from history_ok [OF history_op [OF demo_history_configured this]]
  show ?thesis by (simp add: db_ok_def keys_ok_def refs_ok_def rows_ok_def demo_dated_def demo_claimed_def
      demo_event_def)
qed

theorem stale_recovery_exact_witness:
  "\<exists>d'. run_get ''run_demo'' d' = Some (recovered_run (\<lambda>_ _. ''u'') (demo_run\<lparr>rn_created_at := ''2023-05-01T10:00:00+00:00''\<rparr>))"
proof -
  let ?r = "demo_run\<lparr>rn_created_at := ''2023-05-01T10:00:00+00:00''\<rparr>"
  let ?z = "recover_stale_fixture_runs (\<lambda>_ _. ''u'') ''2024-01-01T00:00:00+00:00'' demo_dated"
  have z: "?z = (Inr [recovered_run (\<lambda>_ _. ''u'') ?r], snd ?z)"
    using demo_dated_recovery by (metis prod.collapse)
  obtain cutoff where c: "parse_utc_timestamp ''stale_before'' ''2024-01-01T00:00:00+00:00'' = Inr cutoff"
    using demo_recovery(2) by (auto split: sum.splits)
  have rs: "runs demo_dated = [?r]" by (simp add: demo_dated_def)
  from stale_recovery_exact [OF demo_dated_ok z c] rs have "rn_stage ?r = STAGE_FIXTURE \<and> stale cutoff ?r"
    by (auto split: if_splits)
  with stale_recovery_exact [OF demo_dated_ok z c] rs show ?thesis by (auto simp: demo_run_def)
qed

section \<open>Configurations, candidate ideas, reviews\<close>

text \<open>
  A configuration is stored once: registering a document again, with its members in any order
  that gives the same canonical text, returns the stored record and changes nothing.
\<close>

theorem configuration_stored_once:
  assumes "upsert_configuration sha now doc d = (Inr c, d')" and "canonical_json doc' = canonical_json doc"
  shows "upsert_configuration sha later doc' d' = (Inr c, d')"
proof -
  from assms(1) obtain t where t: "canonical_json doc = Inr t"
    by (auto simp: upsert_configuration_def transaction_Inr_iff configuration_upsert_def)
  have h: "configuration_hash sha doc = Inr (sha t)" by (simp add: configuration_hash_def t)
  have t': "canonical_json doc' = Inr t" "configuration_hash sha doc' = Inr (sha t)"
    using t assms(2) by (simp_all add: configuration_hash_def)
  from assms(1) have up: "configuration_upsert sha now doc d = Inr (c, d')"
    by (simp add: upsert_configuration_def transaction_Inr_iff)
  have "configuration_upsert sha later doc' d' = Inr (c, d')"
  proof (cases "configuration_get (sha t) d")
    case (Some e)
    with up t h have "e = c" "d' = d" "cf_hash e = sha t" "cf_canonical_json e = t"
      by (auto simp: configuration_upsert_def split: if_splits)
    with Some t' show ?thesis by (auto simp: configuration_upsert_def)
  next
    case None
    show ?thesis
    proof (cases "tget cf_hash (sha t) (configurations d)")
      case (Some r)
      with up t h None have "r = c" "d' = d" by (auto simp: configuration_upsert_def)
      with Some None t' show ?thesis by (auto simp: configuration_upsert_def)
    next
      case fresh: None
      with up t h None have "configuration_get (sha t) d' = Some c" "cf_hash c = sha t" "cf_canonical_json c = t"
        by (auto simp: configuration_upsert_def configuration_get_ins)
      with t' show ?thesis by (auto simp: configuration_upsert_def)
    qed
  qed
  then show ?thesis by (simp add: upsert_configuration_def transaction_Inr_iff)
qed

theorem configuration_stored_once_witness:
  "upsert_configuration demo_sha ''t9''
     (JObj [(''strategy_version'', JStr ''1''), (''strategy_id'', JStr ''fixture''), (''experiment_id'', JStr ''exp''),
        (''market_data'', JObj []), (''parameters'', JObj []), (''execution'', JObj []), (''ranking'', JObj []),
        (''screening'', JObj [])]) demo_configured = (Inr demo_configuration, demo_configured)"
proof -
  have "canonical_json (JObj [(''strategy_version'', JStr ''1''), (''strategy_id'', JStr ''fixture''),
        (''experiment_id'', JStr ''exp''), (''market_data'', JObj []), (''parameters'', JObj []),
        (''execution'', JObj []), (''ranking'', JObj []), (''screening'', JObj [])]) = canonical_json demo_document"
    by code_simp
  from configuration_stored_once [OF demo_configure this] show ?thesis .
qed

text \<open>
  A candidate packet is saved once under its identity: after it was accepted, saving the same
  packet again returns the stored draft as not created, a different packet is refused, and neither
  changes anything, whatever the other fields say.
\<close>

theorem candidate_saved_once:
  assumes "save_candidate_idea t0 t1 k ti cj de so at2 no d = (Inr (draft, created), d')"
  shows "save_candidate_idea u0 u1 k ti' cj de' so' at3 no' d' = (Inr (draft, False), d') \<and>
    (cj' \<noteq> cj \<longrightarrow> save_candidate_idea u0 u1 k ti' cj' de' so' at3 no' d' =
       (Inl (ValueError ''candidate identity already has different content''), d'))"
  using candidate_saved [OF assms]
  by (auto simp: save_candidate_idea_def transaction_def body_step)

definition demo_draft :: idea_draft where
  "demo_draft = \<lparr>dr_id = ''idea_0001'', dr_title = ''Title'', dr_description = ''d'', dr_source_url = ''s'',
     dr_attribution = ''a'', dr_notes = ''n'', dr_configuration_id = None, dr_created_at = ''t1'',
     dr_updated_at = ''t2'', dr_candidate_json = ''{}''\<rparr>"

theorem candidate_saved_once_witness:
  "save_candidate_idea ''u1'' ''u2'' ''idea_0001'' ''Other'' ''[]'' ''d'' ''s'' ''a'' ''n''
       (empty_db\<lparr>idea_drafts := [demo_draft]\<rparr>)
   = (Inl (ValueError ''candidate identity already has different content''),
      empty_db\<lparr>idea_drafts := [demo_draft]\<rparr>)"
proof -
  have "save_candidate_idea ''t1'' ''t2'' ''idea_0001'' ''Title'' ''{}'' ''d'' ''s'' ''a'' ''n''
      (empty_db\<lparr>idea_drafts := [demo_draft]\<rparr>) = (Inr (demo_draft, False), empty_db\<lparr>idea_drafts := [demo_draft]\<rparr>)"
    by (simp add: save_candidate_idea_def transaction_def body_step idea_get_def demo_draft_def)
  from candidate_saved_once [OF this, of "''u1''" "''u2''" "''Other''" "''d''" "''s''" "''a''" "''n''" "''[]''"]
  show ?thesis by simp
qed

lemma review_get_put:
  "review_get_current a b (put_review v d) = (if (a, b) = rv_key v then Some v else review_get_current a b d)"
  by (cases "tget rv_key (rv_key v) (reviews d)")
    (auto simp: review_get_current_def put_review_def tget_append tget_replace split: option.splits)

text \<open>
  A review update always succeeds, becomes the current review of its target and of no other,
  and appends exactly one audit that records the state before it, if any, and the state after it.
\<close>

theorem review_update_outcome:
  "\<exists>v d'. update_review now tt ti st note op d = (Inr v, d') \<and>
     v = \<lparr>rv_target_type = tt, rv_target_id = ti, rv_state = st, rv_note = note, rv_operator = op,
          rv_updated_at = now\<rparr> \<and>
     (\<forall>a b. review_get_current a b d' = (if (a, b) = (tt, ti) then Some v else review_get_current a b d)) \<and>
     audits d' = audits d @ [\<lparr>ra_id = next_audit d, ra_target_type = tt, ra_target_id = ti,
       ra_prior_state = map_option rv_state (review_get_current tt ti d), ra_new_state = st, ra_note = note,
       ra_operator = op, ra_created_at = now\<rparr>]"
proof -
  let ?v = "\<lparr>rv_target_type = tt, rv_target_id = ti, rv_state = st, rv_note = note, rv_operator = op,
          rv_updated_at = now\<rparr>"
  let ?a = "\<lparr>ra_id = 0, ra_target_type = tt, ra_target_id = ti,
       ra_prior_state = map_option rv_state (review_get_current tt ti d), ra_new_state = st, ra_note = note,
       ra_operator = op, ra_created_at = now\<rparr>"
  let ?d = "put_review ?v (ins_audit ?a d)"
  have get: "review_get_current a b ?d = (if (a, b) = (tt, ti) then Some ?v else review_get_current a b d)" for a b
    using review_get_put [of a b ?v "ins_audit ?a d"]
    by (simp add: rv_key_def review_get_current_def ins_audit_def)
  have "update_review now tt ti st note op d = (Inr ?v, ?d)"
    using get [of tt ti] by (simp add: update_review_def transaction_def review_update_def body_step assert_row_step)
  moreover have "audits ?d = audits d @ [?a\<lparr>ra_id := next_audit d\<rparr>]"
    by (simp add: put_review_def ins_audit_def split: option.splits)
  ultimately show ?thesis using get by (intro exI [of _ ?v] exI [of _ ?d]) simp
qed


section \<open>Canonical JSON\<close>

text \<open>
  C18: Canonical JSON is a faithful key: two documents (their objects without repeated members, as
  every Python dictionary is) have the same canonical text exactly when they normalize to the same
  value, and reading the text gives back that value, whose canonical text is the same again.
\<close>

theorem canonical_json_round_trip:
  assumes "distinct_keys i" "distinct_keys j" and "canonical_json i = Inr s"
  shows "(canonical_json j = Inr s \<longleftrightarrow> normalize j = normalize i) \<and>
    (\<exists>k. normalize i = Inr k \<and> json_loads s = Some k \<and> canonical_json k = Inr s)"
proof -
  obtain k where k: "normalize i = Inr k" "json_loads s = Some k"
    using canonical_json_read assms(1,3) by blast
  have s: "s = dumps k" using assms(3) k(1) by (simp add: canonical_json_def)
  have "normalize k = Inr k" using normalize_idem assms(1) k(1) by blast
  then have again: "canonical_json k = Inr s" by (simp add: canonical_json_def s)
  have "canonical_json j = Inr s \<longleftrightarrow> normalize j = normalize i"
  proof
    assume "normalize j = normalize i"
    with assms(3) show "canonical_json j = Inr s" by (simp only: canonical_json_def)
  qed (use canonical_json_inj [OF assms(1,2,3)] in simp)
  with k again show ?thesis by blast
qed

theorem canonical_json_round_trip_witness:
  "canonical_json (JObj [(''b'', JList [JNull, JBool True]), (''a'', JInt (- 7))]) =
     Inr ''{\"a\":-7,\"b\":[null,true]}'' \<and>
   json_loads ''{\"a\":-7,\"b\":[null,true]}'' = Some (JObj [(''a'', JInt (- 7)), (''b'', JList [JNull, JBool True])])"
proof -
  let ?i = "JObj [(''a'', JInt (- 7)), (''b'', JList [JNull, JBool True])]"
  let ?j = "JObj [(''b'', JList [JNull, JBool True]), (''a'', JInt (- 7))]"
  have d: "distinct_keys ?i" "distinct_keys ?j" by code_simp+
  have c: "canonical_json ?i = Inr ''{\"a\":-7,\"b\":[null,true]}''" by code_simp
  have n: "normalize ?i = Inr ?i" "normalize ?j = Inr ?i" by code_simp+
  note rt = canonical_json_round_trip [OF d c]
  from rt [THEN conjunct1] have a: "canonical_json ?j = Inr ''{\"a\":-7,\"b\":[null,true]}''"
    by (simp only: n)
  from rt [THEN conjunct2] obtain k where k: "normalize ?i = Inr k"
    "json_loads ''{\"a\":-7,\"b\":[null,true]}'' = Some k" by blast
  from k(1) n(1) have "k = ?i" by (simp only: sum.inject)
  with k(2) have "json_loads ''{\"a\":-7,\"b\":[null,true]}'' = Some ?i" by (simp only:)
  with a show ?thesis by (rule conjI)
qed

section \<open>Lineage and manifests\<close>

text \<open>
  C19: The lineage captured when a run is created is the lineage read from the run: the new run is
  stored, and its environment text yields the captured lineage field by field, with its identity
  verified.
\<close>

theorem captured_lineage_is_kept:
  assumes "create_run sha (Inr l) fresh now cid sid ver stage k st (Some env) d = (Inr r, d')"
    and "map_of env ''runtime_lineage'' = None" and "distinct_keys (JObj env)"
    and "plain_lineage l" and "identity sha (JObj (runtime_contract l)) = Inr (rl_identity l)"
    and "distinct_keys (runtime_lineage_document l)"
  shows "run_get (rn_id r) d' = Some r \<and> runtime_lineage_for_run sha r = Inr l"
proof -
  from assms(1) obtain vs where vs: "freeze_environment sha (Inr l) (Some env) = Inr vs"
    and c: "run_create now (str_or k (''run_'' @ fresh)) cid sid ver stage st (Some vs) d = Inr (r, d')"
    by (auto simp: create_run_def transaction_Inr_iff)
  then have "canonical_json (JObj vs) = Inr (rn_environment_json r) \<and> run_get (rn_id r) d' = Some r"
    by (auto simp: run_create_def ins_run_Inr run_get_def tget_append split: option.splits)
  with frozen_lineage_read_back [OF vs assms(2,3) _ assms(4,5,6)] show ?thesis by blast
qed

definition demo_lineage :: runtime_lineage where
  "demo_lineage = \<lparr>rl_identity = demo_hash, rl_git_commit_sha = JStr ''c0ffee'',
     rl_git_commit_available = JBool True, rl_git_dirty_state = JStr ''clean'',
     rl_git_dirty_available = JBool True, rl_git_dirty_entry_count = JInt 0,
     rl_git_dirty_fingerprint = JNull, rl_python_implementation = JStr ''CPython'',
     rl_python_version = JStr ''3.12.3'', rl_python_cache_tag = JStr ''cpython-312'',
     rl_vectorbtpro_version = JNull, rl_vectorbtpro_available = JBool False,
     rl_package_fingerprint = JStr demo_hash, rl_package_count = JInt 42,
     rl_platform_system = JStr ''Linux'', rl_platform_machine = JStr ''x86_64''\<rparr>"

theorem captured_lineage_is_kept_witness:
  "case create_run demo_sha (Inr demo_lineage) ''0001'' ''t2'' demo_hash ''fixture'' ''1'' STAGE_FIXTURE None
     CREATED (Some [(''worker'', JStr ''local'')]) demo_configured of
       (Inr r, d') \<Rightarrow> rn_id r = ''run_0001'' \<and> run_get ''run_0001'' d' = Some r \<and>
         runtime_lineage_for_run demo_sha r = Inr demo_lineage
     | _ \<Rightarrow> False"
proof -
  let ?c = "create_run demo_sha (Inr demo_lineage) ''0001'' ''t2'' demo_hash ''fixture'' ''1'' STAGE_FIXTURE None
     CREATED (Some [(''worker'', JStr ''local'')]) demo_configured"
  have ok: "map_of [(''worker'', JStr ''local'')] ''runtime_lineage'' = None"
    "distinct_keys (JObj [(''worker'', JStr ''local'')])"
    "identity demo_sha (JObj (runtime_contract demo_lineage)) = Inr (rl_identity demo_lineage)"
    "distinct_keys (runtime_lineage_document demo_lineage)" by code_simp+
  have plain: "plain_lineage demo_lineage" by (simp add: plain_lineage_def demo_lineage_def)
  have "case ?c of (Inr r, d') \<Rightarrow> rn_id r = ''run_0001'' | _ \<Rightarrow> False" by code_simp
  then obtain r d' where c: "?c = (Inr r, d')" and "rn_id r = ''run_0001''"
    by (cases ?c; cases "fst ?c") auto
  with captured_lineage_is_kept [OF c ok(1,2) plain ok(3,4)] show ?thesis by simp
qed


section \<open>Artifacts\<close>

text \<open>
  C20: The verdict on an artifact is exact: it is valid, available and \<open>validated\<close> together,
  precisely when the location stays inside the root and names a regular file whose bytes have the
  registered size and digest; it is missing precisely when the located file does not exist; no path
  is reported precisely when the location is unsafe. Validation raises precisely when the root or the
  location cannot be resolved, the row has no location, or the located file's existence, kind or
  bytes cannot be read, and with that very error.
\<close>

theorem artifact_verdict:
  "(\<forall>e. validate_contract sha_bytes fs root a = Inl e \<longleftrightarrow>
      fs_resolve fs root = Inl e \<or>
      (\<exists>r. fs_resolve fs root = Inr r) \<and>
      (ac_location a = None \<and> e = TypeError ''expected str, bytes or os.PathLike object, not NoneType'' \<or>
       (\<exists>location. ac_location a = Some location \<and>
          (artifact_path fs root location = Inl e \<or>
           (\<exists>path. artifact_path fs root location = Inr (Some path) \<and>
              (fs_exists fs path = Inl e \<or>
               fs_exists fs path = Inr True \<and>
                 (fs_is_file fs path = Inl e \<or> fs_is_file fs path = Inr True \<and> fs_read fs path = Inl e)))))))
   \<and> (case validate_contract sha_bytes fs root a of
     Inr v \<Rightarrow>
       av_artifact_id v = ac_id a \<and>
       (av_valid v \<longleftrightarrow> artifact_intact sha_bytes fs root a) \<and>
       (av_availability v = AV_AVAILABLE \<longleftrightarrow> av_valid v) \<and>
       (av_reason v = ''validated'' \<longleftrightarrow> av_valid v) \<and>
       (av_availability v = AV_MISSING \<longleftrightarrow>
          (\<exists>location path. ac_location a = Some location \<and>
             artifact_path fs root location = Inr (Some path) \<and> fs_exists fs path = Inr False)) \<and>
       (av_resolved_path v = None \<longleftrightarrow>
          (\<exists>location. ac_location a = Some location \<and> artifact_path fs root location = Inr None))
   | Inl e \<Rightarrow> \<not> artifact_intact sha_bytes fs root a)"
proof
  show "case validate_contract sha_bytes fs root a of
     Inr v \<Rightarrow>
       av_artifact_id v = ac_id a \<and>
       (av_valid v \<longleftrightarrow> artifact_intact sha_bytes fs root a) \<and>
       (av_availability v = AV_AVAILABLE \<longleftrightarrow> av_valid v) \<and>
       (av_reason v = ''validated'' \<longleftrightarrow> av_valid v) \<and>
       (av_availability v = AV_MISSING \<longleftrightarrow>
          (\<exists>location path. ac_location a = Some location \<and>
             artifact_path fs root location = Inr (Some path) \<and> fs_exists fs path = Inr False)) \<and>
       (av_resolved_path v = None \<longleftrightarrow>
          (\<exists>location. ac_location a = Some location \<and> artifact_path fs root location = Inr None))
   | Inl e \<Rightarrow> \<not> artifact_intact sha_bytes fs root a"
  proof (cases "validate_contract sha_bytes fs root a")
    case (Inl e)
    then show ?thesis using intact_validates [of sha_bytes fs root a] by auto
  next
    case (Inr v)
    then show ?thesis using validate_contract_verdict [OF Inr] by (simp add: verdict_agrees_def)
  qed
qed (unfold validate_contract_raises artifact_fault_def, blast)

lemma service_ops_evolve: "(service_op sha)\<^sup>*\<^sup>* d d' \<Longrightarrow> evolves d d'"
  by (induction rule: rtranclp_induct) (auto intro: evo.evo_refl evo.evo_trans service_op_evolves)

text \<open>
  C21: A registration is permanent: whatever the service does afterwards, registering the same
  artifact again returns the first contract, with the availability it has by then, and changes
  nothing; content, media type, format or location that differ are refused, and nothing changes.
\<close>

theorem registration_is_permanent:
  assumes "db_ok d" and reg: "register_artifact sha sha_bytes now k ty nm mt fm loc content ver av d = (Inr a, d')"
    and later: "(service_op sha)\<^sup>*\<^sup>* d' d2"
    and nonempty: "mt1 \<noteq> []" "fm1 \<noteq> []" "loc1 \<noteq> []"
  shows "(\<exists>av2. register_artifact sha sha_bytes t1 k ty nm mt fm loc content ver av1 d2
        = (Inr (a\<lparr>ac_availability := av2\<rparr>), d2)) \<and>
    ((mt1, fm1, loc1, sha_bytes content1, length content1) \<noteq> (mt, fm, loc, sha_bytes content, length content) \<longrightarrow>
      register_artifact sha sha_bytes t1 k ty nm mt1 fm1 loc1 content1 ver av1 d2
        = (Inl (ValueError ''immutable artifact identity conflicts with existing artifact''), d2))"
proof -
  obtain idk e where idk: "artifact_identity sha k ty nm ver = Inr idk"
    and e: "tget ar_identity_key (Some idk) (artifacts d') = Some e"
    and reg_e: "registered sha_bytes k ty nm mt fm loc content ver idk e" and a: "a = contract_of e ty"
    using register_outcome [OF reg db_ok_parts(11) [OF assms(1)]] by blast
  have "evolves d d'"
    using register_artifact_evolves reg by (metis snd_conv)
  with assms(1) service_ops_evolve [OF later] have "extends d' d2" by (simp add: evolves_def)
  from registered_stays [OF this e reg_e] obtain e2 where
    e2: "tget ar_identity_key (Some idk) (artifacts d2) = Some e2"
      "registered sha_bytes k ty nm mt fm loc content ver idk e2" and "artifact_moves e e2" by blast
  then obtain av2 where "e2 = e\<lparr>ar_availability := av2\<rparr>" by (auto simp: artifact_moves_def)
  then have "contract_of e2 ty = a\<lparr>ac_availability := av2\<rparr>" by (simp add: contract_of_def a)
  with register_found [OF idk e2 register_arguments [OF reg], of t1 av1]
  have "register_artifact sha sha_bytes t1 k ty nm mt fm loc content ver av1 d2
      = (Inr (a\<lparr>ac_availability := av2\<rparr>), d2)" by simp
  with register_conflict [OF idk e2 register_arguments(1) [OF reg] nonempty register_arguments(5) [OF reg]]
  show ?thesis by blast
qed

theorem registration_is_permanent_witness:
  "\<exists>d2. register_artifact demo_sha demo_sha ''t9'' ''run_demo'' AT_METRICS ''metrics'' ''application/json'' ''json''
       ''runs/run_demo/other.json'' ''{}'' 1 AV_AVAILABLE d2
     = (Inl (ValueError ''immutable artifact identity conflicts with existing artifact''), d2)"
proof -
  let ?reg = "register_artifact demo_sha demo_sha ''t8'' ''run_demo'' AT_METRICS ''metrics'' ''application/json''
    ''json'' ''runs/run_demo/metrics.json'' ''{}'' 1 AV_AVAILABLE demo_bound"
  have "case ?reg of (Inr a, d') \<Rightarrow> True | _ \<Rightarrow> False" by code_simp
  then obtain a d' where reg: "?reg = (Inr a, d')" by (cases ?reg; cases "fst ?reg") auto
  have "service_op demo_sha d' (snd (set_artifact_availability (ac_id a) AV_MISSING d'))" by (rule op_availability)
  then have later: "(service_op demo_sha)\<^sup>*\<^sup>* d' (snd (set_artifact_availability (ac_id a) AV_MISSING d'))"
    by (rule r_into_rtranclp)
  from registration_is_permanent [OF demo_ok(4) reg later, of "''application/json''" "''json''"
      "''runs/run_demo/other.json''" "''t9''" AV_AVAILABLE "''{}''"]
  show ?thesis by (intro exI [of _ "snd (set_artifact_availability (ac_id a) AV_MISSING d')"]) simp
qed


section \<open>Manifests\<close>

lemma put_manifest_get:
  assumes "put_manifest row d = Inr d'"
  shows "manifest_get (mf_run_id row) d' = Some row" "runs d' = runs d" "artifacts d' = artifacts d"
proof -
  show "manifest_get (mf_run_id row) d' = Some row"
  proof (cases "manifest_get (mf_run_id row) d")
    case (Some e)
    then have "tget mf_run_id (mf_run_id row) (manifests d) = Some e" by (simp add: manifest_get_def)
    with Some assms show ?thesis by (auto simp: put_manifest_def manifest_get_def tget_replace)
  qed (use assms in \<open>auto simp: put_manifest_def manifest_get_def tget_append\<close>)
  show "runs d' = runs d" "artifacts d' = artifacts d"
    using assms by (auto simp: put_manifest_def split: option.splits)
qed

lemma mapR_member: "mapR f xs = Inr ys \<Longrightarrow> y \<in> set ys \<Longrightarrow> \<exists>x \<in> set xs. f x = Inr y"
  by (induction xs arbitrary: ys) auto

lemma listed_contract_row:
  "list_artifact_contracts k d = Inr arts \<Longrightarrow> a \<in> set arts \<Longrightarrow> \<exists>r \<in> set (artifacts d). contract_of_row r = Inr a"
  unfolding list_artifact_contracts_def by (drule (1) mapR_member) auto

lemma contract_of_row_id: "contract_of_row r = Inr a \<Longrightarrow> ac_id a = ar_id r"
  by (auto simp: contract_of_row_def)

lemma listed_contract_get:
  assumes "db_ok d" and "list_artifact_contracts k d = Inr arts" and "a \<in> set arts"
  shows "get_artifact_contract (ac_id a) d = Inr a"
proof -
  obtain r where r: "r \<in> set (artifacts d)" "contract_of_row r = Inr a"
    using listed_contract_row assms(2,3) by blast
  then have "artifact_row_get (ac_id a) d = Some r"
    using tget_distinct [OF db_ok_parts(5) [OF assms(1)] r(1)] contract_of_row_id [OF r(2)]
    by (simp add: artifact_row_get_def)
  with r(2) show ?thesis by (simp add: get_artifact_contract_def)
qed

lemma mapR_total: "\<forall>x \<in> set xs. \<exists>y. f x = Inr y \<and> P x y \<Longrightarrow> \<exists>ys. mapR f xs = Inr ys \<and> list_all2 P xs ys"
  by (induction xs) force+

text \<open>
  C22: Retrieving a manifest that was built for a run and persisted. If one of the artifacts it lists
  is a decision record or a review context, retrieval raises that the manifest does not match the
  database, whatever the files. Otherwise, as long as the artifacts are intact, retrieval passes every
  check (identity, checksum, agreement with the database), returns the stored text with its checksum
  and the artifacts of the manifest, and finds each of them valid.
\<close>

theorem manifest_is_retrieved:
  assumes "db_ok d" and build: "build_run_manifest sha now k created d = Inr m"
    and persist: "persist_run_manifest sha m d = (Inr (), d')"
  shows "if \<exists>a \<in> set (rm_artifacts m).
        ac_logical_name a \<in> {Some ''evidence_decision_record'', Some ''review_context''}
    then retrieve_run_artifacts sha sha_bytes fs root k d' = Inl (ValueError
      (''stored run manifest artifacts do not match database records for run '' @ k))
    else (\<forall>a \<in> set (rm_artifacts m). artifact_intact sha_bytes fs root a) \<longrightarrow>
      (\<exists>r. retrieve_run_artifacts sha sha_bytes fs root k d' = Inr r \<and> ra_artifacts r = rm_artifacts m \<and>
        read_persisted_run_manifest k d' = Some (ra_manifest_json r, ra_manifest_checksum r) \<and>
        serialize_run_manifest m = Inr (ra_manifest_json r) \<and>
        list_all2 (\<lambda>a v. av_artifact_id v = ac_id a \<and> av_valid v) (rm_artifacts m) (ra_validations r))"
proof -
  have named: "ac_logical_name a \<in> {Some ''evidence_decision_record'', Some ''review_context''} \<longleftrightarrow>
      \<not> manifest_artifact a" for a
    by (auto simp: manifest_artifact_def EXCLUDED_LOGICAL_NAMES_def)
  from build obtain l where run: "run_get k d \<noteq> None" and l: "get_run_lineage sha k d = Inr l"
    "rm_lineage m = Some l" and arts: "list_artifact_contracts k d = Inr (rm_artifacts m)"
    and id: "rm_run_id m = k"
    by (auto simp: build_run_manifest_def run_get_def dest: tget_SomeD split: option.splits)
  from persist_manifest_outcome [OF persist] obtain s c where
    s: "serialize_run_manifest m = Inr s" "run_manifest_checksum sha m = Inr c"
    and put: "put_manifest \<lparr>mf_run_id = rm_run_id m, mf_schema_version = rm_schema_version m, mf_json = s,
        mf_checksum = c, mf_created_at = rm_created_at m\<rparr> d = Inr d'" by auto
  note row = put_manifest_get [OF put, simplified, unfolded id]
  have arts': "list_artifact_contracts k d' = Inr (rm_artifacts m)"
    using arts row(3) by (simp add: list_artifact_contracts_def)
  have "\<exists>v. validate_artifact sha_bytes fs root (ac_id a) d' = Inr v \<and> av_artifact_id v = ac_id a \<and> av_valid v"
    if intact: "\<forall>a \<in> set (rm_artifacts m). artifact_intact sha_bytes fs root a"
      and a: "a \<in> set (rm_artifacts m)" for a
  proof -
    have "get_artifact_contract (ac_id a) d' = Inr a"
      using listed_contract_get [OF assms(1) arts a] row(3)
      by (simp add: get_artifact_contract_def artifact_row_get_def)
    moreover obtain v where v: "validate_contract sha_bytes fs root a = Inr v" "av_valid v"
      using intact a intact_validates by blast
    moreover have "av_artifact_id v = ac_id a"
      using validate_contract_verdict [OF v(1)] by (simp add: verdict_agrees_def)
    ultimately show ?thesis by (simp add: validate_artifact_def)
  qed
  then have vs: "\<exists>vs. mapR (\<lambda>x. validate_artifact sha_bytes fs root (ac_id x) d') (rm_artifacts m) = Inr vs \<and>
      list_all2 (\<lambda>a v. av_artifact_id v = ac_id a \<and> av_valid v) (rm_artifacts m) vs"
    if "\<forall>a \<in> set (rm_artifacts m). artifact_intact sha_bytes fs root a"
    using that mapR_total [of "rm_artifacts m"
        "\<lambda>x. validate_artifact sha_bytes fs root (ac_id x) d'" "\<lambda>a v. av_artifact_id v = ac_id a \<and> av_valid v"]
    by blast
  have dk: "distinct_keys (runtime_lineage_document (ln_runtime l'))" if "rm_lineage m = Some l'" for l'
    using that l run_lineage_runtime_distinct by auto
  have run': "run_get k d' \<noteq> None" using run row(2) by (simp add: run_get_def)
  show ?thesis
  proof (cases "\<exists>a \<in> set (rm_artifacts m). \<not> manifest_artifact a")
    case True
    then obtain a where "a \<in> set (rm_artifacts m)" "\<not> manifest_artifact a" by blast
    from retrieve_excluded [OF run' row(1) _ _ s id dk arts' this]
    have "retrieve_run_artifacts sha sha_bytes fs root k d' = Inl (ValueError
      (''stored run manifest artifacts do not match database records for run '' @ k))" by simp
    with True show ?thesis unfolding named by (simp only: if_True)
  next
    case False
    then have all: "filter manifest_artifact (rm_artifacts m) = rm_artifacts m" by (simp add: filter_id_conv)
    have "\<exists>r. retrieve_run_artifacts sha sha_bytes fs root k d' = Inr r \<and> ra_artifacts r = rm_artifacts m \<and>
        read_persisted_run_manifest k d' = Some (ra_manifest_json r, ra_manifest_checksum r) \<and>
        serialize_run_manifest m = Inr (ra_manifest_json r) \<and>
        list_all2 (\<lambda>a v. av_artifact_id v = ac_id a \<and> av_valid v) (rm_artifacts m) (ra_validations r)"
      if "\<forall>a \<in> set (rm_artifacts m). artifact_intact sha_bytes fs root a"
    proof -
      from vs [OF that] obtain vs where
        v: "mapR (\<lambda>x. validate_artifact sha_bytes fs root (ac_id x) d') (rm_artifacts m) = Inr vs"
        "list_all2 (\<lambda>a v. av_artifact_id v = ac_id a \<and> av_valid v) (rm_artifacts m) vs" by blast
      from retrieve_stored [OF run' row(1) _ _ s id dk arts' _ v(1)] all
      have "retrieve_run_artifacts sha sha_bytes fs root k d' =
        Inr \<lparr>ra_run_id = k, ra_manifest_json = s, ra_manifest_checksum = c, ra_artifacts = rm_artifacts m,
             ra_validations = vs\<rparr>" by simp
      with v(2) s(1) row(1) show ?thesis by (simp add: read_persisted_run_manifest_def)
    qed
    with False show ?thesis unfolding named by simp
  qed
qed

definition demo_sealed :: db where
  "demo_sealed = demo_configured\<lparr>
     runs := [demo_run\<lparr>rn_environment_json :=
       dumps (JObj [(''runtime_lineage'', sorted_lineage_document demo_lineage)])\<rparr>],
     provenances := [\<lparr>dp_run_id = ''run_demo'', dp_provider = ''fixture'', dp_provider_implementation = ''local'',
       dp_symbol = ''SPY'', dp_interval = ''1d'', dp_timezone = ''America/New_York'',
       dp_requested_coverage = ''all'', dp_actual_coverage = ''all'', dp_adjusted = True, dp_row_count = 10,
       dp_cache_action = ''none'', dp_validation_summary_json = ''{}'', dp_manifest_reference = None,
       dp_checksum = None\<rparr>],
     assumptions := [\<lparr>ex_run_id = ''run_demo'', ex_assumptions_json = ''{}''\<rparr>],
     artifacts := [\<lparr>ar_id = 1, ar_run_id = ''run_demo'', ar_type = ''metrics'', ar_schema_version = 1,
       ar_path = ''runs/metrics.json'', ar_validation_status = ''registered'', ar_checksum = Some demo_hash,
       ar_availability = AV_AVAILABLE, ar_created_at = ''t5'', ar_logical_name = Some ''metrics'',
       ar_media_type = Some ''application/json'', ar_format = Some ''json'',
       ar_checksum_algorithm = Some ''sha256'', ar_size_bytes = Some 2,
       ar_location = Some ''runs/metrics.json'', ar_identity_key = Some demo_hash\<rparr>],
     next_artifact := 2\<rparr>"

definition demo_files :: file_system where
  "demo_files = \<lparr>fs_resolve = (\<lambda>p. Inr p), fs_exists = (\<lambda>p. Inr (p = [''store'', ''runs'', ''metrics.json''])),
     fs_is_file = (\<lambda>p. Inr True), fs_read = (\<lambda>p. Inr ''{}'')\<rparr>"

definition demo_contract :: artifact_contract where
  "demo_contract = \<lparr>ac_id = 1, ac_run_id = ''run_demo'', ac_type = AT_METRICS,
     ac_logical_name = Some ''metrics'', ac_schema_version = 1, ac_media_type = Some ''application/json'',
     ac_format = Some ''json'', ac_checksum_algorithm = Some ''sha256'', ac_checksum = Some demo_hash,
     ac_size_bytes = Some 2, ac_location = Some ''runs/metrics.json'', ac_availability = AV_AVAILABLE,
     ac_created_at = ''t5''\<rparr>"

lemma demo_sealed_ok: "db_ok demo_sealed"
  by (simp add: db_ok_def keys_ok_def refs_ok_def rows_ok_def demo_sealed_def demo_configured_def demo_registered_def
      empty_db_def demo_run_def demo_configuration_def demo_strategy_def st_key_def run_ok_def prefect_ids_unique_def)

lemma demo_listed: "list_artifact_contracts ''run_demo'' demo_sealed = Inr [demo_contract]"
proof -
  have "mapR contract_of_row (artifacts demo_sealed) = Inr [demo_contract]"
    "filter (\<lambda>r. ar_run_id r = ''run_demo'' \<and> contract_row r) (artifacts demo_sealed) = artifacts demo_sealed"
    "length (artifacts demo_sealed) = 1"
    unfolding demo_sealed_def db.simps by code_simp+
  then show ?thesis by (auto simp: list_artifact_contracts_def length_Suc_conv)
qed

lemma demo_found:
  "run_get ''run_demo'' demo_sealed = Some (hd (runs demo_sealed))"
  "configuration_get demo_hash demo_sealed = Some demo_configuration"
  "strategy_get ''fixture'' ''1'' demo_sealed = Some demo_strategy"
  "get_data_provenance ''run_demo'' demo_sealed = Some (hd (provenances demo_sealed))"
  "get_execution_assumptions ''run_demo'' demo_sealed = Some (hd (assumptions demo_sealed))"
  by (simp_all add: run_get_def configuration_get_def strategy_get_def get_data_provenance_def get_execution_assumptions_def
      demo_sealed_def demo_configured_def demo_registered_def empty_db_def demo_run_def demo_configuration_def
      demo_strategy_def st_key_def)

lemmas demo_rows = demo_found demo_listed

definition demo_sorted :: json where
  "demo_sorted = JObj [(''execution'', JObj []), (''experiment_id'', JStr ''exp''), (''market_data'', JObj []),
     (''parameters'', JObj []), (''ranking'', JObj []), (''screening'', JObj []),
     (''strategy_id'', JStr ''fixture''), (''strategy_version'', JStr ''1'')]"

definition demo_run_lineage :: run_lineage where
  "demo_run_lineage =
     \<lparr>ln_configuration = \<lparr>cl_configuration_id = demo_hash, cl_config_hash = demo_hash\<rparr>,
      ln_strategy = \<lparr>sl_strategy_id = ''fixture'', sl_strategy_version = ''1''\<rparr>,
      ln_data = \<lparr>dl_provenance_record_identity = demo_hash, dl_provider_identity = demo_hash,
        dl_symbol = ''SPY'', dl_timeframe = ''1d'', dl_requested_coverage = ''all'', dl_actual_coverage = ''all'',
        dl_dataset_identity = demo_hash, dl_dataset_manifest_reference = None, dl_dataset_checksum = None,
        dl_calendar_identity = Some ''America/New_York'', dl_adjustment_mode = ''adjusted'',
        dl_normalization_identity = demo_hash\<rparr>,
      ln_normalization = \<lparr>nl_identity = demo_hash, nl_contract_json = projr (canonical_json normalization_contract)\<rparr>,
      ln_execution = \<lparr>el_assumptions_identity = demo_hash, el_record_identity = demo_hash\<rparr>,
      ln_runtime = demo_lineage\<rparr>"

lemma demo_runtime_reading:
  "runtime_lineage_for_run demo_sha (hd (runs demo_sealed)) = Inr demo_lineage"
proof -
  have "case sorted_lineage_document demo_lineage of
      JObj d \<Rightarrow> json_ok (JObj d) \<and> runtime_lineage_from_document demo_sha (JObj d) = Inr demo_lineage | _ \<Rightarrow> False"
    by code_simp
  then obtain d where d: "sorted_lineage_document demo_lineage = JObj d" "json_ok (JObj d)"
    "runtime_lineage_from_document demo_sha (JObj d) = Inr demo_lineage" by (auto split: json.splits)
  have "json_loads (dumps (JObj [(''runtime_lineage'', JObj d)])) = Some (JObj [(''runtime_lineage'', JObj d)])"
    using d(2) by (intro json_loads_dumps) simp
  with d show ?thesis
    by (simp add: runtime_lineage_for_run_def json_document_def demo_sealed_def del: dumps.simps)
qed

lemma demo_normalization_reading:
  "normalization_lineage_of demo_sha (hd (provenances demo_sealed)) = Inr (ln_normalization demo_run_lineage)"
  unfolding demo_sealed_def db.simps list.sel by code_simp

lemma demo_data_reading:
  "data_lineage_of demo_sha (hd (provenances demo_sealed)) = Inr (ln_data demo_run_lineage)"
  unfolding demo_sealed_def db.simps list.sel by code_simp

lemma demo_execution_reading:
  "execution_lineage_of demo_sha (hd (assumptions demo_sealed)) demo_sorted = Inr (ln_execution demo_run_lineage)"
  unfolding demo_sealed_def db.simps list.sel by code_simp

lemma demo_configuration_reading:
  "json_document (cf_canonical_json demo_configuration) = Inr demo_sorted" by code_simp

lemma demo_sorted_fields:
  "dict_get ''strategy_id'' demo_sorted = Inr (JStr ''fixture'')"
  "dict_get ''strategy_version'' demo_sorted = Inr (JStr ''1'')"
  "configuration_hash demo_sha demo_sorted = Inr demo_hash"
  by code_simp+

lemmas demo_readings = demo_runtime_reading demo_normalization_reading demo_data_reading demo_execution_reading
  demo_configuration_reading demo_sorted_fields

lemma demo_contract_reading:
  "\<exists>k. json_document (nl_contract_json (ln_normalization demo_run_lineage)) = Inr k \<and> normalize k = Inr k"
proof -
  have ok: "distinct_keys normalization_contract" by code_simp
  have "\<not> isl (canonical_json normalization_contract)" by code_simp
  then obtain t where t: "canonical_json normalization_contract = Inr t" by (cases "canonical_json normalization_contract") auto
  with canonical_json_read [OF ok t] normalize_idem [OF ok] show ?thesis
    by (auto simp: demo_run_lineage_def json_document_def)
qed

lemma demo_lineage_normal: "\<not> isl (bindR (run_lineage_document demo_run_lineage) normalize)"
proof -
  obtain k where k: "json_document (nl_contract_json (ln_normalization demo_run_lineage)) = Inr k" "normalize k = Inr k"
    using demo_contract_reading by blast
  then have k': "json_document (projr (canonical_json normalization_contract)) = Inr k" by (simp add: demo_run_lineage_def)
  have "plain_lineage demo_lineage" by (simp add: plain_lineage_def demo_lineage_def)
  then have n: "normalize (runtime_lineage_document demo_lineage) = Inr (sorted_lineage_document demo_lineage)"
    by (rule normalize_lineage_document)
  show ?thesis
    using k' k(2) n by (simp add: run_lineage_document_def demo_run_lineage_def)
qed

lemma demo_sealed_lineage: "get_run_lineage demo_sha ''run_demo'' demo_sealed = Inr demo_run_lineage"
proof -
  have r: "rn_configuration_id (hd (runs demo_sealed)) = demo_hash" "rn_strategy_id (hd (runs demo_sealed)) = ''fixture''"
    "rn_strategy_version (hd (runs demo_sealed)) = ''1''" "cf_strategy_id demo_configuration = ''fixture''"
    "cf_strategy_version demo_configuration = ''1''" "cf_hash demo_configuration = demo_hash"
    "cf_id demo_configuration = demo_hash" "st_id demo_strategy = ''fixture''" "st_version demo_strategy = ''1''"
    by (simp_all add: demo_sealed_def demo_run_def demo_configuration_def demo_strategy_def)
  show ?thesis
    by (simp add: get_run_lineage_def demo_rows demo_readings r) (simp add: demo_run_lineage_def)
qed

lemma manifest_serializes:
  assumes "rm_lineage m = Some l" and "\<not> isl (bindR (run_lineage_document l) normalize)"
  shows "\<exists>s c. serialize_run_manifest m = Inr s \<and> run_manifest_checksum sha m = Inr c"
proof -
  from assms obtain ln where ln: "manifest_lineage m = Inr ln"
    by (cases "run_lineage_document l"; cases "normalize (projr (run_lineage_document l))") (auto simp: manifest_lineage_def)
  then have "bindR (run_manifest_document m b) normalize = Inr (normal_manifest b ln m)" for b
    using normalize_manifest_document [of m b] by simp
  from this [of True] this [of False] show ?thesis
    by (auto simp: serialize_run_manifest_def run_manifest_checksum_def canonical_json_def)
qed

lemma demo_intact: "manifest_artifact demo_contract \<and> artifact_intact demo_sha demo_files [''store''] demo_contract"
proof
  show "manifest_artifact demo_contract" by (simp add: manifest_artifact_def demo_contract_def EXCLUDED_LOGICAL_NAMES_def)
  have "path_parts ''runs/metrics.json'' = [''runs'', ''metrics.json'']" by code_simp
  then show "artifact_intact demo_sha demo_files [''store''] demo_contract"
    by (simp add: artifact_intact_def artifact_path_def demo_files_def demo_contract_def demo_sha_def Let_def is_absolute_def)
qed

theorem manifest_is_retrieved_witness:
  "\<exists>m r. build_run_manifest demo_sha ''t8'' ''run_demo'' None demo_sealed = Inr m \<and>
     retrieve_run_artifacts demo_sha demo_sha demo_files [''store''] ''run_demo''
       (snd (persist_run_manifest demo_sha m demo_sealed)) = Inr r \<and> ra_artifacts r = [demo_contract]"
proof -
  obtain m where m: "build_run_manifest demo_sha ''t8'' ''run_demo'' None demo_sealed = Inr m"
    and arts: "rm_artifacts m = [demo_contract]" and ml: "rm_lineage m = Some demo_run_lineage"
    and id: "rm_run_id m = rn_id (hd (runs demo_sealed))"
    by (simp add: build_run_manifest_def demo_rows demo_sealed_lineage)
  have "rn_id (hd (runs demo_sealed)) = ''run_demo''" by (simp add: demo_sealed_def demo_run_def)
  with id demo_rows(1) have "run_get (rm_run_id m) demo_sealed \<noteq> None" by simp
  moreover have "manifest_get (rm_run_id m) demo_sealed = None"
    by (simp add: manifest_get_def demo_sealed_def demo_configured_def demo_registered_def empty_db_def)
  ultimately have p: "persist_run_manifest demo_sha m demo_sealed = (Inr (), snd (persist_run_manifest demo_sha m demo_sealed))"
    using manifest_serializes [OF ml demo_lineage_normal, of demo_sha]
    by (auto simp: persist_run_manifest_def transaction_def body_step guardR_def put_manifest_def)
  from manifest_is_retrieved [OF demo_sealed_ok m p, of demo_sha demo_files "[''store'']"] demo_intact m arts
  show ?thesis by (auto simp: demo_contract_def)
qed

end
