(* ===== verification/Walk_Forward.thy ===== *)
theory Walk_Forward
  imports Py_Json
begin

text \<open>
  Walk-forward folds: \<open>WalkForwardConfig.__post_init__\<close> (\<open>backtesting/walk_forward/models.py\<close>), the
  exchange sessions of \<open>sessions.py\<close> and the window loop of \<open>splitter.py\<close>. A price frame is the list
  of its index values (nanoseconds); a partition carries the index of its rows. What pandas and the
  exchange calendar give is an argument: the midnight of a time stamp (\<open>day\<close>), the label of a
  boundary (\<open>label\<close>) and the session opens of the calendar. The loop is a partial function into
  \<open>option\<close>, so a loop that did not end would be \<open>None\<close>; that it ends is proved.
\<close>

section \<open>Configuration\<close>

record raw_walk_config =
  rw_training :: json
  rw_selection :: json
  rw_test :: json
  rw_step :: json
  rw_minimum :: json
  rw_shortlist :: json
  rw_mode :: string
  rw_incomplete :: string

record walk_config =
  wc_training :: nat
  wc_selection :: "nat option"
  wc_test :: nat
  wc_step :: nat
  wc_minimum :: nat
  wc_shortlist :: nat
  wc_mode :: string
  wc_incomplete :: string

definition positive_int :: "string \<Rightarrow> json \<Rightarrow> exn + nat" where
  "positive_int name v =
     (case v of
        JInt i \<Rightarrow> if i < 1 then Inl (ValueError (name @ '' must be positive'')) else Inr (nat i)
      | _ \<Rightarrow> Inl (TypeError (name @ '' must be int'')))"

definition walk_forward_config :: "raw_walk_config \<Rightarrow> exn + walk_config" where
  "walk_forward_config r =
     bindR (positive_int ''training_window_size'' (rw_training r)) (\<lambda>training.
     bindR (positive_int ''test_window_size'' (rw_test r)) (\<lambda>test.
     bindR (positive_int ''step_size'' (rw_step r)) (\<lambda>step.
     bindR (positive_int ''minimum_rows_per_window'' (rw_minimum r)) (\<lambda>minimum.
     bindR (positive_int ''shortlist_size'' (rw_shortlist r)) (\<lambda>shortlist.
     bindR (case rw_selection r of
              JNull \<Rightarrow> Inr None
            | v \<Rightarrow> bindR (positive_int ''selection_window_size'' v) (\<lambda>s. Inr (Some s))) (\<lambda>selection.
     bindR (guardR (rw_mode r \<in> {''rolling'', ''expanding''})
       (ValueError (''unsupported training_mode: '' @ rw_mode r))) (\<lambda>_.
     bindR (guardR (rw_incomplete r \<in> {''drop'', ''include''})
       (ValueError (''incomplete_final_window must be '' @ [CHR 0x27] @ ''drop'' @ [CHR 0x27] @ '' or ''
         @ [CHR 0x27] @ ''include'' @ [CHR 0x27]))) (\<lambda>_.
     bindR (guardR (minimum \<le> training) (ValueError ''training_window_size is below the minimum'')) (\<lambda>_.
     bindR (guardR (minimum \<le> test) (ValueError ''test_window_size is below the minimum'')) (\<lambda>_.
     bindR (guardR (case selection of None \<Rightarrow> True | Some s \<Rightarrow> minimum \<le> s)
       (ValueError ''selection_window_size is below the minimum'')) (\<lambda>_.
     bindR (guardR (test \<le> step)
       (ValueError ''step_size must be at least test_window_size to avoid overlapping tests'')) (\<lambda>_.
     Inr \<lparr>wc_training = training, wc_selection = selection, wc_test = test, wc_step = step,
          wc_minimum = minimum, wc_shortlist = shortlist, wc_mode = rw_mode r,
          wc_incomplete = rw_incomplete r\<rparr>))))))))))))"

section \<open>Sessions\<close>

text \<open>\<open>searchsorted\<close> of numpy and pandas, on a sorted array.\<close>

definition searchsorted_right :: "int list \<Rightarrow> int \<Rightarrow> nat" where
  "searchsorted_right xs v = length (takeWhile (\<lambda>x. x \<le> v) xs)"

definition searchsorted_left :: "int list \<Rightarrow> int \<Rightarrow> nat" where
  "searchsorted_left xs v = length (takeWhile (\<lambda>x. x < v) xs)"

text \<open>\<open>sg_opens\<close> are the session opens the calendar's schedule gives for the span of the data.\<close>

record session_grid =
  sg_calendar :: string
  sg_interval :: string
  sg_opens :: "int list"

definition session_of :: "session_grid \<Rightarrow> int \<Rightarrow> int" where
  "session_of g t = int (searchsorted_right (sg_opens g) t) - 1"

definition day_start :: "int list \<Rightarrow> nat \<Rightarrow> nat" where
  "day_start dates position =
     (if position = 0 \<or> length dates \<le> position then position
      else searchsorted_right dates (dates ! (position - 1)))"

definition session_floor :: "int list \<Rightarrow> nat \<Rightarrow> nat" where
  "session_floor dates position = searchsorted_left dates (dates ! position)"

text \<open>\<open>require_session_boundary\<close> on the time stamps around a cut.\<close>

definition require_session_boundary :: "string \<Rightarrow> int \<Rightarrow> int \<Rightarrow> session_grid option \<Rightarrow> exn + unit" where
  "require_session_boundary fold_id before_end after_start grid =
     (case grid of
        None \<Rightarrow> Inr ()
      | Some g \<Rightarrow> guardR (session_of g before_end < session_of g after_start)
          (ValueError (fold_id @ '': window boundary splits an exchange session'')))"

section \<open>Windows\<close>

record partition =
  pt_name :: string
  pt_rows :: "int list"
  pt_start :: string
  pt_end :: string
  pt_row_count :: nat

record walk_window =
  ww_fold :: string
  ww_train :: partition
  ww_selection :: "partition option"
  ww_test :: partition
  ww_calendar :: "string option"
  ww_interval :: "string option"

definition slice :: "nat \<Rightarrow> nat \<Rightarrow> 'a list \<Rightarrow> 'a list" where
  "slice a b xs = take (b - a) (drop a xs)"

definition make_partition :: "(int \<Rightarrow> string) \<Rightarrow> string \<Rightarrow> int list \<Rightarrow> exn + partition" where
  "make_partition label name rows =
     (if rows = [] then Inl (OtherException ''IndexError'')
      else Inr \<lparr>pt_name = name, pt_rows = rows, pt_start = label (hd rows), pt_end = label (last rows),
             pt_row_count = length rows\<rparr>)"

definition selection_rows :: "walk_config \<Rightarrow> nat" where
  "selection_rows c = (case wc_selection c of None \<Rightarrow> 0 | Some s \<Rightarrow> s)"

text \<open>
  The row positions of the next fold, \<open>(train start, train end, selection end, test end)\<close>, or
  \<open>None\<close> when the loop condition fails or the loop breaks.
\<close>

definition next_cuts :: "walk_config \<Rightarrow> int list \<Rightarrow> nat \<Rightarrow> (nat \<times> nat \<times> nat \<times> nat) option" where
  "next_cuts c dates raw_cursor =
     (let n = length dates; cursor = day_start dates raw_cursor in
      if \<not> cursor + selection_rows c < n then None
      else
        let selection_end = day_start dates (cursor + selection_rows c);
            requested_test_end = selection_end + wc_test c;
            train_start = (if wc_mode c = ''expanding'' then 0
                           else session_floor dates (cursor - wc_training c))
        in
        if n < requested_test_end then
          if wc_incomplete c = ''drop'' then None
          else if n - selection_end < wc_minimum c then None
          else Some (train_start, cursor, selection_end, n)
        else Some (train_start, cursor, selection_end, day_start dates requested_test_end))"

definition fold_name :: "nat \<Rightarrow> string" where
  "fold_name k = ''fold_'' @ replicate (3 - length (nat_str k)) (CHR ''0'') @ nat_str k"

definition make_window ::
  "(int \<Rightarrow> string) \<Rightarrow> session_grid option \<Rightarrow> walk_config \<Rightarrow> int list \<Rightarrow> nat \<Rightarrow>
   nat \<times> nat \<times> nat \<times> nat \<Rightarrow> exn + walk_window" where
  "make_window label grid c index fold_number cuts =
     (case cuts of (train_start, cursor, selection_end, test_end) \<Rightarrow>
      let fold_id = fold_name fold_number in
      bindR (make_partition label (fold_id @ '':train'') (slice train_start cursor index)) (\<lambda>train.
      bindR (if selection_rows c = 0 then Inr None
             else bindR (make_partition label (fold_id @ '':selection'') (slice cursor selection_end index))
                    (\<lambda>p. Inr (Some p))) (\<lambda>selection.
      bindR (make_partition label (fold_id @ '':test'') (slice selection_end test_end index)) (\<lambda>test.
      bindR (guardR
          (case selection of
             Some s \<Rightarrow> pt_end train < pt_start s \<and> pt_start s < pt_start test
           | None \<Rightarrow> pt_end train < pt_start test)
          (ValueError (fold_id @ '' partitions overlap or are out of order''))) (\<lambda>_.
      Inr \<lparr>ww_fold = fold_id, ww_train = train, ww_selection = selection, ww_test = test,
           ww_calendar = map_option sg_calendar grid, ww_interval = map_option sg_interval grid\<rparr>)))))"

text \<open>The loop, from a fold number and a raw cursor.\<close>

partial_function (option) walk_folds ::
  "(int \<Rightarrow> string) \<Rightarrow> session_grid option \<Rightarrow> walk_config \<Rightarrow> int list \<Rightarrow> int list \<Rightarrow> nat \<Rightarrow> nat \<Rightarrow>
   (exn + walk_window list) option" where
  "walk_folds label grid c index dates fold_number raw_cursor =
     (case next_cuts c dates raw_cursor of
        None \<Rightarrow> Some (Inr [])
      | Some cuts \<Rightarrow>
          (case make_window label grid c index fold_number cuts of
             Inl e \<Rightarrow> Some (Inl e)
           | Inr w \<Rightarrow>
               Option.bind
                 (walk_folds label grid c index dates (Suc fold_number)
                   (max (fst (snd cuts) + wc_step c) (snd (snd (snd cuts)) - selection_rows c)))
                 (\<lambda>rest. Some (bindR rest (\<lambda>ws. Inr (w # ws))))))"

declare walk_folds.simps [code]

definition session_dates :: "(int \<Rightarrow> int) \<Rightarrow> session_grid option \<Rightarrow> int list \<Rightarrow> int list" where
  "session_dates day grid index = map (case grid of None \<Rightarrow> day | Some g \<Rightarrow> session_of g) index"

definition build_walk_forward_windows ::
  "(bool \<Rightarrow> int \<Rightarrow> string) \<Rightarrow> (int \<Rightarrow> int) \<Rightarrow> session_grid option \<Rightarrow> walk_config \<Rightarrow> int list \<Rightarrow>
   (exn + walk_window list) option" where
  "build_walk_forward_windows label day grid c index =
     (if index = [] then Some (Inl (ValueError ''cannot build walk-forward windows from empty data''))
      else if \<not> sorted index
      then Some (Inl (ValueError ''market data must be sorted in increasing time order''))
      else if \<not> distinct index then Some (Inl (ValueError ''market data index must be unique''))
      else if (case grid of None \<Rightarrow> False | Some g \<Rightarrow> sg_opens g = [])
      then Some (Inl (ValueError ''exchange calendar produced no sessions for walk-forward windows''))
      else walk_folds (label (grid \<noteq> None)) grid c index (session_dates day grid index) 1 (wc_training c))"

section \<open>Positions\<close>

text \<open>A cut at \<open>p\<close> splits no session: the rows around it belong to different ones.\<close>

definition session_cut :: "int list \<Rightarrow> nat \<Rightarrow> bool" where
  "session_cut dates p \<longleftrightarrow> p = 0 \<or> length dates \<le> p \<or> dates ! (p - 1) < dates ! p"

lemma takeWhile_holds: "i < length (takeWhile P xs) \<Longrightarrow> P (xs ! i)"
  by (metis nth_mem set_takeWhileD takeWhile_nth)

lemma searchsorted_right_le: "searchsorted_right xs v \<le> length xs"
  by (simp add: searchsorted_right_def length_takeWhile_le)

lemma searchsorted_right_at:
  "searchsorted_right xs v < length xs \<Longrightarrow> v < xs ! searchsorted_right xs v"
  "i < searchsorted_right xs v \<Longrightarrow> xs ! i \<le> v"
proof -
  show "searchsorted_right xs v < length xs \<Longrightarrow> v < xs ! searchsorted_right xs v"
    unfolding searchsorted_right_def by (drule nth_length_takeWhile) simp
  show "i < searchsorted_right xs v \<Longrightarrow> xs ! i \<le> v"
    unfolding searchsorted_right_def by (rule takeWhile_holds)
qed

lemma searchsorted_right_covers:
  assumes "sorted xs" and "0 < p" "p \<le> length xs"
  shows "p \<le> searchsorted_right xs (xs ! (p - 1))"
proof (rule ccontr)
  let ?q = "searchsorted_right xs (xs ! (p - 1))"
  assume "\<not> p \<le> ?q"
  with assms(2,3) have q: "?q \<le> p - 1" "?q < length xs" by auto
  then have "xs ! ?q \<le> xs ! (p - 1)" using assms by (intro sorted_nth_mono) auto
  with searchsorted_right_at(1) [OF q(2)] show False by simp
qed

lemma searchsorted_left_le: "searchsorted_left xs (xs ! p) \<le> p"
  using takeWhile_holds [of p "\<lambda>x. x < xs ! p" xs] by (fastforce simp: searchsorted_left_def)

lemma day_start_props:
  assumes "sorted dates"
  shows "p \<le> day_start dates p" "session_cut dates (day_start dates p)"
    "p \<le> length dates \<Longrightarrow> day_start dates p \<le> length dates"
proof -
  show "p \<le> length dates \<Longrightarrow> day_start dates p \<le> length dates"
    by (simp add: day_start_def searchsorted_right_le)
  show le: "p \<le> day_start dates p"
    using searchsorted_right_covers [OF assms, of p] by (simp add: day_start_def)
  show "session_cut dates (day_start dates p)"
  proof (cases "p = 0 \<or> length dates \<le> p")
    case True
    then show ?thesis by (auto simp: day_start_def session_cut_def)
  next
    case False
    let ?v = "dates ! (p - 1)"
    have q: "day_start dates p = searchsorted_right dates ?v" using False by (simp add: day_start_def)
    show ?thesis
    proof (cases "searchsorted_right dates ?v < length dates")
      case True
      have "dates ! (searchsorted_right dates ?v - 1) \<le> ?v"
        using False le q by (intro searchsorted_right_at(2)) auto
      with searchsorted_right_at(1) [OF True] q show ?thesis by (simp add: session_cut_def)
    qed (simp add: q session_cut_def)
  qed
qed

lemma day_start_at_cut:
  assumes "sorted dates" "session_cut dates p"
  shows "day_start dates p = p"
proof (cases "p = 0 \<or> length dates \<le> p")
  case False
  let ?q = "searchsorted_right dates (dates ! (p - 1))"
  have "\<not> p < ?q" using searchsorted_right_at(2) [of p dates "dates ! (p - 1)"] assms(2) False
    by (auto simp: session_cut_def)
  moreover have "p \<le> ?q" using False by (intro searchsorted_right_covers assms(1)) auto
  ultimately show ?thesis using False by (simp add: day_start_def)
qed (auto simp: day_start_def)

section \<open>The cuts of one fold\<close>

definition walk_config_ok :: "walk_config \<Rightarrow> bool" where
  "walk_config_ok c \<longleftrightarrow>
     0 < wc_minimum c \<and> wc_minimum c \<le> wc_training c \<and> wc_minimum c \<le> wc_test c \<and> wc_test c \<le> wc_step c \<and>
     (\<forall>s. wc_selection c = Some s \<longrightarrow> wc_minimum c \<le> s)"

lemma positive_int_Inr: "positive_int name v = Inr k \<longleftrightarrow> v = JInt (int k) \<and> 0 < k"
  by (auto simp: positive_int_def split: json.splits)

lemma config_ok: "walk_forward_config r = Inr c \<Longrightarrow> walk_config_ok c"
  by (cases "rw_selection r")
    (clarsimp simp: walk_forward_config_def walk_config_ok_def positive_int_Inr)+

text \<open>What the positions of a fold promise.\<close>

definition cuts_ok :: "walk_config \<Rightarrow> int list \<Rightarrow> nat \<times> nat \<times> nat \<times> nat \<Rightarrow> bool" where
  "cuts_ok c dates cuts \<longleftrightarrow>
     (case cuts of (a, b, s, e) \<Rightarrow>
        a + wc_training c \<le> b \<and> b + selection_rows c \<le> s \<and> s + wc_minimum c \<le> e \<and> e \<le> length dates \<and>
        (selection_rows c = 0 \<longrightarrow> s = b) \<and> (e < length dates \<longrightarrow> s + wc_test c \<le> e) \<and>
        session_cut dates b \<and> session_cut dates s \<and> session_cut dates e)"

lemma next_cuts_ok:
  assumes "sorted dates" and "walk_config_ok c" and "wc_training c \<le> raw"
    and "next_cuts c dates raw = Some (a, b, s, e)"
  shows "cuts_ok c dates (a, b, s, e)" "raw \<le> b"
proof -
  let ?n = "length dates" and ?k = "selection_rows c"
  let ?b = "day_start dates raw" and ?s = "day_start dates (day_start dates raw + selection_rows c)"
  from assms(4) have b: "b = ?b" "b + ?k < ?n" and s: "s = ?s"
    and e: "e = (if ?n < s + wc_test c then ?n else day_start dates (s + wc_test c))"
    and a: "a = (if wc_mode c = ''expanding'' then 0 else session_floor dates (b - wc_training c))"
    and m: "?n < s + wc_test c \<longrightarrow> \<not> ?n - s < wc_minimum c"
    by (auto simp: next_cuts_def Let_def split: if_splits)
  show "raw \<le> b" using day_start_props(1) [OF assms(1)] b(1) by simp
  then have tb: "wc_training c \<le> b" using assms(3) by simp
  have "a \<le> b - wc_training c"
    using b(2) by (simp add: a session_floor_def searchsorted_left_le)
  then have ab: "a + wc_training c \<le> b" using tb by simp
  have bs: "b + ?k \<le> s" using day_start_props(1) [OF assms(1)] by (simp add: s b(1))
  have sn: "s \<le> ?n" using day_start_props(3) [OF assms(1)] b(2) by (simp add: s b(1))
  have se: "s + wc_minimum c \<le> e" "e < ?n \<longrightarrow> s + wc_test c \<le> e" "e \<le> ?n"
    using m sn day_start_props(1,3) [OF assms(1), of "s + wc_test c"] assms(2)
    by (auto simp: e walk_config_ok_def)
  have cuts: "session_cut dates b" "session_cut dates s" "session_cut dates e"
    using day_start_props(2) [OF assms(1)] by (auto simp: b(1) s e session_cut_def)
  have "s = b" if "?k = 0" using day_start_at_cut [OF assms(1) cuts(1)] that by (simp add: s b(1))
  with ab bs se cuts show "cuts_ok c dates (a, b, s, e)" by (simp add: cuts_ok_def)
qed

section \<open>The loop\<close>

lemma make_partition_Inr:
  "make_partition label name rows = Inr p \<longleftrightarrow> rows \<noteq> [] \<and>
     p = \<lparr>pt_name = name, pt_rows = rows, pt_start = label (hd rows), pt_end = label (last rows),
          pt_row_count = length rows\<rparr>"
  by (auto simp: make_partition_def)

text \<open>A window covers the rows of its cuts.\<close>

definition window_covers :: "walk_config \<Rightarrow> int list \<Rightarrow> walk_window \<Rightarrow> nat \<times> nat \<times> nat \<times> nat \<Rightarrow> bool" where
  "window_covers c index w cuts \<longleftrightarrow>
     (case cuts of (a, b, s, e) \<Rightarrow>
        pt_rows (ww_train w) = slice a b index \<and>
        map_option pt_rows (ww_selection w) =
          (if selection_rows c = 0 then None else Some (slice b s index)) \<and>
        pt_rows (ww_test w) = slice s e index)"

lemma make_window_covers: "make_window label grid c index k cuts = Inr w \<Longrightarrow> window_covers c index w cuts"
  by (cases cuts) (auto simp: make_window_def window_covers_def make_partition_Inr Let_def split: if_splits)

definition cuts_before :: "nat \<times> nat \<times> nat \<times> nat \<Rightarrow> nat \<times> nat \<times> nat \<times> nat \<Rightarrow> bool" where
  "cuts_before x y \<longleftrightarrow>
     fst (snd x) < fst (snd y) \<and> snd (snd (snd x)) \<le> fst (snd (snd y))"

definition next_raw :: "walk_config \<Rightarrow> nat \<times> nat \<times> nat \<times> nat \<Rightarrow> nat" where
  "next_raw c cuts = max (fst (snd cuts) + wc_step c) (snd (snd (snd cuts)) - selection_rows c)"

lemma next_raw_grows:
  assumes "walk_config_ok c" "cuts_ok c dates (a, b, s, e)"
  shows "b < next_raw c (a, b, s, e)" "b < length dates" "e \<le> next_raw c (a, b, s, e) + selection_rows c"
  using assms by (auto simp: next_raw_def cuts_ok_def walk_config_ok_def)

lemma walk_folds_eq:
  "walk_folds label grid c index dates k raw =
     (case next_cuts c dates raw of
        None \<Rightarrow> Some (Inr [])
      | Some cuts \<Rightarrow>
          (case make_window label grid c index k cuts of
             Inl e \<Rightarrow> Some (Inl e)
           | Inr w \<Rightarrow> Option.bind (walk_folds label grid c index dates (Suc k) (next_raw c cuts))
                 (\<lambda>rest. Some (bindR rest (\<lambda>ws. Inr (w # ws))))))"
  unfolding walk_folds.simps [of label grid c index dates k raw] next_raw_def ..

lemma walk_folds_end:
  assumes "sorted dates" and "walk_config_ok c" and "wc_training c \<le> raw"
  shows "\<exists>r. walk_folds label grid c index dates k raw = Some r"
  using assms(3)
proof (induction "length dates - raw" arbitrary: raw k rule: less_induct)
  case less
  show ?case
  proof (cases "next_cuts c dates raw")
    case (Some cuts)
    obtain a b s e where cuts: "cuts = (a, b, s, e)" by (cases cuts)
    note ok = next_cuts_ok [OF assms(1,2) less.prems Some [unfolded cuts]]
    note grows = next_raw_grows [OF assms(2) ok(1)]
    have "length dates - next_raw c cuts < length dates - raw" "wc_training c \<le> next_raw c cuts"
      using grows(1,2) ok(2) less.prems by (auto simp: cuts)
    from less.hyps [OF this, of "Suc k"] Some show ?thesis
      by (subst walk_folds_eq) (auto split: sum.splits)
  qed (subst walk_folds_eq, simp)
qed

lemma walk_folds_sound:
  assumes "sorted dates" and "walk_config_ok c" and "wc_training c \<le> raw"
    and "walk_folds label grid c index dates k raw = Some (Inr ws)"
  shows "\<exists>cutss. list_all2 (window_covers c index) ws cutss \<and> sorted_wrt cuts_before cutss \<and>
    (\<forall>x \<in> set cutss. cuts_ok c dates x \<and> raw \<le> fst (snd x))"
  using assms(3,4)
proof (induction ws arbitrary: k raw)
  case Nil
  show ?case by (intro exI [of _ "[]"]) simp
next
  case (Cons w ws)
  from Cons.prems(2) obtain cuts where cuts: "next_cuts c dates raw = Some cuts"
    and w: "make_window label grid c index k cuts = Inr w"
    and rest: "walk_folds label grid c index dates (Suc k) (next_raw c cuts) = Some (Inr ws)"
    by (subst (asm) walk_folds_eq) (auto split: option.splits sum.splits simp: bind_eq_Some_conv)
  obtain a b s e where c: "cuts = (a, b, s, e)" by (cases cuts)
  note ok = next_cuts_ok [OF assms(1,2) Cons.prems(1) cuts [unfolded c]]
  note grows = next_raw_grows [OF assms(2) ok(1)]
  have "wc_training c \<le> next_raw c cuts" using grows(1) ok(2) Cons.prems(1) by (simp add: c)
  from Cons.IH [OF this rest] obtain cutss where ih: "list_all2 (window_covers c index) ws cutss"
    "sorted_wrt cuts_before cutss" "\<forall>x \<in> set cutss. cuts_ok c dates x \<and> next_raw c cuts \<le> fst (snd x)"
    by blast
  have "cuts_before cuts x \<and> raw \<le> fst (snd x)" if "x \<in> set cutss" for x
  proof -
    have x: "cuts_ok c dates x" "next_raw c cuts \<le> fst (snd x)" using ih(3) that by auto
    then have "fst (snd x) + selection_rows c \<le> fst (snd (snd x))" by (auto simp: cuts_ok_def)
    with x(2) grows ok(2) show ?thesis by (auto simp: cuts_before_def c)
  qed
  then show ?case
    using ih ok make_window_covers [OF w] by (intro exI [of _ "cuts # cutss"]) (auto simp: c)
qed

section \<open>No error on ordered data\<close>

lemma hd_slice: "a < b \<Longrightarrow> b \<le> length xs \<Longrightarrow> slice a b xs \<noteq> [] \<and> hd (slice a b xs) = xs ! a"
  by (simp add: slice_def hd_take hd_drop_conv_nth)

lemma last_slice: "a < b \<Longrightarrow> b \<le> length xs \<Longrightarrow> last (slice a b xs) = xs ! (b - 1)"
  by (simp add: slice_def last_conv_nth)

text \<open>Labels that rise from one session to the next, over the rows of the frame.\<close>

definition labels_rise :: "(int \<Rightarrow> string) \<Rightarrow> int list \<Rightarrow> int list \<Rightarrow> bool" where
  "labels_rise label index dates \<longleftrightarrow>
     (\<forall>i < length index. \<forall>j < length index. dates ! i < dates ! j \<longrightarrow> label (index ! i) < label (index ! j))"

lemma make_window_ok:
  assumes "walk_config_ok c" "cuts_ok c dates cuts" "length dates = length index" "labels_rise label index dates"
    and "sorted dates"
  shows "\<exists>w. make_window label grid c index k cuts = Inr w"
proof -
  obtain a b s e where c: "cuts = (a, b, s, e)" by (cases cuts)
  from assms(1,2) c have o: "a < b" "b \<le> s" "s < e" "e \<le> length index" "b < length index"
    and cut: "session_cut dates b" "session_cut dates s" and sel: "selection_rows c = 0 \<longleftrightarrow> s = b"
    using assms(3) by (auto simp: cuts_ok_def walk_config_ok_def selection_rows_def split: option.splits)
  have "dates ! (b - 1) < dates ! b" using cut(1) o assms(3) by (auto simp: session_cut_def)
  then have l1: "label (index ! (b - 1)) < label (index ! b)" using assms(4) o by (simp add: labels_rise_def)
  have l2: "label (index ! b) < label (index ! s)" if "b < s"
  proof -
    have "dates ! b \<le> dates ! (s - 1)" using that o assms(3) by (intro sorted_nth_mono [OF assms(5)]) auto
    moreover have "dates ! (s - 1) < dates ! s" using cut(2) that o assms(3) by (auto simp: session_cut_def)
    ultimately show ?thesis using assms(4) o by (simp add: labels_rise_def)
  qed
  show ?thesis
    using o l1 l2 sel hd_slice [of a b index] hd_slice [of b s index] hd_slice [of s e index] last_slice [of a b index]
    by (cases "selection_rows c = 0")
      (auto simp: make_window_def c make_partition_def Let_def)
qed

lemma walk_folds_no_error:
  assumes "sorted dates" and "walk_config_ok c" and "wc_training c \<le> raw"
    and "length dates = length index" "labels_rise label index dates"
  shows "\<exists>ws. walk_folds label grid c index dates k raw = Some (Inr ws)"
  using assms(3)
proof (induction "length dates - raw" arbitrary: raw k rule: less_induct)
  case less
  show ?case
  proof (cases "next_cuts c dates raw")
    case (Some cuts)
    obtain a b s e where cuts: "cuts = (a, b, s, e)" by (cases cuts)
    note ok = next_cuts_ok [OF assms(1,2) less.prems Some [unfolded cuts]]
    note grows = next_raw_grows [OF assms(2) ok(1)]
    have "length dates - next_raw c cuts < length dates - raw" "wc_training c \<le> next_raw c cuts"
      using grows(1,2) ok(2) less.prems by (auto simp: cuts)
    from less.hyps [OF this, of "Suc k"] Some make_window_ok [OF assms(2) ok(1) assms(4,5,1), of grid k]
    show ?thesis by (subst walk_folds_eq) (auto simp: cuts)
  qed (subst walk_folds_eq, simp)
qed

lemma session_of_mono:
  assumes "x \<le> y"
  shows "session_of g x \<le> session_of g y"
proof -
  have "length (takeWhile (\<lambda>z. z \<le> x) xs) \<le> length (takeWhile (\<lambda>z. z \<le> y) xs)" for xs
    using assms by (induction xs) auto
  from this [of "sg_opens g"] show ?thesis
    unfolding session_of_def searchsorted_right_def by linarith
qed

lemma sorted_session_dates: "sorted index \<Longrightarrow> mono day \<Longrightarrow> sorted (session_dates day grid index)"
  by (cases grid) (auto simp: session_dates_def sorted_map mono_def intro!: session_of_mono
      elim!: sorted_wrt_mono_rel [rotated])

lemma length_session_dates [simp]: "length (session_dates day grid index) = length index"
  by (simp add: session_dates_def)

end
