(* ===== verification/Pipeline_Guarantees.thy ===== *)
theory Pipeline_Guarantees
  imports Walk_Forward
begin

text \<open>
  The properties of the research pipeline above the store: walk-forward windows, the filter chain
  and the gate before the protected test.
\<close>

section \<open>Walk-forward windows\<close>

text \<open>
  C23: Walk-forward folds do not leak. Every fold cuts the sorted frame at three positions: its
  training, selection and test rows are consecutive slices, in that order, at least as long as
  configured (a test that ends the frame at least the minimum), and no session lies on both sides
  of a cut. Over the folds the training end moves forward and no test row is tested twice.
\<close>

theorem walk_forward_windows_sound:
  assumes "walk_forward_config r = Inr c" and "mono day"
    and "build_walk_forward_windows label day grid c index = Some (Inr ws)"
  shows "\<exists>cutss. list_all2 (\<lambda>w (a, b, s, e).
      pt_rows (ww_train w) = slice a b index \<and>
      map_option pt_rows (ww_selection w) = (if wc_selection c = None then None else Some (slice b s index)) \<and>
      pt_rows (ww_test w) = slice s e index \<and>
      a + wc_training c \<le> b \<and> b + selection_rows c \<le> s \<and> s + wc_minimum c \<le> e \<and> e \<le> length index \<and>
      (wc_selection c = None \<longrightarrow> s = b) \<and> (e < length index \<longrightarrow> s + wc_test c \<le> e) \<and>
      session_cut (session_dates day grid index) b \<and> session_cut (session_dates day grid index) s \<and>
      session_cut (session_dates day grid index) e) ws cutss \<and>
    sorted_wrt (\<lambda>(a, b, s, e) (a', b', s', e'). b < b' \<and> e \<le> s') cutss"
proof -
  have ok: "walk_config_ok c" using assms(1) by (rule config_ok)
  then have sel: "selection_rows c = 0 \<longleftrightarrow> wc_selection c = None"
    by (auto simp: selection_rows_def walk_config_ok_def split: option.splits)
  from assms(3) have loop: "walk_folds (label (grid \<noteq> None)) grid c index (session_dates day grid index) 1
      (wc_training c) = Some (Inr ws)" and "sorted index"
    by (auto simp: build_walk_forward_windows_def split: if_splits)
  from sorted_session_dates [OF this(2) assms(2)]
  obtain cutss where cutss: "list_all2 (window_covers c index) ws cutss" "sorted_wrt cuts_before cutss"
    "\<forall>x \<in> set cutss. cuts_ok c (session_dates day grid index) x"
    using walk_folds_sound [OF _ ok order_refl loop] by blast
  have "list_all2 (\<lambda>w x. window_covers c index w x \<and> cuts_ok c (session_dates day grid index) x) ws cutss"
    using cutss(1,3) by (auto simp: list_all2_conv_all_nth)
  then have "list_all2 (\<lambda>w (a, b, s, e).
      pt_rows (ww_train w) = slice a b index \<and>
      map_option pt_rows (ww_selection w) = (if wc_selection c = None then None else Some (slice b s index)) \<and>
      pt_rows (ww_test w) = slice s e index \<and>
      a + wc_training c \<le> b \<and> b + selection_rows c \<le> s \<and> s + wc_minimum c \<le> e \<and> e \<le> length index \<and>
      (wc_selection c = None \<longrightarrow> s = b) \<and> (e < length index \<longrightarrow> s + wc_test c \<le> e) \<and>
      session_cut (session_dates day grid index) b \<and> session_cut (session_dates day grid index) s \<and>
      session_cut (session_dates day grid index) e) ws cutss"
    by (rule list_all2_mono) (auto simp: window_covers_def cuts_ok_def sel)
  moreover have "sorted_wrt (\<lambda>(a, b, s, e) (a', b', s', e'). b < b' \<and> e \<le> s') cutss"
    using cutss(2) by (rule sorted_wrt_mono_rel [rotated]) (auto simp: cuts_before_def)
  ultimately show ?thesis by blast
qed

definition demo_walk :: raw_walk_config where
  "demo_walk = \<lparr>rw_training = JInt 3, rw_selection = JInt 1, rw_test = JInt 2, rw_step = JInt 2,
     rw_minimum = JInt 1, rw_shortlist = JInt 1, rw_mode = ''rolling'', rw_incomplete = ''include''\<rparr>"

definition demo_walk_config :: walk_config where
  "demo_walk_config = \<lparr>wc_training = 3, wc_selection = Some 1, wc_test = 2, wc_step = 2, wc_minimum = 1,
     wc_shortlist = 1, wc_mode = ''rolling'', wc_incomplete = ''include''\<rparr>"

text \<open>Eight rows, two of them in the session that opens at 20; sessions open every ten units.\<close>

definition demo_index :: "int list" where
  "demo_index = [1, 11, 21, 25, 31, 41, 51, 61]"

definition demo_grid :: session_grid where
  "demo_grid = \<lparr>sg_calendar = ''XNYS'', sg_interval = ''5m'', sg_opens = [0, 10, 20, 30, 40, 50, 60]\<rparr>"

definition demo_label :: "bool \<Rightarrow> int \<Rightarrow> string" where
  "demo_label aligned t = replicate (nat t) (CHR ''i'')"

lemma demo_walk_ok: "walk_forward_config demo_walk = Inr demo_walk_config"
  by (simp add: walk_forward_config_def demo_walk_def demo_walk_config_def positive_int_def)

lemma demo_rises: "labels_rise (demo_label True) demo_index (session_dates (\<lambda>t. t) (Some demo_grid) demo_index)"
  unfolding labels_rise_def by code_simp

lemma demo_built:
  "\<exists>ws. build_walk_forward_windows demo_label (\<lambda>t. t) (Some demo_grid) demo_walk_config demo_index = Some (Inr ws) \<and>
     length ws = 2"
proof -
  have "case build_walk_forward_windows demo_label (\<lambda>t. t) (Some demo_grid) demo_walk_config demo_index of
      Some (Inr ws) \<Rightarrow> length ws = 2 | _ \<Rightarrow> False" by code_simp
  then show ?thesis by (simp split: option.splits sum.splits)
qed

lemma list_all2_sized: "\<exists>ys. list_all2 P xs ys \<and> Q ys \<Longrightarrow> \<exists>ys. length xs = length ys \<and> Q ys"
  by (auto dest: list_all2_lengthD)

theorem walk_forward_windows_sound_witness:
  "\<exists>ws cutss. build_walk_forward_windows demo_label (\<lambda>t. t) (Some demo_grid) demo_walk_config demo_index = Some (Inr ws) \<and>
     length ws = 2 \<and> length cutss = 2 \<and> sorted_wrt (\<lambda>(a :: nat, b :: nat, s :: nat, e :: nat) (a', b', s', e'). b < b' \<and> e \<le> s') cutss"
proof -
  obtain ws where ws: "build_walk_forward_windows demo_label (\<lambda>t. t) (Some demo_grid) demo_walk_config demo_index = Some (Inr ws)"
    "length ws = 2" using demo_built by blast
  have "mono (\<lambda>t :: int. t)" by (simp add: mono_def)
  from list_all2_sized [OF walk_forward_windows_sound [OF demo_walk_ok this ws(1)]]
  have "\<exists>cutss. length ws = length cutss \<and> sorted_wrt (\<lambda>(a :: nat, b :: nat, s :: nat, e :: nat) (a', b', s', e'). b < b' \<and> e \<le> s') cutss"
    .
  with ws show ?thesis by metis
qed

text \<open>
  C24: The window loop always ends, whatever the frame and the labels; and on a non-empty, sorted,
  duplicate-free frame whose labels rise from session to session it ends without an error.
\<close>

theorem walk_forward_windows_return:
  assumes "walk_forward_config r = Inr c" and "mono day"
  shows "(\<exists>res. build_walk_forward_windows label day grid c index = Some res) \<and>
    (index \<noteq> [] \<and> sorted index \<and> distinct index \<and> (\<forall>g. grid = Some g \<longrightarrow> sg_opens g \<noteq> []) \<and>
       labels_rise (label (grid \<noteq> None)) index (session_dates day grid index) \<longrightarrow>
     (\<exists>ws. build_walk_forward_windows label day grid c index = Some (Inr ws)))"
proof (cases "index \<noteq> [] \<and> sorted index \<and> distinct index \<and> (\<forall>g. grid = Some g \<longrightarrow> sg_opens g \<noteq> [])")
  case True
  have ok: "walk_config_ok c" using assms(1) by (rule config_ok)
  have dates: "sorted (session_dates day grid index)" using True assms(2) by (simp add: sorted_session_dates)
  have loop: "build_walk_forward_windows label day grid c index =
      walk_folds (label (grid \<noteq> None)) grid c index (session_dates day grid index) 1 (wc_training c)"
    using True by (auto simp: build_walk_forward_windows_def split: option.splits)
  show ?thesis
    unfolding loop
    using walk_folds_end [OF dates ok order_refl] walk_folds_no_error [OF dates ok order_refl length_session_dates]
    by blast
qed (auto simp: build_walk_forward_windows_def split: option.splits)

theorem walk_forward_windows_return_witness:
  "\<exists>ws. build_walk_forward_windows demo_label (\<lambda>t. t) (Some demo_grid) demo_walk_config demo_index = Some (Inr ws)"
proof -
  have "mono (\<lambda>t :: int. t)" by (simp add: mono_def)
  moreover have "demo_index \<noteq> [] \<and> sorted demo_index \<and> distinct demo_index"
    by (simp add: demo_index_def)
  moreover have "\<forall>g. Some demo_grid = Some g \<longrightarrow> sg_opens g \<noteq> []" by (simp add: demo_grid_def)
  ultimately show ?thesis
    using walk_forward_windows_return [OF demo_walk_ok, of "\<lambda>t. t" demo_label "Some demo_grid" demo_index] demo_rises
    by simp
qed

end
