(* ===== verification/Py_Float.thy ===== *)
theory Py_Float
  imports Py_Json "HOL-Library.Log_Nat"
begin

text \<open>
  Python's numbers: binary64 floats as the rationals they denote, with rounding to nearest and ties
  to even, and the comparison of numbers and of JSON values with \<open>==\<close>. One rational stands for both
  zeros. Comparing an integer with a float is exact, as in Python; \<open>float(i)\<close> rounds and overflows.
\<close>

section \<open>Rounding\<close>

definition pow2 :: "int \<Rightarrow> rat" where
  "pow2 k = (if 0 \<le> k then 2 ^ nat k else 1 / 2 ^ nat (- k))"

text \<open>The binary exponent of a positive rational: \<open>pow2 (exponent_of x) \<le> x < pow2 (exponent_of x + 1)\<close>.\<close>

definition exponent_of :: "rat \<Rightarrow> int" where
  "exponent_of x =
     (let (p, q) = quotient_of x; e = bitlen p - bitlen q
      in if x < pow2 e then e - 1 else e)"

definition half_even :: "rat \<Rightarrow> int" where
  "half_even x =
     (let f = \<lfloor>x\<rfloor>; r = x - of_int f
      in if r < 1 / 2 then f else if 1 / 2 < r then f + 1 else if even f then f else f + 1)"

text \<open>The spacing of the floats around a positive rational, not below that of the subnormal ones.\<close>

definition ulp :: "rat \<Rightarrow> rat" where
  "ulp x = pow2 (max (exponent_of x - 52) (- 1074))"

definition round64 :: "rat \<Rightarrow> rat" where
  "round64 x =
     (if x = 0 then 0
      else if 0 < x then of_int (half_even (x / ulp x)) * ulp x
      else - (of_int (half_even (- x / ulp (- x))) * ulp (- x)))"

datatype py_float = Fin rat | PosInf | NegInf | NotNum

definition float_of_rat :: "rat \<Rightarrow> py_float" where
  "float_of_rat x =
     (let r = round64 x
      in if r = 0 \<or> exponent_of \<bar>r\<bar> < 1024 then Fin r else if 0 < r then PosInf else NegInf)"

section \<open>Numbers of JSON values\<close>

text \<open>The decimal a float token denotes.\<close>

definition literal_value :: "string \<Rightarrow> rat" where
  "literal_value t =
     (let neg = (case t of c # _ \<Rightarrow> c = CHR ''-'' | [] \<Rightarrow> False);
          s = (if neg then tl t else t);
          whole = takeWhile is_digit s;
          r = dropWhile is_digit s;
          frac = (case r of c # q \<Rightarrow> if c = CHR ''.'' then takeWhile is_digit q else [] | [] \<Rightarrow> []);
          r1 = (if frac = [] then r else drop (Suc (length frac)) r);
          (esign, edigits) = (case r1 of
              [] \<Rightarrow> ([], [])
            | _ # q \<Rightarrow> lex_sign q);
          e = (if esign = ''-'' then - int (digits_val edigits) else int (digits_val edigits));
          k = e - int (length frac);
          m = (of_nat (digits_val (whole @ frac)) :: rat);
          v = (if 0 \<le> k then m * 10 ^ nat k else m / 10 ^ nat (- k))
      in if neg then - v else v)"

definition float_value :: "string \<Rightarrow> py_float" where
  "float_value t =
     (if t = ''NaN'' then NotNum
      else if t = ''Infinity'' then PosInf
      else if t = ''-Infinity'' then NegInf
      else float_of_rat (literal_value t))"

text \<open>The number a value is, if it is one: \<open>bool\<close> is a number for \<open>==\<close>.\<close>

definition number_of :: "json \<Rightarrow> py_float option" where
  "number_of j =
     (case j of
        JInt i \<Rightarrow> Some (Fin (of_int i))
      | JBool b \<Rightarrow> Some (Fin (if b then 1 else 0))
      | JFloat t \<Rightarrow> Some (float_value t)
      | _ \<Rightarrow> None)"

fun num_less :: "py_float \<Rightarrow> py_float \<Rightarrow> bool" where
  "num_less (Fin x) (Fin y) = (x < y)"
| "num_less (Fin x) PosInf = True"
| "num_less NegInf (Fin y) = True"
| "num_less NegInf PosInf = True"
| "num_less _ _ = False"

fun num_eq :: "py_float \<Rightarrow> py_float \<Rightarrow> bool" where
  "num_eq (Fin x) (Fin y) = (x = y)"
| "num_eq PosInf PosInf = True"
| "num_eq NegInf NegInf = True"
| "num_eq _ _ = False"

definition num_le :: "py_float \<Rightarrow> py_float \<Rightarrow> bool" where
  "num_le x y \<longleftrightarrow> num_less x y \<or> num_eq x y"

fun is_finite :: "py_float \<Rightarrow> bool" where
  "is_finite (Fin _) = True"
| "is_finite _ = False"

text \<open>\<open>float(v)\<close> of an \<open>int\<close> or \<open>float\<close>.\<close>

definition to_float :: "json \<Rightarrow> exn + py_float" where
  "to_float j =
     (case j of
        JInt i \<Rightarrow>
          (case float_of_rat (of_int i) of
             Fin r \<Rightarrow> Inr (Fin r)
           | _ \<Rightarrow> Inl (OtherException ''OverflowError: int too large to convert to float''))
      | JFloat t \<Rightarrow> Inr (float_value t)
      | JBool b \<Rightarrow> Inr (Fin (if b then 1 else 0))
      | _ \<Rightarrow> Inl (TypeError ''float() argument must be a string or a real number''))"

section \<open>Equality of values\<close>

function (sequential) json_eq :: "json \<Rightarrow> json \<Rightarrow> bool" where
  "json_eq JNull JNull = True"
| "json_eq (JStr a) (JStr b) = (a = b)"
| "json_eq (JList xs) (JList ys) =
     (length xs = length ys \<and> (\<forall>p \<in> set (zip xs ys). json_eq (fst p) (snd p)))"
| "json_eq (JObj xs) (JObj ys) =
     (length xs = length ys \<and>
      (\<forall>kv \<in> set xs. case map_of ys (fst kv) of None \<Rightarrow> False | Some w \<Rightarrow> json_eq (snd kv) w))"
| "json_eq a b =
     (case (number_of a, number_of b) of
        (Some x, Some y) \<Rightarrow> num_eq x y
      | _ \<Rightarrow> False)"
  by pat_completeness auto
termination
proof (relation "measure (size \<circ> fst)")
  fix xs ys :: "json list" and p
  assume "p \<in> set (zip xs ys)"
  then have "fst p \<in> set xs" by (metis in_set_zipE prod.collapse)
  then show "((fst p, snd p), JList xs, JList ys) \<in> measure (size \<circ> fst)"
    by (simp add: size_elem del: json.size)
next
  fix xs ys :: "(string \<times> json) list" and kv w
  assume "kv \<in> set xs"
  then show "((snd kv, w), JObj xs, JObj ys) \<in> measure (size \<circ> fst)"
    by (simp add: size_member del: json.size)
qed simp

section \<open>Facts\<close>

lemma half_even_near: "\<bar>of_int (half_even x) - x\<bar> \<le> 1 / 2"
proof -
  define f where "f = rat_of_int \<lfloor>x\<rfloor>"
  have f: "f \<le> x" "x < f + 1" unfolding f_def by linarith+
  have "of_int (half_even x) = (if x - f < 1 / 2 then f else if 1 / 2 < x - f then f + 1
      else if even \<lfloor>x\<rfloor> then f else f + 1)"
    by (simp add: half_even_def Let_def f_def)
  with f show ?thesis by (auto simp: abs_if)
qed

lemma pow2_pos: "0 < pow2 k"
  by (simp add: pow2_def)

text \<open>Rounding moves a number by at most half a unit in the last place.\<close>

lemma round64_near: "x \<noteq> 0 \<Longrightarrow> \<bar>round64 x - x\<bar> \<le> ulp \<bar>x\<bar> / 2"
proof -
  have near: "\<bar>of_int (half_even (y / u)) * u - y\<bar> \<le> u / 2" if "0 < u" for y u :: rat
  proof -
    have "\<bar>of_int (half_even (y / u)) * u - y\<bar> = \<bar>of_int (half_even (y / u)) - y / u\<bar> * u"
      using that by (simp add: abs_mult_pos left_diff_distrib)
    also have "\<dots> \<le> 1 / 2 * u" using that by (intro mult_right_mono half_even_near) simp
    finally show ?thesis by simp
  qed
  have u: "0 < ulp y" for y by (simp add: ulp_def pow2_pos)
  assume "x \<noteq> 0"
  then show ?thesis
    using near [OF u, of x x] near [OF u, of "- x" "- x"] by (auto simp: round64_def abs_if split: if_splits)
qed

lemma round64_pos: "0 \<le> x \<Longrightarrow> 0 \<le> round64 x"
proof -
  assume "0 \<le> x"
  have "0 \<le> half_even (x / ulp x)"
  proof -
    have "0 \<le> x / ulp x" using \<open>0 \<le> x\<close> pow2_pos by (simp add: ulp_def less_imp_le)
    then show ?thesis by (simp add: half_even_def Let_def)
  qed
  then show ?thesis using \<open>0 \<le> x\<close> pow2_pos by (auto simp: round64_def ulp_def less_imp_le)
qed

lemma float_examples:
  "float_value ''0.1'' = Fin (3602879701896397 / 36028797018963968)" "float_value ''-2.5e1'' = Fin (- 25)"
  "to_float (JInt 9007199254740993) = Inr (Fin 9007199254740992)" "json_eq (JInt 3) (JFloat ''3.0'')"
  by code_simp+

end
