(* ===== verification/Py_Text.thy ===== *)
theory Py_Text
  imports Py_Float
begin

text \<open>
  What Python prints: \<open>str\<close> and \<open>repr\<close> of JSON values, \<open>str\<close> of an exception, and which of the
  modelled exceptions a handler for \<open>RuntimeError\<close>, \<open>ValueError\<close> or \<open>KeyError\<close> catches. A float is
  printed as its literal text, which is its \<open>repr\<close> in every document the program writes.
\<close>

section \<open>Values\<close>

definition repr_char :: "char \<Rightarrow> char \<Rightarrow> string" where
  "repr_char q c =
     (let n = (of_char c :: nat) in
      if c = q \<or> c = CHR 0x5C then [CHR 0x5C, c]
      else if n = 10 then [CHR 0x5C, CHR ''n'']
      else if n = 13 then [CHR 0x5C, CHR ''r'']
      else if n = 9 then [CHR 0x5C, CHR ''t'']
      else if n < 32 \<or> 127 \<le> n \<and> n \<le> 160 \<or> n = 173
      then [CHR 0x5C, CHR ''x'', hex_digit (n div 16), hex_digit (n mod 16)]
      else [c])"

definition repr_str :: "string \<Rightarrow> string" where
  "repr_str s =
     (let q = (if CHR 0x27 \<in> set s \<and> CHR 0x22 \<notin> set s then CHR 0x22 else CHR 0x27)
      in q # concat (map (repr_char q) s) @ [q])"

fun commas :: "string list \<Rightarrow> string" where
  "commas [] = ''''"
| "commas [x] = x"
| "commas (x # xs) = x @ '', '' @ commas xs"

function (sequential) py_repr :: "json \<Rightarrow> string" where
  "py_repr JNull = ''None''"
| "py_repr (JBool b) = (if b then ''True'' else ''False'')"
| "py_repr (JInt i) = int_str i"
| "py_repr (JFloat t) =
     (if t = ''NaN'' then ''nan'' else if t = ''Infinity'' then ''inf''
      else if t = ''-Infinity'' then ''-inf'' else t)"
| "py_repr (JStr s) = repr_str s"
| "py_repr (JList xs) = ''['' @ commas (map py_repr xs) @ '']''"
| "py_repr (JObj kvs) =
     ''{'' @ commas (map (\<lambda>kv. repr_str (fst kv) @ '': '' @ py_repr (snd kv)) kvs) @ ''}''"
  by pat_completeness auto
termination
  by (relation "measure size") (simp_all add: size_elem size_member del: json.size)

definition py_str :: "json \<Rightarrow> string" where
  "py_str j = (case j of JStr s \<Rightarrow> s | _ \<Rightarrow> py_repr j)"

text \<open>\<open>p in s\<close> on strings.\<close>

definition contains_text :: "string \<Rightarrow> string \<Rightarrow> bool" where
  "contains_text p s = (\<exists>k \<in> {0..<Suc (length s)}. prefix p (drop k s))"

section \<open>Exceptions\<close>

text \<open>\<open>str(exc)\<close>: the message, which a \<open>KeyError\<close> shows as its \<open>repr\<close>.\<close>

fun exn_text :: "exn \<Rightarrow> string" where
  "exn_text (KeyError m) = repr_str m"
| "exn_text (ValueError m) = m"
| "exn_text (TypeError m) = m"
| "exn_text (RuntimeError m) = m"
| "exn_text AssertionError = ''''"
| "exn_text (IntegrityError m) = m"
| "exn_text (TriggerAbort m) = m"
| "exn_text (OSError m) = m"
| "exn_text (SchemaVersionError m) = m"
| "exn_text (RunCompletionRejectedError m) = m"
| "exn_text (ResearchLaunchKeyError m) = m"
| "exn_text (ResearchLaunchError m) = m"
| "exn_text (ResearchLaunchConflictError m) = m"
| "exn_text (ResearchLaunchIntegrityError m) = m"
| "exn_text (ResearchLaunchInvocationUnknownError m) = m"
| "exn_text (ResearchLaunchInvocationError m) = m"
| "exn_text (FilterStageInvocationUnknownError m) = m"
| "exn_text (FilterChainReplayIncompleteError m) = m"
| "exn_text (RuleSpecError path reason) = (if reason = [] then path else path @ '': '' @ reason)"
| "exn_text (CandidatePacketError m) = m"
| "exn_text (GatewayError code m) = m"
| "exn_text (OtherException m) = m"

text \<open>The classes derived from \<open>RuntimeError\<close> and from \<open>ValueError\<close>.\<close>

fun is_runtime_error :: "exn \<Rightarrow> bool" where
  "is_runtime_error (RuntimeError _) = True"
| "is_runtime_error (SchemaVersionError _) = True"
| "is_runtime_error (RunCompletionRejectedError _) = True"
| "is_runtime_error (ResearchLaunchError _) = True"
| "is_runtime_error (ResearchLaunchConflictError _) = True"
| "is_runtime_error (ResearchLaunchIntegrityError _) = True"
| "is_runtime_error (ResearchLaunchInvocationUnknownError _) = True"
| "is_runtime_error (ResearchLaunchInvocationError _) = True"
| "is_runtime_error (FilterStageInvocationUnknownError _) = True"
| "is_runtime_error (FilterChainReplayIncompleteError _) = True"
| "is_runtime_error _ = False"

fun is_value_error :: "exn \<Rightarrow> bool" where
  "is_value_error (ValueError _) = True"
| "is_value_error (ResearchLaunchKeyError _) = True"
| "is_value_error (RuleSpecError _ _) = True"
| "is_value_error (CandidatePacketError _) = True"
| "is_value_error (GatewayError _ _) = True"
| "is_value_error _ = False"

fun is_key_error :: "exn \<Rightarrow> bool" where
  "is_key_error (KeyError _) = True"
| "is_key_error _ = False"

end
