(* ===== verification/Lockbox_Gate.thy ===== *)
theory Lockbox_Gate
  imports Py_Text Lineage
begin

text \<open>
  The gate before the protected test: \<open>evaluate_lockbox_prerequisites\<close> of
  \<open>backtesting/validation/lockbox_gate/service.py\<close>, from the evidence records its caller retrieved.
  A record is the artifact's identity, the evidence identity and the JSON document; a source lock
  keeps the fields the gate reads, with JSON values where the code stores what a document held.
\<close>

section \<open>Evidence\<close>

record source_lock =
  slk_status :: string
  slk_kind :: string
  slk_artifact_id :: json
  slk_experiment_id :: json
  slk_strategy_id :: json
  slk_strategy_version :: json
  slk_locked_parameters :: json
  slk_data_provenance :: json
  slk_execution_assumptions :: json
  slk_reasons :: "string list"
  slk_parameter_lock_id :: json

record evidence_record =
  er_artifact_id :: nat
  er_evidence_identity :: string
  er_document :: json

record gate_reference =
  gf_stage :: string
  gf_artifact_id :: json
  gf_evidence_identity :: "string option"

record gate_result =
  gr_status :: string
  gr_reasons :: "string list"
  gr_references :: "gate_reference list"
  gr_parameter_lock_identity :: "string option"
  gr_protected_data_state :: string
  gr_lineage_identity :: "string option"
  gr_gate_identity :: string
  gr_eligible_to_execute :: bool
  gr_eligible_to_progress :: bool

section \<open>Helpers\<close>

definition PROTECTED_DATA_STATES :: "string list" where
  "PROTECTED_DATA_STATES = [''not_applicable'', ''unspent'', ''gated'', ''spent'', ''invalid'']"

definition LINEAGE_KEYS :: "string list" where
  "LINEAGE_KEYS =
     [''configuration_id'', ''strategy_id'', ''strategy_version'', ''configuration_hash'',
      ''data_identity'', ''execution_assumptions_identity'', ''runtime_identity'']"

definition attribute_error :: exn where
  "attribute_error = OtherException ''AttributeError: object has no attribute get''"

text \<open>\<open>document.get(key, otherwise)\<close> of a dictionary; another object has no \<open>get\<close>.\<close>

definition get_or :: "string \<Rightarrow> json \<Rightarrow> json \<Rightarrow> exn + json" where
  "get_or k otherwise j =
     (case j of
        JObj kvs \<Rightarrow> Inr (case map_of kvs k of None \<Rightarrow> otherwise | Some v \<Rightarrow> v)
      | _ \<Rightarrow> Inl attribute_error)"

definition is_object :: "json \<Rightarrow> bool" where
  "is_object j = (case j of JObj _ \<Rightarrow> True | _ \<Rightarrow> False)"

text \<open>\<open>tuple(value)\<close>.\<close>

definition py_tuple :: "json \<Rightarrow> exn + json list" where
  "py_tuple j =
     (case j of
        JList xs \<Rightarrow> Inr xs
      | JStr s \<Rightarrow> Inr (map (\<lambda>c. JStr [c]) s)
      | JObj kvs \<Rightarrow> Inr (map (\<lambda>kv. JStr (fst kv)) kvs)
      | _ \<Rightarrow> Inl (TypeError ''object is not iterable''))"

definition map_native_status :: "json \<Rightarrow> exn + string" where
  "map_native_status status =
     (case status of
        JStr s \<Rightarrow> Inr (if s \<in> {''passed'', ''failed'', ''insufficient_evidence''} then s else ''invalid'')
      | JList _ \<Rightarrow> Inl (TypeError ''unhashable type: list'')
      | JObj _ \<Rightarrow> Inl (TypeError ''unhashable type: dict'')
      | _ \<Rightarrow> Inr ''invalid'')"

text \<open>\<open>key in source\<close> for a value that may be no dictionary, then \<open>source[key]\<close>.\<close>

definition lineage_missing :: "json \<Rightarrow> exn + string list" where
  "lineage_missing source =
     (case source of
        JObj kvs \<Rightarrow> Inr (filter (\<lambda>k. map_of kvs k = None) LINEAGE_KEYS)
      | JList xs \<Rightarrow> Inr (filter (\<lambda>k. JStr k \<notin> set xs) LINEAGE_KEYS)
      | JStr t \<Rightarrow> Inr (filter (\<lambda>k. \<not> contains_text k t) LINEAGE_KEYS)
      | _ \<Rightarrow> Inl (TypeError ''argument is not iterable''))"

definition lineage_payload :: "json \<Rightarrow> exn + json" where
  "lineage_payload source =
     bindR (lineage_missing source) (\<lambda>missing.
     if missing \<noteq> [] then Inl (ValueError (''lineage is missing fields: '' @ commas missing))
     else
       (case source of
          JObj _ \<Rightarrow> Inr (JObj (map (\<lambda>k. (k, jget k source)) LINEAGE_KEYS))
        | _ \<Rightarrow> Inl (TypeError ''indices must be integers'')))"

definition lineage_identity :: "(string \<Rightarrow> string) \<Rightarrow> json \<Rightarrow> exn + string" where
  "lineage_identity sha source = bindR (lineage_payload source) (identity sha)"

definition source_lock_payload :: "source_lock \<Rightarrow> json" where
  "source_lock_payload l =
     JObj
       [(''artifact_id'', slk_artifact_id l), (''parameter_lock_id'', slk_parameter_lock_id l),
        (''experiment_id'', slk_experiment_id l), (''strategy_id'', slk_strategy_id l),
        (''strategy_version'', slk_strategy_version l), (''locked_parameters'', slk_locked_parameters l),
        (''data_provenance'', slk_data_provenance l),
        (''execution_assumptions'', slk_execution_assumptions l)]"

definition combined_lineage_identity ::
  "(string \<Rightarrow> string) \<Rightarrow> string option \<Rightarrow> source_lock option \<Rightarrow> exn + string option" where
  "combined_lineage_identity sha artifact_lineage lock =
     (if artifact_lineage = None \<and> lock = None then Inr None
      else
        bindR (identity sha (JObj
          [(''artifact_lineage_identity'', opt_json artifact_lineage),
           (''source_lock'', case lock of None \<Rightarrow> JNull | Some l \<Rightarrow> source_lock_payload l)]))
          (\<lambda>i. Inr (Some i)))"

definition normalized_evidence :: "json \<Rightarrow> exn + json" where
  "normalized_evidence document =
     bindR (get_or ''evidence'' JNull document) (\<lambda>evidence.
     bindR (guardR (is_object evidence) (ValueError ''evidence document is malformed'')) (\<lambda>_.
     let normalized = jget ''normalized_evidence'' evidence in
     bindR (guardR (is_object normalized) (ValueError ''normalized evidence is missing'')) (\<lambda>_.
     Inr normalized)))"

definition OPEN_FOLDS_REASON :: string where
  "OPEN_FOLDS_REASON = ''successful walk-forward folds do not define an overall acceptance decision''"

definition evidence_reasons :: "json \<Rightarrow> exn + json list" where
  "evidence_reasons normalized = bindR (get_or ''reasons'' (JList []) normalized) py_tuple"

definition walk_forward_ok :: "json \<Rightarrow> exn + bool" where
  "walk_forward_ok normalized =
     (if jget ''status'' normalized = JStr ''insufficient_evidence''
      then bindR (evidence_reasons normalized) (\<lambda>rs. Inr (rs = [JStr OPEN_FOLDS_REASON]))
      else Inr False)"

text \<open>The status of a stage with the reasons it records.\<close>

definition stage_status :: "string \<Rightarrow> json \<Rightarrow> exn + (string \<times> string list)" where
  "stage_status stage normalized =
     (let status = jget ''status'' normalized in
      if status = JStr ''passed'' then Inr (''passed'', [])
      else
        bindR (if stage = ''walk_forward'' then walk_forward_ok normalized else Inr False) (\<lambda>open.
        if open then Inr (''passed'', [])
        else
          bindR (evidence_reasons normalized) (\<lambda>rs.
          let texts = (if rs = [] then [stage @ '' evidence returned '' @ py_str status] else map py_str rs) in
          if status = JStr ''failed''
          then Inr (''passed'', map (\<lambda>r. stage @ '' (score): '' @ r) texts)
          else if stage = ''monte_carlo'' \<and> status = JStr ''insufficient_evidence''
          then Inr (''passed'', map (\<lambda>r. stage @ '' (unscored): '' @ r) texts)
          else bindR (map_native_status status) (\<lambda>s. Inr (s, map (\<lambda>r. stage @ '': '' @ r) texts)))))"

definition source_lock_status :: "source_lock \<Rightarrow> exn + (string \<times> string list)" where
  "source_lock_status l =
     (if slk_status l = ''passed'' then Inr (''passed'', [])
      else
        bindR (map_native_status (JStr (slk_status l))) (\<lambda>s.
        Inr (s, map (\<lambda>r. ''out_of_sample: '' @ r)
          (if slk_reasons l = [] then [''source lock returned '' @ slk_status l] else slk_reasons l))))"

definition blank :: "json \<Rightarrow> bool" where
  "blank j = (case j of JStr s \<Rightarrow> strip s = [] | _ \<Rightarrow> True)"

definition fold_lock_blanks :: "json \<Rightarrow> exn + bool list" where
  "fold_lock_blanks document =
     bindR (get_or ''evidence'' JNull document) (\<lambda>evidence.
     Inr (case evidence of
            JObj _ \<Rightarrow>
              (case jget ''folds'' evidence of
                 JList folds \<Rightarrow>
                   map (\<lambda>f. blank (jget ''parameter_lock_id'' f))
                     (filter (\<lambda>f. is_object f \<and> jget ''status'' f = JStr ''successful'' \<and>
                        jget ''selected_parameters'' f \<noteq> JNull) folds)
               | _ \<Rightarrow> [])
          | _ \<Rightarrow> []))"

definition robustness_native :: "json \<Rightarrow> exn + json" where
  "robustness_native document = bindR (get_or ''evidence'' (JObj []) document) (get_or ''robustness'' JNull)"

definition lock_comparisons :: "source_lock \<Rightarrow> json \<Rightarrow> json \<Rightarrow> (string \<times> json \<times> json) list" where
  "lock_comparisons l source config =
     [(''experiment_id'', slk_experiment_id l, jget ''experiment_id'' config),
      (''strategy_id'', slk_strategy_id l, jget ''strategy_id'' config),
      (''strategy_version'', slk_strategy_version l, jget ''strategy_version'' config),
      (''locked_parameters'', slk_locked_parameters l, jget ''locked_parameters'' config),
      (''data_provenance'', slk_data_provenance l, jget ''data_provenance'' source),
      (''execution_assumptions'', slk_execution_assumptions l, jget ''execution_assumptions'' source),
      (''source artifact identity'', slk_artifact_id l, jget ''source_artifact_id'' source)]"

text \<open>The statuses and reasons the comparison with the robustness evidence adds.\<close>

definition validate_source_lock_against_robustness ::
  "source_lock \<Rightarrow> evidence_record option \<Rightarrow> exn + (string list \<times> string list)" where
  "validate_source_lock_against_robustness l robustness =
     (case robustness of
        None \<Rightarrow> Inr ([], [])
      | Some r \<Rightarrow>
          bindR (robustness_native (er_document r)) (\<lambda>native.
          if \<not> is_object native then Inr ([''invalid''], [''robustness: native evidence is missing''])
          else
            let source = jget ''source'' native; config = jget ''configuration'' native in
            if \<not> is_object source \<or> \<not> is_object config
            then Inr ([''invalid''], [''robustness: source/configuration evidence is missing''])
            else
              let bad = filter (\<lambda>(label, left, right). \<not> json_eq left right) (lock_comparisons l source config)
              in Inr (map (\<lambda>_. ''invalid'') bad,
                   map (\<lambda>(label, _). ''robustness: source-lock '' @ label @ '' mismatch'') bad)))"

definition result_status :: "string list \<Rightarrow> string" where
  "result_status statuses =
     (if ''invalid'' \<in> set statuses then ''invalid''
      else if ''failed'' \<in> set statuses then ''failed''
      else if ''insufficient_evidence'' \<in> set statuses then ''insufficient_evidence''
      else ''passed'')"

section \<open>The result and its identity\<close>

definition reference_document :: "gate_reference \<Rightarrow> json" where
  "reference_document f =
     JObj [(''stage'', JStr (gf_stage f)), (''artifact_id'', gf_artifact_id f),
       (''evidence_identity'', opt_json (gf_evidence_identity f))]"

definition gate_identity_payload :: "gate_result \<Rightarrow> json" where
  "gate_identity_payload g =
     JObj
       [(''status'', JStr (gr_status g)), (''reasons'', JList (map JStr (gr_reasons g))),
        (''references'', JList (map reference_document (gr_references g))),
        (''parameter_lock_identity'', opt_json (gr_parameter_lock_identity g)),
        (''protected_data_state'', JStr (gr_protected_data_state g)),
        (''lineage_identity'', opt_json (gr_lineage_identity g)),
        (''eligible_to_execute_lockbox'', JBool (gr_eligible_to_execute g)),
        (''eligible_to_progress'', JBool False)]"

definition lockbox_gate_identity :: "(string \<Rightarrow> string) \<Rightarrow> gate_result \<Rightarrow> exn + string" where
  "lockbox_gate_identity sha g = identity sha (gate_identity_payload g)"

definition finish_gate :: "(string \<Rightarrow> string) \<Rightarrow> gate_result \<Rightarrow> exn + gate_result" where
  "finish_gate sha draft = bindR (lockbox_gate_identity sha draft) (\<lambda>i. Inr (draft\<lparr>gr_gate_identity := i\<rparr>))"

section \<open>Evaluation\<close>

record gate_state =
  gs_reasons :: "string list"
  gs_references :: "gate_reference list"
  gs_statuses :: "string list"
  gs_lineage :: "string option"

definition jot :: "string list \<Rightarrow> string list \<Rightarrow> gate_state \<Rightarrow> gate_state" where
  "jot statuses reasons g =
     g\<lparr>gs_statuses := gs_statuses g @ statuses, gs_reasons := gs_reasons g @ reasons\<rparr>"

text \<open>The checks of the source lock and the identity of its parameter lock.\<close>

definition check_source_lock ::
  "source_lock option \<Rightarrow> gate_state \<Rightarrow> exn + (string option \<times> gate_state)" where
  "check_source_lock lock g =
     (case lock of
        None \<Rightarrow> Inr (None, jot [''insufficient_evidence''] [''out_of_sample: source lock evidence is missing''] g)
      | Some l \<Rightarrow>
          let g1 = g\<lparr>gs_references := gs_references g @
                [\<lparr>gf_stage = ''out_of_sample'', gf_artifact_id = slk_artifact_id l, gf_evidence_identity = None\<rparr>]\<rparr> in
          bindR (source_lock_status l) (\<lambda>(s, rs).
          let g2 = jot [s] rs g1 in
          if slk_locked_parameters l = JNull
          then Inr (None, jot [''invalid''] [''out_of_sample: locked parameters are missing''] g2)
          else if (case slk_artifact_id l of JStr t \<Rightarrow> t = [] | _ \<Rightarrow> True)
          then Inr (None, jot [''invalid''] [''out_of_sample: artifact identity is missing''] g2)
          else if blank (slk_parameter_lock_id l)
          then Inr (None, jot [''invalid''] [''out_of_sample: parameter-lock identity is missing''] g2)
          else Inr (case slk_parameter_lock_id l of JStr t \<Rightarrow> Some t | _ \<Rightarrow> None, g2)))"

text \<open>Only \<open>KeyError\<close>, \<open>TypeError\<close> and \<open>ValueError\<close> are turned into a reason.\<close>

definition source_identity :: "(string \<Rightarrow> string) \<Rightarrow> json \<Rightarrow> exn + string" where
  "source_identity sha document =
     (case document of
        JObj kvs \<Rightarrow>
          (case map_of kvs ''source'' of
             None \<Rightarrow> Inl (KeyError ''source'')
           | Some source \<Rightarrow> lineage_identity sha source)
      | _ \<Rightarrow> Inl (TypeError ''document is not subscriptable by name''))"

definition check_lineage :: "(string \<Rightarrow> string) \<Rightarrow> string \<Rightarrow> json \<Rightarrow> gate_state \<Rightarrow> gate_state" where
  "check_lineage sha stage document g =
     (case source_identity sha document of
        Inl e \<Rightarrow> jot [''invalid''] [stage @ '': source lineage is invalid: '' @ exn_text e] g
      | Inr current \<Rightarrow>
          (case gs_lineage g of
             None \<Rightarrow> g\<lparr>gs_lineage := Some current\<rparr>
           | Some i \<Rightarrow>
               if i \<noteq> current then jot [''invalid''] [stage @ '': source lineage mismatch''] g else g))"

definition check_stage ::
  "(string \<Rightarrow> string) \<Rightarrow> string \<Rightarrow> evidence_record option \<Rightarrow> gate_state \<Rightarrow> exn + gate_state" where
  "check_stage sha stage evidence g =
     (case evidence of
        None \<Rightarrow> Inr (jot [''insufficient_evidence''] [stage @ '': evidence artifact is missing''] g)
      | Some e \<Rightarrow>
          let g1 = g\<lparr>gs_references := gs_references g @
                [\<lparr>gf_stage = stage, gf_artifact_id = JStr (nat_str (er_artifact_id e)),
                  gf_evidence_identity = Some (er_evidence_identity e)\<rparr>]\<rparr>;
              g2 = check_lineage sha stage (er_document e) g1 in
          (case bindR (normalized_evidence (er_document e)) (stage_status stage) of
             Inr (s, rs) \<Rightarrow> Inr (jot [s] rs g2)
           | Inl exc \<Rightarrow>
               if is_value_error exc then Inr (jot [''invalid''] [stage @ '': '' @ exn_text exc] g2)
               else Inl exc))"

definition check_lock_agreement ::
  "source_lock option \<Rightarrow> evidence_record option \<Rightarrow> evidence_record option \<Rightarrow> gate_state \<Rightarrow> exn + gate_state" where
  "check_lock_agreement lock walk_forward robustness g =
     (case lock of
        None \<Rightarrow> Inr g
      | Some l \<Rightarrow>
          if slk_locked_parameters l = JNull then Inr g
          else
            bindR (validate_source_lock_against_robustness l robustness) (\<lambda>(ss, rs).
            bindR (case walk_forward of None \<Rightarrow> Inr [] | Some w \<Rightarrow> fold_lock_blanks (er_document w)) (\<lambda>blanks.
            let g1 = jot ss rs g in
            Inr (if True \<in> set blanks
                 then jot [''invalid''] [''walk_forward: parameter-lock identity is missing''] g1 else g1))))"

definition check_protected_state :: "string \<Rightarrow> string \<times> gate_state" where
  "check_protected_state protected_data_state =
     (let state = (if protected_data_state \<in> set PROTECTED_DATA_STATES then protected_data_state else ''invalid'');
          g = \<lparr>gs_reasons = [], gs_references = [], gs_statuses = [], gs_lineage = None\<rparr>
      in (state,
          if state = ''gated'' then g
          else jot [if state = ''invalid'' then ''invalid'' else ''failed'']
            [if state = ''spent'' then ''protected data state is already spent''
             else ''protected data state must be gated before lockbox execution''] g))"

definition evaluate_lockbox_prerequisites ::
  "(string \<Rightarrow> string) \<Rightarrow> evidence_record option \<Rightarrow> evidence_record option \<Rightarrow> evidence_record option \<Rightarrow>
   source_lock option \<Rightarrow> string \<Rightarrow> exn + gate_result" where
  "evaluate_lockbox_prerequisites sha walk_forward monte_carlo robustness lock protected_data_state =
     (case check_protected_state protected_data_state of (state, g0) \<Rightarrow>
      bindR (check_source_lock lock g0) (\<lambda>(parameter_lock, g1).
      bindR (check_stage sha ''walk_forward'' walk_forward g1) (\<lambda>g2.
      bindR (check_stage sha ''monte_carlo'' monte_carlo g2) (\<lambda>g3.
      bindR (check_stage sha ''robustness'' robustness g3) (\<lambda>g4.
      bindR (check_lock_agreement lock walk_forward robustness g4) (\<lambda>g5.
      let status = result_status (gs_statuses g5) in
      bindR (combined_lineage_identity sha (gs_lineage g5) lock) (\<lambda>combined.
      finish_gate sha
        \<lparr>gr_status = status,
         gr_reasons = (if status = ''passed'' \<and> gs_reasons g5 = [] then []
                       else if gs_reasons g5 = [] then [''lockbox gate returned '' @ status]
                       else gs_reasons g5),
         gr_references = gs_references g5, gr_parameter_lock_identity = parameter_lock,
         gr_protected_data_state = state, gr_lineage_identity = combined, gr_gate_identity = [],
         gr_eligible_to_execute = (status = ''passed'' \<and> state = ''gated''),
         gr_eligible_to_progress = False\<rparr>)))))))"

end
