(* ===== verification/Evidence_Service.thy ===== *)
theory Evidence_Service
  imports Lockbox_Gate Launch_Claims
begin

text \<open>
  The outcome of a validation stage and the gate over persisted evidence, as
  \<open>ValidationEvidenceArtifactService\<close> (\<open>backtesting/validation/evidence_service.py\<close>) derives them.
  Reopening a stage's artifact and the source lock is an argument: \<open>evidence_port\<close> holds what
  \<open>retrieve_walk_forward\<close>, \<open>retrieve_monte_carlo\<close>, \<open>retrieve_robustness\<close> and
  \<open>retrieve_out_of_sample_source_lock\<close> return or raise, from the database and the run.
\<close>

record evidence_port =
  ep_retrieve :: "run_stage \<Rightarrow> db \<Rightarrow> string \<Rightarrow> exn + evidence_record"
  ep_source_lock :: "db \<Rightarrow> string \<Rightarrow> exn + source_lock"

record stage_outcome =
  so_stage :: string
  so_status :: json
  so_reasons :: "json list"
  so_protected_data_state :: json
  so_evidence_identity :: "string option"
  so_artifact_id :: "nat option"
  so_eligible :: bool

definition missing_evidence_status :: "string \<Rightarrow> string" where
  "missing_evidence_status message =
     (let lower = map lower_char message in
      if contains_text ''no persisted manifest'' lower \<or> contains_text ''artifact_missing'' lower
         \<or> suffix ''evidence artifact is missing'' lower
      then ''insufficient_evidence'' else ''invalid'')"

definition subscript :: "string \<Rightarrow> json \<Rightarrow> exn + json" where
  "subscript k j =
     (case j of
        JObj kvs \<Rightarrow> (case map_of kvs k of None \<Rightarrow> Inl (KeyError k) | Some v \<Rightarrow> Inr v)
      | _ \<Rightarrow> Inl (TypeError ''object is not subscriptable by name''))"

text \<open>What the handler of \<open>(RuntimeError, ValueError)\<close> catches.\<close>

definition evidence_error :: "exn \<Rightarrow> bool" where
  "evidence_error e \<longleftrightarrow> is_runtime_error e \<or> is_value_error e"

definition bare_outcome :: "string \<Rightarrow> string \<Rightarrow> json list \<Rightarrow> stage_outcome" where
  "bare_outcome stage status reasons =
     \<lparr>so_stage = stage, so_status = JStr status, so_reasons = reasons, so_protected_data_state = JNull,
      so_evidence_identity = None, so_artifact_id = None, so_eligible = False\<rparr>"

definition stage_outcome_of :: "evidence_port \<Rightarrow> string \<Rightarrow> db \<Rightarrow> exn + stage_outcome" where
  "stage_outcome_of port run_id d =
     (case run_get run_id d of
        None \<Rightarrow> Inl (KeyError (''unknown run '' @ run_id))
      | Some r \<Rightarrow>
          let stage = run_stage_value (rn_stage r) in
          if rn_stage r \<notin> {STAGE_WALK_FORWARD, STAGE_MONTE_CARLO, STAGE_ROBUSTNESS}
          then Inr (bare_outcome stage ''not_run'' [])
          else
            (case ep_retrieve port (rn_stage r) d run_id of
               Inl e \<Rightarrow>
                 if evidence_error e
                 then Inr (bare_outcome stage (missing_evidence_status (exn_text e)) [JStr (exn_text e)])
                 else Inl e
             | Inr record \<Rightarrow>
                 bindR (bindR (subscript ''evidence'' (er_document record)) (subscript ''normalized_evidence''))
                   (\<lambda>normalized.
                 bindR (subscript ''status'' normalized) (\<lambda>status.
                 bindR (evidence_reasons normalized) (\<lambda>reasons.
                 Inr \<lparr>so_stage = stage, so_status = status, so_reasons = reasons,
                      so_protected_data_state = jget ''protected_data_state'' normalized,
                      so_evidence_identity = Some (er_evidence_identity record),
                      so_artifact_id = Some (er_artifact_id record),
                      so_eligible = truthy (jget ''eligible_to_progress'' normalized)\<rparr>)))))"

text \<open>One retrieval for the gate: the record, or the failure its handler records.\<close>

definition gate_retrieve ::
  "evidence_port \<Rightarrow> run_stage \<Rightarrow> string \<Rightarrow> db \<Rightarrow> exn + (evidence_record option \<times> (string \<times> string \<times> string) list)"
  where
  "gate_retrieve port stage run_id d =
     (case ep_retrieve port stage d run_id of
        Inr r \<Rightarrow> Inr (Some r, [])
      | Inl e \<Rightarrow>
          if evidence_error e
          then Inr (None, [(run_stage_value stage, missing_evidence_status (exn_text e), exn_text e)])
          else Inl e)"

definition evaluate_persisted_gate ::
  "(string \<Rightarrow> string) \<Rightarrow> evidence_port \<Rightarrow> string \<Rightarrow> string \<Rightarrow> string \<Rightarrow> source_lock option \<Rightarrow> string \<Rightarrow> db \<Rightarrow>
   exn + gate_result" where
  "evaluate_persisted_gate sha port walk_forward_run monte_carlo_run robustness_run lock protected_data_state d =
     bindR (gate_retrieve port STAGE_WALK_FORWARD walk_forward_run d) (\<lambda>(wf, f1).
     bindR (gate_retrieve port STAGE_MONTE_CARLO monte_carlo_run d) (\<lambda>(mc, f2).
     bindR (gate_retrieve port STAGE_ROBUSTNESS robustness_run d) (\<lambda>(rb, f3).
     bindR (evaluate_lockbox_prerequisites sha wf mc rb lock protected_data_state) (\<lambda>result.
     let failures = f1 @ f2 @ f3; statuses = gr_status result # map (fst \<circ> snd) failures in
     if failures = [] then Inr result
     else
       finish_gate sha
         (result\<lparr>gr_status := (if ''invalid'' \<in> set statuses then ''invalid''
              else if ''failed'' \<in> set statuses then ''failed'' else ''insufficient_evidence''),
            gr_reasons := gr_reasons result @ map (\<lambda>(stage, _, message). stage @ '': '' @ message) failures,
            gr_gate_identity := [], gr_eligible_to_execute := False, gr_eligible_to_progress := False\<rparr>)))))"

end
