(* ===== verification/Filter_Chain.thy ===== *)
theory Filter_Chain
  imports Launch_Protocol Evidence_Service
begin

text \<open>
  The filter chain (\<open>orchestration/filter_chain.py\<close>): from a succeeded screening run through the
  four validation stages, each one reserved as a run under a deterministic identity before its
  adapter is invoked, to the gate before the protected test. An adapter is an argument: a function
  of its context and the database that returns a reference or raises, and may change the database.
  A call is a sequence of transactions, so what an earlier one committed stays when a later one
  raises: every step returns the database it leaves, with its result or its exception.
\<close>

type_synonym 'a step = "db \<Rightarrow> (exn + 'a) \<times> db"

section \<open>Data\<close>

definition VALIDATION_STAGE_ORDER :: "run_stage list" where
  "VALIDATION_STAGE_ORDER = [STAGE_OOS, STAGE_WALK_FORWARD, STAGE_ROBUSTNESS, STAGE_MONTE_CARLO]"

definition SCORED_VALIDATION_STAGES :: "run_stage list" where
  "SCORED_VALIDATION_STAGES = [STAGE_WALK_FORWARD, STAGE_ROBUSTNESS, STAGE_MONTE_CARLO]"

record stage_reference =
  sf_stage :: run_stage
  sf_run_id :: string

record stage_context =
  cx_screening_run_id :: string
  cx_stage :: run_stage
  cx_run_id :: string
  cx_previous :: "stage_reference list"

record stage_handoff =
  ho_stage :: run_stage
  ho_run_id :: string
  ho_status :: json
  ho_eligible :: bool
  ho_evidence_identity :: json
  ho_reasons :: "json list"

record chain_outcome =
  co_status :: string
  co_screening_run_id :: string
  co_completed :: "stage_handoff list"
  co_stopped_at :: "string option"
  co_reasons :: "json list"
  co_gate :: "gate_result option"

type_synonym stage_adapter = "stage_context \<Rightarrow> stage_reference step"

text \<open>What one stage reads from outside: the captured runtime lineage and three clock readings.\<close>

record stage_inputs =
  si_captured :: "exn + runtime_lineage"
  si_created :: string
  si_failed :: string
  si_event :: string

definition stage_may_progress :: "run_stage \<Rightarrow> stage_outcome \<Rightarrow> bool" where
  "stage_may_progress stage outcome =
     (if so_status outcome = JStr ''passed'' then True
      else if stage \<in> set SCORED_VALIDATION_STAGES \<and> so_status outcome = JStr ''failed'' then True
      else if stage = STAGE_MONTE_CARLO \<and> so_status outcome = JStr ''insufficient_evidence'' then True
      else stage = STAGE_WALK_FORWARD \<and> so_status outcome = JStr ''insufficient_evidence'' \<and>
        so_reasons outcome = [JStr OPEN_FOLDS_REASON])"

definition handoff_run_id :: "(string \<Rightarrow> string) \<Rightarrow> string \<Rightarrow> string \<Rightarrow> run_stage \<Rightarrow> string" where
  "handoff_run_id sha screening_run_id source_run_id stage =
     ''run_'' @ take 32 (sha (''factory_filter_handoff_v1|'' @ screening_run_id @ ''|'' @ source_run_id
       @ ''|'' @ run_stage_value stage))"

section \<open>One stage\<close>

definition reserve_stage_run ::
  "(string \<Rightarrow> string) \<Rightarrow> stage_inputs \<Rightarrow> string \<Rightarrow> run_stage \<Rightarrow> string \<Rightarrow> string \<Rightarrow> bool step" where
  "reserve_stage_run sha inp screening_run_id stage run_id source_run_id d =
     (if run_get run_id d \<noteq> None then (Inr False, d)
      else
        (case run_get screening_run_id d of
           None \<Rightarrow> (Inl AssertionError, d)
         | Some screening \<Rightarrow>
             (case create_run sha (si_captured inp) [] (si_created inp) (rn_configuration_id screening)
                 (rn_strategy_id screening) (rn_strategy_version screening) stage (Some run_id) CREATED
                 (Some [(''filter_handoff'', JObj [(''source_run_id'', JStr source_run_id)])]) d of
                (Inr _, d') \<Rightarrow> (Inr True, d')
              | (Inl e, d') \<Rightarrow>
                  (case e of
                     IntegrityError m \<Rightarrow>
                       if run_get run_id d' = None then (Inl e, d') else (Inr False, d')
                   | _ \<Rightarrow> (Inl e, d')))))"

definition unknown_outcome :: "run_stage \<Rightarrow> exn" where
  "unknown_outcome stage =
     FilterStageInvocationUnknownError (run_stage_value stage @ '' adapter outcome is unknown; ''
       @ ''automatic rerun is blocked pending owner investigation'')"

text \<open>The handler of an adapter that raised.\<close>

definition after_adapter_error :: "stage_inputs \<Rightarrow> run_stage \<Rightarrow> string \<Rightarrow> stage_reference step" where
  "after_adapter_error inp stage run_id d =
     (let persisted = run_get run_id d in
      if (case persisted of None \<Rightarrow> False | Some r \<Rightarrow> rn_status r = SUCCEEDED)
      then (Inr \<lparr>sf_stage = stage, sf_run_id = run_id\<rparr>, d)
      else if (case persisted of None \<Rightarrow> False | Some r \<Rightarrow> rn_status r \<in> {CREATED, RUNNING})
      then
        andThen (transition_run (si_failed inp) run_id FAILED
          (Some (''Filter-stage adapter outcome is unknown; automatic rerun is blocked pending ''
            @ ''owner investigation.''))) (\<lambda>failed.
        andThen (append_run_event (si_event inp) run_id EV_RUN_FAILED SEV_ERROR
          ''Filter stage stopped with an unknown outcome; automatic rerun is blocked.'' quant_factory
          (rn_completed_at failed)) (\<lambda>_.
        askS (\<lambda>_. Inl (unknown_outcome stage)))) d
      else (Inl (unknown_outcome stage), d))"

definition invoke_adapter ::
  "(run_stage \<times> stage_adapter) list \<Rightarrow> stage_inputs \<Rightarrow> stage_context \<Rightarrow> stage_reference step" where
  "invoke_adapter adapters inp ctx d =
     (case map_of adapters (cx_stage ctx) of
        None \<Rightarrow> after_adapter_error inp (cx_stage ctx) (cx_run_id ctx) d
      | Some adapter \<Rightarrow>
          (case adapter ctx d of
             (Inr reference, d') \<Rightarrow> (Inr reference, d')
           | (Inl _, d') \<Rightarrow> after_adapter_error inp (cx_stage ctx) (cx_run_id ctx) d'))"

definition validate_persisted_reference ::
  "string \<Rightarrow> run_stage \<Rightarrow> string \<Rightarrow> string \<Rightarrow> stage_reference \<Rightarrow> db \<Rightarrow> exn + unit" where
  "validate_persisted_reference screening_run_id stage source_run_id expected_run_id reference d =
     (let name = run_stage_value stage in
      bindR (guardR (sf_stage reference = stage)
        (ValueError (''expected '' @ name @ '' handoff, got '' @ run_stage_value (sf_stage reference)))) (\<lambda>_.
      bindR (guardR (strip (sf_run_id reference) \<noteq> [])
        (ValueError (name @ '' handoff run identity is incomplete''))) (\<lambda>_.
      bindR (guardR (sf_run_id reference = expected_run_id)
        (ValueError (name @ '' handoff did not use its durable run identity''))) (\<lambda>_.
      (case (run_get screening_run_id d, run_get (sf_run_id reference) d) of
         (Some source, Some persisted) \<Rightarrow>
           bindR (guardR (rn_stage persisted = stage \<and> rn_status persisted = SUCCEEDED \<and>
               rn_configuration_id persisted = rn_configuration_id source \<and>
               rn_strategy_id persisted = rn_strategy_id source \<and>
               rn_strategy_version persisted = rn_strategy_version source)
             (ValueError (name @ '' handoff disagrees with persisted run identity''))) (\<lambda>_.
           (case json_loads (rn_environment_json persisted) of
              None \<Rightarrow> Inl (ValueError (name @ '' handoff lineage is malformed''))
            | Some environment \<Rightarrow>
                bindR (get_or ''filter_handoff'' JNull environment) (\<lambda>handoff.
                guardR (is_object handoff \<and> jget ''source_run_id'' handoff = JStr source_run_id)
                  (ValueError (name @ '' handoff predecessor lineage is invalid'')))))
       | _ \<Rightarrow> Inl (ValueError (name @ '' handoff run is not persisted'')))))))"

text \<open>The handoff derived from the persisted evidence, with the source lock of the first stage.\<close>

definition derive_handoff ::
  "evidence_port \<Rightarrow> run_stage \<Rightarrow> string \<Rightarrow> source_lock option \<Rightarrow> db \<Rightarrow>
   exn + (stage_handoff \<times> source_lock option)" where
  "derive_handoff port stage run_id lock d =
     (if stage = STAGE_OOS then
        (case ep_source_lock port d run_id of
           Inl e \<Rightarrow>
             if is_key_error e \<or> evidence_error e
             then Inr (\<lparr>ho_stage = stage, ho_run_id = run_id, ho_status = JStr ''invalid'', ho_eligible = False,
                    ho_evidence_identity = JNull, ho_reasons = [JStr (exn_text e)]\<rparr>, lock)
             else Inl e
         | Inr l \<Rightarrow>
             Inr (\<lparr>ho_stage = stage, ho_run_id = run_id, ho_status = JStr (slk_status l),
                    ho_eligible = (slk_status l = ''passed''), ho_evidence_identity = slk_artifact_id l,
                    ho_reasons = map JStr (slk_reasons l)\<rparr>, Some l))
      else
        bindR (stage_outcome_of port run_id d) (\<lambda>outcome.
        Inr (\<lparr>ho_stage = stage, ho_run_id = run_id, ho_status = so_status outcome,
               ho_eligible = stage_may_progress stage outcome,
               ho_evidence_identity = opt_json (so_evidence_identity outcome),
               ho_reasons = so_reasons outcome\<rparr>, lock)))"

text \<open>\<open>adapters = None\<close> is the read-only replay of \<open>reopen\<close>.\<close>

definition stage_reference_step ::
  "(string \<Rightarrow> string) \<Rightarrow> (run_stage \<Rightarrow> stage_inputs) \<Rightarrow> (run_stage \<times> stage_adapter) list option \<Rightarrow>
   stage_context \<Rightarrow> string \<Rightarrow> stage_reference step" where
  "stage_reference_step sha inp adapters ctx source_run_id d =
     (let stage = cx_stage ctx; run_id = cx_run_id ctx; existing = run_get run_id d;
          reuse = \<lparr>sf_stage = stage, sf_run_id = run_id\<rparr> in
      case adapters of
        None \<Rightarrow>
          (case existing of
             None \<Rightarrow> (Inl (FilterChainReplayIncompleteError
               (''persisted filter chain is incomplete at '' @ run_stage_value stage)), d)
           | Some r \<Rightarrow>
               if rn_status r \<noteq> SUCCEEDED
               then (Inl (FilterChainReplayIncompleteError (''persisted '' @ run_stage_value stage @ '' stage is ''
                      @ run_status_value (rn_status r))), d)
               else (Inr reuse, d))
      | Some ads \<Rightarrow>
          if existing \<noteq> None then (Inr reuse, d)
          else
            andThen (reserve_stage_run sha (inp stage) (cx_screening_run_id ctx) stage run_id source_run_id)
              (\<lambda>reserved. if reserved then invoke_adapter ads (inp stage) ctx else (\<lambda>d'. (Inr reuse, d'))) d)"

definition last_run :: "string \<Rightarrow> stage_reference list \<Rightarrow> string" where
  "last_run screening_run_id references =
     (if references = [] then screening_run_id else sf_run_id (last references))"

definition run_one_stage ::
  "(string \<Rightarrow> string) \<Rightarrow> evidence_port \<Rightarrow> (run_stage \<Rightarrow> stage_inputs) \<Rightarrow>
   (run_stage \<times> stage_adapter) list option \<Rightarrow> string \<Rightarrow> run_stage \<Rightarrow> stage_reference list \<Rightarrow>
   source_lock option \<Rightarrow> (stage_reference \<times> stage_handoff \<times> source_lock option) step" where
  "run_one_stage sha port inp adapters screening_run_id stage references lock =
     (let source = last_run screening_run_id references;
          run_id = handoff_run_id sha screening_run_id source stage;
          ctx = \<lparr>cx_screening_run_id = screening_run_id, cx_stage = stage, cx_run_id = run_id,
                 cx_previous = references\<rparr> in
      andThen (stage_reference_step sha inp adapters ctx source) (\<lambda>reference.
      andThen (askS (validate_persisted_reference screening_run_id stage source run_id reference)) (\<lambda>_.
      andThen (askS (derive_handoff port stage (sf_run_id reference) lock)) (\<lambda>(handoff, lock').
      askS (\<lambda>_. Inr (reference, handoff, lock'))))))"

section \<open>The chain\<close>

definition stopped_outcome :: "string \<Rightarrow> stage_handoff list \<Rightarrow> run_stage \<Rightarrow> stage_handoff \<Rightarrow> chain_outcome" where
  "stopped_outcome screening_run_id completed stage handoff =
     \<lparr>co_status = ''stopped'', co_screening_run_id = screening_run_id, co_completed = completed,
      co_stopped_at = Some (run_stage_value stage),
      co_reasons = (if ho_reasons handoff = []
                    then [JStr (run_stage_value stage @ '' did not qualify for the next filter.'')]
                    else ho_reasons handoff),
      co_gate = None\<rparr>"

text \<open>The loop over the stages: \<open>Inl\<close> an outcome when it returns early, else what it collected.\<close>

fun run_stages ::
  "(string \<Rightarrow> string) \<Rightarrow> evidence_port \<Rightarrow> (run_stage \<Rightarrow> stage_inputs) \<Rightarrow>
   (run_stage \<times> stage_adapter) list option \<Rightarrow> string \<Rightarrow> run_stage list \<Rightarrow> stage_reference list \<Rightarrow>
   stage_handoff list \<Rightarrow> source_lock option \<Rightarrow>
   (chain_outcome + (stage_reference list \<times> stage_handoff list \<times> source_lock option)) step" where
  "run_stages sha port inp adapters screening_run_id [] references completed lock =
     askS (\<lambda>_. Inr (Inr (references, completed, lock)))"
| "run_stages sha port inp adapters screening_run_id (stage # stages) references completed lock =
     andThen (run_one_stage sha port inp adapters screening_run_id stage references lock)
       (\<lambda>(reference, handoff, lock').
        if \<not> ho_eligible handoff
        then askS (\<lambda>_. Inr (Inl (stopped_outcome screening_run_id (completed @ [handoff]) stage handoff)))
        else run_stages sha port inp adapters screening_run_id stages (references @ [reference])
               (completed @ [handoff]) lock')"

definition stage_run :: "stage_reference list \<Rightarrow> run_stage \<Rightarrow> exn + string" where
  "stage_run references stage =
     (case find (\<lambda>f. sf_stage f = stage) (rev references) of
        None \<Rightarrow> Inl (KeyError (run_stage_value stage))
      | Some f \<Rightarrow> Inr (sf_run_id f))"

definition gate_outcome ::
  "(string \<Rightarrow> string) \<Rightarrow> evidence_port \<Rightarrow> string \<Rightarrow> stage_reference list \<Rightarrow> stage_handoff list \<Rightarrow>
   source_lock option \<Rightarrow> db \<Rightarrow> exn + chain_outcome" where
  "gate_outcome sha port screening_run_id references completed lock d =
     bindR (guardR (lock \<noteq> None) AssertionError) (\<lambda>_.
     bindR (stage_run references STAGE_WALK_FORWARD) (\<lambda>wf.
     bindR (stage_run references STAGE_MONTE_CARLO) (\<lambda>mc.
     bindR (stage_run references STAGE_ROBUSTNESS) (\<lambda>rb.
     bindR (evaluate_persisted_gate sha port wf mc rb lock ''gated'' d) (\<lambda>gate.
     Inr (if \<not> gr_eligible_to_execute gate
          then \<lparr>co_status = ''stopped'', co_screening_run_id = screening_run_id, co_completed = completed,
                co_stopped_at = Some ''protected_test_gate'',
                co_reasons = (if gr_reasons gate = []
                              then [JStr ''The protected test prerequisites did not pass.'']
                              else map JStr (gr_reasons gate)),
                co_gate = Some gate\<rparr>
          else \<lparr>co_status = ''ready_for_protected_test'', co_screening_run_id = screening_run_id,
                co_completed = completed, co_stopped_at = None,
                co_reasons = [JStr ''Protected test remains locked until separate authority is granted.''],
                co_gate = Some gate\<rparr>))))))"

text \<open>The checks of the screening run: \<open>Some\<close> an outcome when no result qualified.\<close>

definition check_screening :: "string \<Rightarrow> db \<Rightarrow> exn + chain_outcome option" where
  "check_screening screening_run_id d =
     (case run_get screening_run_id d of
        None \<Rightarrow> Inl (KeyError (''unknown screening run '' @ screening_run_id))
      | Some screening \<Rightarrow>
          bindR (guardR (rn_stage screening = STAGE_SCREENING)
            (ValueError ''filter-chain source must be a screening run'')) (\<lambda>_.
          bindR (guardR (rn_status screening = SUCCEEDED)
            (ValueError ''filter-chain source screening run must have succeeded'')) (\<lambda>_.
          let rows = list_parameter_results screening_run_id d in
          bindR (guardR (rows \<noteq> []) (ValueError ''screening run has no persisted ranked results'')) (\<lambda>_.
          if \<exists>row \<in> set rows. pr_screening_status row = ''passed'' then Inr None
          else
            let reasons = filter (\<lambda>t. t \<noteq> []) (map (\<lambda>row. strip (pr_rejection_reasons row)) rows) in
            Inr (Some \<lparr>co_status = ''screened_out'', co_screening_run_id = screening_run_id, co_completed = [],
              co_stopped_at = Some (run_stage_value STAGE_SCREENING),
              co_reasons = (if reasons = [] then [JStr ''No screening result qualified for later filters.'']
                            else map JStr reasons),
              co_gate = None\<rparr>)))))"

definition require_complete_adapters :: "run_stage list \<Rightarrow> exn + unit" where
  "require_complete_adapters supplied =
     (let missing = sort (map run_stage_value (filter (\<lambda>s. s \<notin> set supplied) VALIDATION_STAGE_ORDER));
          extra = sort (map run_stage_value
            (filter (\<lambda>s. s \<notin> set VALIDATION_STAGE_ORDER) (remdups supplied)));
          details = (if missing = [] then [] else [''missing: '' @ commas missing]) @
                    (if extra = [] then [] else [''unexpected: '' @ commas extra])
      in
      guardR (set supplied = set VALIDATION_STAGE_ORDER)
        (ValueError (''filter-stage adapters are incomplete ('' @
           (case details of [] \<Rightarrow> [] | [x] \<Rightarrow> x | x # y # _ \<Rightarrow> x @ ''; '' @ y) @ '')'')))"

definition run_filter_chain ::
  "(string \<Rightarrow> string) \<Rightarrow> evidence_port \<Rightarrow> (run_stage \<Rightarrow> stage_inputs) \<Rightarrow>
   (run_stage \<times> stage_adapter) list option \<Rightarrow> string \<Rightarrow> chain_outcome step" where
  "run_filter_chain sha port inp adapters screening_run_id =
     andThen (askS (check_screening screening_run_id)) (\<lambda>screened.
     case screened of
       Some outcome \<Rightarrow> askS (\<lambda>_. Inr outcome)
     | None \<Rightarrow>
         andThen (askS (\<lambda>_. case adapters of None \<Rightarrow> Inr () | Some ads \<Rightarrow> require_complete_adapters (map fst ads)))
           (\<lambda>_.
         andThen (run_stages sha port inp adapters screening_run_id VALIDATION_STAGE_ORDER [] [] None) (\<lambda>r.
         case r of
           Inl outcome \<Rightarrow> askS (\<lambda>_. Inr outcome)
         | Inr (references, completed, lock) \<Rightarrow>
             askS (gate_outcome sha port screening_run_id references completed lock))))"

definition run_chain ::
  "(string \<Rightarrow> string) \<Rightarrow> evidence_port \<Rightarrow> (run_stage \<Rightarrow> stage_inputs) \<Rightarrow> (run_stage \<times> stage_adapter) list \<Rightarrow>
   string \<Rightarrow> chain_outcome step" where
  "run_chain sha port inp adapters = run_filter_chain sha port inp (Some adapters)"

text \<open>The replay reads no clock and captures nothing; its inputs are never used.\<close>

definition reopen_chain ::
  "(string \<Rightarrow> string) \<Rightarrow> evidence_port \<Rightarrow> (run_stage \<Rightarrow> stage_inputs) \<Rightarrow> string \<Rightarrow> chain_outcome step" where
  "reopen_chain sha port inp = run_filter_chain sha port inp None"

end
