(* ===== verification/Gate_Laws.thy ===== *)
theory Gate_Laws
  imports Evidence_Service
begin

text \<open>
  What the gate before the protected test decides: \<open>gate_open\<close> states the owner's rule without the
  order of the checks, their texts and their statuses, and \<open>evaluate_lockbox_prerequisites\<close> opens
  exactly when it holds.
\<close>

section \<open>The rule\<close>

text \<open>A stage's evidence stops the idea only when it is invalid or missing.\<close>

definition stage_accepts :: "string \<Rightarrow> json \<Rightarrow> bool" where
  "stage_accepts stage n \<longleftrightarrow>
     jget ''status'' n \<in> {JStr ''passed'', JStr ''failed''} \<or>
     jget ''status'' n = JStr ''insufficient_evidence'' \<and>
       (stage = ''monte_carlo'' \<or>
        stage = ''walk_forward'' \<and> evidence_reasons n = Inr [JStr OPEN_FOLDS_REASON])"

definition record_accepted :: "(string \<Rightarrow> string) \<Rightarrow> string \<Rightarrow> string \<Rightarrow> evidence_record option \<Rightarrow> bool" where
  "record_accepted sha stage i e \<longleftrightarrow>
     (\<exists>r n. e = Some r \<and> source_identity sha (er_document r) = Inr i \<and>
        normalized_evidence (er_document r) = Inr n \<and> stage_accepts stage n)"

definition lock_complete :: "source_lock \<Rightarrow> bool" where
  "lock_complete l \<longleftrightarrow>
     slk_status l = ''passed'' \<and> slk_locked_parameters l \<noteq> JNull \<and>
     (\<exists>t. slk_artifact_id l = JStr t \<and> t \<noteq> []) \<and> \<not> blank (slk_parameter_lock_id l)"

text \<open>The robustness evidence was computed for this very lock.\<close>

definition lock_matches :: "source_lock \<Rightarrow> json \<Rightarrow> bool" where
  "lock_matches l document \<longleftrightarrow>
     (\<exists>native. robustness_native document = Inr native \<and> is_object native \<and>
        is_object (jget ''source'' native) \<and> is_object (jget ''configuration'' native) \<and>
        (\<forall>(label, left, right) \<in> set (lock_comparisons l (jget ''source'' native) (jget ''configuration'' native)).
           json_eq left right))"

definition gate_open ::
  "(string \<Rightarrow> string) \<Rightarrow> evidence_record option \<Rightarrow> evidence_record option \<Rightarrow> evidence_record option \<Rightarrow>
   source_lock option \<Rightarrow> string \<Rightarrow> bool" where
  "gate_open sha walk_forward monte_carlo robustness lock state \<longleftrightarrow>
     state = ''gated'' \<and>
     (\<exists>l i. lock = Some l \<and> lock_complete l \<and>
        record_accepted sha ''walk_forward'' i walk_forward \<and>
        record_accepted sha ''monte_carlo'' i monte_carlo \<and>
        record_accepted sha ''robustness'' i robustness \<and>
        lock_matches l (er_document (the robustness)) \<and>
        (\<exists>blanks. fold_lock_blanks (er_document (the walk_forward)) = Inr blanks \<and> True \<notin> set blanks))"

section \<open>Statuses\<close>

definition clean :: "string list \<Rightarrow> bool" where
  "clean ss \<longleftrightarrow> result_status ss = ''passed''"

lemma clean_simps [simp]:
  "clean []"
  "clean (xs @ ys) \<longleftrightarrow> clean xs \<and> clean ys"
  "clean (s # xs) \<longleftrightarrow> s \<notin> {''invalid'', ''failed'', ''insufficient_evidence''} \<and> clean xs"
  by (auto simp: clean_def result_status_def)

lemma jot_simps [simp]:
  "gs_statuses (jot ss rs g) = gs_statuses g @ ss" "gs_lineage (jot ss rs g) = gs_lineage g"
  by (simp_all add: jot_def)

lemma map_native_clean:
  "map_native_status status = Inr s \<Longrightarrow> clean [s] \<longleftrightarrow> status = JStr ''passed''"
  by (auto simp: map_native_status_def split: json.splits if_splits)

lemma walk_forward_ok_Inr:
  "walk_forward_ok n = Inr b \<Longrightarrow>
   b \<longleftrightarrow> jget ''status'' n = JStr ''insufficient_evidence'' \<and> evidence_reasons n = Inr [JStr OPEN_FOLDS_REASON]"
  by (auto simp: walk_forward_ok_def split: if_splits)

lemma stage_status_outcome:
  assumes "stage_status stage n = Inr (s, rs)" and "jget ''status'' n \<noteq> JStr ''passed''"
  shows "s = ''passed'' \<and> stage_accepts stage n \<or>
    \<not> stage_accepts stage n \<and> map_native_status (jget ''status'' n) = Inr s"
proof -
  let ?st = "jget ''status'' n"
  obtain b where b: "(if stage = ''walk_forward'' then walk_forward_ok n else Inr False) = Inr b"
    using assms by (auto simp only: stage_status_def Let_def if_False bindR_Inr_iff)
  have b_iff: "b \<longleftrightarrow> stage = ''walk_forward'' \<and> ?st = JStr ''insufficient_evidence'' \<and>
      evidence_reasons n = Inr [JStr OPEN_FOLDS_REASON]"
    using b walk_forward_ok_Inr [of n b] by (simp split: if_splits)
  let ?m = "stage = ''monte_carlo'' \<and> ?st = JStr ''insufficient_evidence''"
  have closed: "s = ''passed'' \<and> (?st = JStr ''failed'' \<or> ?m) \<or>
      ?st \<noteq> JStr ''failed'' \<and> \<not> ?m \<and> map_native_status ?st = Inr s" if "\<not> b"
  proof -
    note shut = that
    obtain texts where body: "(if ?st = JStr ''failed''
        then Inr (''passed'', map (\<lambda>r. stage @ '' (score): '' @ r) texts)
        else if ?m then Inr (''passed'', map (\<lambda>r. stage @ '' (unscored): '' @ r) texts)
        else bindR (map_native_status ?st) (\<lambda>s. Inr (s, map (\<lambda>r. stage @ '': '' @ r) texts))) = Inr (s, rs)"
      using assms(1)
      unfolding stage_status_def Let_def if_not_P [OF assms(2)] b bindR_simps if_not_P [OF shut] bindR_Inr_iff
      by blast
    show ?thesis
    proof (cases "?st = JStr ''failed'' \<or> ?m")
      case True
      with body have "s = ''passed''" by (auto simp only: if_True if_False sum.inject prod.inject split: if_splits)
      with True show ?thesis by blast
    next
      case False
      with body show ?thesis by (auto simp only: if_False de_Morgan_disj bindR_Inr_iff sum.inject prod.inject)
    qed
  qed
  show ?thesis
  proof (cases b)
    case True
    with b b_iff assms show ?thesis
      by (simp only: stage_status_def Let_def stage_accepts_def if_False if_True bindR_simps sum.inject prod.inject)
        simp
  next
    case False
    with closed b_iff assms(2) show ?thesis unfolding stage_accepts_def by blast
  qed
qed

lemma stage_status_clean:
  assumes "stage_status stage n = Inr (s, rs)"
  shows "clean [s] \<longleftrightarrow> stage_accepts stage n"
proof (cases "jget ''status'' n = JStr ''passed''")
  case True
  then have "s = ''passed''"
    using assms unfolding stage_status_def Let_def if_P [OF True] by simp
  then show ?thesis using True by (simp add: stage_accepts_def)
next
  case False
  have "clean [''passed'']" by simp
  with stage_status_outcome [OF assms False] False map_native_clean show ?thesis by blast
qed

lemma source_lock_status_clean:
  "source_lock_status l = Inr (s, rs) \<Longrightarrow> clean [s] \<longleftrightarrow> slk_status l = ''passed''"
  using map_native_clean [of "JStr (slk_status l)" s] by (auto simp: source_lock_status_def split: if_splits)

section \<open>The checks\<close>

lemma check_lineage_clean:
  "clean (gs_statuses (check_lineage sha stage document g)) \<longleftrightarrow>
     clean (gs_statuses g) \<and>
     (\<exists>i. source_identity sha document = Inr i \<and> (\<forall>k. gs_lineage g = Some k \<longrightarrow> k = i))"
  by (auto simp: check_lineage_def split: sum.splits option.splits)

lemma check_lineage_identity:
  "source_identity sha document = Inr i \<Longrightarrow>
   gs_lineage (check_lineage sha stage document g) =
     (case gs_lineage g of None \<Rightarrow> Some i | Some k \<Rightarrow> Some k)"
  by (auto simp: check_lineage_def split: option.splits)

lemma check_lineage_references [simp]:
  "clean (gs_statuses (check_lineage sha stage document (g\<lparr>gs_references := fs\<rparr>))) \<longleftrightarrow>
   clean (gs_statuses (check_lineage sha stage document g))"
  "gs_lineage (check_lineage sha stage document (g\<lparr>gs_references := fs\<rparr>)) =
   gs_lineage (check_lineage sha stage document g)"
  by (auto simp: check_lineage_def jot_def split: sum.splits option.splits)

lemma normalized_object: "normalized_evidence document = Inr n \<Longrightarrow> is_object n"
  by (auto simp: normalized_evidence_def Let_def)

lemma evidence_reasons_error: "evidence_reasons n = Inl e \<Longrightarrow> is_object n \<Longrightarrow> \<not> is_value_error e"
  by (auto simp: evidence_reasons_def get_or_def is_object_def py_tuple_def bindR_def
      split: json.splits sum.splits option.splits)

lemma map_native_error: "map_native_status status = Inl e \<Longrightarrow> \<not> is_value_error e"
  by (auto simp: map_native_status_def split: json.splits)

lemma bindR_Inl_iff: "bindR m f = Inl e \<longleftrightarrow> m = Inl e \<or> (\<exists>x. m = Inr x \<and> f x = Inl e)"
  by (cases m) auto

text \<open>An error of a stage's status is never a \<open>ValueError\<close>, so it is never recorded as a reason.\<close>

lemma stage_status_error:
  assumes "stage_status stage n = Inl e" and n: "is_object n"
  shows "\<not> is_value_error e"
proof -
  have wk: "\<not> is_value_error e" if "walk_forward_ok n = Inl e"
    using that evidence_reasons_error [OF _ n] by (auto simp: walk_forward_ok_def bindR_Inl_iff split: if_splits)
  show ?thesis
    using assms(1) wk unfolding stage_status_def Let_def
    by (auto simp only: bindR_Inl_iff sum.distinct split: if_splits
        dest!: evidence_reasons_error [OF _ n] map_native_error)
qed

text \<open>One stage keeps the state clean exactly when its evidence is accepted under the one lineage.\<close>

lemma check_stage_clean:
  assumes "check_stage sha stage e g = Inr g'"
  shows "clean (gs_statuses g') \<longleftrightarrow>
    clean (gs_statuses g) \<and> (\<exists>i. record_accepted sha stage i e \<and> (\<forall>k. gs_lineage g = Some k \<longrightarrow> k = i))"
proof (cases e)
  case None
  with assms show ?thesis by (auto simp: check_stage_def record_accepted_def)
next
  case (Some r)
  let ?g = "check_lineage sha stage (er_document r) g"
  let ?status = "bindR (normalized_evidence (er_document r)) (stage_status stage)"
  show ?thesis
  proof (cases ?status)
    case (Inl exc)
    then have "\<not> clean (gs_statuses g')"
      using assms Some by (auto simp: check_stage_def Let_def split: if_splits)
    moreover have "\<not> record_accepted sha stage i e" for i
    proof
      assume "record_accepted sha stage i e"
      then obtain n where n: "normalized_evidence (er_document r) = Inr n"
        using Some by (auto simp: record_accepted_def)
      then have "stage_status stage n = Inl exc" using Inl by simp
      then have "\<not> is_value_error exc" using stage_status_error normalized_object [OF n] by blast
      then show False using assms Inl Some by (simp add: check_stage_def Let_def)
    qed
    ultimately show ?thesis by blast
  next
    case (Inr p)
    then obtain s rs n where n: "normalized_evidence (er_document r) = Inr n" and s: "stage_status stage n = Inr (s, rs)"
      by (cases p) auto
    have "clean (gs_statuses g') \<longleftrightarrow> clean (gs_statuses ?g) \<and> clean [s]"
      using assms Some n s by (auto simp: check_stage_def Let_def)
    then show ?thesis
      using n Some unfolding stage_status_clean [OF s] check_lineage_clean record_accepted_def by auto
  qed
qed

lemma check_stage_lineage:
  assumes "check_stage sha stage e g = Inr g'" and "record_accepted sha stage i e"
  shows "gs_lineage g' = (case gs_lineage g of None \<Rightarrow> Some i | Some k \<Rightarrow> Some k)"
proof -
  obtain r where "e = Some r" and i: "source_identity sha (er_document r) = Inr i"
    using assms(2) by (auto simp: record_accepted_def)
  with assms(1) show ?thesis
    by (auto simp: check_stage_def Let_def check_lineage_identity split: sum.splits if_splits)
qed

lemma record_accepted_unique:
  "record_accepted sha s i e \<Longrightarrow> record_accepted sha t k e \<Longrightarrow> k = i"
  by (auto simp: record_accepted_def)

lemma check_source_lock_clean:
  assumes "check_source_lock lock g = Inr (p, g')"
  shows "clean (gs_statuses g') \<longleftrightarrow> clean (gs_statuses g) \<and> (\<exists>l. lock = Some l \<and> lock_complete l)"
    and "gs_lineage g' = gs_lineage g"
proof -
  have "(clean (gs_statuses g') \<longleftrightarrow> clean (gs_statuses g) \<and> (\<exists>l. lock = Some l \<and> lock_complete l)) \<and>
      gs_lineage g' = gs_lineage g"
  proof (cases lock)
    case (Some l)
    obtain s rs where s: "source_lock_status l = Inr (s, rs)"
      using assms Some by (auto simp: check_source_lock_def Let_def)
    let ?bad = "slk_locked_parameters l = JNull \<or> (case slk_artifact_id l of JStr t \<Rightarrow> t = [] | _ \<Rightarrow> True) \<or>
        blank (slk_parameter_lock_id l)"
    have "(clean (gs_statuses g') \<longleftrightarrow> clean (gs_statuses g) \<and> clean [s] \<and> \<not> ?bad) \<and> gs_lineage g' = gs_lineage g"
      using assms Some s by (auto simp: check_source_lock_def Let_def split: if_splits)
    moreover have "\<not> ?bad \<longleftrightarrow> slk_locked_parameters l \<noteq> JNull \<and> (\<exists>t. slk_artifact_id l = JStr t \<and> t \<noteq> []) \<and>
        \<not> blank (slk_parameter_lock_id l)"
      by (auto split: json.splits)
    ultimately show ?thesis
      unfolding source_lock_status_clean [OF s] lock_complete_def using Some by blast
  qed (use assms in \<open>auto simp: check_source_lock_def\<close>)
  then show "clean (gs_statuses g') \<longleftrightarrow> clean (gs_statuses g) \<and> (\<exists>l. lock = Some l \<and> lock_complete l)"
    and "gs_lineage g' = gs_lineage g" by simp_all
qed

lemma lock_matches_clean:
  assumes "validate_source_lock_against_robustness l (Some r) = Inr (ss, rs)"
  shows "clean ss \<longleftrightarrow> lock_matches l (er_document r)"
proof -
  have none: "clean (map (\<lambda>_. ''invalid'') (filter P xs)) \<longleftrightarrow> (\<forall>x \<in> set xs. \<not> P x)" for P and xs :: "'z list"
    by (induction xs) auto
  show ?thesis
    using assms
    by (auto simp: validate_source_lock_against_robustness_def lock_matches_def Let_def none
        simp del: json_eq.simps split: if_splits)
qed

lemma check_lock_agreement_clean:
  assumes "check_lock_agreement (Some l) (Some w) (Some r) g = Inr g'" and "lock_complete l"
  shows "clean (gs_statuses g') \<longleftrightarrow> clean (gs_statuses g) \<and> lock_matches l (er_document r) \<and>
    (\<exists>blanks. fold_lock_blanks (er_document w) = Inr blanks \<and> True \<notin> set blanks)"
proof -
  obtain ss rs blanks where v: "validate_source_lock_against_robustness l (Some r) = Inr (ss, rs)"
    and b: "fold_lock_blanks (er_document w) = Inr blanks"
    and g': "g' = (if True \<in> set blanks
       then jot [''invalid''] [''walk_forward: parameter-lock identity is missing''] (jot ss rs g) else jot ss rs g)"
    using assms by (auto simp: check_lock_agreement_def Let_def lock_complete_def)
  show ?thesis
    unfolding g' lock_matches_clean [OF v, symmetric] b by auto
qed

lemma check_lock_agreement_keeps:
  "check_lock_agreement lock w r g = Inr g' \<Longrightarrow> clean (gs_statuses g') \<Longrightarrow> clean (gs_statuses g)"
  by (auto simp: check_lock_agreement_def Let_def split: option.splits if_splits)

lemma check_protected_clean:
  assumes "check_protected_state st = (state, g)"
  shows "clean (gs_statuses g) \<longleftrightarrow> st = ''gated''" and "gs_lineage g = None"
    and "state = ''gated'' \<longleftrightarrow> st = ''gated''"
proof -
  have "(''gated'' \<in> set PROTECTED_DATA_STATES) \<and> ''invalid'' \<noteq> ''gated''"
    by (simp add: PROTECTED_DATA_STATES_def)
  then show *: "state = ''gated'' \<longleftrightarrow> st = ''gated''"
    using assms unfolding check_protected_state_def Let_def by (auto simp only: prod.inject split: if_splits)
  let ?S = "if st \<in> set PROTECTED_DATA_STATES then st else ''invalid''"
  have S: "state = ?S" using assms unfolding check_protected_state_def Let_def by simp
  show "clean (gs_statuses g) \<longleftrightarrow> st = ''gated''" "gs_lineage g = None"
  proof -
    have "(clean (gs_statuses g) \<longleftrightarrow> state = ''gated'') \<and> gs_lineage g = None"
    proof (cases "?S = ''gated''")
      case True
      with assms S show ?thesis unfolding check_protected_state_def Let_def if_P [OF True] by auto
    next
      case False
      have "\<not> clean [if b then ''invalid'' else ''failed'']" for b
        by (cases b) simp_all
      with assms S False show ?thesis
        unfolding check_protected_state_def Let_def if_not_P [OF False]
        by (auto simp only: prod.inject jot_simps clean_simps(1,2) gate_state.simps append_Nil)
    qed
    then show "clean (gs_statuses g) \<longleftrightarrow> st = ''gated''" "gs_lineage g = None"
      unfolding * by simp_all
  qed
qed

section \<open>The gate opens exactly when the rule holds\<close>

lemma gate_state_clean:
  assumes p: "check_protected_state st = (state, g0)" and s: "check_source_lock lock g0 = Inr (p, g1)"
    and w: "check_stage sha ''walk_forward'' wk g1 = Inr g2"
    and m: "check_stage sha ''monte_carlo'' mc g2 = Inr g3"
    and r: "check_stage sha ''robustness'' rb g3 = Inr g4"
    and a: "check_lock_agreement lock wk rb g4 = Inr g5"
  shows "clean (gs_statuses g5) \<longleftrightarrow> gate_open sha wk mc rb lock st"
proof
  note sc = check_source_lock_clean [OF s] and pc = check_protected_clean [OF p]
  show "gate_open sha wk mc rb lock st" if c5: "clean (gs_statuses g5)"
  proof -
    have c4: "clean (gs_statuses g4)" by (rule check_lock_agreement_keeps [OF a c5])
    then obtain k where k: "record_accepted sha ''robustness'' k rb" "\<forall>j. gs_lineage g3 = Some j \<longrightarrow> j = k"
      and c3: "clean (gs_statuses g3)" unfolding check_stage_clean [OF r] by blast
    then obtain j where j: "record_accepted sha ''monte_carlo'' j mc" "\<forall>i. gs_lineage g2 = Some i \<longrightarrow> i = j"
      and c2: "clean (gs_statuses g2)" unfolding check_stage_clean [OF m] by blast
    then obtain i where i: "record_accepted sha ''walk_forward'' i wk" and c1: "clean (gs_statuses g1)"
      unfolding check_stage_clean [OF w] by blast
    then obtain l where l: "lock = Some l" "lock_complete l" and c0: "clean (gs_statuses g0)"
      using sc(1) by blast
    have g2: "gs_lineage g2 = Some i"
      using check_stage_lineage [OF w i] sc(2) pc(2) by simp
    with j have ij: "i = j" by simp
    have "gs_lineage g3 = Some i"
      using check_stage_lineage [OF m j(1)] g2 by simp
    with k have ik: "i = k" by simp
    obtain W R where W: "wk = Some W" and R: "rb = Some R"
      using i k(1) by (auto simp: record_accepted_def)
    show ?thesis
      using c5 c0 pc(1) l i j(1) k(1) ij ik check_lock_agreement_clean [OF a [unfolded l W R] l(2)]
      unfolding gate_open_def l W R option.sel by blast
  qed
  show "clean (gs_statuses g5)" if opened: "gate_open sha wk mc rb lock st"
  proof -
    obtain l i where st: "st = ''gated''" and l: "lock = Some l" "lock_complete l"
      and acc: "record_accepted sha ''walk_forward'' i wk" "record_accepted sha ''monte_carlo'' i mc"
        "record_accepted sha ''robustness'' i rb"
      and lm: "lock_matches l (er_document (the rb))"
      and bl: "\<exists>blanks. fold_lock_blanks (er_document (the wk)) = Inr blanks \<and> True \<notin> set blanks"
      using opened unfolding gate_open_def by blast
    obtain W R where W: "wk = Some W" and R: "rb = Some R"
      using acc by (auto simp: record_accepted_def)
    have "clean (gs_statuses g0)" using pc(1) st by simp
    then have c1: "clean (gs_statuses g1)" using sc(1) l by blast
    have n1: "gs_lineage g1 = None" using sc(2) pc(2) by simp
    have c2: "clean (gs_statuses g2)" "gs_lineage g2 = Some i"
      using c1 n1 check_stage_clean [OF w] check_stage_lineage [OF w acc(1)] acc(1) by auto
    then have c3: "clean (gs_statuses g3)" "gs_lineage g3 = Some i"
      using check_stage_clean [OF m] check_stage_lineage [OF m acc(2)] acc(2) by auto
    then have "clean (gs_statuses g4)"
      using check_stage_clean [OF r] acc(3) by auto
    then show ?thesis
      using check_lock_agreement_clean [OF a [unfolded l W R] l(2)] lm bl by (simp add: W R)
  qed
qed

lemma gate_identity_free [simp]:
  "lockbox_gate_identity sha (g\<lparr>gr_gate_identity := i\<rparr>) = lockbox_gate_identity sha g"
  by (simp add: lockbox_gate_identity_def gate_identity_payload_def)

lemma finish_gate_keeps:
  assumes "finish_gate sha draft = Inr g"
  shows "gr_status g = gr_status draft" "gr_eligible_to_execute g = gr_eligible_to_execute draft"
    "gr_eligible_to_progress g = gr_eligible_to_progress draft"
    "lockbox_gate_identity sha g = Inr (gr_gate_identity g)"
  using assms by (auto simp: finish_gate_def)

lemma gate_outcome_exact:
  assumes "evaluate_lockbox_prerequisites sha wk mc rb lock st = Inr g"
  shows "gr_eligible_to_execute g \<longleftrightarrow> gate_open sha wk mc rb lock st"
    and "gr_status g = ''passed'' \<longleftrightarrow> gate_open sha wk mc rb lock st"
    and "\<not> gr_eligible_to_progress g"
    and "lockbox_gate_identity sha g = Inr (gr_gate_identity g)"
proof -
  obtain state g0 where p: "check_protected_state st = (state, g0)" by fastforce
  obtain pl g1 g2 g3 g4 g5 draft where s: "check_source_lock lock g0 = Inr (pl, g1)"
    and w: "check_stage sha ''walk_forward'' wk g1 = Inr g2"
    and m: "check_stage sha ''monte_carlo'' mc g2 = Inr g3"
    and r: "check_stage sha ''robustness'' rb g3 = Inr g4"
    and a: "check_lock_agreement lock wk rb g4 = Inr g5"
    and fin: "finish_gate sha draft = Inr g"
    and draft: "gr_status draft = result_status (gs_statuses g5) \<and>
      (gr_eligible_to_execute draft \<longleftrightarrow> result_status (gs_statuses g5) = ''passed'' \<and> state = ''gated'') \<and>
      \<not> gr_eligible_to_progress draft"
    using assms unfolding evaluate_lockbox_prerequisites_def p
    apply (simp only: Let_def prod.case bindR_Inr_iff split_paired_Ex)
    apply (elim exE conjE)
    apply (rule that)
    apply assumption+
    apply simp
    done
  note g = draft [folded finish_gate_keeps [OF fin]] finish_gate_keeps(4) [OF fin]
  note c = gate_state_clean [OF p s w m r a, unfolded clean_def]
  show "gr_status g = ''passed'' \<longleftrightarrow> gate_open sha wk mc rb lock st"
    using g c by simp
  show "gr_eligible_to_execute g \<longleftrightarrow> gate_open sha wk mc rb lock st"
    using g c check_protected_clean(3) [OF p] by (auto simp: gate_open_def)
  show "\<not> gr_eligible_to_progress g" "lockbox_gate_identity sha g = Inr (gr_gate_identity g)"
    using g by simp_all
qed

end
