(* ===== verification/Chain_Laws.thy ===== *)
theory Chain_Laws
  imports Filter_Chain Gate_Laws
begin

text \<open>
  What the filter chain promises. The steps of a call are read off \<open>andThen\<close>; the run identity of
  every stage is fixed by the screening run alone (\<open>chain_run_id\<close>), so a stage that was reserved
  once is found by every later call, whatever adapters it is given.
\<close>

section \<open>Run identities\<close>

text \<open>The run that precedes a stage, and the run of the stage itself.\<close>

fun chain_run_ids :: "(string \<Rightarrow> string) \<Rightarrow> string \<Rightarrow> string \<Rightarrow> run_stage list \<Rightarrow> string list" where
  "chain_run_ids sha k source [] = []"
| "chain_run_ids sha k source (s # ss) =
     (let i = handoff_run_id sha k source s in i # chain_run_ids sha k i ss)"

definition reference_of :: "run_stage \<Rightarrow> string \<Rightarrow> stage_reference" where
  "reference_of s i = \<lparr>sf_stage = s, sf_run_id = i\<rparr>"

section \<open>One stage\<close>

lemma validate_reference_Inr:
  "validate_persisted_reference k stage source i f d = Inr u \<longleftrightarrow>
     f = reference_of stage i \<and> strip i \<noteq> [] \<and>
     (\<exists>screening r env h. run_get k d = Some screening \<and> run_get i d = Some r \<and> rn_stage r = stage \<and>
        rn_status r = SUCCEEDED \<and> rn_configuration_id r = rn_configuration_id screening \<and>
        rn_strategy_id r = rn_strategy_id screening \<and> rn_strategy_version r = rn_strategy_version screening \<and>
        json_loads (rn_environment_json r) = Some env \<and> get_or ''filter_handoff'' JNull env = Inr h \<and>
        is_object h \<and> jget ''source_run_id'' h = JStr source)"
  by (cases f) (auto simp: validate_persisted_reference_def reference_of_def Let_def split: option.splits)

text \<open>A stage that was reserved before, or a replay, writes nothing.\<close>

lemma reserved_stage_step:
  assumes "run_get (cx_run_id ctx) d \<noteq> None \<or> adapters = None"
  shows "snd (stage_reference_step sha inp adapters ctx source d) = d"
    and "stage_reference_step sha inp adapters ctx source d = (Inr f, d') \<Longrightarrow>
      f = reference_of (cx_stage ctx) (cx_run_id ctx) \<and> d' = d"
  using assms by (auto simp: stage_reference_step_def reference_of_def Let_def split: option.splits if_splits)

definition stage_context_of :: "string \<Rightarrow> run_stage \<Rightarrow> string \<Rightarrow> stage_reference list \<Rightarrow> stage_context" where
  "stage_context_of k s i fs = \<lparr>cx_screening_run_id = k, cx_stage = s, cx_run_id = i, cx_previous = fs\<rparr>"

lemma stage_context_sel [simp]:
  "cx_run_id (stage_context_of k s i fs) = i" "cx_stage (stage_context_of k s i fs) = s"
  "cx_screening_run_id (stage_context_of k s i fs) = k"
  by (simp_all add: stage_context_of_def)

lemma run_one_stage_Inr:
  "run_one_stage sha port inp adapters k s fs lock d = (Inr (f, h, lock'), d') \<longleftrightarrow>
     (let source = last_run k fs; i = handoff_run_id sha k source s in
      stage_reference_step sha inp adapters (stage_context_of k s i fs) source d = (Inr f, d') \<and>
      validate_persisted_reference k s source i f d' = Inr () \<and>
      derive_handoff port s (sf_run_id f) lock d' = Inr (h, lock'))"
  by (auto simp: run_one_stage_def Let_def stage_context_of_def)

lemma last_run_snoc [simp]: "last_run k (fs @ [f]) = sf_run_id f"
  by (simp add: last_run_def)

lemma reference_sel [simp]: "sf_run_id (reference_of s i) = i" "sf_stage (reference_of s i) = s"
  by (simp_all add: reference_of_def)

text \<open>A stage that exists is taken as it is: its adapter, and whether there is one, do not matter.\<close>

lemma run_one_stage_reserved:
  assumes "run_get (handoff_run_id sha k (last_run k fs) s) d \<noteq> None"
  shows "run_one_stage sha port inp (Some ads) k s fs lock d = run_one_stage sha port inp' (Some ads') k s fs lock d"
    and "snd (run_one_stage sha port inp (Some ads) k s fs lock d) = d"
  using assms
  by (auto simp: run_one_stage_def stage_reference_step_def Let_def andThen_def askS_def
      split: sum.splits prod.splits)

lemma run_one_stage_replay:
  assumes "run_one_stage sha port inp None k s fs lock d = (Inr x, d')"
  shows "d' = d \<and> run_get (handoff_run_id sha k (last_run k fs) s) d \<noteq> None \<and>
    run_one_stage sha port inp' (Some ads) k s fs lock d = (Inr x, d)"
  using assms
  by (auto simp: run_one_stage_def stage_reference_step_def Let_def andThen_def askS_def
      split: sum.splits prod.splits option.splits if_splits)

lemma replay_unchanged: "snd (run_one_stage sha port inp None k s fs lock d) = d"
  by (auto simp: run_one_stage_def stage_reference_step_def Let_def andThen_def askS_def
      split: sum.splits prod.splits option.splits if_splits)


section \<open>The loop\<close>

lemma run_stages_replay:
  "run_stages sha port inp None k ss fs cs lock d = (Inr x, d') \<Longrightarrow>
   d' = d \<and> run_stages sha port inp' (Some ads) k ss fs cs lock d = (Inr x, d)"
proof (induction ss arbitrary: fs cs lock)
  case (Cons s ss)
  from Cons.prems obtain f h lock' d1 where one: "run_one_stage sha port inp None k s fs lock d = (Inr (f, h, lock'), d1)"
    and rest: "(if \<not> ho_eligible h
        then askS (\<lambda>_. Inr (Inl (stopped_outcome k (cs @ [h]) s h)))
        else run_stages sha port inp None k ss (fs @ [f]) (cs @ [h]) lock') d1 = (Inr x, d')"
    by auto
  from run_one_stage_replay [OF one] have d1: "d1 = d"
    and again: "run_one_stage sha port inp' (Some ads) k s fs lock d = (Inr (f, h, lock'), d)" by auto
  show ?case
  proof (cases "ho_eligible h")
    case True
    with rest d1 have "run_stages sha port inp None k ss (fs @ [f]) (cs @ [h]) lock' d = (Inr x, d')" by simp
    from Cons.IH [OF this] show ?thesis using True by (simp add: again)
  next
    case False
    with rest d1 show ?thesis by (simp add: again)
  qed
qed simp

lemma run_stages_replay_unchanged: "snd (run_stages sha port inp None k ss fs cs lock d) = d"
proof (induction ss arbitrary: fs cs lock)
  case (Cons s ss)
  show ?case
    using Cons.IH replay_unchanged [of sha port inp k s fs lock d]
    by (auto simp: andThen_def askS_def split: sum.splits prod.splits)
qed (simp add: askS_def)

text \<open>A run that exists stays, so the stages before it are never done again.\<close>

definition stays :: "db \<Rightarrow> db \<Rightarrow> bool" where
  "stays d d' \<longleftrightarrow> (\<forall>k. run_get k d \<noteq> None \<longrightarrow> run_get k d' \<noteq> None)"

definition adapters_evolve :: "(run_stage \<times> stage_adapter) list \<Rightarrow> bool" where
  "adapters_evolve ads \<longleftrightarrow> (\<forall>(s, a) \<in> set ads. \<forall>ctx d. evolves d (snd (a ctx d)))"

definition steps :: "(db \<Rightarrow> db \<Rightarrow> bool) \<Rightarrow> 'a step \<Rightarrow> bool" where
  "steps R m \<longleftrightarrow> (\<forall>d. R d (snd (m d)))"

lemma steps_ask: "steps evolves (askS f)"
  by (simp add: steps_def askS_def evo.evo_refl)

lemma steps_andThen: "steps evolves m \<Longrightarrow> (\<And>x. steps evolves (f x)) \<Longrightarrow> steps evolves (andThen m f)"
  unfolding steps_def
proof
  fix d
  assume m: "\<forall>d. evolves d (snd (m d))" and f: "\<And>x. \<forall>d. evolves d (snd (f x d))"
  obtain r d1 where r: "m d = (r, d1)" by fastforce
  with m have d1: "evolves d d1" by (metis snd_conv)
  show "evolves d (snd (andThen m f d))"
  proof (cases r)
    case (Inr x)
    with f have "evolves d1 (snd (f x d1))" by blast
    with d1 r Inr show ?thesis by (auto simp: andThen_def intro: evo.evo_trans)
  qed (use d1 r in \<open>simp add: andThen_def\<close>)
qed

lemma steps_service:
  "steps evolves (transition_run now k st err)"
  "steps evolves (append_run_event now k ty sev msg src oc)"
  unfolding steps_def by (simp_all add: run_service_evolves)

lemma steps_reserve: "steps evolves (reserve_stage_run sha inp k stage i source)"
  unfolding steps_def
proof
  fix d
  show "evolves d (snd (reserve_stage_run sha inp k stage i source d))"
  proof (cases "run_get k d")
    case (Some r)
    let ?c = "create_run sha (si_captured inp) [] (si_created inp) (rn_configuration_id r) (rn_strategy_id r)
        (rn_strategy_version r) stage (Some i) CREATED
        (Some [(''filter_handoff'', JObj [(''source_run_id'', JStr source)])]) d"
    obtain x d1 where x: "?c = (x, d1)" by fastforce
    then have "evolves d d1" using run_service_evolves(1) by (metis snd_conv)
    then show ?thesis
      using Some x by (auto simp: reserve_stage_run_def evo.evo_refl split: sum.splits exn.splits)
  qed (simp add: reserve_stage_run_def evo.evo_refl)
qed

lemma steps_after_error: "steps evolves (after_adapter_error inp stage i)"
proof -
  have "steps evolves (andThen (transition_run a b c e) (\<lambda>failed.
        andThen (append_run_event t b ty sv ms src (rn_completed_at failed)) (\<lambda>_. askS g)))"
    for a b c e t ty sv ms src and g :: "db \<Rightarrow> exn + stage_reference"
    by (intro steps_andThen steps_service steps_ask)
  then show ?thesis
    by (auto simp: steps_def after_adapter_error_def Let_def evo.evo_refl)
qed

lemma steps_invoke:
  assumes "adapters_evolve ads"
  shows "steps evolves (invoke_adapter ads inp ctx)"
  unfolding steps_def
proof
  fix d
  note err = steps_after_error [of inp "cx_stage ctx" "cx_run_id ctx", unfolded steps_def, rule_format]
  show "evolves d (snd (invoke_adapter ads inp ctx d))"
  proof (cases "map_of ads (cx_stage ctx)")
    case (Some a)
    then have a: "evolves d (snd (a ctx d))"
      using assms by (fastforce simp: adapters_evolve_def dest: map_of_SomeD)
    obtain r d1 where "a ctx d = (r, d1)" by fastforce
    with Some a err [of d1] show ?thesis
      by (cases r) (auto simp: invoke_adapter_def intro: evo.evo_trans)
  qed (simp add: invoke_adapter_def err)
qed

lemma steps_stage:
  assumes "adapters_evolve ads"
  shows "steps evolves (stage_reference_step sha inp (Some ads) ctx source)"
proof -
  have "steps evolves (\<lambda>d'. (r, d'))" for r :: "exn + stage_reference"
    by (simp add: steps_def evo.evo_refl)
  then have "steps evolves (andThen (reserve_stage_run sha (inp s) k s i source)
      (\<lambda>reserved. if reserved then invoke_adapter ads (inp s) ctx else (\<lambda>d'. (Inr f, d'))))" for s k i f
    using steps_invoke [OF assms] by (intro steps_andThen steps_reserve) auto
  then show ?thesis
    by (auto simp: steps_def stage_reference_step_def Let_def evo.evo_refl)
qed

lemma steps_one_stage:
  "adapters_evolve ads \<Longrightarrow> steps evolves (run_one_stage sha port inp (Some ads) k s fs lock)"
  unfolding run_one_stage_def Let_def
  by (intro steps_andThen steps_stage steps_ask) (auto intro: steps_ask split: prod.split)

lemma one_stage_evolves:
  "adapters_evolve ads \<Longrightarrow> run_one_stage sha port inp (Some ads) k s fs lock d = (r, d') \<Longrightarrow> evolves d d'"
  using steps_one_stage [of ads sha port inp k s fs lock] by (auto simp: steps_def) (metis snd_conv)

lemma steps_stages:
  assumes "adapters_evolve ads"
  shows "steps evolves (run_stages sha port inp (Some ads) k ss fs cs lock)"
proof (induction ss arbitrary: fs cs lock)
  case (Cons s ss)
  then show ?case
    by (auto intro!: steps_andThen steps_one_stage assms steps_ask split: prod.split)
qed (simp add: steps_ask)

lemma stages_evolve:
  "adapters_evolve ads \<Longrightarrow> run_stages sha port inp (Some ads) k ss fs cs lock d = (r, d') \<Longrightarrow> evolves d d'"
  using steps_stages [of ads sha port inp k ss fs cs lock] by (auto simp: steps_def) (metis snd_conv)

section \<open>Stages that were reserved\<close>

lemma evolves_stays: "db_ok d \<Longrightarrow> evolves d d' \<Longrightarrow> run_get i d \<noteq> None \<Longrightarrow> run_get i d' \<noteq> None"
  using run_get_extends unfolding evolves_def by (metis option.distinct(1) option.exhaust)

text \<open>Two sets of adapters that agree on the stages not reserved yet give the same call.\<close>

lemma run_one_stage_same:
  assumes "run_get (handoff_run_id sha k (last_run k fs) s) d = None \<Longrightarrow> map_of ads s = map_of ads' s"
  shows "run_one_stage sha port inp (Some ads) k s fs lock d = run_one_stage sha port inp (Some ads') k s fs lock d"
proof (cases "run_get (handoff_run_id sha k (last_run k fs) s) d")
  case None
  then have "map_of ads s = map_of ads' s" by (rule assms)
  then have same: "invoke_adapter ads j (stage_context_of k s i fs) = invoke_adapter ads' j (stage_context_of k s i fs)"
    for j i by (auto simp: invoke_adapter_def fun_eq_iff)
  have "stage_reference_step sha inp (Some ads) (stage_context_of k s i fs) src =
      stage_reference_step sha inp (Some ads') (stage_context_of k s i fs) src" for i src
    by (rule ext) (simp add: stage_reference_step_def Let_def same cong: if_cong)
  then show ?thesis
    unfolding run_one_stage_def Let_def stage_context_of_def by simp
qed (use run_one_stage_reserved(1) in blast)

lemma one_stage_reference:
  "run_one_stage sha port inp adapters k s fs lock d = (Inr (f, h, lock'), d') \<Longrightarrow>
   sf_run_id f = handoff_run_id sha k (last_run k fs) s"
  by (auto simp: run_one_stage_Inr validate_reference_Inr Let_def)

lemma run_stages_same:
  assumes "adapters_evolve ads" and "db_ok d"
    and "\<forall>(s, i) \<in> set (zip ss (chain_run_ids sha k (last_run k fs) ss)).
      run_get i d = None \<longrightarrow> map_of ads s = map_of ads' s"
  shows "run_stages sha port inp (Some ads) k ss fs cs lock d = run_stages sha port inp (Some ads') k ss fs cs lock d"
  using assms(2,3)
proof (induction ss arbitrary: fs cs lock d)
  case (Cons s ss)
  let ?i = "handoff_run_id sha k (last_run k fs) s"
  have one: "run_one_stage sha port inp (Some ads) k s fs lock d = run_one_stage sha port inp (Some ads') k s fs lock d"
    by (rule run_one_stage_same) (use Cons.prems(2) in \<open>simp add: Let_def\<close>)
  show ?case
  proof (cases "run_one_stage sha port inp (Some ads) k s fs lock d")
    case (Pair r d1)
    show ?thesis
    proof (cases r)
      case (Inr x)
      obtain f h lock' where x: "x = (f, h, lock')" by (cases x)
      have f: "last_run k (fs @ [f]) = ?i" using one_stage_reference Pair Inr x by simp
      have ev: "evolves d d1" using one_stage_evolves [OF assms(1) Pair] .
      then have "db_ok d1" using Cons.prems(1) by (simp add: evolves_def)
      moreover have "\<forall>(s, i) \<in> set (zip ss (chain_run_ids sha k (last_run k (fs @ [f])) ss)).
          run_get i d1 = None \<longrightarrow> map_of ads s = map_of ads' s"
        using Cons.prems evolves_stays [OF Cons.prems(1) ev] unfolding f by (fastforce simp: Let_def)
      ultimately have "run_stages sha port inp (Some ads) k ss (fs @ [f]) (cs @ [h]) lock' d1 =
          run_stages sha port inp (Some ads') k ss (fs @ [f]) (cs @ [h]) lock' d1"
        by (rule Cons.IH)
      then show ?thesis using Pair Inr x one by (simp add: andThen_def)
    qed (use Pair one in \<open>simp add: andThen_def\<close>)
  qed
qed simp

text \<open>A stage whose run exists and has not succeeded blocks the chain: nothing is invoked again.\<close>

lemma run_stages_blocked:
  assumes "list_all (\<lambda>i. run_get i d \<noteq> None) (chain_run_ids sha k (last_run k fs) ss)"
  shows "(\<exists>x. run_stages sha port inp (Some ads) k (ss @ ts) fs cs lock d = (x, d) \<and> (\<forall>y. x \<noteq> Inr (Inr y))) \<or>
    (\<exists>fs' cs' lock'. last_run k fs' = last (last_run k fs # chain_run_ids sha k (last_run k fs) ss) \<and>
       run_stages sha port inp (Some ads) k (ss @ ts) fs cs lock d =
       run_stages sha port inp (Some ads) k ts fs' cs' lock' d)"
  using assms
proof (induction ss arbitrary: fs cs lock)
  case (Cons s ss)
  let ?i = "handoff_run_id sha k (last_run k fs) s"
  have res: "snd (run_one_stage sha port inp (Some ads) k s fs lock d) = d"
    by (rule run_one_stage_reserved(2)) (use Cons.prems in \<open>simp add: Let_def\<close>)
  obtain r where r: "run_one_stage sha port inp (Some ads) k s fs lock d = (r, d)"
    using res by (metis prod.collapse)
  show ?case
  proof (cases r)
    case (Inr x)
    obtain f h lock' where x: "x = (f, h, lock')" by (cases x)
    have f: "last_run k (fs @ [f]) = ?i" using one_stage_reference r Inr x by simp
    have "list_all (\<lambda>i. run_get i d \<noteq> None) (chain_run_ids sha k (last_run k (fs @ [f])) ss)"
      using Cons.prems unfolding f by (simp add: Let_def)
    from Cons.IH [OF this, of "cs @ [h]" lock'] show ?thesis
      using r Inr x unfolding f by (cases "ho_eligible h") (auto simp: andThen_def Let_def askS_def)
  qed (use r in \<open>simp add: andThen_def\<close>)
qed (auto)

lemma one_stage_blocked:
  assumes "run_get (handoff_run_id sha k (last_run k fs) s) d = Some r" and "rn_status r \<noteq> SUCCEEDED"
  shows "\<exists>e. run_one_stage sha port inp (Some ads) k s fs lock d = (Inl e, d)"
proof -
  have "snd (run_one_stage sha port inp (Some ads) k s fs lock d) = d"
    by (rule run_one_stage_reserved(2)) (use assms in simp)
  then obtain x where x: "run_one_stage sha port inp (Some ads) k s fs lock d = (x, d)"
    by (metis prod.collapse)
  moreover have "x \<noteq> Inr y" for y
  proof
    assume "x = Inr y"
    then obtain f h l where "run_one_stage sha port inp (Some ads) k s fs lock d = (Inr (f, h, l), d)"
      using x by (cases y) auto
    then show False
      using assms by (auto simp: run_one_stage_Inr validate_reference_Inr Let_def)
  qed
  ultimately show ?thesis by (cases x) auto
qed

section \<open>What a completed handoff means\<close>

text \<open>
  The run of the handoff has succeeded, for the configuration and strategy of the screening run, and
  its environment names the run it was handed over from.
\<close>

definition handoff_persisted :: "string \<Rightarrow> db \<Rightarrow> string \<Rightarrow> stage_handoff \<Rightarrow> bool" where
  "handoff_persisted k d source h \<longleftrightarrow>
     (\<exists>screening r env m. run_get k d = Some screening \<and> run_get (ho_run_id h) d = Some r \<and>
        rn_stage r = ho_stage h \<and> rn_status r = SUCCEEDED \<and>
        rn_configuration_id r = rn_configuration_id screening \<and>
        rn_strategy_id r = rn_strategy_id screening \<and> rn_strategy_version r = rn_strategy_version screening \<and>
        json_loads (rn_environment_json r) = Some env \<and> get_or ''filter_handoff'' JNull env = Inr m \<and>
        is_object m \<and> jget ''source_run_id'' m = JStr source)"

lemma handoff_persisted_later:
  assumes "handoff_persisted k d source h" and "extends d d'"
  shows "handoff_persisted k d' source h"
proof -
  obtain screening r env m where a: "run_get k d = Some screening" "run_get (ho_run_id h) d = Some r"
    and r: "rn_stage r = ho_stage h" "rn_status r = SUCCEEDED" "rn_configuration_id r = rn_configuration_id screening"
      "rn_strategy_id r = rn_strategy_id screening" "rn_strategy_version r = rn_strategy_version screening"
    and env: "json_loads (rn_environment_json r) = Some env" "get_or ''filter_handoff'' JNull env = Inr m"
      "is_object m" "jget ''source_run_id'' m = JStr source"
    using assms(1) by (auto simp: handoff_persisted_def)
  obtain s' where s': "run_get k d' = Some s'" "run_moves screening s'"
    using run_get_extends [OF assms(2) a(1)] by blast
  obtain r' where r': "run_get (ho_run_id h) d' = Some r'" "run_moves r r'"
    using run_get_extends [OF assms(2) a(2)] by blast
  have "rn_status r' = SUCCEEDED"
    using r'(2) r(2) status_moves_terminal [of SUCCEEDED "rn_status r'"] by (simp add: run_moves_def)
  moreover have "rn_environment_json r' = rn_environment_json r"
    using r'(2) r(2) by (simp add: run_moves_def)
  ultimately show ?thesis
    unfolding handoff_persisted_def
    by (intro exI [of _ s'] exI [of _ r'] exI [of _ env] exI [of _ m])
      (use r s' r' env in \<open>simp add: run_moves_def\<close>)
qed

lemma derive_handoff_sel:
  "derive_handoff port s i lock d = Inr (h, lock') \<Longrightarrow> ho_stage h = s \<and> ho_run_id h = i"
  by (auto simp: derive_handoff_def split: if_splits sum.splits)

lemma derive_handoff_lock:
  assumes "derive_handoff port s i lock d = Inr (h, lock')"
  shows "s \<noteq> STAGE_OOS \<Longrightarrow> lock' = lock"
    and "s = STAGE_OOS \<Longrightarrow> ho_eligible h \<Longrightarrow>
      \<exists>l. lock' = Some l \<and> ep_source_lock port d i = Inr l \<and> slk_status l = ''passed''"
  using assms by (auto simp: derive_handoff_def split: if_splits sum.splits)

lemma one_stage_persisted:
  assumes "run_one_stage sha port inp adapters k s fs lock d = (Inr (f, h, lock'), d')"
  shows "f = reference_of s (handoff_run_id sha k (last_run k fs) s)" "ho_stage h = s"
    "ho_run_id h = handoff_run_id sha k (last_run k fs) s" "handoff_persisted k d' (last_run k fs) h"
    "derive_handoff port s (handoff_run_id sha k (last_run k fs) s) lock d' = Inr (h, lock')"
proof -
  let ?i = "handoff_run_id sha k (last_run k fs) s"
  have f: "f = reference_of s ?i" and v: "validate_persisted_reference k s (last_run k fs) ?i f d' = Inr ()"
    and dh: "derive_handoff port s (sf_run_id f) lock d' = Inr (h, lock')"
    using assms by (auto simp: run_one_stage_Inr validate_reference_Inr Let_def)
  show "f = reference_of s ?i" by (fact f)
  show dh': "derive_handoff port s ?i lock d' = Inr (h, lock')" using dh f by simp
  show hs: "ho_stage h = s" "ho_run_id h = ?i" using derive_handoff_sel [OF dh'] by auto
  show "handoff_persisted k d' (last_run k fs) h"
    using v unfolding handoff_persisted_def hs validate_reference_Inr by blast
qed

text \<open>How a loop over \<open>ss\<close> ends: the handoffs it adds, and whether it stopped at the last one.\<close>

definition loop_result ::
  "(string \<Rightarrow> string) \<Rightarrow> string \<Rightarrow> run_stage list \<Rightarrow> stage_reference list \<Rightarrow> stage_handoff list \<Rightarrow>
   chain_outcome + (stage_reference list \<times> stage_handoff list \<times> source_lock option) \<Rightarrow>
   stage_handoff list \<Rightarrow> bool" where
  "loop_result sha k ss fs cs res hs \<longleftrightarrow>
     (case res of
        Inr (fs', cs', lock) \<Rightarrow>
          length hs = length ss \<and> list_all ho_eligible hs \<and> cs' = cs @ hs \<and>
          fs' = fs @ map (\<lambda>h. reference_of (ho_stage h) (ho_run_id h)) hs
      | Inl o' \<Rightarrow>
          hs \<noteq> [] \<and> list_all ho_eligible (butlast hs) \<and> \<not> ho_eligible (last hs) \<and>
          o' = stopped_outcome k (cs @ hs) (ho_stage (last hs)) (last hs))"

lemma run_stages_sound:
  assumes "adapters_evolve ads" and "db_ok d"
    and "run_stages sha port inp (Some ads) k ss fs cs lock d = (Inr res, d')"
  shows "\<exists>hs. length hs \<le> length ss \<and> map ho_stage hs = take (length hs) ss \<and>
     map ho_run_id hs = take (length hs) (chain_run_ids sha k (last_run k fs) ss) \<and>
     list_all2 (handoff_persisted k d') (take (length hs) (last_run k fs # chain_run_ids sha k (last_run k fs) ss)) hs \<and>
     loop_result sha k ss fs cs res hs"
  using assms(2,3)
proof (induction ss arbitrary: fs cs lock d)
  case Nil
  then show ?case by (auto simp: loop_result_def)
next
  case (Cons s ss)
  let ?i = "handoff_run_id sha k (last_run k fs) s"
  from Cons.prems obtain f h lock' d1 where one: "run_one_stage sha port inp (Some ads) k s fs lock d = (Inr (f, h, lock'), d1)"
    and rest: "(if \<not> ho_eligible h
        then askS (\<lambda>_. Inr (Inl (stopped_outcome k (cs @ [h]) s h)))
        else run_stages sha port inp (Some ads) k ss (fs @ [f]) (cs @ [h]) lock') d1 = (Inr res, d')"
    by auto
  note p = one_stage_persisted [OF one]
  have last: "last_run k (fs @ [f]) = ?i" by (simp add: p(1))
  have ok1: "db_ok d1"
    using one_stage_evolves [OF assms(1) one] Cons.prems(1) by (simp add: evolves_def)
  show ?case
  proof (cases "ho_eligible h")
    case False
    with rest have "d' = d1" "res = Inl (stopped_outcome k (cs @ [h]) s h)" by auto
    then show ?thesis
      using p False by (intro exI [of _ "[h]"]) (simp add: loop_result_def Let_def)
  next
    case True
    with rest have run: "run_stages sha port inp (Some ads) k ss (fs @ [f]) (cs @ [h]) lock' d1 = (Inr res, d')"
      by simp
    from Cons.IH [OF ok1 this, unfolded last] obtain hs where hs: "length hs \<le> length ss"
      "map ho_stage hs = take (length hs) ss" "map ho_run_id hs = take (length hs) (chain_run_ids sha k ?i ss)"
      "list_all2 (handoff_persisted k d') (take (length hs) (?i # chain_run_ids sha k ?i ss)) hs"
      "loop_result sha k ss (fs @ [f]) (cs @ [h]) res hs" by blast
    have "extends d1 d'"
      using stages_evolve [OF assms(1) run] ok1 by (simp add: evolves_def)
    then have "handoff_persisted k d' (last_run k fs) h" by (rule handoff_persisted_later [OF p(4)])
    moreover have "loop_result sha k (s # ss) fs cs res (h # hs)"
      using hs(5) True p(1-3) by (auto simp: loop_result_def split: sum.splits prod.splits)
    ultimately show ?thesis
      using hs(1-4) p(2,3) by (intro exI [of _ "h # hs"]) (simp add: Let_def)
  qed
qed

section \<open>The whole chain\<close>

lemma gate_needs_evidence:
  assumes "gate_retrieve port s i d = Inr (e, fl)"
  shows "fl = [] \<longleftrightarrow> (\<exists>r. ep_retrieve port s d i = Inr r \<and> e = Some r)"
  using assms by (auto simp: gate_retrieve_def split: sum.splits if_splits)

lemma persisted_gate_open:
  assumes "evaluate_persisted_gate sha port a b c lock st d = Inr g" and "gr_eligible_to_execute g"
  shows "\<exists>w m r. ep_retrieve port STAGE_WALK_FORWARD d a = Inr w \<and> ep_retrieve port STAGE_MONTE_CARLO d b = Inr m \<and>
    ep_retrieve port STAGE_ROBUSTNESS d c = Inr r \<and> gate_open sha (Some w) (Some m) (Some r) lock st"
proof -
  obtain x f1 y f2 z f3 res where e: "gate_retrieve port STAGE_WALK_FORWARD a d = Inr (x, f1)"
    "gate_retrieve port STAGE_MONTE_CARLO b d = Inr (y, f2)" "gate_retrieve port STAGE_ROBUSTNESS c d = Inr (z, f3)"
    and res: "evaluate_lockbox_prerequisites sha x y z lock st = Inr res"
    and g: "f1 @ f2 @ f3 = [] \<and> g = res \<or> f1 @ f2 @ f3 \<noteq> [] \<and> \<not> gr_eligible_to_execute g"
    using assms(1)
    by (auto simp: evaluate_persisted_gate_def Let_def split: if_splits dest!: finish_gate_keeps(2))
  then have "f1 = [] \<and> f2 = [] \<and> f3 = [] \<and> g = res" using assms(2) by blast
  with e res assms(2) show ?thesis
    using gate_needs_evidence [OF e(1)] gate_needs_evidence [OF e(2)] gate_needs_evidence [OF e(3)]
      gate_outcome_exact(1) [OF res] by auto
qed

text \<open>A call that returns: screened out, stopped in the loop, or decided by the gate.\<close>

lemma run_filter_chain_Inr:
  assumes "run_filter_chain sha port inp adapters k d = (Inr out, d')"
  shows "check_screening k d = Inr (Some out) \<and> d' = d \<or>
    check_screening k d = Inr None \<and>
    (\<exists>res. run_stages sha port inp adapters k VALIDATION_STAGE_ORDER [] [] None d = (Inr res, d') \<and>
       (case res of Inl o' \<Rightarrow> out = o'
        | Inr (fs, cs, lock) \<Rightarrow> gate_outcome sha port k fs cs lock d' = Inr out))"
proof -
  obtain screened where sc: "check_screening k d = Inr screened"
    using assms unfolding run_filter_chain_def andThen_Inr askS_iff by (auto dest: sym)
  show ?thesis
  proof (cases screened)
    case (Some o')
    then show ?thesis using assms sc by (simp add: run_filter_chain_def andThen_ask)
  next
    case None
    then obtain res d1 where run: "run_stages sha port inp adapters k VALIDATION_STAGE_ORDER [] [] None d = (Inr res, d1)"
      and rest: "(case res of Inl o' \<Rightarrow> askS (\<lambda>_. Inr o')
        | Inr (fs, cs, lock) \<Rightarrow> askS (gate_outcome sha port k fs cs lock)) d1 = (Inr out, d')"
      using assms sc by (auto simp: run_filter_chain_def)
    then show ?thesis
      using None sc by (cases res) (auto split: prod.splits)
  qed
qed

lemma length_stage_order: "length VALIDATION_STAGE_ORDER = 4"
  by (simp add: VALIDATION_STAGE_ORDER_def)

text \<open>A replay that returns is what every later call with a full set of adapters returns.\<close>

lemma run_filter_chain_replay:
  assumes "run_filter_chain sha port inp None k d = (Inr out, d')"
    and "require_complete_adapters (map fst ads) = Inr ()"
  shows "run_filter_chain sha port inp' (Some ads) k d = (Inr out, d) \<and> d' = d"
  using run_filter_chain_Inr [OF assms(1)]
proof (elim disjE conjE exE)
  fix res
  assume sc: "check_screening k d = Inr None"
    and run: "run_stages sha port inp None k VALIDATION_STAGE_ORDER [] [] None d = (Inr res, d')"
    and out: "case res of Inl o' \<Rightarrow> out = o' | Inr (fs, cs, lock) \<Rightarrow> gate_outcome sha port k fs cs lock d' = Inr out"
  from run_stages_replay [OF run] have d': "d' = d"
    and run': "run_stages sha port inp' (Some ads) k VALIDATION_STAGE_ORDER [] [] None d = (Inr res, d)" by blast+
  show ?thesis
    using sc run' out assms(2) d' by (cases res) (auto simp: run_filter_chain_def)
qed (simp add: run_filter_chain_def)

lemma replay_changes_nothing: "snd (run_filter_chain sha port inp None k d) = d"
  using run_stages_replay_unchanged [of sha port inp k VALIDATION_STAGE_ORDER "[]" "[]" None d]
  by (auto simp: run_filter_chain_def andThen_def askS_def split: option.splits sum.splits prod.splits)

lemma screened_out_sel:
  "check_screening k d = Inr (Some out) \<Longrightarrow> co_status out = ''screened_out'' \<and> co_completed out = []"
  by (auto simp: check_screening_def Let_def split: option.splits if_splits)

lemma gate_outcome_sel:
  assumes "gate_outcome sha port k fs cs lock d = Inr out"
  shows "co_completed out = cs" and "co_status out \<in> {''stopped'', ''ready_for_protected_test''}"
    and "co_status out = ''ready_for_protected_test'' \<Longrightarrow>
     \<exists>a b c g. stage_run fs STAGE_WALK_FORWARD = Inr a \<and> stage_run fs STAGE_MONTE_CARLO = Inr b \<and>
       stage_run fs STAGE_ROBUSTNESS = Inr c \<and> lock \<noteq> None \<and> co_gate out = Some g \<and> gr_eligible_to_execute g \<and>
       evaluate_persisted_gate sha port a b c lock ''gated'' d = Inr g"
proof -
  obtain a b c g where r: "stage_run fs STAGE_WALK_FORWARD = Inr a" "stage_run fs STAGE_MONTE_CARLO = Inr b"
      "stage_run fs STAGE_ROBUSTNESS = Inr c" "lock \<noteq> None" "evaluate_persisted_gate sha port a b c lock ''gated'' d = Inr g"
    and out: "if gr_eligible_to_execute g
      then co_status out = ''ready_for_protected_test'' \<and> co_gate out = Some g \<and> co_completed out = cs
      else co_status out = ''stopped'' \<and> co_completed out = cs"
    using assms unfolding gate_outcome_def bindR_Inr_iff guardR_Inr_iff by fastforce
  show "co_completed out = cs" and "co_status out \<in> {''stopped'', ''ready_for_protected_test''}"
    using out by (cases "gr_eligible_to_execute g"; simp)+
  show "\<exists>a b c g. stage_run fs STAGE_WALK_FORWARD = Inr a \<and> stage_run fs STAGE_MONTE_CARLO = Inr b \<and>
       stage_run fs STAGE_ROBUSTNESS = Inr c \<and> lock \<noteq> None \<and> co_gate out = Some g \<and> gr_eligible_to_execute g \<and>
       evaluate_persisted_gate sha port a b c lock ''gated'' d = Inr g"
    if "co_status out = ''ready_for_protected_test''"
    using out that r by (cases "gr_eligible_to_execute g") auto
qed

lemma run_stages_keeps_lock:
  "run_stages sha port inp adapters k ss fs cs lock d = (Inr (Inr (fs', cs', lock')), d') \<Longrightarrow>
   STAGE_OOS \<notin> set ss \<Longrightarrow> lock' = lock"
proof (induction ss arbitrary: fs cs d lock)
  case (Cons s ss)
  from Cons.prems obtain f h l d1 where one: "run_one_stage sha port inp adapters k s fs lock d = (Inr (f, h, l), d1)"
    and rest: "(if \<not> ho_eligible h
        then askS (\<lambda>_. Inr (Inl (stopped_outcome k (cs @ [h]) s h)))
        else run_stages sha port inp adapters k ss (fs @ [f]) (cs @ [h]) l) d1 = (Inr (Inr (fs', cs', lock')), d')"
    by auto
  have "l = lock"
    using derive_handoff_lock(1) [OF one_stage_persisted(5) [OF one]] Cons.prems(2) by auto
  moreover have "ho_eligible h" using rest by (auto split: if_splits)
  ultimately show ?case using Cons.IH [of "fs @ [f]" "cs @ [h]" l d1] rest Cons.prems(2) by auto
qed simp

text \<open>The lock with which the loop ends was read at the first stage.\<close>

lemma lock_of_first_stage:
  assumes "adapters_evolve ads" and "db_ok d"
    and "run_stages sha port inp (Some ads) k VALIDATION_STAGE_ORDER [] [] None d = (Inr (Inr (fs, cs, lock)), d')"
  shows "\<exists>l d1. lock = Some l \<and> ep_source_lock port d1 (handoff_run_id sha k k STAGE_OOS) = Inr l \<and>
    extends d d1 \<and> extends d1 d'"
proof -
  let ?ss = "[STAGE_WALK_FORWARD, STAGE_ROBUSTNESS, STAGE_MONTE_CARLO]"
  from assms(3) obtain f h l d1 where one: "run_one_stage sha port inp (Some ads) k STAGE_OOS [] None d = (Inr (f, h, l), d1)"
    and rest: "(if \<not> ho_eligible h
        then askS (\<lambda>_. Inr (Inl (stopped_outcome k ([] @ [h]) STAGE_OOS h)))
        else run_stages sha port inp (Some ads) k ?ss ([] @ [f]) ([] @ [h]) l) d1 = (Inr (Inr (fs, cs, lock)), d')"
    unfolding VALIDATION_STAGE_ORDER_def run_stages.simps(2) andThen_Inr by auto
  have el: "ho_eligible h" using rest by (cases "ho_eligible h") auto
  then have run: "run_stages sha port inp (Some ads) k ?ss [f] [h] l d1 = (Inr (Inr (fs, cs, lock)), d')"
    using rest by simp
  have "lock = l" by (rule run_stages_keeps_lock [OF run]) simp
  moreover have "\<exists>x. l = Some x \<and> ep_source_lock port d1 (handoff_run_id sha k k STAGE_OOS) = Inr x"
    using derive_handoff_lock(2) [OF one_stage_persisted(5) [OF one]] el by (auto simp: last_run_def)
  moreover have "evolves d d1" "evolves d1 d'"
    using one_stage_evolves [OF assms(1) one] stages_evolve [OF assms(1) run] by auto
  ultimately show ?thesis using assms(2) by (auto simp: evolves_def)
qed

text \<open>An early return of the loop is a stop.\<close>

lemma stopped_in_loop:
  "run_stages sha port inp adapters k ss fs cs lock d = (Inr (Inl out), d') \<Longrightarrow> co_status out = ''stopped''"
proof (induction ss arbitrary: fs cs lock d)
  case (Cons s ss)
  from Cons.prems obtain f h l d1 where
    "(if \<not> ho_eligible h
        then askS (\<lambda>_. Inr (Inl (stopped_outcome k (cs @ [h]) s h)))
        else run_stages sha port inp adapters k ss (fs @ [f]) (cs @ [h]) l) d1 = (Inr (Inl out), d')"
    by auto
  then show ?case using Cons.IH by (auto simp: stopped_outcome_def split: if_splits)
qed simp

lemma chain_run_ids_nth:
  assumes "n < length ss"
  shows "chain_run_ids sha k source (take n ss) = take n (chain_run_ids sha k source ss)"
    and "chain_run_ids sha k source ss ! n =
      handoff_run_id sha k (last (source # chain_run_ids sha k source (take n ss))) (ss ! n)"
  using assms by (induction ss arbitrary: source n) (auto simp: Let_def take_Cons' nth_Cons' split: if_splits)

section \<open>An adapter that raised\<close>

lemma after_error_unknown:
  assumes ok: "db_ok d" and r: "run_get i d = Some r"
  shows "if rn_status r = SUCCEEDED then after_adapter_error inp s i d = (Inr (reference_of s i), d)
     else \<exists>d' r'. after_adapter_error inp s i d = (Inl (unknown_outcome s), d') \<and> run_get i d' = Some r' \<and>
       terminal (rn_status r') \<and> rn_status r' \<noteq> SUCCEEDED \<and>
       (terminal (rn_status r) \<longrightarrow> d' = d) \<and>
       (\<not> terminal (rn_status r) \<longrightarrow> rn_status r' = FAILED \<and>
         (\<exists>e. events d' = events d @ [e] \<and> ev_run_id e = i \<and> ev_type e = EV_RUN_FAILED \<and> ev_severity e = SEV_ERROR))"
proof (cases "terminal (rn_status r)")
  case True
  then show ?thesis
    using r by (cases "rn_status r") (auto simp: after_adapter_error_def reference_of_def)
next
  case False
  then have act: "rn_status r \<in> {CREATED, RUNNING}" and FAILED: "FAILED \<in> set (RUN_STATUS_TRANSITIONS (rn_status r))"
    by (cases "rn_status r"; simp)+
  define msg where "msg = (''Filter-stage adapter outcome is unknown; automatic rerun is blocked pending ''
      @ ''owner investigation.'')"
  define r1 where "r1 = transition_row (si_failed inp) FAILED (Some msg) r"
  define d1 where "d1 = upd_run i (transition_row (si_failed inp) FAILED (Some msg)) d"
  have t: "run_transition (si_failed inp) i FAILED (Some msg) d = Inr (r1, d1)"
    using run_transition_legal [OF r FAILED] by (simp add: r1_def d1_def)
  have get1: "run_get i d1 = Some r1" and ev1: "events d1 = events d" "next_event d1 = next_event d"
    using r by (simp_all add: d1_def run_get_upd r1_def)
  let ?m = "''Filter stage stopped with an unknown outcome; automatic rerun is blocked.''"
  have small: "strip ?m \<noteq> []" "length (strip ?m) \<le> 500" by (simp_all add: strip_def is_space_def)
  have ids: "\<forall>e \<in> set (events d1). ev_id e < next_event d1"
    using db_ok_parts(12) [OF ok] ev1 by simp
  obtain e d2 where e: "event_append (si_event inp) i EV_RUN_FAILED SEV_ERROR ?m quant_factory
      (rn_completed_at r1) d1 = Inr (e, d2)"
    using event_append_ok [OF get1 small ids] by blast
  have "after_adapter_error inp s i d = (Inl (unknown_outcome s), d2)"
    using r act t e by (auto simp: after_adapter_error_def msg_def transition_run_def append_run_event_def
        transaction_def andThen_def askS_def)
  moreover have "run_get i d2 = Some r1" using event_append_get [OF e] get1 by simp
  moreover have "\<exists>x. events d2 = events d @ [x] \<and> ev_run_id x = i \<and> ev_type x = EV_RUN_FAILED \<and> ev_severity x = SEV_ERROR"
    using event_append_runs [OF e] ev1 by auto
  moreover have "rn_status r1 = FAILED" by (simp add: r1_def transition_row_def)
  ultimately show ?thesis using False by auto
qed

section \<open>The chain and the gate read the same evidence\<close>

lemma get_or_jget: "get_or k JNull j = Inr x \<Longrightarrow> x = jget k j"
  by (cases j) (auto simp: get_or_def split: option.splits)

lemma outcome_from_evidence:
  assumes "run_get i d = Some r" and "ep_retrieve port (rn_stage r) d i = Inr rec"
    and "normalized_evidence (er_document rec) = Inr n" and "stage_outcome_of port i d = Inr out"
    and "rn_stage r \<in> {STAGE_WALK_FORWARD, STAGE_MONTE_CARLO, STAGE_ROBUSTNESS}"
  shows "\<exists>rs. so_status out = jget ''status'' n \<and> so_reasons out = rs \<and> evidence_reasons n = Inr rs"
proof -
  have jget: "subscript k j = Inr x \<Longrightarrow> jget k j = x" for k j x
    by (auto simp: subscript_def split: json.splits option.splits)
  obtain e m st rs where "subscript ''evidence'' (er_document rec) = Inr e"
    "subscript ''normalized_evidence'' e = Inr m" "subscript ''status'' m = Inr st"
    "evidence_reasons m = Inr rs" "so_status out = st" "so_reasons out = rs"
    using assms(1,2,4,5) by (auto simp: stage_outcome_of_def Let_def)
  moreover obtain w where w: "get_or ''evidence'' JNull (er_document rec) = Inr w" "n = jget ''normalized_evidence'' w"
    using assms(3) by (auto simp: normalized_evidence_def Let_def)
  moreover have "w = jget ''evidence'' (er_document rec)" by (rule get_or_jget [OF w(1)])
  ultimately have "n = m" using jget by (metis w(2))
  then show ?thesis
    using jget \<open>subscript ''status'' m = Inr st\<close> \<open>evidence_reasons m = Inr rs\<close> \<open>so_status out = st\<close>
      \<open>so_reasons out = rs\<close> by metis
qed

lemma stage_status_passed:
  assumes "evidence_reasons n = Inr rs"
  shows "(\<exists>ts. stage_status stage n = Inr (''passed'', ts)) \<longleftrightarrow> stage_accepts stage n"
proof -
  have 1: "stage_accepts stage n" if "stage_status stage n = Inr (''passed'', ts)" for ts
    using stage_status_clean [OF that] by simp
  have 2: "\<exists>ts. stage_status stage n = Inr (''passed'', ts)" if "stage_accepts stage n"
  proof (cases "stage_status stage n")
    case (Inr p)
    obtain s ts where p: "p = (s, ts)" by (cases p)
    show ?thesis
    proof (cases "jget ''status'' n = JStr ''passed''")
      case True
      then show ?thesis unfolding stage_status_def Let_def if_P [OF True] by blast
    next
      case False
      then show ?thesis using stage_status_outcome [OF _ False] Inr p that by blast
    qed
  next
    case (Inl e)
    have "map_native_status (jget ''status'' n) \<noteq> Inl e"
      using that by (auto simp: stage_accepts_def map_native_status_def)
    moreover have "walk_forward_ok n \<noteq> Inl e"
      using assms by (auto simp: walk_forward_ok_def)
    ultimately show ?thesis
      using Inl assms unfolding stage_status_def Let_def
      by (auto simp only: bindR_Inl_iff sum.distinct split: if_splits)
  qed
  show ?thesis using 1 2 by blast
qed

lemma may_progress_accepts:
  assumes "s \<in> set SCORED_VALIDATION_STAGES" and "so_status out = jget ''status'' n"
    and "so_reasons out = rs" and "evidence_reasons n = Inr rs"
  shows "stage_may_progress s out \<longleftrightarrow> stage_accepts (run_stage_value s) n"
proof -
  have "run_stage_value s = ''monte_carlo'' \<longleftrightarrow> s = STAGE_MONTE_CARLO"
    "run_stage_value s = ''walk_forward'' \<longleftrightarrow> s = STAGE_WALK_FORWARD"
    using assms(1) by (auto simp: SCORED_VALIDATION_STAGES_def)
  then show ?thesis
    using assms unfolding stage_may_progress_def stage_accepts_def by auto
qed

end
