(* ===== verification/Chain_Example.thy ===== *)
theory Chain_Example
  imports Worked_Example Chain_Laws
begin

text \<open>
  A database in which a screening run and the four validation stages have succeeded, with evidence
  that opens the gate: the concrete input of the witnesses about the filter chain. The digest is
  the end of its text, reversed, so that the stages get different run identities.
\<close>

definition chain_sha :: "string \<Rightarrow> string" where
  "chain_sha t = take 8 (dropWhile (\<lambda>c. \<not> is_ascii_alnum c) (rev t))"

definition demo_screening :: run where
  "demo_screening = demo_run\<lparr>rn_id := ''scr'', rn_stage := STAGE_SCREENING, rn_status := SUCCEEDED,
     rn_started_at := Some ''t4'', rn_completed_at := Some ''t5''\<rparr>"

definition demo_ids :: "string list" where
  "demo_ids = chain_run_ids chain_sha ''scr'' ''scr'' VALIDATION_STAGE_ORDER"

definition demo_stage_run :: "run_stage \<Rightarrow> string \<Rightarrow> string \<Rightarrow> run_status \<Rightarrow> run" where
  "demo_stage_run s i source status = demo_screening\<lparr>rn_id := i, rn_stage := s, rn_status := status,
     rn_completed_at := (if terminal status then Some ''t5'' else None),
     rn_environment_json := ''{\"filter_handoff\":{\"source_run_id\":\"'' @ source @ ''\"}}''\<rparr>"

definition demo_row :: parameter_result where
  "demo_row = \<lparr>pr_run_id = ''scr'', pr_row_id = ''p'', pr_parameters_json = ''{}'', pr_metrics_json = ''{}'',
     pr_ranking_position = 1, pr_screening_status = ''passed'', pr_rejection_reasons = []\<rparr>"

definition demo_screened :: db where
  "demo_screened = demo_configured\<lparr>runs := [demo_screening], parameter_results := [demo_row]\<rparr>"

definition demo_stages :: "run_status list \<Rightarrow> db" where
  "demo_stages statuses = demo_screened\<lparr>runs := demo_screening #
     map (\<lambda>((s, i), source, status). demo_stage_run s i source status)
       (zip (zip VALIDATION_STAGE_ORDER demo_ids) (zip (''scr'' # demo_ids) statuses))\<rparr>"

definition demo_passed :: db where
  "demo_passed = demo_stages [SUCCEEDED, SUCCEEDED, SUCCEEDED, SUCCEEDED]"

section \<open>Evidence\<close>

definition demo_source :: json where
  "demo_source = JObj (map (\<lambda>k. (k, JStr k)) LINEAGE_KEYS @
     [(''source_artifact_id'', JStr ''7''), (''data_provenance'', JObj []), (''execution_assumptions'', JObj [])])"

definition demo_normalized :: "string \<Rightarrow> string list \<Rightarrow> json" where
  "demo_normalized status reasons = JObj [(''status'', JStr status), (''reasons'', JList (map JStr reasons))]"

definition demo_native :: json where
  "demo_native = JObj [(''source'', demo_source), (''configuration'', JObj [(''experiment_id'', JStr ''exp''),
     (''strategy_id'', JStr ''fixture''), (''strategy_version'', JStr ''1''), (''locked_parameters'', JObj [])])]"

definition demo_evidence :: "json \<Rightarrow> evidence_record" where
  "demo_evidence normalized = \<lparr>er_artifact_id = 9, er_evidence_identity = ''ev'',
     er_document = JObj [(''source'', demo_source),
       (''evidence'', JObj [(''normalized_evidence'', normalized), (''robustness'', demo_native), (''folds'', JList [])])]\<rparr>"

definition demo_lock :: source_lock where
  "demo_lock = \<lparr>slk_status = ''passed'', slk_kind = ''out_of_sample'', slk_artifact_id = JStr ''7'',
     slk_experiment_id = JStr ''exp'', slk_strategy_id = JStr ''fixture'', slk_strategy_version = JStr ''1'',
     slk_locked_parameters = JObj [], slk_data_provenance = JObj [], slk_execution_assumptions = JObj [],
     slk_reasons = [], slk_parameter_lock_id = JStr ''lock''\<rparr>"

text \<open>Walk-forward folds that accept nothing, a robustness score that failed, no Monte Carlo sample.\<close>

definition demo_walk_evidence :: evidence_record where
  "demo_walk_evidence = demo_evidence (demo_normalized ''insufficient_evidence'' [OPEN_FOLDS_REASON])"

definition demo_robust_evidence :: evidence_record where
  "demo_robust_evidence = demo_evidence (demo_normalized ''failed'' [''score''])"

definition demo_monte_evidence :: evidence_record where
  "demo_monte_evidence = demo_evidence (demo_normalized ''insufficient_evidence'' [])"

definition demo_port :: evidence_port where
  "demo_port = \<lparr>ep_retrieve = (\<lambda>s d i. if s = STAGE_WALK_FORWARD then Inr demo_walk_evidence
       else if s = STAGE_ROBUSTNESS then Inr demo_robust_evidence else Inr demo_monte_evidence),
     ep_source_lock = (\<lambda>d i. Inr demo_lock)\<rparr>"

definition demo_inputs :: "run_stage \<Rightarrow> stage_inputs" where
  "demo_inputs s = \<lparr>si_captured = Inl (RuntimeError ''no lineage''), si_created = ''t6'', si_failed = ''t7'', si_event = ''t8''\<rparr>"

text \<open>Adapters that only raise.\<close>

definition demo_adapters :: "(run_stage \<times> stage_adapter) list" where
  "demo_adapters = map (\<lambda>s. (s, \<lambda>ctx d. (Inl (RuntimeError ''never called''), d))) VALIDATION_STAGE_ORDER"

lemma demo_adapters_evolve: "adapters_evolve demo_adapters"
  by (auto simp: adapters_evolve_def demo_adapters_def evo.evo_refl)

section \<open>The gate, check by check\<close>

definition demo_references :: "gate_reference list" where
  "demo_references = \<lparr>gf_stage = ''out_of_sample'', gf_artifact_id = JStr ''7'', gf_evidence_identity = None\<rparr> #
     map (\<lambda>s. \<lparr>gf_stage = s, gf_artifact_id = JStr ''9'', gf_evidence_identity = Some ''ev''\<rparr>)
       [''walk_forward'', ''monte_carlo'', ''robustness'']"

definition demo_reasons :: "string list" where
  "demo_reasons = [''monte_carlo (unscored): monte_carlo evidence returned insufficient_evidence'',
     ''robustness (score): score'']"

definition demo_gate_state :: "nat \<Rightarrow> nat \<Rightarrow> string option \<Rightarrow> gate_state" where
  "demo_gate_state n m i = \<lparr>gs_reasons = take m demo_reasons, gs_references = take n demo_references,
     gs_statuses = replicate n ''passed'', gs_lineage = i\<rparr>"

definition demo_draft :: gate_result where
  "demo_draft = \<lparr>gr_status = ''passed'', gr_reasons = demo_reasons, gr_references = demo_references,
     gr_parameter_lock_identity = Some ''lock'', gr_protected_data_state = ''gated'',
     gr_lineage_identity = Some ''1\":\"nois'', gr_gate_identity = [], gr_eligible_to_execute = True,
     gr_eligible_to_progress = False\<rparr>"

definition demo_gate_result :: gate_result where
  "demo_gate_result = demo_draft\<lparr>gr_gate_identity := ''dessap\":''\<rparr>"

lemma demo_checks:
  "check_protected_state ''gated'' = (''gated'', demo_gate_state 0 0 None)"
  "check_source_lock (Some demo_lock) (demo_gate_state 0 0 None) = Inr (Some ''lock'', demo_gate_state 1 0 None)"
  "check_stage chain_sha ''walk_forward'' (Some demo_walk_evidence) (demo_gate_state 1 0 None) =
     Inr (demo_gate_state 2 0 (Some ''noisrev_''))"
  "check_stage chain_sha ''monte_carlo'' (Some demo_monte_evidence) (demo_gate_state 2 0 (Some ''noisrev_'')) =
     Inr (demo_gate_state 3 1 (Some ''noisrev_''))"
  "check_stage chain_sha ''robustness'' (Some demo_robust_evidence) (demo_gate_state 3 1 (Some ''noisrev_'')) =
     Inr (demo_gate_state 4 2 (Some ''noisrev_''))"
  "check_lock_agreement (Some demo_lock) (Some demo_walk_evidence) (Some demo_robust_evidence)
     (demo_gate_state 4 2 (Some ''noisrev_'')) = Inr (demo_gate_state 4 2 (Some ''noisrev_''))"
  "combined_lineage_identity chain_sha (Some ''noisrev_'') (Some demo_lock) = Inr (Some ''1\":\"nois'')"
  "result_status (gs_statuses (demo_gate_state 4 2 (Some ''noisrev_''))) = ''passed''"
  "gs_reasons (demo_gate_state 4 2 (Some ''noisrev_'')) = demo_reasons"
  "gs_references (demo_gate_state 4 2 (Some ''noisrev_'')) = demo_references"
  "gs_lineage (demo_gate_state 4 2 (Some ''noisrev_'')) = Some ''noisrev_''"
  "demo_reasons = [] \<longleftrightarrow> False"
  by code_simp+

lemma demo_finish: "finish_gate chain_sha demo_draft = Inr demo_gate_result"
  by code_simp

lemma demo_gate:
  "evaluate_lockbox_prerequisites chain_sha (Some demo_walk_evidence) (Some demo_monte_evidence)
     (Some demo_robust_evidence) (Some demo_lock) ''gated'' = Inr demo_gate_result"
  unfolding evaluate_lockbox_prerequisites_def demo_checks(1) prod.case
  by (simp add: demo_checks(2-12) del: One_nat_def flip: demo_finish) (simp add: demo_draft_def)

lemma demo_ids_eq: "demo_ids = [''run_soo|rcs|'', ''run_drawrof_'', ''run_ssentsub'', ''run_olrac_et'']"
  by code_simp

lemma demo_ids_all: "list_all (\<lambda>i. run_get i demo_passed \<noteq> None) demo_ids"
  by code_simp

section \<open>The replay, stage by stage\<close>

definition demo_handoff :: "run_stage \<Rightarrow> string \<Rightarrow> string \<Rightarrow> json \<Rightarrow> string list \<Rightarrow> stage_handoff" where
  "demo_handoff s i status evidence reasons = \<lparr>ho_stage = s, ho_run_id = i, ho_status = JStr status,
     ho_eligible = True, ho_evidence_identity = evidence, ho_reasons = map JStr reasons\<rparr>"

definition demo_handoffs :: "stage_handoff list" where
  "demo_handoffs =
     [demo_handoff STAGE_OOS ''run_soo|rcs|'' ''passed'' (JStr ''7'') [],
      demo_handoff STAGE_WALK_FORWARD ''run_drawrof_'' ''insufficient_evidence'' (JStr ''ev'') [OPEN_FOLDS_REASON],
      demo_handoff STAGE_ROBUSTNESS ''run_ssentsub'' ''failed'' (JStr ''ev'') [''score''],
      demo_handoff STAGE_MONTE_CARLO ''run_olrac_et'' ''insufficient_evidence'' (JStr ''ev'') []]"

definition demo_refs :: "stage_reference list" where
  "demo_refs = map (\<lambda>h. reference_of (ho_stage h) (ho_run_id h)) demo_handoffs"

lemma demo_screening_ok: "check_screening ''scr'' demo_passed = Inr None"
  by code_simp

lemma demo_stage_results:
  "fst (run_one_stage chain_sha demo_port demo_inputs None ''scr'' STAGE_OOS [] None demo_passed) =
     Inr (demo_refs ! 0, demo_handoffs ! 0, Some demo_lock)"
  "fst (run_one_stage chain_sha demo_port demo_inputs None ''scr'' STAGE_WALK_FORWARD [demo_refs ! 0] (Some demo_lock) demo_passed) =
     Inr (demo_refs ! 1, demo_handoffs ! 1, Some demo_lock)"
  "fst (run_one_stage chain_sha demo_port demo_inputs None ''scr'' STAGE_ROBUSTNESS [demo_refs ! 0, demo_refs ! 1] (Some demo_lock) demo_passed) =
     Inr (demo_refs ! 2, demo_handoffs ! 2, Some demo_lock)"
  "fst (run_one_stage chain_sha demo_port demo_inputs None ''scr'' STAGE_MONTE_CARLO [demo_refs ! 0, demo_refs ! 1, demo_refs ! 2] (Some demo_lock) demo_passed) =
     Inr (demo_refs ! 3, demo_handoffs ! 3, Some demo_lock)"
  by code_simp+

lemma demo_stage_steps:
  "run_one_stage chain_sha demo_port demo_inputs None ''scr'' STAGE_OOS [] None demo_passed =
     (Inr (demo_refs ! 0, demo_handoffs ! 0, Some demo_lock), demo_passed)"
  "run_one_stage chain_sha demo_port demo_inputs None ''scr'' STAGE_WALK_FORWARD [demo_refs ! 0] (Some demo_lock) demo_passed =
     (Inr (demo_refs ! 1, demo_handoffs ! 1, Some demo_lock), demo_passed)"
  "run_one_stage chain_sha demo_port demo_inputs None ''scr'' STAGE_ROBUSTNESS [demo_refs ! 0, demo_refs ! 1] (Some demo_lock) demo_passed =
     (Inr (demo_refs ! 2, demo_handoffs ! 2, Some demo_lock), demo_passed)"
  "run_one_stage chain_sha demo_port demo_inputs None ''scr'' STAGE_MONTE_CARLO [demo_refs ! 0, demo_refs ! 1, demo_refs ! 2] (Some demo_lock) demo_passed =
     (Inr (demo_refs ! 3, demo_handoffs ! 3, Some demo_lock), demo_passed)"
  using demo_stage_results replay_unchanged by (metis prod.collapse)+

lemma demo_handoff_shape:
  "ho_eligible (demo_handoffs ! 0)" "ho_eligible (demo_handoffs ! 1)" "ho_eligible (demo_handoffs ! 2)"
  "ho_eligible (demo_handoffs ! 3)"
  "[demo_refs ! 0, demo_refs ! 1, demo_refs ! 2, demo_refs ! 3] = demo_refs"
  "[demo_handoffs ! 0, demo_handoffs ! 1, demo_handoffs ! 2, demo_handoffs ! 3] = demo_handoffs"
  by (simp_all add: demo_refs_def demo_handoffs_def demo_handoff_def)

lemma run_stages_step:
  "run_one_stage sha port inp adapters k s fs lock d = (Inr (f, h, l), d') \<Longrightarrow> ho_eligible h \<Longrightarrow>
   run_stages sha port inp adapters k (s # ss) fs cs lock d =
   run_stages sha port inp adapters k ss (fs @ [f]) (cs @ [h]) l d'"
  by (simp add: andThen_def)

lemma demo_loop:
  "run_stages chain_sha demo_port demo_inputs None ''scr'' VALIDATION_STAGE_ORDER [] [] None demo_passed =
     (Inr (Inr (demo_refs, demo_handoffs, Some demo_lock)), demo_passed)"
proof -
  note step = run_stages_step [OF demo_stage_steps(1) demo_handoff_shape(1)]
    run_stages_step [OF demo_stage_steps(2) demo_handoff_shape(2)]
    run_stages_step [OF demo_stage_steps(3) demo_handoff_shape(3)]
    run_stages_step [OF demo_stage_steps(4) demo_handoff_shape(4)]
  show ?thesis
    unfolding VALIDATION_STAGE_ORDER_def step append_Nil append_Cons run_stages.simps(1) askS_def
    by (simp only: demo_handoff_shape)
qed

lemma demo_gate_inputs:
  "stage_run demo_refs STAGE_WALK_FORWARD = Inr ''run_drawrof_''"
  "stage_run demo_refs STAGE_MONTE_CARLO = Inr ''run_olrac_et''"
  "stage_run demo_refs STAGE_ROBUSTNESS = Inr ''run_ssentsub''"
  "gate_retrieve demo_port STAGE_WALK_FORWARD i d = Inr (Some demo_walk_evidence, [])"
  "gate_retrieve demo_port STAGE_MONTE_CARLO i d = Inr (Some demo_monte_evidence, [])"
  "gate_retrieve demo_port STAGE_ROBUSTNESS i d = Inr (Some demo_robust_evidence, [])"
  by (simp_all add: stage_run_def demo_refs_def demo_handoffs_def demo_handoff_def reference_of_def
      gate_retrieve_def demo_port_def)

definition demo_outcome :: chain_outcome where
  "demo_outcome = \<lparr>co_status = ''ready_for_protected_test'', co_screening_run_id = ''scr'',
     co_completed = demo_handoffs, co_stopped_at = None,
     co_reasons = [JStr ''Protected test remains locked until separate authority is granted.''],
     co_gate = Some demo_gate_result\<rparr>"

lemma demo_gate_outcome:
  "gate_outcome chain_sha demo_port ''scr'' demo_refs demo_handoffs (Some demo_lock) d = Inr demo_outcome"
proof -
  have "gr_eligible_to_execute demo_gate_result" by (simp add: demo_gate_result_def demo_draft_def)
  then show ?thesis
    by (simp add: gate_outcome_def demo_gate_inputs evaluate_persisted_gate_def demo_gate demo_outcome_def)
qed

lemma demo_reopen: "reopen_chain chain_sha demo_port demo_inputs ''scr'' demo_passed = (Inr demo_outcome, demo_passed)"
  by (simp add: reopen_chain_def run_filter_chain_def demo_screening_ok demo_loop demo_gate_outcome)

lemma demo_complete: "require_complete_adapters (map fst demo_adapters) = Inr ()"
  by code_simp

lemma demo_run_chain: "run_chain chain_sha demo_port inp demo_adapters ''scr'' demo_passed = (Inr demo_outcome, demo_passed)"
  using run_filter_chain_replay [OF demo_reopen [unfolded reopen_chain_def] demo_complete]
  by (simp add: run_chain_def)

lemma demo_passed_ok: "db_ok demo_passed"
  by code_simp

end
