(* ===== verification/Chain_Guarantees.thy ===== *)
theory Chain_Guarantees
  imports Chain_Example
begin

text \<open>
  The properties of the gate before the protected test and of the filter chain that leads to it.
\<close>

section \<open>The gate\<close>

text \<open>
  C25: The gate refines its rule. Whenever \<open>evaluate_lockbox_prerequisites\<close> returns, it makes the
  protected test executable exactly when \<open>gate_open\<close> holds: the data is gated, the source lock passed
  and is complete, all three stages are accepted under one lineage identity, the robustness evidence
  was computed for this lock and no selected fold lacks its lock identity. It never makes a strategy
  eligible to progress, and its identity is the canonical identity of the result it returns.
\<close>

theorem gate_opens_exactly:
  assumes "evaluate_lockbox_prerequisites sha walk_forward monte_carlo robustness lock st = Inr g"
  shows "(gr_eligible_to_execute g \<longleftrightarrow> gate_open sha walk_forward monte_carlo robustness lock st) \<and>
    (gr_status g = ''passed'' \<longleftrightarrow> gate_open sha walk_forward monte_carlo robustness lock st) \<and>
    \<not> gr_eligible_to_progress g \<and> lockbox_gate_identity sha g = Inr (gr_gate_identity g)"
  using gate_outcome_exact [OF assms] by blast

theorem gate_opens_exactly_witness:
  "gate_open chain_sha (Some demo_walk_evidence) (Some demo_monte_evidence) (Some demo_robust_evidence)
     (Some demo_lock) ''gated'' \<and> lockbox_gate_identity chain_sha demo_gate_result = Inr ''dessap\":''"
  using gate_opens_exactly [OF demo_gate] by (simp add: demo_gate_result_def demo_draft_def)

text \<open>
  C26: The chain and the gate judge a stage alike. When the outcome of a walk-forward, robustness or
  Monte Carlo run is derived from evidence whose normalized part is \<open>n\<close>, the chain hands the idea to
  the next filter exactly when the gate's own reading of \<open>n\<close> gives \<open>passed\<close>.
\<close>

theorem handoff_agrees_with_gate:
  assumes "run_get i d = Some r" and "rn_stage r \<in> set SCORED_VALIDATION_STAGES"
    and "ep_retrieve port (rn_stage r) d i = Inr rec" and "normalized_evidence (er_document rec) = Inr n"
    and "stage_outcome_of port i d = Inr out"
  shows "stage_may_progress (rn_stage r) out \<longleftrightarrow>
    (\<exists>rs. stage_status (run_stage_value (rn_stage r)) n = Inr (''passed'', rs))"
proof -
  have n: "is_object n" using assms(4) by (rule normalized_object)
  obtain rs where out: "so_status out = jget ''status'' n" "so_reasons out = rs" "evidence_reasons n = Inr rs"
    using outcome_from_evidence [OF assms(1,3,4,5)] assms(2) by (auto simp: SCORED_VALIDATION_STAGES_def)
  show ?thesis
    unfolding stage_status_passed [OF out(3)] using may_progress_accepts [OF assms(2) out] .
qed

lemma demo_outcome_of:
  "run_get ''run_drawrof_'' demo_passed = Some (demo_stage_run STAGE_WALK_FORWARD ''run_drawrof_'' ''run_soo|rcs|'' SUCCEEDED)"
  "map_sum (\<lambda>_. ()) (stage_may_progress STAGE_WALK_FORWARD) (stage_outcome_of demo_port ''run_drawrof_'' demo_passed) = Inr True"
  "normalized_evidence (er_document demo_walk_evidence) = Inr (demo_normalized ''insufficient_evidence'' [OPEN_FOLDS_REASON])"
  by code_simp+

theorem handoff_agrees_with_gate_witness:
  "\<exists>out rs. stage_outcome_of demo_port ''run_drawrof_'' demo_passed = Inr out \<and> stage_may_progress STAGE_WALK_FORWARD out \<and>
     stage_status ''walk_forward'' (demo_normalized ''insufficient_evidence'' [OPEN_FOLDS_REASON]) = Inr (''passed'', rs)"
proof -
  let ?r = "demo_stage_run STAGE_WALK_FORWARD ''run_drawrof_'' ''run_soo|rcs|'' SUCCEEDED"
  have s: "rn_stage ?r = STAGE_WALK_FORWARD" by (simp add: demo_stage_run_def)
  obtain out where out: "stage_outcome_of demo_port ''run_drawrof_'' demo_passed = Inr out"
    and go: "stage_may_progress STAGE_WALK_FORWARD out"
    using demo_outcome_of(2) by (cases "stage_outcome_of demo_port ''run_drawrof_'' demo_passed") auto
  have "ep_retrieve demo_port (rn_stage ?r) demo_passed ''run_drawrof_'' = Inr demo_walk_evidence"
    by (simp add: s demo_port_def)
  from handoff_agrees_with_gate [OF demo_outcome_of(1) _ this demo_outcome_of(3) out] go out show ?thesis
    by (auto simp: s SCORED_VALIDATION_STAGES_def)
qed

section \<open>The chain\<close>

text \<open>
  C27: A returned outcome is backed by the database. If the adapters only let the database evolve
  and the call returns, the completed handoffs are a prefix of the fixed stage order, their runs have
  the identities fixed by the screening run, each of these runs is stored in the final database as
  succeeded for the configuration and strategy of the screening run and as handed over from its
  predecessor, and every handoff but the last was eligible.
\<close>

theorem completed_handoffs_persisted:
  assumes "adapters_evolve adapters" and "db_ok d"
    and "run_chain sha port inp adapters k d = (Inr out, d')"
  shows "let ids = chain_run_ids sha k k VALIDATION_STAGE_ORDER; hs = co_completed out; n = length hs in
    n \<le> 4 \<and> map ho_stage hs = take n VALIDATION_STAGE_ORDER \<and> map ho_run_id hs = take n ids \<and>
    list_all2 (handoff_persisted k d') (take n (k # ids)) hs \<and> list_all ho_eligible (butlast hs) \<and>
    db_ok d' \<and> extends d d'"
  using run_filter_chain_Inr [OF assms(3) [unfolded run_chain_def]]
proof (elim disjE conjE exE)
  assume "check_screening k d = Inr (Some out)" "d' = d"
  then show ?thesis using assms(2) by (simp add: screened_out_sel Let_def)
next
  fix res
  assume run: "run_stages sha port inp (Some adapters) k VALIDATION_STAGE_ORDER [] [] None d = (Inr res, d')"
    and out: "case res of Inl o' \<Rightarrow> out = o' | Inr (fs, cs, lock) \<Rightarrow> gate_outcome sha port k fs cs lock d' = Inr out"
  obtain hs where hs: "length hs \<le> 4" "map ho_stage hs = take (length hs) VALIDATION_STAGE_ORDER"
    "map ho_run_id hs = take (length hs) (chain_run_ids sha k k VALIDATION_STAGE_ORDER)"
    "list_all2 (handoff_persisted k d') (take (length hs) (k # chain_run_ids sha k k VALIDATION_STAGE_ORDER)) hs"
    "loop_result sha k VALIDATION_STAGE_ORDER [] [] res hs"
    using run_stages_sound [OF assms(1,2) run] by (auto simp: last_run_def length_stage_order)
  have "co_completed out = hs \<and> list_all ho_eligible (butlast hs)"
    using hs(5) out gate_outcome_sel(1)
    by (auto simp: loop_result_def stopped_outcome_def list_all_iff dest: in_set_butlastD split: sum.splits)
  moreover have "evolves d d'" by (rule stages_evolve [OF assms(1) run])
  ultimately show ?thesis using hs(1-4) assms(2) by (simp add: Let_def evolves_def)
qed

theorem completed_handoffs_persisted_witness:
  "list_all2 (handoff_persisted ''scr'' demo_passed) [''scr'', ''run_soo|rcs|'', ''run_drawrof_'', ''run_ssentsub''] demo_handoffs"
  using completed_handoffs_persisted [OF demo_adapters_evolve demo_passed_ok demo_run_chain]
  by (simp add: demo_outcome_def Let_def demo_handoffs_def demo_ids_eq [unfolded demo_ids_def])

text \<open>
  C28: Ready means the gate is open. A call that returns \<open>ready_for_protected_test\<close>, with adapters that
  only let the database evolve (rows and columns change as the repositories change them), has a source lock
  of the out-of-sample run, read while it ran, and the three evidence records of the walk-forward,
  Monte Carlo and robustness runs of this screening run in the database it leaves, and under them
  the rule of the gate holds; the gate it reports is executable.
\<close>

theorem ready_means_gate_open:
  assumes "adapters_evolve adapters" and "db_ok d"
    and "run_chain sha port inp adapters k d = (Inr out, d')" and "co_status out = ''ready_for_protected_test''"
  shows "let ids = chain_run_ids sha k k VALIDATION_STAGE_ORDER in
    length (co_completed out) = 4 \<and> list_all ho_eligible (co_completed out) \<and>
    (\<exists>d1 l w m r g. extends d d1 \<and> extends d1 d' \<and> ep_source_lock port d1 (ids ! 0) = Inr l \<and>
       ep_retrieve port STAGE_WALK_FORWARD d' (ids ! 1) = Inr w \<and>
       ep_retrieve port STAGE_ROBUSTNESS d' (ids ! 2) = Inr r \<and>
       ep_retrieve port STAGE_MONTE_CARLO d' (ids ! 3) = Inr m \<and>
       gate_open sha (Some w) (Some m) (Some r) (Some l) ''gated'' \<and>
       co_gate out = Some g \<and> gr_eligible_to_execute g)"
proof -
  let ?ids = "chain_run_ids sha k k VALIDATION_STAGE_ORDER"
  from run_filter_chain_Inr [OF assms(3) [unfolded run_chain_def]] assms(4) screened_out_sel [of k d out]
  obtain res where run: "run_stages sha port inp (Some adapters) k VALIDATION_STAGE_ORDER [] [] None d = (Inr res, d')"
    and out: "case res of Inl o' \<Rightarrow> out = o' | Inr (fs, cs, lock) \<Rightarrow> gate_outcome sha port k fs cs lock d' = Inr out"
    by auto
  obtain hs where hs: "map ho_stage hs = take (length hs) VALIDATION_STAGE_ORDER"
    "map ho_run_id hs = take (length hs) ?ids" "loop_result sha k VALIDATION_STAGE_ORDER [] [] res hs"
    using run_stages_sound [OF assms(1,2) run] by (auto simp: last_run_def)
  obtain fs cs lock where res: "res = Inr (fs, cs, lock)"
    using hs(3) out assms(4) by (cases res) (auto simp: loop_result_def stopped_outcome_def)
  have done4: "length hs = 4" "list_all ho_eligible hs" "cs = hs"
    and fs: "fs = map (\<lambda>h. reference_of (ho_stage h) (ho_run_id h)) hs"
    using hs(3) res by (auto simp: loop_result_def VALIDATION_STAGE_ORDER_def)
  have refs: "fs = map2 reference_of VALIDATION_STAGE_ORDER ?ids"
    using hs(1,2) done4(1) unfolding fs
    by (simp add: VALIDATION_STAGE_ORDER_def Let_def map_eq_Cons_conv) (auto simp: length_Suc_conv eval_nat_numeral)
  obtain l d1 where l: "lock = Some l" "ep_source_lock port d1 (?ids ! 0) = Inr l" "extends d d1" "extends d1 d'"
    using lock_of_first_stage [OF assms(1,2) run [unfolded res]] by (auto simp: VALIDATION_STAGE_ORDER_def Let_def)
  from gate_outcome_sel(3) [of sha port k fs cs lock d' out] out res assms(4)
  obtain a b c g where abc: "stage_run fs STAGE_WALK_FORWARD = Inr a" "stage_run fs STAGE_MONTE_CARLO = Inr b"
    "stage_run fs STAGE_ROBUSTNESS = Inr c" and g: "co_gate out = Some g" "gr_eligible_to_execute g"
    "evaluate_persisted_gate sha port a b c lock ''gated'' d' = Inr g" by auto
  have "a = ?ids ! 1" "c = ?ids ! 2" "b = ?ids ! 3"
    using abc unfolding refs by (simp_all add: VALIDATION_STAGE_ORDER_def stage_run_def reference_of_def Let_def)
  with persisted_gate_open [OF g(3,2)] l g gate_outcome_sel(1) [of sha port k fs cs lock d' out] out res done4
  show ?thesis by (simp add: Let_def) blast
qed

theorem ready_means_gate_open_witness:
  "gate_open chain_sha (Some demo_walk_evidence) (Some demo_monte_evidence) (Some demo_robust_evidence)
     (Some demo_lock) ''gated''"
proof -
  have "co_status demo_outcome = ''ready_for_protected_test''" by (simp add: demo_outcome_def)
  from ready_means_gate_open [OF demo_adapters_evolve demo_passed_ok demo_run_chain this] show ?thesis
    by (auto simp: demo_port_def Let_def)
qed

text \<open>
  A reserved stage is never computed again. Two calls whose adapters agree on the stages without
  a stored run, and which may differ arbitrarily on the others, return the same result and leave the
  same database: the adapter of a stage that is already reserved is never consulted.
\<close>

theorem reserved_adapters_irrelevant:
  assumes "adapters_evolve adapters" and "db_ok d"
    and "set (map fst adapters) = set VALIDATION_STAGE_ORDER"
    and "set (map fst adapters') = set VALIDATION_STAGE_ORDER"
    and "\<forall>(s, i) \<in> set (zip VALIDATION_STAGE_ORDER (chain_run_ids sha k k VALIDATION_STAGE_ORDER)).
      run_get i d = None \<longrightarrow> map_of adapters s = map_of adapters' s"
  shows "run_chain sha port inp adapters k d = run_chain sha port inp adapters' k d"
proof -
  have "require_complete_adapters (map fst adapters) = Inr ()" "require_complete_adapters (map fst adapters') = Inr ()"
    using assms(3,4) by (simp_all add: require_complete_adapters_def Let_def)
  moreover have "run_stages sha port inp (Some adapters) k VALIDATION_STAGE_ORDER [] [] None d =
      run_stages sha port inp (Some adapters') k VALIDATION_STAGE_ORDER [] [] None d"
    using run_stages_same [OF assms(1,2), of VALIDATION_STAGE_ORDER sha k "[]" adapters'] assms(5)
    by (simp add: last_run_def)
  ultimately show ?thesis
    by (auto simp: run_chain_def run_filter_chain_def andThen_def askS_def split: sum.splits option.splits)
qed

definition demo_other_adapters :: "(run_stage \<times> stage_adapter) list" where
  "demo_other_adapters = map (\<lambda>s. (s, \<lambda>ctx d. (Inl (KeyError ''other''), empty_db))) VALIDATION_STAGE_ORDER"

theorem reserved_adapters_irrelevant_witness:
  "run_chain chain_sha demo_port demo_inputs demo_other_adapters ''scr'' demo_passed = (Inr demo_outcome, demo_passed)"
proof -
  have keys: "set (map fst demo_adapters) = set VALIDATION_STAGE_ORDER"
    "set (map fst demo_other_adapters) = set VALIDATION_STAGE_ORDER"
    by (simp_all add: demo_adapters_def demo_other_adapters_def image_image)
  have "\<forall>(s, i) \<in> set (zip VALIDATION_STAGE_ORDER demo_ids).
      run_get i demo_passed = None \<longrightarrow> map_of demo_adapters s = map_of demo_other_adapters s"
    using demo_ids_all by (clarsimp simp: list_all_iff) (drule set_zip_rightD, fastforce)
  then show ?thesis
    using reserved_adapters_irrelevant [OF demo_adapters_evolve demo_passed_ok keys, of chain_sha "''scr''" demo_port demo_inputs]
      demo_run_chain by (simp add: demo_ids_def)
qed

text \<open>
  C29: A stage that did not succeed blocks the chain for good. While the run of stage \<open>n\<close> is stored
  with any status but succeeded, after the stages before it were reserved, every call changes
  nothing, whatever its adapters, clocks and evidence, and never reports readiness.
\<close>

theorem unfinished_stage_blocks:
  assumes "n < length VALIDATION_STAGE_ORDER" and "ids = chain_run_ids sha k k VALIDATION_STAGE_ORDER"
    and "\<forall>j < n. run_get (ids ! j) d \<noteq> None"
    and "run_get (ids ! n) d = Some r" and "rn_status r \<noteq> SUCCEEDED"
  shows "snd (run_chain sha port inp adapters k d) = d \<and>
    (\<forall>out. fst (run_chain sha port inp adapters k d) = Inr out \<longrightarrow> co_status out \<noteq> ''ready_for_protected_test'')"
proof -
  let ?ss = "take n VALIDATION_STAGE_ORDER" and ?s = "VALIDATION_STAGE_ORDER ! n"
  have split: "VALIDATION_STAGE_ORDER = ?ss @ ?s # drop (Suc n) VALIDATION_STAGE_ORDER"
    using assms(1) by (simp add: id_take_nth_drop)
  note ids = chain_run_ids_nth [of n VALIDATION_STAGE_ORDER sha k k, folded assms(2), OF assms(1)]
  have "list_all (\<lambda>i. run_get i d \<noteq> None) (chain_run_ids sha k (last_run k []) ?ss)"
    using assms(1,3) ids(1) by (auto simp: last_run_def list_all_length)
  from run_stages_blocked [OF this, of port inp adapters "?s # drop (Suc n) VALIDATION_STAGE_ORDER" "[]" None]
  have "\<exists>x. run_stages sha port inp (Some adapters) k VALIDATION_STAGE_ORDER [] [] None d = (x, d) \<and> (\<forall>y. x \<noteq> Inr (Inr y))"
  proof (elim disjE exE conjE)
    fix fs' cs' lock'
    assume last: "last_run k fs' = last (last_run k [] # chain_run_ids sha k (last_run k []) ?ss)"
      and eq: "run_stages sha port inp (Some adapters) k (?ss @ ?s # drop (Suc n) VALIDATION_STAGE_ORDER) [] [] None d =
        run_stages sha port inp (Some adapters) k (?s # drop (Suc n) VALIDATION_STAGE_ORDER) fs' cs' lock' d"
    have "handoff_run_id sha k (last_run k fs') ?s = ids ! n"
      using last ids(2) by (simp add: last_run_def)
    then obtain e where "run_one_stage sha port inp (Some adapters) k ?s fs' lock' d = (Inl e, d)"
      using one_stage_blocked [of sha k fs' ?s d r] assms(4,5) by metis
    then show ?thesis using eq split by (simp add: andThen_fail)
  qed (use split in auto)
  then obtain x where x: "run_stages sha port inp (Some adapters) k VALIDATION_STAGE_ORDER [] [] None d = (x, d)"
    "\<And>y. x \<noteq> Inr (Inr y)" by blast
  show ?thesis
  proof (intro conjI allI impI)
    show "snd (run_chain sha port inp adapters k d) = d"
      using x by (auto simp: run_chain_def run_filter_chain_def andThen_def askS_def split: sum.splits option.splits)
  next
    fix out
    assume "fst (run_chain sha port inp adapters k d) = Inr out"
    then obtain d' where "run_filter_chain sha port inp (Some adapters) k d = (Inr out, d')"
      by (metis run_chain_def prod.collapse)
    from run_filter_chain_Inr [OF this] show "co_status out \<noteq> ''ready_for_protected_test''"
    proof (elim disjE conjE exE)
      fix res
      assume res: "run_stages sha port inp (Some adapters) k VALIDATION_STAGE_ORDER [] [] None d = (Inr res, d')"
        and out: "case res of Inl o' \<Rightarrow> out = o' | Inr (fs, cs, lock) \<Rightarrow> gate_outcome sha port k fs cs lock d' = Inr out"
      have "res = Inl out" using out res x by (cases res) auto
      then show ?thesis using stopped_in_loop res by fastforce
    qed (simp add: screened_out_sel)
  qed
qed

definition demo_halted :: db where
  "demo_halted = demo_stages [SUCCEEDED, FAILED]"

lemma demo_halted_runs:
  "list_all (\<lambda>i. run_get i demo_halted \<noteq> None) (take 1 demo_ids)"
  "run_get (demo_ids ! 1) demo_halted = Some (demo_stage_run STAGE_WALK_FORWARD ''run_drawrof_'' ''run_soo|rcs|'' FAILED)"
  by code_simp+

theorem unfinished_stage_blocks_witness:
  "snd (run_chain chain_sha demo_port demo_inputs demo_adapters ''scr'' demo_halted) = demo_halted"
proof -
  have "1 < length VALIDATION_STAGE_ORDER" by (simp add: VALIDATION_STAGE_ORDER_def)
  moreover have "\<forall>j < 1. run_get (demo_ids ! j) demo_halted \<noteq> None"
    using demo_halted_runs(1) by (auto simp: demo_ids_eq)
  ultimately show ?thesis
    using unfinished_stage_blocks [OF _ demo_ids_def _ demo_halted_runs(2)] by (simp add: demo_stage_run_def)
qed

text \<open>
  C30: An adapter that raises leaves a decided run. When the adapter of a reserved stage raises an
  \<open>Exception\<close> (the only failure the chain handles) in a database it only evolved, then either the run had already succeeded and is handed on without any
  further write, or the call raises the unknown-outcome error and the run is stored in a terminal
  status other than succeeded: one that was still active is now failed, with an error event, and one
  that had already ended is left as it was.
\<close>

theorem adapter_error_decides:
  assumes "db_ok d" and "run_get (cx_run_id ctx) d \<noteq> None"
    and "map_of adapters (cx_stage ctx) = Some adapter" and "adapter ctx d = (Inl e, d1)" and "evolves d d1"
    and "invoke_adapter adapters inp ctx d = (res, d')"
  shows "\<exists>r1 r. run_get (cx_run_id ctx) d1 = Some r1 \<and> run_get (cx_run_id ctx) d' = Some r \<and>
    (if rn_status r1 = SUCCEEDED
     then res = Inr \<lparr>sf_stage = cx_stage ctx, sf_run_id = cx_run_id ctx\<rparr> \<and> d' = d1
     else res = Inl (unknown_outcome (cx_stage ctx)) \<and> rn_status r \<in> {FAILED, CANCELLED} \<and>
       (if terminal (rn_status r1) then d' = d1
        else rn_status r = FAILED \<and> (\<exists>x. events d' = events d1 @ [x] \<and> ev_run_id x = cx_run_id ctx \<and>
          ev_type x = EV_RUN_FAILED \<and> ev_severity x = SEV_ERROR)))"
proof -
  have ok1: "db_ok d1" using assms(1,5) by (simp add: evolves_def)
  obtain r1 where r1: "run_get (cx_run_id ctx) d1 = Some r1"
    using evolves_stays [OF assms(1,5,2)] by blast
  have eq: "after_adapter_error inp (cx_stage ctx) (cx_run_id ctx) d1 = (res, d')"
    using assms(3,4,6) by (simp add: invoke_adapter_def)
  note after_error_unknown [OF ok1 r1, of inp "cx_stage ctx", unfolded eq]
  moreover have "terminal (rn_status x) \<and> rn_status x \<noteq> SUCCEEDED \<Longrightarrow> rn_status x \<in> {FAILED, CANCELLED}" for x
    by (cases "rn_status x") auto
  ultimately show ?thesis
    using r1 by (cases "rn_status r1 = SUCCEEDED") (auto simp: reference_of_def)
qed

definition demo_reserved :: db where
  "demo_reserved = demo_stages [RUNNING]"

definition demo_context :: stage_context where
  "demo_context = \<lparr>cx_screening_run_id = ''scr'', cx_stage = STAGE_OOS, cx_run_id = ''run_soo|rcs|'', cx_previous = []\<rparr>"

theorem adapter_error_decides_witness:
  "\<exists>r d'. invoke_adapter demo_adapters (demo_inputs STAGE_OOS) demo_context demo_reserved = (Inl (unknown_outcome STAGE_OOS), d') \<and>
     run_get ''run_soo|rcs|'' d' = Some r \<and> rn_status r = FAILED"
proof -
  let ?r = "demo_stage_run STAGE_OOS ''run_soo|rcs|'' ''scr'' RUNNING"
  have ok: "db_ok demo_reserved" by code_simp
  have get: "run_get (cx_run_id demo_context) demo_reserved = Some ?r" by code_simp
  obtain res d' where call: "invoke_adapter demo_adapters (demo_inputs STAGE_OOS) demo_context demo_reserved = (res, d')"
    by fastforce
  have ad: "map_of demo_adapters (cx_stage demo_context) = Some (\<lambda>ctx d. (Inl (RuntimeError ''never called''), d))"
    by (simp add: demo_adapters_def demo_context_def VALIDATION_STAGE_ORDER_def)
  have "rn_status ?r = RUNNING" by (simp add: demo_stage_run_def)
  then show ?thesis
    using adapter_error_decides [OF ok _ ad refl evo.evo_refl call] get call by (auto simp: demo_context_def)
qed

text \<open>
  C31: Reopening is a pure replay. \<open>reopen\<close> never changes the database, and when it returns an
  outcome, every call of \<open>run\<close> with a full set of adapters returns the same outcome and leaves the
  database as it is.
\<close>

theorem reopen_replays:
  assumes "set (map fst adapters) = set VALIDATION_STAGE_ORDER"
  shows "snd (reopen_chain sha port inp k d) = d \<and>
    (\<forall>out. fst (reopen_chain sha port inp k d) = Inr out \<longrightarrow>
       run_chain sha port inp' adapters k d = (Inr out, d))"
proof (intro conjI allI impI)
  show "snd (reopen_chain sha port inp k d) = d"
    unfolding reopen_chain_def by (rule replay_changes_nothing)
next
  fix out
  assume "fst (reopen_chain sha port inp k d) = Inr out"
  then obtain d' where "run_filter_chain sha port inp None k d = (Inr out, d')"
    by (metis reopen_chain_def prod.collapse)
  moreover have "require_complete_adapters (map fst adapters) = Inr ()"
    using assms by (simp add: require_complete_adapters_def Let_def)
  ultimately show "run_chain sha port inp' adapters k d = (Inr out, d)"
    using run_filter_chain_replay unfolding run_chain_def by blast
qed

theorem reopen_replays_witness:
  "run_chain chain_sha demo_port demo_inputs demo_other_adapters ''scr'' demo_passed = (Inr demo_outcome, demo_passed) \<and>
     co_status demo_outcome = ''ready_for_protected_test''"
proof -
  have "set (map fst demo_other_adapters) = set VALIDATION_STAGE_ORDER"
    by (simp add: demo_other_adapters_def image_image)
  from reopen_replays [OF this, of chain_sha demo_port demo_inputs "''scr''" demo_passed demo_inputs] demo_reopen
  show ?thesis by (simp add: demo_outcome_def)
qed

end
