(* ===== verification/Rule_Catalog.thy ===== *)
theory Rule_Catalog
  imports Py_Text
begin

text \<open>
  The indicators a rule may name: \<open>rule_language/indicators.py\<close>. The catalogue of the named operators
  is data; the library indicators are looked up in the metadata of VectorBT PRO, a closed package that
  is an argument here (a record of what \<open>vbt.IF\<close> answers), absent when it is not installed.
\<close>

section \<open>Named operators\<close>

definition MAX_MULTIPLIER :: int where
  "MAX_MULTIPLIER = 20"

definition PRICE_INPUTS :: "string list" where
  "PRICE_INPUTS = [''open'', ''high'', ''low'', ''close'', ''volume'']"

definition LIBRARY_FAMILIES :: "string list" where
  "LIBRARY_FAMILIES = [''vbt:'', ''talib:'']"

definition UNUSABLE :: "string list" where
  "UNUSABLE = [''vbt:VWAP'']"

record indicator_spec =
  takes_series :: bool
  is_params :: "(string \<times> string \<times> int) list"
  is_outputs :: "string list"
  is_library :: string
  is_library_params :: "string list"
  is_library_outputs :: "string list"
  is_fixed :: "(string \<times> json) list"

definition IndicatorSpec ::
  "bool \<Rightarrow> (string \<times> string \<times> int) list \<Rightarrow> string list \<Rightarrow> string \<Rightarrow> string list \<Rightarrow> string list \<Rightarrow>
   (string \<times> json) list \<Rightarrow> indicator_spec" where
  "IndicatorSpec s ps outs lib lps louts fixed =
     \<lparr>takes_series = s, is_params = ps, is_outputs = outs, is_library = lib, is_library_params = lps,
      is_library_outputs = louts, is_fixed = fixed\<rparr>"

definition INDICATORS :: "(string \<times> indicator_spec) list" where
  "INDICATORS =
     [(''rsi'', IndicatorSpec True [(''length'', ''count'', 2)] [] ''vbt:RSI'' [''window''] [''rsi'']
         [(''wtype'', JStr ''wilder'')]),
      (''roc'', IndicatorSpec True [(''length'', ''count'', 1)] [] ''talib:ROC'' [''timeperiod''] [''real''] []),
      (''macd'', IndicatorSpec True
         [(''fast'', ''count'', 1), (''slow'', ''count'', 1), (''signal'', ''count'', 1)]
         [''line'', ''signal'', ''histogram''] ''vbt:MACD''
         [''fast_window'', ''slow_window'', ''signal_window''] [''macd'', ''signal'', ''hist''] []),
      (''bollinger'', IndicatorSpec True [(''length'', ''count'', 2), (''std_mult'', ''amount'', 0)]
         [''upper'', ''middle'', ''lower'', ''percent_b'', ''bandwidth''] ''vbt:BBANDS'' [''window'', ''alpha'']
         [''upper'', ''middle'', ''lower'', ''percent_b'', ''bandwidth''] []),
      (''stochastic'', IndicatorSpec False
         [(''k_length'', ''count'', 1), (''k_smooth'', ''count'', 1), (''d_length'', ''count'', 1)] [''k'', ''d'']
         ''vbt:STOCH'' [''fast_k_window'', ''slow_k_window'', ''slow_d_window''] [''slow_k'', ''slow_d''] []),
      (''adx'', IndicatorSpec False [(''length'', ''count'', 2)] [''adx'', ''plus_di'', ''minus_di''] ''vbt:ADX''
         [''window''] [''adx'', ''plus_di'', ''minus_di''] []),
      (''cci'', IndicatorSpec False [(''length'', ''count'', 2)] [] ''talib:CCI'' [''timeperiod''] [''real''] []),
      (''williams_r'', IndicatorSpec False [(''length'', ''count'', 1)] [] ''talib:WILLR'' [''timeperiod'']
         [''real''] []),
      (''obv'', IndicatorSpec False [] [] ''vbt:OBV'' [] [''obv''] []),
      (''keltner'', IndicatorSpec False
         [(''length'', ''count'', 1), (''atr_length'', ''count'', 1), (''mult'', ''amount'', 0)]
         [''upper'', ''middle'', ''lower''] '''' [] [] []),
      (''donchian'', IndicatorSpec False [(''length'', ''count'', 1)] [''upper'', ''lower'', ''middle''] '''' []
         [] [])]"

definition INDICATOR_OPERATORS :: "string list" where
  "INDICATOR_OPERATORS = map fst INDICATORS"

definition ATR_SMOOTHINGS :: "string list" where
  "ATR_SMOOTHINGS = [''sma'', ''wilder'']"

section \<open>Library indicators\<close>

record library_entry =
  li_name :: string
  li_inputs :: "string list"
  li_params :: "(string \<times> string) list"
  li_outputs :: "string list"

text \<open>An indicator class of the package, and the package as far as the program reads it.\<close>

record indicator_class =
  ic_module :: string
  ic_input_names :: "string list"
  ic_param_names :: "string list"
  ic_param_defaults :: "(string \<times> json) list"
  ic_output_names :: "string list"

record vectorbt =
  list_indicators :: "string list"
  get_indicator :: "string \<Rightarrow> indicator_class"

definition library_available :: "vectorbt option \<Rightarrow> bool" where
  "library_available vbt \<longleftrightarrow> vbt \<noteq> None"

text \<open>\<open>math.isfinite\<close>, which converts an integer to a float first and may overflow there.\<close>

definition isfinite :: "json \<Rightarrow> exn + bool" where
  "isfinite v = bindR (to_float v) (\<lambda>x. Inr (is_finite x))"

definition param_kind :: "json \<Rightarrow> exn + string option" where
  "param_kind v =
     (case v of
        JInt i \<Rightarrow> bindR (isfinite v) (\<lambda>ok. Inr (if ok then Some ''count'' else None))
      | JFloat t \<Rightarrow> bindR (isfinite v) (\<lambda>ok. Inr (if ok then Some ''number'' else None))
      | _ \<Rightarrow> Inr None)"

definition library_params :: "indicator_class \<Rightarrow> exn + (string \<times> string) list" where
  "library_params cls =
     bindR (mapR (\<lambda>key.
         case map_of (ic_param_defaults cls) key of
           None \<Rightarrow> Inl (KeyError key)
         | Some v \<Rightarrow> bindR (param_kind v) (\<lambda>kind. Inr (key, kind))) (ic_param_names cls)) (\<lambda>ks.
     Inr [(key, kind). (key, Some kind) \<leftarrow> ks])"

definition library_indicator :: "vectorbt option \<Rightarrow> string \<Rightarrow> exn + library_entry option" where
  "library_indicator lib name =
     (case lib of
        None \<Rightarrow> Inr None
      | Some vbt \<Rightarrow>
          if \<not> (\<exists>family \<in> set LIBRARY_FAMILIES. prefix family name) \<or> name \<in> set UNUSABLE then Inr None
          else if name \<notin> set (list_indicators vbt) then Inr None
          else
            let cls = get_indicator vbt name in
            if prefix ''vbt:'' name \<and> \<not> prefix ''vectorbtpro.indicators.'' (ic_module cls) then Inr None
            else if ic_input_names cls = [] \<or> \<not> set (ic_input_names cls) \<subseteq> set PRICE_INPUTS
                 \<or> \<not> set (ic_param_names cls) \<subseteq> fst ` set (ic_param_defaults cls) then Inr None
            else bindR (library_params cls) (\<lambda>params.
              Inr (Some \<lparr>li_name = name, li_inputs = ic_input_names cls, li_params = params,
                         li_outputs = ic_output_names cls\<rparr>)))"

definition library_indicators :: "vectorbt option \<Rightarrow> exn + library_entry list" where
  "library_indicators lib =
     (case lib of
        None \<Rightarrow> Inr []
      | Some vbt \<Rightarrow>
          bindR (mapR (library_indicator lib) (list_indicators vbt)) (\<lambda>specs. Inr [s. Some s \<leftarrow> specs]))"

section \<open>Facts\<close>

lemma isfinite_float: "isfinite (JFloat t) = Inr (is_finite (float_value t))"
  by (simp add: isfinite_def to_float_def)

lemma isfinite_int_True: "isfinite (JInt i) = Inr b \<Longrightarrow> b"
  by (auto simp: isfinite_def to_float_def split: py_float.splits)

text \<open>The names the package declares for one class: attributes of one Python class, so distinct.\<close>

definition library_wf :: "vectorbt option \<Rightarrow> bool" where
  "library_wf lib \<longleftrightarrow>
     (\<forall>vbt name. lib = Some vbt \<longrightarrow>
        distinct (ic_param_names (get_indicator vbt name)) \<and>
        distinct (ic_input_names (get_indicator vbt name)))"

lemma mapR_inverse: "mapR f xs = Inr ys \<Longrightarrow> (\<And>x y. f x = Inr y \<Longrightarrow> g y = x) \<Longrightarrow> map g ys = xs"
  by (induction xs arbitrary: ys) auto

lemma library_params_names:
  assumes "library_params cls = Inr ps" and "distinct (ic_param_names cls)"
  shows "distinct (map fst ps)"
proof -
  from assms(1) obtain ks where ks: "ps = [(key, kind). (key, Some kind) \<leftarrow> ks]"
    and m: "mapR (\<lambda>key.
         case map_of (ic_param_defaults cls) key of
           None \<Rightarrow> Inl (KeyError key)
         | Some v \<Rightarrow> bindR (param_kind v) (\<lambda>kind. Inr (key, kind))) (ic_param_names cls) = Inr ks"
    unfolding library_params_def by auto
  have "map fst ks = ic_param_names cls"
    by (rule mapR_inverse [OF m]) (auto split: option.splits)
  moreover have "distinct (map fst qs) \<Longrightarrow> distinct (map fst [(key, kind). (key, Some kind) \<leftarrow> qs])
      \<and> fst ` set [(key, kind). (key, Some kind) \<leftarrow> qs] \<subseteq> fst ` set qs"
    for qs :: "(string \<times> string option) list"
    by (induction qs) (auto split: option.splits simp: image_iff, fastforce)
  ultimately show ?thesis using ks assms(2) by simp
qed

lemma library_entry_of:
  assumes "library_indicator lib name = Inr (Some s)"
  obtains vbt where "lib = Some vbt" "library_params (get_indicator vbt name) = Inr (li_params s)"
    "li_inputs s = ic_input_names (get_indicator vbt name)" "li_inputs s \<noteq> []"
    "set (li_inputs s) \<subseteq> set PRICE_INPUTS"
proof -
  from assms obtain vbt where vbt: "lib = Some vbt"
    by (auto simp: library_indicator_def split: option.splits)
  show ?thesis
    by (rule that [OF vbt]) (use assms vbt in \<open>auto simp: library_indicator_def Let_def split: if_splits\<close>)
qed

lemma library_entry_inputs:
  "library_indicator lib name = Inr (Some s) \<Longrightarrow> li_inputs s \<noteq> [] \<and> set (li_inputs s) \<subseteq> set PRICE_INPUTS"
  by (elim library_entry_of) simp

lemma library_entry_names:
  "library_indicator lib name = Inr (Some s) \<Longrightarrow> library_wf lib \<Longrightarrow>
   distinct (map fst (li_params s)) \<and> distinct (li_inputs s)"
  by (elim library_entry_of) (auto simp: library_wf_def intro: library_params_names)

end
