(* ===== verification/Rule_Language.thy ===== *)
theory Rule_Language
  imports Rule_Catalog
begin

text \<open>
  The checker of the declarative rule language \<open>qf_rules_v1\<close>: \<open>rule_language/validation.py\<close>,
  function by function. A check returns the normalized copy of what it was given; the methods of
  \<open>_Validator\<close> thread the set of variables used so far, as bodies over \<open>string set\<close>. The fields
  that \<open>set_bar\<close> assigns, the declared variables and the indicator library are the record \<open>checker\<close>.
  A Python dictionary is an object with distinct keys.
\<close>

section \<open>The vocabulary\<close>

definition RULE_LANGUAGE :: string where "RULE_LANGUAGE = ''qf_rules_v1''"
definition MAX_RULE_DEPTH :: nat where "MAX_RULE_DEPTH = 32"
definition MAX_RULE_NODES :: nat where "MAX_RULE_NODES = 500"
definition BAR_MINUTES :: "(string \<times> int) list" where "BAR_MINUTES = [(''1m'', 1), (''5m'', 5)]"
definition MAX_WINDOW_BARS :: int where "MAX_WINDOW_BARS = 20000"
definition MAX_VARIABLE_GRID :: nat where "MAX_VARIABLE_GRID = 100"
definition SUPPORTED_BARS :: "string list" where "SUPPORTED_BARS = map fst BAR_MINUTES"

definition SUPPORTED_SESSION :: "(string \<times> string) list" where
  "SUPPORTED_SESSION =
     [(''timezone'', ''America/New_York''), (''open'', ''09:30''), (''close'', ''16:00'')]"

definition PRICE_FIELDS :: "string list" where
  "PRICE_FIELDS = [''open'', ''high'', ''low'', ''close'', ''volume'']"
definition BINARY_OPERATORS :: "string list" where
  "BINARY_OPERATORS = [''add'', ''sub'', ''mul'', ''div'']"
definition UNARY_OPERATORS :: "string list" where
  "UNARY_OPERATORS = [''abs'', ''sign'', ''neg'', ''ticks'', ''change'', ''pct_change'', ''same_sign_run'']"
definition ROLLING_OPERATORS :: "string list" where
  "ROLLING_OPERATORS = [''sma'', ''ema'', ''median'', ''max'', ''min'', ''std'', ''sum'']"
definition SESSION_OPERATORS :: "string list" where
  "SESSION_OPERATORS = [''vwap'', ''session_open'', ''bar_index'']"
definition RANGE_OPERATORS :: "string list" where
  "RANGE_OPERATORS = [''range_high'', ''range_low'']"

definition SERIES_OPERATORS :: "string list" where
  "SERIES_OPERATORS =
     [''param''] @ BINARY_OPERATORS @ UNARY_OPERATORS @ [''prev''] @ ROLLING_OPERATORS @ [''atr'']
     @ SESSION_OPERATORS @ [''value_at''] @ RANGE_OPERATORS @ INDICATOR_OPERATORS @ [''indicator'']"

definition COMPARISON_OPERATORS :: "string list" where
  "COMPARISON_OPERATORS = [''gt'', ''gte'', ''lt'', ''lte'', ''eq'']"
definition CROSS_OPERATORS :: "string list" where
  "CROSS_OPERATORS = [''crosses_above'', ''crosses_below'']"

definition CONDITION_OPERATORS :: "string list" where
  "CONDITION_OPERATORS =
     COMPARISON_OPERATORS @ CROSS_OPERATORS
     @ [''all'', ''any'', ''not'', ''time_is'', ''time_between'', ''every_minutes'']"

definition SIDE_OPERATORS :: "string list" where
  "SIDE_OPERATORS = [''sign_of'', ''opposite_sign_of'']"
definition DISTANCE_KINDS :: "string list" where
  "DISTANCE_KINDS = [''percent'', ''points'', ''ticks'', ''atr'']"

definition SESSION_OPEN_MINUTES :: int where "SESSION_OPEN_MINUTES = 9 * 60 + 30"
definition SESSION_CLOSE_MINUTES :: int where "SESSION_CLOSE_MINUTES = 16 * 60"

definition bar_minutes :: "string \<Rightarrow> exn + int" where
  "bar_minutes bar = (case map_of BAR_MINUTES bar of None \<Rightarrow> Inl (KeyError bar) | Some m \<Rightarrow> Inr m)"

definition bars_per_session :: "string \<Rightarrow> exn + int" where
  "bars_per_session bar =
     bindR (bar_minutes bar) (\<lambda>m. Inr ((SESSION_CLOSE_MINUTES - SESSION_OPEN_MINUTES) div m))"

definition first_bar_end_minutes :: "string \<Rightarrow> exn + int" where
  "first_bar_end_minutes bar = bindR (bar_minutes bar) (\<lambda>m. Inr (SESSION_OPEN_MINUTES + m))"

definition TOP_LEVEL_KEYS :: "string list" where
  "TOP_LEVEL_KEYS = [''language'', ''bar'', ''tick_size'', ''session'', ''signals'', ''max_trades_per_session'']"
definition SKIP_DAY_CALENDARS :: "string list" where
  "SKIP_DAY_CALENDARS = [''cpi'', ''fomc'']"
definition EXIT_KEYS :: "string list" where
  "EXIT_KEYS = [''after_bars'', ''at_time'', ''on_opposite_signal'', ''stop_loss'', ''take_profit'',
     ''trailing_stop'', ''trail_after'', ''exit_when'']"
definition STOP_ONLY_KINDS :: "(string \<times> string list) list" where
  "STOP_ONLY_KINDS = [(''level'', [''stop_loss'']), (''signal_bar'', [''stop_loss'']),
     (''r_multiple'', [''take_profit'', ''trail_after''])]"
definition STOP_KEYS :: "string list" where
  "STOP_KEYS = [''stop_loss'', ''take_profit'', ''trailing_stop'', ''trail_after'']"

definition EXAMPLES :: "(string \<times> string) list" where
  \<open>EXAMPLES = [(''condition'', ''; e.g. {"gt": ["close", "open"]}''),
     (''series'', ''; e.g. {"sma": "close", "length": 20}''), (''distance'', ''; e.g. {"ticks": 4}'')]\<close>

section \<open>Objects\<close>

text \<open>A key of a dictionary, \<open>d.get(k, default)\<close>, and the path of a member.\<close>

fun obj_keys :: "json \<Rightarrow> string list" where
  "obj_keys (JObj kvs) = map fst kvs"
| "obj_keys _ = []"

definition has_key :: "string \<Rightarrow> json \<Rightarrow> bool" where
  "has_key k v \<longleftrightarrow> k \<in> set (obj_keys v)"

definition get_or :: "string \<Rightarrow> json \<Rightarrow> json \<Rightarrow> json" where
  "get_or k d v = (if has_key k v then jget k v else d)"

definition is_obj :: "json \<Rightarrow> bool" where
  "is_obj v \<longleftrightarrow> (case v of JObj _ \<Rightarrow> True | _ \<Rightarrow> False)"

definition dot :: "string \<Rightarrow> string \<Rightarrow> string" where
  "dot path k = path @ ''.'' @ k"

definition nth_path :: "string \<Rightarrow> nat \<Rightarrow> string" where
  "nth_path path i = path @ ''['' @ nat_str i @ '']''"

fun joined :: "string \<Rightarrow> string list \<Rightarrow> string" where
  "joined sep [] = ''''"
| "joined sep [x] = x"
| "joined sep (x # xs) = x @ sep @ joined sep xs"

text \<open>\<open>raise RuleSpecError(path, reason)\<close> where a condition fails.\<close>

definition need :: "bool \<Rightarrow> string \<Rightarrow> string \<Rightarrow> exn + unit" where
  "need b path reason = guardR b (RuleSpecError path reason)"

definition check_object :: "json \<Rightarrow> string \<Rightarrow> string list \<Rightarrow> string list \<Rightarrow> exn + json" where
  "check_object node path required optional =
     bindR (need (is_obj node) path ''must be an object'') (\<lambda>_.
     let allowed = required @ optional in
     bindR (mapR (\<lambda>key. need (key \<in> set allowed) path
         (''unknown key '' @ repr_str key @ '' (allowed: '' @ commas (sort allowed) @ '')''))
       (obj_keys node)) (\<lambda>_.
     bindR (mapR (\<lambda>key. need (has_key key node) path (''missing required key '' @ repr_str key))
       required) (\<lambda>_.
     Inr node)))"

definition check_pair :: "json \<Rightarrow> string \<Rightarrow> exn + json \<times> json" where
  "check_pair node path =
     (case node of
        JList [a, b] \<Rightarrow> Inr (a, b)
      | _ \<Rightarrow> Inl (RuleSpecError path ''must be a list of exactly two items''))"

definition operator_of :: "json \<Rightarrow> string \<Rightarrow> string list \<Rightarrow> string \<Rightarrow> exn + string" where
  "operator_of node path allowed kind =
     bindR (need (is_obj node) path (''must be a '' @ kind @ '' object'')) (\<lambda>_.
     let heads = filter (\<lambda>key. key \<in> set allowed) (obj_keys node) in
     bindR (need (length heads \<le> 1) path
         (''combines '' @ repr_str (heads ! 0) @ '' and '' @ repr_str (heads ! 1) @ ''; use exactly one ''
          @ kind @ '' operator'')) (\<lambda>_.
     bindR (need (obj_keys node \<noteq> []) path (''an empty object is not a '' @ kind)) (\<lambda>_.
     bindR (need (heads \<noteq> []) path
         (''unknown '' @ kind @ '' '' @ repr_str (hd (obj_keys node)) @ '' (allowed: ''
          @ commas (sort allowed) @ '')''
          @ (case map_of EXAMPLES kind of None \<Rightarrow> '''' | Some e \<Rightarrow> e))) (\<lambda>_.
     Inr (hd heads)))))"

section \<open>Clock times\<close>

definition clock_digits :: "string \<Rightarrow> int option" where
  "clock_digits s =
     (case s of
        [a, b, c, d, e] \<Rightarrow>
          if (a \<in> set ''01'' \<and> is_digit b \<or> a = CHR ''2'' \<and> b \<in> set ''0123'') \<and> c = CHR '':''
             \<and> d \<in> set ''012345'' \<and> is_digit e
          then Some (int ((10 * digit_val a + digit_val b) * 60 + (10 * digit_val d + digit_val e)))
          else None
      | _ \<Rightarrow> None)"

definition clock_minutes :: "json \<Rightarrow> exn + int" where
  "clock_minutes v =
     (case (case v of JStr s \<Rightarrow> clock_digits s | _ \<Rightarrow> None) of
        None \<Rightarrow> Inl (ValueError (py_repr v @ '' is not a valid HH:MM time''))
      | Some m \<Rightarrow> Inr m)"

definition two_digits :: "int \<Rightarrow> string" where
  "two_digits n = (if n < 10 then ''0'' @ int_str n else int_str n)"

definition hhmm :: "int \<Rightarrow> string" where
  "hhmm minutes = two_digits (minutes div 60) @ '':'' @ two_digits (minutes mod 60)"

definition clock_of :: "json \<Rightarrow> string \<Rightarrow> int \<Rightarrow> int \<Rightarrow> int \<Rightarrow> exn + json" where
  \<open>clock_of v path earliest latest step =
     (case clock_minutes v of
        Inl _ \<Rightarrow> Inl (RuleSpecError path
          (py_repr v @ '' is not a valid HH:MM time (24-hour, zero-padded, e.g. "09:45")''))
      | Inr minutes \<Rightarrow>
          bindR (need (minutes mod step = 0) path
              (py_str v @ '' is not on the '' @ int_str step @ ''-minute bar grid'')) (\<lambda>_.
          bindR (need (earliest \<le> minutes \<and> minutes \<le> latest) path
              (py_str v @ '' must be between '' @ hhmm earliest @ '' and '' @ hhmm latest
               @ '' (times are '' @ int_str step @ ''-minute bar END times in the session)'')) (\<lambda>_.
          Inr v)))\<close>

section \<open>Numbers\<close>

definition is_number :: "json \<Rightarrow> exn + bool" where
  "is_number v =
     (case v of
        JInt i \<Rightarrow> isfinite v
      | JFloat t \<Rightarrow> isfinite v
      | _ \<Rightarrow> Inr False)"

definition is_count :: "json \<Rightarrow> int \<Rightarrow> int \<Rightarrow> bool" where
  "is_count v minimum maximum \<longleftrightarrow>
     (case v of JInt i \<Rightarrow> minimum \<le> i \<and> i \<le> maximum | _ \<Rightarrow> False)"

definition positive_below :: "json \<Rightarrow> int option \<Rightarrow> bool" where
  "positive_below v maximum \<longleftrightarrow>
     (case number_of v of
        None \<Rightarrow> False
      | Some x \<Rightarrow> num_less (Fin 0) x \<and>
          (case maximum of None \<Rightarrow> True | Some m \<Rightarrow> num_less x (Fin (of_int m))))"

definition is_amount :: "json \<Rightarrow> int option \<Rightarrow> exn + bool" where
  "is_amount v maximum = bindR (is_number v) (\<lambda>num. Inr (num \<and> positive_below v maximum))"

section \<open>The checker\<close>

record checker =
  ck_step :: int
  ck_bars :: int
  ck_first_end :: int
  ck_last_exit :: int
  ck_variables :: "(string \<times> json) list"
  ck_library :: "vectorbt option"

definition set_bar :: "string \<Rightarrow> checker \<Rightarrow> exn + checker" where
  "set_bar bar ck =
     bindR (bar_minutes bar) (\<lambda>step.
     bindR (bars_per_session bar) (\<lambda>bars.
     bindR (first_bar_end_minutes bar) (\<lambda>first_end.
     Inr (ck\<lparr>ck_step := step, ck_bars := bars, ck_first_end := first_end,
             ck_last_exit := SESSION_CLOSE_MINUTES - step\<rparr>))))"

text \<open>What a variable is used as; a count and an amount carry the bounds of the place of use.\<close>

datatype var_kind = Number | Count int int | Amount "int option"

definition count_maximum :: "int \<Rightarrow> int" where
  "count_maximum maximum = (if maximum = 0 then MAX_WINDOW_BARS else maximum)"

definition value_fits :: "var_kind \<Rightarrow> json \<Rightarrow> exn + bool" where
  "value_fits kind v =
     (case kind of
        Count minimum maximum \<Rightarrow> Inr (is_count v minimum (count_maximum maximum))
      | Amount maximum \<Rightarrow> is_amount v maximum
      | Number \<Rightarrow> is_number v)"

definition below_text :: "int option \<Rightarrow> string" where
  "below_text maximum = (case maximum of None \<Rightarrow> '''' | Some m \<Rightarrow> '' and below '' @ int_str m)"

definition requirement :: "var_kind \<Rightarrow> string" where
  "requirement kind =
     (case kind of
        Count minimum maximum \<Rightarrow>
          ''whole numbers from '' @ int_str minimum @ '' to '' @ int_str (count_maximum maximum)
      | Amount maximum \<Rightarrow> ''numbers greater than zero'' @ below_text maximum
      | Number \<Rightarrow> ''finite numbers'')"

definition values_of :: "json \<Rightarrow> json" where
  "values_of variable = (if is_obj variable then jget ''values'' variable else JNull)"

text \<open>\<open>param\<close>: the declared values must all fit the place of use and be distinct as floats.\<close>

definition param_values :: "checker \<Rightarrow> string \<Rightarrow> string \<Rightarrow> var_kind \<Rightarrow> json list \<Rightarrow> exn + unit" where
  "param_values ck name path kind vs =
     bindR (mapR (\<lambda>v. bindR (value_fits kind v) (\<lambda>valid. need valid path
         (''variable '' @ repr_str name @ '' value '' @ py_repr v @ '' cannot be used here; it needs ''
          @ requirement kind))) vs) (\<lambda>_.
     bindR (mapR to_float vs) (\<lambda>fs.
     need (distinct fs) path (''variable '' @ repr_str name @ '' values must be distinct numbers'')))"

definition param :: "checker \<Rightarrow> json \<Rightarrow> string \<Rightarrow> var_kind \<Rightarrow> (string set, json) body" where
  \<open>param ck v path kind =
     (case v of
        JStr (c # cs) \<Rightarrow>
          let name = c # cs in
          (case map_of (ck_variables ck) name of
             None \<Rightarrow> raiseB (RuleSpecError path
               (repr_str name @ '' is not a declared packet variable (declared: ''
                @ (let declared = commas (sort (map fst (ck_variables ck)))
                   in if declared = [] then ''none'' else declared) @ '')''))
           | Some variable \<Rightarrow>
               (case values_of variable of
                  JList (x # xs) \<Rightarrow>
                    bindB (liftB (param_values ck name path kind (x # xs))) (\<lambda>_.
                    bindB (modB (insert name)) (\<lambda>_.
                    retB v))
                | _ \<Rightarrow> raiseB (RuleSpecError path
                    (''variable '' @ repr_str name @ '' has no valid non-empty "values" list''))))
      | _ \<Rightarrow> raiseB (RuleSpecError path ''must be a variable name''))\<close>

definition param_node :: "checker \<Rightarrow> json \<Rightarrow> string \<Rightarrow> var_kind \<Rightarrow> (string set, json) body" where
  "param_node ck node path kind =
     bindB (liftB (check_object node path [''param''] [])) (\<lambda>_.
     bindB (param ck (jget ''param'' node) (dot path ''param'') kind) (\<lambda>name.
     retB (JObj [(''param'', name)])))"

definition number_arg :: "checker \<Rightarrow> json \<Rightarrow> string \<Rightarrow> (string set, json) body" where
  \<open>number_arg ck node path =
     (if is_obj node then param_node ck node path Number
      else bindB (liftB (is_number node)) (\<lambda>ok.
           bindB (liftB (need ok path ''must be a finite number or {"param": "<variable>"}'')) (\<lambda>_.
           retB node)))\<close>

definition count_arg :: "checker \<Rightarrow> json \<Rightarrow> string \<Rightarrow> int \<Rightarrow> int \<Rightarrow> (string set, json) body" where
  \<open>count_arg ck node path minimum maximum =
     (if is_obj node then param_node ck node path (Count minimum maximum)
      else bindB (liftB (need (is_count node minimum maximum) path
             (''must be a whole number from '' @ int_str minimum @ '' to '' @ int_str maximum
              @ '' or {"param": "<variable>"}''))) (\<lambda>_.
           retB node))\<close>

definition amount_arg :: "checker \<Rightarrow> json \<Rightarrow> string \<Rightarrow> int option \<Rightarrow> (string set, json) body" where
  \<open>amount_arg ck node path maximum =
     (if is_obj node then param_node ck node path (Amount maximum)
      else bindB (liftB (is_amount node maximum)) (\<lambda>ok.
           bindB (liftB (need ok path
             (''must be a number greater than zero'' @ below_text maximum @ '' or {"param": "<variable>"}'')))
             (\<lambda>_.
           retB node)))\<close>

section \<open>Series\<close>

definition is_scalar :: "json \<Rightarrow> bool" where
  "is_scalar v \<longleftrightarrow>
     (case v of JBool _ \<Rightarrow> True | JInt _ \<Rightarrow> True | JFloat _ \<Rightarrow> True | JStr _ \<Rightarrow> True | _ \<Rightarrow> False)"

definition scalar_series :: "json \<Rightarrow> string \<Rightarrow> exn + json" where
  "scalar_series node path =
     (case node of
        JBool _ \<Rightarrow> Inl (RuleSpecError path ''true/false is not a number or series'')
      | JStr s \<Rightarrow>
          bindR (need (s \<in> set PRICE_FIELDS) path
            (''unknown price field '' @ repr_str s @ '' (allowed: '' @ commas (sort PRICE_FIELDS) @ '')''))
            (\<lambda>_. Inr node)
      | _ \<Rightarrow>
          bindR (isfinite node) (\<lambda>ok. bindR (need ok path ''numbers must be finite'') (\<lambda>_. Inr node)))"

definition across_flag :: "json \<Rightarrow> string \<Rightarrow> exn + bool" where
  "across_flag node path =
     (case get_or ''across_sessions'' (JBool False) node of
        JBool b \<Rightarrow> Inr b
      | _ \<Rightarrow> Inl (RuleSpecError (dot path ''across_sessions'') ''must be true or false''))"

definition longest_window :: "checker \<Rightarrow> bool \<Rightarrow> int" where
  "longest_window ck across = (if across then MAX_WINDOW_BARS else ck_bars ck)"

definition one_of :: "json \<Rightarrow> string list \<Rightarrow> bool" where
  "one_of v names \<longleftrightarrow> (case v of JStr s \<Rightarrow> s \<in> set names | _ \<Rightarrow> False)"

definition atr_series :: "checker \<Rightarrow> json \<Rightarrow> string \<Rightarrow> (string set, json) body" where
  "atr_series ck value path =
     bindB (liftB (check_object value path [''length''] [''smoothing'', ''across_sessions''])) (\<lambda>_.
     bindB (liftB (across_flag value path)) (\<lambda>across.
     bindB (count_arg ck (jget ''length'' value) (dot path ''length'') 1 (longest_window ck across)) (\<lambda>n.
     bindB (liftB (need (has_key ''smoothing'' value \<longrightarrow> one_of (jget ''smoothing'' value) ATR_SMOOTHINGS)
         (dot path ''smoothing'') (''must be one of: '' @ commas ATR_SMOOTHINGS))) (\<lambda>_.
     retB (JObj ([(''length'', n)]
       @ (if has_key ''smoothing'' value then [(''smoothing'', jget ''smoothing'' value)] else [])
       @ (if has_key ''across_sessions'' value then [(''across_sessions'', JBool across)] else [])))))))"

text \<open>
  \<open>indicator\<close> and \<open>library_indicator\<close> call back into \<open>series\<close>, their argument \<open>rec\<close>.
\<close>

definition indicator_param ::
  "checker \<Rightarrow> json \<Rightarrow> string \<Rightarrow> int \<Rightarrow> string \<times> string \<times> int \<Rightarrow> (string set, string \<times> json) body" where
  "indicator_param ck node path maximum p =
     (case p of (key, kind, minimum) \<Rightarrow>
        bindB (if kind = ''count'' then count_arg ck (jget key node) (dot path key) minimum maximum
               else amount_arg ck (jget key node) (dot path key) (Some MAX_MULTIPLIER)) (\<lambda>v.
        retB (key, v)))"

definition indicator ::
  "(json \<Rightarrow> string \<Rightarrow> (string set, json) body) \<Rightarrow> checker \<Rightarrow> string \<Rightarrow> indicator_spec \<Rightarrow> json \<Rightarrow> string
   \<Rightarrow> (string set, json) body" where
  "indicator rec ck operator spec node path =
     bindB (liftB (check_object node path
         (operator # map fst (is_params spec) @ (if is_outputs spec \<noteq> [] then [''output''] else []))
         [''across_sessions''])) (\<lambda>_.
     bindB (liftB (across_flag node path)) (\<lambda>across.
     bindB (if takes_series spec then rec (jget operator node) (dot path operator)
            else bindB (liftB (need (jget operator node = JObj []) (dot path operator)
                ''must be an empty object {} (it reads high, low, close and volume)'')) (\<lambda>_.
              retB (JObj []))) (\<lambda>operand.
     bindB (forB (indicator_param ck node path (longest_window ck across)) (is_params spec)) (\<lambda>params.
     bindB (liftB (need (is_outputs spec = [] \<or> one_of (jget ''output'' node) (is_outputs spec))
         (dot path ''output'') (''must be one of: '' @ commas (is_outputs spec)))) (\<lambda>_.
     retB (JObj ((operator, operand) # params @ [(''across_sessions'', JBool across)]
       @ (if is_outputs spec \<noteq> [] then [(''output'', jget ''output'' node)] else []))))))))"

definition library_param ::
  "checker \<Rightarrow> json \<Rightarrow> string \<Rightarrow> int \<Rightarrow> string \<times> string \<Rightarrow> (string set, string \<times> json) body" where
  "library_param ck params path maximum p =
     (case p of (key, kind) \<Rightarrow>
        bindB (if kind = ''count'' then count_arg ck (jget key params) (dot path key) 0 maximum
               else number_arg ck (jget key params) (dot path key)) (\<lambda>v.
        retB (key, v)))"

definition usable_indicator :: "checker \<Rightarrow> json \<Rightarrow> string \<Rightarrow> exn + string \<times> library_entry" where
  \<open>usable_indicator ck name path =
     bindR (case name of JStr s \<Rightarrow> bindR (library_indicator (ck_library ck) s)
              (\<lambda>spec. Inr (map_option (Pair s) spec)) | _ \<Rightarrow> Inr None) (\<lambda>spec.
     case spec of
       None \<Rightarrow> Inl (RuleSpecError (dot path ''indicator'')
         (py_repr name @ '' is not a usable library indicator (names look like "talib:RSI" or "vbt:MACD")''
          @ (if library_available (ck_library ck) then ''''
             else ''; VectorBT PRO is not installed here, so none are available'')))
     | Some s \<Rightarrow> Inr s)\<close>

definition library_node ::
  "(json \<Rightarrow> string \<Rightarrow> (string set, json) body) \<Rightarrow> checker \<Rightarrow> json \<Rightarrow> string \<Rightarrow> (string set, json) body" where
  "library_node rec ck node path =
     bindB (liftB (check_object node path [''indicator'', ''params''] [''inputs'', ''output'', ''across_sessions'']))
       (\<lambda>_.
     bindB (liftB (usable_indicator ck (jget ''indicator'' node) path)) (\<lambda>(name, spec).
     bindB (liftB (across_flag node path)) (\<lambda>across.
     bindB (liftB (check_object (jget ''params'' node) (dot path ''params'') (map fst (li_params spec)) []))
       (\<lambda>params.
     bindB (forB (library_param ck params (dot path ''params'') (longest_window ck across)) (li_params spec))
       (\<lambda>result_params.
     bindB (liftB (check_object (get_or ''inputs'' (JObj []) node) (dot path ''inputs'') [] (li_inputs spec)))
       (\<lambda>_.
     bindB (forB (\<lambda>key. bindB (rec (jget key (jget ''inputs'' node)) (dot (dot path ''inputs'') key))
                          (\<lambda>s. retB (key, s)))
              (filter (\<lambda>key. has_key key (get_or ''inputs'' (JObj []) node)) (li_inputs spec)))
       (\<lambda>result_inputs.
     let output = get_or ''output'' (if length (li_outputs spec) = 1 then JStr (hd (li_outputs spec)) else JNull)
           node in
     bindB (liftB (need (one_of output (li_outputs spec)) (dot path ''output'')
         (name @ '' needs one of: '' @ commas (li_outputs spec)))) (\<lambda>_.
     retB (JObj [(''indicator'', JStr name), (''params'', JObj (dict_of result_params)),
       (''inputs'', JObj (dict_of result_inputs)), (''output'', output),
       (''across_sessions'', JBool across)])))))))))"

text \<open>The operators that stand alone in their object, the last part of \<open>series\<close>; \<open>rec\<close> is \<open>series\<close> again.\<close>

definition plain_series ::
  "(json \<Rightarrow> string \<Rightarrow> (string set, json) body) \<Rightarrow> checker \<Rightarrow> string \<Rightarrow> json \<Rightarrow> string \<Rightarrow> (string set, json) body" where
  "plain_series rec ck op value inside =
     (if op = ''param'' then
        bindB (param ck value inside Number) (\<lambda>name. retB (JObj [(''param'', name)]))
      else if op \<in> set BINARY_OPERATORS then
        bindB (liftB (check_pair value inside)) (\<lambda>(a, b).
        bindB (rec a (nth_path inside 0)) (\<lambda>s.
        bindB (rec b (nth_path inside 1)) (\<lambda>t.
        retB (JObj [(op, JList [s, t])]))))
      else if op \<in> set UNARY_OPERATORS then
        bindB (rec value inside) (\<lambda>s. retB (JObj [(op, s)]))
      else if op = ''atr'' then
        bindB (atr_series ck value inside) (\<lambda>a. retB (JObj [(''atr'', a)]))
      else if op \<in> set SESSION_OPERATORS then
        bindB (liftB (need (value = JObj []) inside ''must be an empty object {}'')) (\<lambda>_.
        retB (JObj [(op, JObj [])]))
      else
        bindB (liftB (check_object value inside [''from'', ''to''] [])) (\<lambda>window.
        bindB (liftB (clock_of (jget ''from'' window) (dot inside ''from'') SESSION_OPEN_MINUTES
          (ck_last_exit ck) (ck_step ck))) (\<lambda>start.
        bindB (liftB (clock_of (jget ''to'' window) (dot inside ''to'') (ck_first_end ck)
          SESSION_CLOSE_MINUTES (ck_step ck))) (\<lambda>stop.
        bindB (liftB (clock_minutes start)) (\<lambda>m.
        bindB (liftB (clock_minutes stop)) (\<lambda>n.
        bindB (liftB (need (m < n) inside
          (''from '' @ py_str start @ '' must be before to '' @ py_str stop))) (\<lambda>_.
        retB (JObj [(op, JObj [(''from'', start), (''to'', stop)])]))))))))"

text \<open>All three call \<open>rec\<close> on parts of the node only.\<close>

definition json_parts :: "json \<Rightarrow> json list" where
  "json_parts v = v # (case v of JList xs \<Rightarrow> xs | _ \<Rightarrow> [])"

lemma bindB_cong [fundef_cong]:
  "(m :: ('d, 'a) body) = m' \<Longrightarrow> (\<And>x d d'. m' d = Inr (x, d') \<Longrightarrow> f x = f' x) \<Longrightarrow> bindB m f = bindB m' f'"
  by (auto simp: bindB_def fun_eq_iff split: sum.splits)

lemma forB_cong [fundef_cong]:
  "xs = ys \<Longrightarrow> (\<And>x. x \<in> set ys \<Longrightarrow> f x = g x) \<Longrightarrow> forB f xs = forB g ys"
proof (induction ys arbitrary: xs)
  case (Cons y ys)
  from Cons.prems(2) have "f y = g y" by simp
  moreover have "forB f ys = forB g ys" using Cons.prems(2) by (intro Cons.IH) auto
  ultimately show ?case using Cons.prems(1) by simp
qed simp

lemma indicator_cong [fundef_cong]:
  assumes "ck = ck'" "op = op'" "spec = spec'" "node = node'" "path = path'"
    and "\<And>p. takes_series spec' \<Longrightarrow> f (jget op' node') p = g (jget op' node') p"
  shows "indicator f ck op spec node path = indicator g ck' op' spec' node' path'"
  using assms unfolding indicator_def by (intro bindB_cong refl) (auto intro: bindB_cong)

lemma library_node_cong [fundef_cong]:
  assumes "ck = ck'" "node = node'" "path = path'"
    and "\<And>k p. f (jget k (jget ''inputs'' node')) p = g (jget k (jget ''inputs'' node')) p"
  shows "library_node f ck node path = library_node g ck' node' path'"
  using assms unfolding library_node_def by simp

lemma check_pair_parts: "check_pair v path = Inr (a, b) \<Longrightarrow> a \<in> set (json_parts v) \<and> b \<in> set (json_parts v)"
  by (auto simp: check_pair_def json_parts_def split: json.splits list.splits)

lemma plain_series_cong [fundef_cong]:
  assumes "ck = ck'" "op = op'" "v = v'" "path = path'"
    and "\<And>x p. x \<in> set (json_parts v') \<Longrightarrow> f x p = g x p"
  shows "plain_series f ck op v path = plain_series g ck' op' v' path'"
proof -
  have "bindB (liftB (check_pair v' path')) (\<lambda>(a, b). bindB (f a (nth_path path' 0)) (\<lambda>s.
          bindB (f b (nth_path path' 1)) (\<lambda>t. retB (JObj [(op', JList [s, t])]))))
      = bindB (liftB (check_pair v' path')) (\<lambda>(a, b). bindB (g a (nth_path path' 0)) (\<lambda>s.
          bindB (g b (nth_path path' 1)) (\<lambda>t. retB (JObj [(op', JList [s, t])]))))"
    by (rule bindB_cong [OF refl]) (auto simp: assms(5) dest: check_pair_parts)
  moreover have "f v' p = g v' p" for p by (rule assms(5)) (simp add: json_parts_def)
  ultimately show ?thesis unfolding plain_series_def assms(1-4) by (simp only:)
qed

text \<open>What lies inside an object is smaller than it.\<close>

lemma size_jget: "size (jget k v) \<le> size v"
proof (cases v)
  case (JObj kvs)
  then show ?thesis
  proof (cases "map_of kvs k")
    case (Some w)
    then have "(k, w) \<in> set kvs" by (rule map_of_SomeD)
    then show ?thesis using size_member [of "(k, w)" kvs] JObj Some by simp
  qed simp
qed simp_all

lemma size_jget_less: "is_obj v \<Longrightarrow> size (jget k v) < size v"
proof (cases v)
  case (JObj kvs)
  then show ?thesis
  proof (cases "map_of kvs k")
    case (Some w)
    then have "(k, w) \<in> set kvs" by (rule map_of_SomeD)
    then show ?thesis using size_member [of "(k, w)" kvs] JObj Some by simp
  qed simp
qed (simp_all add: is_obj_def)

lemma operator_of_obj: "operator_of node path allowed kind = Inr op \<Longrightarrow> is_obj node"
  by (auto simp: operator_of_def need_def)

lemma size_jget_operator:
  "operator_of node path allowed kind = Inr op \<Longrightarrow> size (jget k node) < size node"
  by (rule size_jget_less) (rule operator_of_obj)

lemma size_part_operator:
  "operator_of node path allowed kind = Inr op \<Longrightarrow> x \<in> set (json_parts (jget k node)) \<Longrightarrow> size x < size node"
  using size_jget_operator [of node path allowed kind op k]
  by (auto simp: json_parts_def simp del: json.size dest: size_elem split: json.splits)

lemma size_inputs_operator:
  "operator_of node path allowed kind = Inr op \<Longrightarrow> size (jget k (jget j node)) < size node"
  by (rule le_less_trans [OF size_jget size_jget_operator])

function series :: "checker \<Rightarrow> json \<Rightarrow> string \<Rightarrow> (string set, json) body" where
  "series ck node path =
     (if is_scalar node then liftB (scalar_series node path)
      else bindB (liftB (operator_of node path SERIES_OPERATORS ''series'')) (\<lambda>op.
       let value = jget op node; inside = dot path op in
       if op = ''prev'' then
         bindB (liftB (check_object node path [''prev'', ''bars''] [])) (\<lambda>_.
         bindB (series ck value inside) (\<lambda>s.
         bindB (count_arg ck (jget ''bars'' node) (dot path ''bars'') 1 (ck_bars ck - 1)) (\<lambda>n.
         retB (JObj [(''prev'', s), (''bars'', n)]))))
       else if op \<in> set ROLLING_OPERATORS then
         bindB (liftB (check_object node path [op, ''length''] [''across_sessions''])) (\<lambda>_.
         bindB (liftB (across_flag node path)) (\<lambda>across.
         bindB (count_arg ck (jget ''length'' node) (dot path ''length'') (if op = ''std'' then 2 else 1)
           (longest_window ck across)) (\<lambda>n.
         bindB (series ck value inside) (\<lambda>s.
         retB (JObj [(op, s), (''length'', n), (''across_sessions'', JBool across)])))))
       else if op = ''value_at'' then
         bindB (liftB (check_object node path [''value_at'', ''time''] [])) (\<lambda>_.
         bindB (liftB (clock_of (jget ''time'' node) (dot path ''time'') (ck_first_end ck)
           SESSION_CLOSE_MINUTES (ck_step ck))) (\<lambda>time.
         bindB (series ck value inside) (\<lambda>s.
         retB (JObj [(''value_at'', s), (''time'', time)]))))
       else if op \<in> set INDICATOR_OPERATORS then
         indicator (series ck) ck op (the (map_of INDICATORS op)) node path
       else if op = ''indicator'' then library_node (series ck) ck node path
       else
         bindB (liftB (check_object node path [op] [])) (\<lambda>_. plain_series (series ck) ck op value inside)))"
  by pat_completeness auto

termination
  by (relation "measure (\<lambda>(ck, node, path). size node)")
    (auto intro: size_jget_operator size_part_operator size_inputs_operator)

declare series.simps [simp del]

section \<open>Conditions, sides and exits\<close>

definition time_window :: "checker \<Rightarrow> json \<Rightarrow> string \<Rightarrow> exn + json" where
  "time_window ck value inside =
     bindR (check_pair value inside) (\<lambda>(a, b).
     bindR (clock_of a (nth_path inside 0) (ck_first_end ck) SESSION_CLOSE_MINUTES (ck_step ck)) (\<lambda>start.
     bindR (clock_of b (nth_path inside 1) (ck_first_end ck) SESSION_CLOSE_MINUTES (ck_step ck)) (\<lambda>stop.
     bindR (clock_minutes start) (\<lambda>m.
     bindR (clock_minutes stop) (\<lambda>n.
     bindR (need (m \<le> n) inside (''start '' @ py_str start @ '' is after end '' @ py_str stop)) (\<lambda>_.
     Inr (JList [start, stop])))))))"

definition conditions_of :: "json \<Rightarrow> string \<Rightarrow> exn + json list" where
  "conditions_of value inside =
     (case value of
        JList (x # xs) \<Rightarrow> Inr (x # xs)
      | _ \<Rightarrow> Inl (RuleSpecError inside ''must be a non-empty list of conditions''))"

lemma conditions_of_size:
  "operator_of node path allowed kind = Inr op \<Longrightarrow> conditions_of (jget k node) p = Inr xs \<Longrightarrow> x \<in> set xs \<Longrightarrow>
   size x < size node"
  using size_jget_operator [of node path allowed kind op k] size_elem [of x xs]
  by (auto simp: conditions_of_def simp del: json.size split: json.splits list.splits)

lemma in_set_enumerate: "(i, x) \<in> set (enumerate n xs) \<Longrightarrow> x \<in> set xs"
  by (auto simp: in_set_enumerate_eq)

function condition :: "checker \<Rightarrow> json \<Rightarrow> string \<Rightarrow> (string set, json) body" where
  "condition ck node path =
     bindB (liftB (operator_of node path CONDITION_OPERATORS ''condition'')) (\<lambda>op.
     bindB (liftB (check_object node path [op] [])) (\<lambda>_.
     let value = jget op node; inside = dot path op in
     if op \<in> set COMPARISON_OPERATORS \<or> op \<in> set CROSS_OPERATORS then
       bindB (liftB (check_pair value inside)) (\<lambda>(a, b).
       bindB (series ck a (nth_path inside 0)) (\<lambda>s.
       bindB (series ck b (nth_path inside 1)) (\<lambda>t.
       retB (JObj [(op, JList [s, t])]))))
     else if op = ''all'' \<or> op = ''any'' then
       bindB (liftB (conditions_of value inside)) (\<lambda>items.
       bindB (forB (\<lambda>(i, item). condition ck item (nth_path inside i)) (enumerate 0 items)) (\<lambda>cs.
       retB (JObj [(op, JList cs)])))
     else if op = ''not'' then
       bindB (condition ck value inside) (\<lambda>c. retB (JObj [(''not'', c)]))
     else if op = ''every_minutes'' then
       bindB (liftB (need (is_count value (ck_step ck) (SESSION_CLOSE_MINUTES - SESSION_OPEN_MINUTES)
           \<and> (case value of JInt i \<Rightarrow> i mod ck_step ck = 0 | _ \<Rightarrow> False)) inside
         (''must be a whole number of minutes, a multiple of the '' @ int_str (ck_step ck)
          @ ''-minute bar, up to 390''))) (\<lambda>_.
       retB (JObj [(''every_minutes'', value)]))
     else if op = ''time_is'' then
       bindB (liftB (clock_of value inside (ck_first_end ck) SESSION_CLOSE_MINUTES (ck_step ck))) (\<lambda>time.
       retB (JObj [(''time_is'', time)]))
     else
       bindB (liftB (time_window ck value inside)) (\<lambda>window.
       retB (JObj [(''time_between'', window)]))))"
  by pat_completeness auto

termination
  by (relation "measure (\<lambda>(ck, node, path). size node)")
    (auto dest: in_set_enumerate intro: size_jget_operator conditions_of_size)

declare condition.simps [simp del]

definition side :: "checker \<Rightarrow> json \<Rightarrow> string \<Rightarrow> (string set, json) body" where
  \<open>side ck node path =
     (let refused = raiseB (RuleSpecError path
            ''must be "long", "short", {"sign_of": <series>} or {"opposite_sign_of": <series>}'') in
      case node of
        JStr s \<Rightarrow> if s \<in> {''long'', ''short''} then retB node else refused
      | JObj [(key, v)] \<Rightarrow>
          if key \<in> set SIDE_OPERATORS
          then bindB (series ck v (dot path key)) (\<lambda>s. retB (JObj [(key, s)]))
          else refused
      | _ \<Rightarrow> refused)\<close>

definition distance :: "checker \<Rightarrow> json \<Rightarrow> string \<Rightarrow> string \<Rightarrow> (string set, json) body" where
  "distance ck node path stop =
     bindB (liftB (operator_of node path (DISTANCE_KINDS @ map fst STOP_ONLY_KINDS) ''distance'')) (\<lambda>kind.
     bindB (liftB (check_object node path [kind] [])) (\<lambda>_.
     let inside = dot path kind; value = jget kind node in
     case map_of STOP_ONLY_KINDS kind of
       Some stops \<Rightarrow>
         bindB (liftB (need (stop \<in> set stops) inside (''is allowed only in '' @ joined '' or '' stops))) (\<lambda>_.
         if kind = ''signal_bar'' then
           bindB (liftB (need (value = JBool True) inside
             (''must be true: the stop sits at the signal bar'' @ [CHR 0x27] @ ''s low (long) or high (short)'')))
             (\<lambda>_.
           retB (JObj [(kind, JBool True)]))
         else bindB (if kind = ''level'' then series ck value inside else amount_arg ck value inside None) (\<lambda>v.
           retB (JObj [(kind, v)])))
     | None \<Rightarrow>
         if kind = ''atr'' then
           bindB (liftB (check_object value inside [''length'', ''multiple''] [])) (\<lambda>atr.
           bindB (count_arg ck (jget ''length'' atr) (dot inside ''length'') 1 (ck_bars ck)) (\<lambda>n.
           bindB (amount_arg ck (jget ''multiple'' atr) (dot inside ''multiple'') None) (\<lambda>m.
           retB (JObj [(''atr'', JObj [(''length'', n), (''multiple'', m)])]))))
         else bindB (amount_arg ck value inside (if kind = ''percent'' then Some 100 else None)) (\<lambda>v.
           retB (JObj [(kind, v)]))))"

text \<open>One optional entry of the exit rules: absent, or checked under its key.\<close>

definition entry :: "string \<Rightarrow> json \<Rightarrow> ('u, json) body \<Rightarrow> ('u, (string \<times> json) list) body" where
  "entry key node m = (if has_key key node then bindB m (\<lambda>v. retB [(key, v)]) else retB [])"

definition exit_when :: "checker \<Rightarrow> json \<Rightarrow> string \<Rightarrow> (string set, json) body" where
  \<open>exit_when ck node path =
     bindB (liftB (check_object node path [] [''long'', ''short''])) (\<lambda>_.
     bindB (liftB (need (obj_keys node \<noteq> []) path ''needs "long", "short" or both, each a condition'')) (\<lambda>_.
     bindB (forB (\<lambda>key. bindB (condition ck (jget key node) (dot path key)) (\<lambda>c. retB (key, c)))
              (sort (remdups (obj_keys node)))) (\<lambda>sides.
     retB (JObj sides))))\<close>

definition exit_rules :: "checker \<Rightarrow> json \<Rightarrow> string \<Rightarrow> int option \<Rightarrow> (string set, json) body" where
  \<open>exit_rules ck node path flat_at =
     bindB (liftB (check_object node path [] EXIT_KEYS)) (\<lambda>_.
     bindB (entry ''after_bars'' node
       (count_arg ck (jget ''after_bars'' node) (dot path ''after_bars'') 1
         (if flat_at = None then MAX_WINDOW_BARS else ck_bars ck - 1))) (\<lambda>after_bars.
     bindB (entry ''at_time'' node (liftB (clock_of (jget ''at_time'' node) (dot path ''at_time'')
         (ck_first_end ck + ck_step ck) (case flat_at of None \<Rightarrow> ck_last_exit ck | Some m \<Rightarrow> m) (ck_step ck))))
       (\<lambda>at_time.
     let opposite = get_or ''on_opposite_signal'' (JBool False) node in
     bindB (liftB (need (opposite = JBool True \<or> opposite = JBool False) (dot path ''on_opposite_signal'')
       ''must be true or false'')) (\<lambda>_.
     bindB (forB (\<lambda>key. entry key node (distance ck (jget key node) (dot path key) key)) STOP_KEYS) (\<lambda>stops.
     let result = JObj (after_bars @ at_time @ [(''on_opposite_signal'', opposite)] @ concat stops) in
     bindB (liftB (mapR (\<lambda>key. need (has_key ''r_multiple'' (get_or key (JObj []) result)
            \<longrightarrow> has_key ''stop_loss'' result) (dot (dot path key) ''r_multiple'')
         ''needs a stop_loss: R is the stop-loss distance'') [''take_profit'', ''trail_after''])) (\<lambda>_.
     bindB (liftB (need (has_key ''trail_after'' result \<longrightarrow> has_key ''trailing_stop'' result)
         (dot path ''trail_after'')
         ''needs a trailing_stop: it is the gain that switches the trailing stop on'')) (\<lambda>_.
     bindB (entry ''exit_when'' node (exit_when ck (jget ''exit_when'' node) (dot path ''exit_when'')))
       (\<lambda>whens.
     retB (JObj (after_bars @ at_time @ [(''on_opposite_signal'', opposite)] @ concat stops @ whens))))))))))\<close>

section \<open>Specs\<close>

definition check_bar :: "json \<Rightarrow> string \<Rightarrow> exn + string" where
  "check_bar bar path =
     (case bar of
        JStr b \<Rightarrow>
          bindR (need (b \<in> fst ` set BAR_MINUTES) path
            (''must be '' @ joined '' or '' (map str_lit SUPPORTED_BARS) @ '' in '' @ RULE_LANGUAGE @ ''; got ''
             @ py_repr bar)) (\<lambda>_. Inr b)
      | _ \<Rightarrow> Inl (RuleSpecError path
            (''must be '' @ joined '' or '' (map str_lit SUPPORTED_BARS) @ '' in '' @ RULE_LANGUAGE @ ''; got ''
             @ py_repr bar)))"

definition check_session :: "json \<Rightarrow> string \<Rightarrow> exn + unit" where
  "check_session v path =
     bindR (check_object v path (map fst SUPPORTED_SESSION) []) (\<lambda>session.
     bindR (mapR (\<lambda>(key, expected). need (json_eq (jget key session) (JStr expected)) (dot path key)
         (RULE_LANGUAGE @ '' supports only the America/New_York 09:30-16:00 regular session; got ''
          @ py_repr (jget key session))) SUPPORTED_SESSION) (\<lambda>_. Inr ()))"

definition signal_list :: "json \<Rightarrow> string \<Rightarrow> exn + json list" where
  \<open>signal_list v path =
     (case v of
        JList (x # xs) \<Rightarrow> Inr (x # xs)
      | _ \<Rightarrow> Inl (RuleSpecError path ''must be a non-empty list of {"when": ..., "side": ...} objects''))\<close>

definition signal :: "checker \<Rightarrow> json \<Rightarrow> string \<Rightarrow> (string set, json) body" where
  "signal ck v path =
     bindB (liftB (check_object v path [''when'', ''side''] [])) (\<lambda>_.
     bindB (condition ck (jget ''when'' v) (dot path ''when'')) (\<lambda>c.
     bindB (side ck (jget ''side'' v) (dot path ''side'')) (\<lambda>s.
     retB (JObj [(''when'', c), (''side'', s)]))))"

definition skip_days_ok :: "json \<Rightarrow> bool" where
  "skip_days_ok v \<longleftrightarrow>
     (case v of
        JList xs \<Rightarrow> (\<forall>x \<in> set xs. one_of x SKIP_DAY_CALENDARS) \<and> distinct xs
      | _ \<Rightarrow> False)"

text \<open>The first half of \<open>spec\<close>: everything up to \<open>flat_at\<close>, which marks no variable.\<close>

definition spec_header :: "checker \<Rightarrow> json \<Rightarrow> exn + string \<times> checker \<times> (string \<times> json) list" where
  "spec_header ck0 spec =
     (let path = ''rule_spec'' in
     bindR (check_object spec path TOP_LEVEL_KEYS [''exit'', ''skip_days'', ''flat_at'']) (\<lambda>_.
     bindR (need (json_eq (jget ''language'' spec) (JStr RULE_LANGUAGE)) (dot path ''language'')
       (''must be '' @ repr_str RULE_LANGUAGE)) (\<lambda>_.
     bindR (check_bar (jget ''bar'' spec) (dot path ''bar'')) (\<lambda>bar.
     bindR (set_bar bar ck0) (\<lambda>ck.
     bindR (is_amount (jget ''tick_size'' spec) None) (\<lambda>ok.
     bindR (need ok (dot path ''tick_size'') ''must be a number greater than zero'') (\<lambda>_.
     bindR (check_session (jget ''session'' spec) (dot path ''session'')) (\<lambda>_.
     bindR (if has_key ''flat_at'' spec
            then bindR (clock_of (jget ''flat_at'' spec) (dot path ''flat_at'') (ck_first_end ck + ck_step ck)
                   (ck_last_exit ck) (ck_step ck)) (\<lambda>v. Inr [(''flat_at'', v)])
            else Inr []) (\<lambda>flat_at.
     Inr (bar, ck, flat_at))))))))))"

definition flat_clock :: "(string \<times> json) list \<Rightarrow> exn + int option" where
  "flat_clock flat_at =
     (case flat_at of [] \<Rightarrow> Inr None | (_, v) # _ \<Rightarrow> bindR (clock_minutes v) (\<lambda>m. Inr (Some m)))"

definition rule_spec :: "checker \<Rightarrow> json \<Rightarrow> (string set, json) body" where
  "rule_spec ck0 spec =
     (let path = ''rule_spec''; max_trades = jget ''max_trades_per_session'' spec;
          skip_days = jget ''skip_days'' spec in
     bindB (liftB (spec_header ck0 spec)) (\<lambda>(bar, ck, flat_at).
     bindB (liftB (signal_list (jget ''signals'' spec) (dot path ''signals''))) (\<lambda>signals.
     bindB (forB (\<lambda>(i, v). signal ck v (nth_path (dot path ''signals'') i)) (enumerate 0 signals)) (\<lambda>sigs.
     bindB (liftB (need (is_count max_trades 1 (ck_bars ck)) (dot path ''max_trades_per_session'')
       (''must be a whole number from 1 to '' @ int_str (ck_bars ck)))) (\<lambda>_.
     bindB (liftB (need (has_key ''skip_days'' spec \<longrightarrow> skip_days_ok skip_days) (dot path ''skip_days'')
       (''must be a list without duplicates drawn from '' @ py_repr (JList (map JStr SKIP_DAY_CALENDARS)))))
       (\<lambda>_.
     bindB (liftB (flat_clock flat_at)) (\<lambda>flat_minutes.
     bindB (exit_rules ck (get_or ''exit'' (JObj []) spec) (dot path ''exit'') flat_minutes) (\<lambda>ex.
     retB (JObj ([(''language'', JStr RULE_LANGUAGE), (''bar'', JStr bar),
       (''tick_size'', jget ''tick_size'' spec),
       (''session'', JObj (map (\<lambda>(k, v). (k, JStr v)) SUPPORTED_SESSION)), (''signals'', JList sigs),
       (''exit'', ex), (''max_trades_per_session'', max_trades)]
       @ flat_at
       @ (if has_key ''skip_days'' spec \<and> skip_days \<noteq> JList [] then [(''skip_days'', skip_days)] else [])))))))))))"

text \<open>\<open>_check_size\<close>: the stack of nodes still to visit, each with its depth; \<open>pop\<close> takes the last.\<close>

definition json_children :: "json \<Rightarrow> json list" where
  "json_children v = (case v of JObj kvs \<Rightarrow> map snd kvs | JList xs \<Rightarrow> xs | _ \<Rightarrow> [])"

lemma size_children: "sum_list (map size (json_children v)) < size v \<or> json_children v = []"
proof (cases v)
  case (JList xs)
  have "sum_list (map size xs) \<le> size_list size xs" by (induction xs) auto
  with JList show ?thesis by (simp add: json_children_def)
next
  case (JObj kvs)
  have "sum_list (map size (map snd kvs)) \<le> size_list (size_prod (\<lambda>x. 0) size) kvs" by (induction kvs) auto
  then have "sum_list (map size (map snd kvs)) < size v" using JObj by simp
  with JObj show ?thesis by (simp add: json_children_def)
qed (simp_all add: json_children_def)

function check_size_loop :: "(json \<times> nat) list \<Rightarrow> nat \<Rightarrow> exn + unit" where
  "check_size_loop stack nodes =
     (if stack = [] then Inr ()
      else
        let (v, depth) = last stack; nodes' = nodes + 1 in
        bindR (need (nodes' \<le> MAX_RULE_NODES) ''rule_spec''
          (''has more than '' @ nat_str MAX_RULE_NODES @ '' elements; simplify the rules'')) (\<lambda>_.
        bindR (need (depth \<le> MAX_RULE_DEPTH) ''rule_spec''
          (''is nested more than '' @ nat_str MAX_RULE_DEPTH @ '' levels deep'')) (\<lambda>_.
        check_size_loop (butlast stack @ map (\<lambda>c. (c, depth + 1)) (json_children v)) nodes')))"
  by pat_completeness auto

termination
proof (relation "measure (\<lambda>(stack, nodes). MAX_RULE_NODES - nodes)")
  fix stack :: "(json \<times> nat) list" and nodes p v depth nodes' u
  assume "need (nodes' \<le> MAX_RULE_NODES) ''rule_spec''
     (''has more than '' @ nat_str MAX_RULE_NODES @ '' elements; simplify the rules'') = Inr u"
    and "nodes' = nodes + 1"
  then have "MAX_RULE_NODES - nodes' < MAX_RULE_NODES - nodes"
    by (auto simp: need_def)
  then show "((butlast stack @ map (\<lambda>c. (c, depth + 1)) (json_children v), nodes'), stack, nodes)
      \<in> measure (\<lambda>(stack, nodes). MAX_RULE_NODES - nodes)" by simp
qed simp

declare check_size_loop.simps [simp del]

definition check_size :: "json \<Rightarrow> exn + unit" where
  "check_size spec = check_size_loop [(spec, 1)] 0"

text \<open>\<open>len(definition["values"])\<close>, and the product of the lengths.\<close>

definition value_count :: "json \<Rightarrow> exn + nat" where
  "value_count variable =
     (case variable of
        JObj kvs \<Rightarrow>
          (case map_of kvs ''values'' of
             None \<Rightarrow> Inl (KeyError ''values'')
           | Some (JList xs) \<Rightarrow> Inr (length xs)
           | Some (JObj ms) \<Rightarrow> Inr (length ms)
           | Some (JStr s) \<Rightarrow> Inr (length s)
           | Some _ \<Rightarrow> Inl (TypeError ''object has no len()''))
      | _ \<Rightarrow> Inl (TypeError ''object is not subscriptable''))"

definition check_grid_size :: "(string \<times> json) list \<Rightarrow> exn + unit" where
  "check_grid_size variables =
     bindR (mapR (\<lambda>kv. value_count (snd kv)) variables) (\<lambda>counts.
     let combinations = prod_list counts in
     need (combinations \<le> MAX_VARIABLE_GRID) ''variables''
       (''grid has '' @ nat_str combinations @ '' combinations (product of each variable'' @ [CHR 0x27]
        @ ''s value count); the limit is '' @ nat_str MAX_VARIABLE_GRID @ ''. Remove values or variables''))"

definition variable_table :: "json \<Rightarrow> exn + (string \<times> json) list" where
  \<open>variable_table variables =
     (case variables of
        JNull \<Rightarrow> Inr []
      | JObj kvs \<Rightarrow> Inr kvs
      | _ \<Rightarrow> Inl (RuleSpecError ''variables'' ''must be an object mapping names to {"values": [...]}''))\<close>

definition new_checker :: "(string \<times> json) list \<Rightarrow> vectorbt option \<Rightarrow> exn + checker" where
  "new_checker variables lib =
     set_bar ''5m'' \<lparr>ck_step = 0, ck_bars = 0, ck_first_end = 0, ck_last_exit = 0,
       ck_variables = variables, ck_library = lib\<rparr>"

definition validate_rule_spec :: "vectorbt option \<Rightarrow> json \<Rightarrow> json \<Rightarrow> exn + json" where
  \<open>validate_rule_spec lib spec variables =
     bindR (need (is_obj spec) ''rule_spec'' ''must be an object'') (\<lambda>_.
     bindR (variable_table variables) (\<lambda>table.
     bindR (check_size spec) (\<lambda>_.
     bindR (new_checker table lib) (\<lambda>ck.
     bindR (rule_spec ck spec {}) (\<lambda>(normalized, used).
     let unused = sort (filter (\<lambda>name. name \<notin> used) (map fst table)) in
     bindR (need (unused = []) (dot ''variables'' (hd unused))
       (''is declared but rule_spec never uses it; reference it with {"param": "'' @ hd unused
        @ ''"} or remove it'')) (\<lambda>_.
     bindR (check_grid_size table) (\<lambda>_.
     Inr normalized)))))))\<close>

end
