(* ===== verification/Rule_Grammar.thy ===== *)
theory Rule_Grammar
  imports Rule_Language
begin

text \<open>
  The language the checker accepts: the normal forms as inductive predicates (one rule per production,
  with the bounds of every argument), the variables a normal form refers to, and what the checker's
  helpers accept: an argument, a clock time, an object with its keys, a loop over arguments.
\<close>

section \<open>Variables of a rule\<close>

function (sequential) params_of :: "json \<Rightarrow> string set" where
  "params_of (JObj kvs) =
     (\<Union>kv \<in> set kvs. case kv of (k, v) \<Rightarrow> (if k = ''param'' \<and> (\<exists>s. v = JStr s) then {py_str v} else params_of v))"
| "params_of (JList xs) = (\<Union>x \<in> set xs. params_of x)"
| "params_of _ = {}"
  by pat_completeness auto
termination
  by (relation "measure size") (auto dest: size_elem size_member simp del: json.size)

lemma params_of_simps [simp]:
  "params_of (JObj []) = {}"
  "k \<noteq> ''param'' \<Longrightarrow> params_of (JObj ((k, v) # kvs)) = params_of v \<union> params_of (JObj kvs)"
  "params_of (JObj [(''param'', JStr s)]) = {s}"
  "params_of (JObj (kvs @ kvs')) = params_of (JObj kvs) \<union> params_of (JObj kvs')"
  by (auto simp: py_str_def)

declare params_of.simps(1) [simp del]

lemma params_of_scalar: "is_scalar v \<Longrightarrow> params_of v = {}"
  by (cases v) (auto simp: is_scalar_def)

section \<open>Arguments\<close>

text \<open>
  A declared variable whose values all fit a place of use and are distinct as floats; a literal or such a
  variable, in the place of a number, a count or an amount.
\<close>

definition declared :: "checker \<Rightarrow> var_kind \<Rightarrow> string \<Rightarrow> bool" where
  "declared ck kind name \<longleftrightarrow>
     name \<noteq> [] \<and>
     (\<exists>variable vs fs. map_of (ck_variables ck) name = Some variable \<and> values_of variable = JList vs \<and> vs \<noteq> []
        \<and> (\<forall>v \<in> set vs. value_fits kind v = Inr True) \<and> mapR to_float vs = Inr fs \<and> distinct fs)"

definition literal_fits :: "var_kind \<Rightarrow> json \<Rightarrow> bool" where
  "literal_fits kind v \<longleftrightarrow>
     (case kind of Count minimum maximum \<Rightarrow> is_count v minimum maximum | _ \<Rightarrow> value_fits kind v = Inr True)"

definition arg_form :: "checker \<Rightarrow> var_kind \<Rightarrow> json \<Rightarrow> bool" where
  "arg_form ck kind v \<longleftrightarrow>
     literal_fits kind v \<or> (\<exists>name. v = JObj [(''param'', JStr name)] \<and> declared ck kind name)"

definition arg_of :: "checker \<Rightarrow> var_kind \<Rightarrow> json \<Rightarrow> string \<Rightarrow> (string set, json) body" where
  "arg_of ck kind v path =
     (case kind of Number \<Rightarrow> number_arg ck v path | Count lo hi \<Rightarrow> count_arg ck v path lo hi
      | Amount hi \<Rightarrow> amount_arg ck v path hi)"

lemma is_obj_simps [simp]:
  "is_obj (JObj kvs)" "\<not> is_obj JNull" "\<not> is_obj (JBool b)" "\<not> is_obj (JInt i)" "\<not> is_obj (JFloat t)"
  "\<not> is_obj (JStr s)" "\<not> is_obj (JList xs)"
  by (simp_all add: is_obj_def)

lemma need_Inr [simp]: "need b path reason = Inr u \<longleftrightarrow> b"
  by (simp add: need_def)

lemma mapR_need: "mapR (\<lambda>x. need (P x) (p x) (r x)) xs = Inr us \<longleftrightarrow> us = replicate (length xs) () \<and> (\<forall>x \<in> set xs. P x)"
  by (induction xs arbitrary: us) auto

lemma check_object_Inr:
  "check_object node path required optional = Inr v \<longleftrightarrow>
     v = node \<and> is_obj node \<and> set (obj_keys node) \<subseteq> set required \<union> set optional
     \<and> set required \<subseteq> set (obj_keys node)"
  by (auto simp: check_object_def Let_def mapR_need has_key_def)

lemma operator_of_Inr:
  "operator_of node path allowed kind = Inr op \<longleftrightarrow>
     is_obj node \<and> filter (\<lambda>k. k \<in> set allowed) (obj_keys node) = [op]"
  by (auto simp: operator_of_def Let_def length_Suc_conv le_Suc_eq)

lemma literal_not_obj: "literal_fits kind v \<Longrightarrow> \<not> is_obj v \<and> params_of v = {}"
  by (cases v) (auto simp: literal_fits_def value_fits_def is_amount_def is_number_def is_count_def
      split: var_kind.splits)

lemma param_values_Inr:
  "param_values ck name path kind vs = Inr u \<longleftrightarrow>
     (\<forall>v \<in> set vs. value_fits kind v = Inr True) \<and> (\<exists>fs. mapR to_float vs = Inr fs \<and> distinct fs)"
proof -
  have "(\<exists>us. mapR (\<lambda>v. bindR (value_fits kind v) (\<lambda>valid. need valid path (r v))) vs = Inr us)
      \<longleftrightarrow> (\<forall>v \<in> set vs. value_fits kind v = Inr True)" for r
    by (induction vs) auto
  then show ?thesis by (simp add: param_values_def)
qed

lemma param_Inr:
  "param ck v path kind u = Inr (n, u') \<longleftrightarrow>
     n = v \<and> (\<exists>name. v = JStr name \<and> declared ck kind name \<and> u' = insert name u)"
  by (auto simp: param_def declared_def param_values_Inr Let_def neq_Nil_conv
      split: json.splits list.splits option.splits)

lemma param_node_sound:
  assumes "param_node ck node path kind u = Inr (n, u')"
  shows "\<exists>name. n = JObj [(''param'', JStr name)] \<and> declared ck kind name \<and> u' = insert name u"
  using assms unfolding param_node_def bindB_Inr liftB_Inr param_Inr retB_Inr by fastforce

lemma param_node_complete:
  "declared ck kind name \<Longrightarrow>
   param_node ck (JObj [(''param'', JStr name)]) path kind u = Inr (JObj [(''param'', JStr name)], insert name u)"
  unfolding param_node_def bindB_Inr liftB_Inr check_object_Inr param_Inr retB_Inr by simp

lemma arg_of_obj: "is_obj v \<Longrightarrow> arg_of ck kind v path = param_node ck v path kind"
  by (cases kind) (simp_all only: arg_of_def var_kind.case number_arg_def count_arg_def amount_arg_def if_True)

lemma arg_of_literal:
  "\<not> is_obj v \<Longrightarrow> arg_of ck kind v path u = Inr (n, u') \<longleftrightarrow> literal_fits kind v \<and> n = v \<and> u' = u"
  by (cases kind)
    (simp_all add: arg_of_def number_arg_def count_arg_def amount_arg_def literal_fits_def value_fits_def,
     auto)

text \<open>An argument is accepted exactly when its normal form is one, and then uses its variable.\<close>

lemma arg_sound:
  assumes "arg_of ck kind v path u = Inr (n, u')"
  shows "arg_form ck kind n \<and> u' = u \<union> params_of n"
proof (cases "is_obj v")
  case True
  from param_node_sound [OF assms [unfolded arg_of_obj [OF True]]] show ?thesis
    by (elim exE conjE) (simp add: arg_form_def)
next
  case False
  from assms [unfolded arg_of_literal [OF False]] literal_not_obj [of kind v] show ?thesis
    by (simp add: arg_form_def)
qed

lemma arg_complete: "arg_form ck kind n \<Longrightarrow> arg_of ck kind n path u = Inr (n, u \<union> params_of n)"
  unfolding arg_form_def
proof (elim disjE exE conjE)
  assume "literal_fits kind n"
  with literal_not_obj [OF this] show ?thesis by (simp add: arg_of_literal)
next
  fix name
  assume n: "n = JObj [(''param'', JStr name)]" and d: "declared ck kind name"
  show ?thesis unfolding n arg_of_obj [OF is_obj_simps(1)] param_node_complete [OF d] by simp
qed

lemmas count_sound = arg_sound [of _ "Count lo hi" for lo hi, unfolded arg_of_def var_kind.case]
lemmas amount_sound = arg_sound [of _ "Amount hi" for hi, unfolded arg_of_def var_kind.case]
lemmas number_sound = arg_sound [of _ Number, unfolded arg_of_def var_kind.case]
lemmas count_complete = arg_complete [of _ "Count lo hi" for lo hi, unfolded arg_of_def var_kind.case]
lemmas amount_complete = arg_complete [of _ "Amount hi" for hi, unfolded arg_of_def var_kind.case]
lemmas number_complete = arg_complete [of _ Number, unfolded arg_of_def var_kind.case]

lemma arg_form_obj: "arg_form ck kind (JObj kvs) \<Longrightarrow> \<exists>name. kvs = [(''param'', JStr name)]"
  using literal_not_obj [of kind "JObj kvs"] by (auto simp: arg_form_def)

section \<open>Clock times\<close>

definition clock_form :: "int \<Rightarrow> int \<Rightarrow> int \<Rightarrow> json \<Rightarrow> bool" where
  "clock_form earliest latest step v \<longleftrightarrow>
     (\<exists>s m. v = JStr s \<and> clock_digits s = Some m \<and> m mod step = 0 \<and> earliest \<le> m \<and> m \<le> latest)"

lemma clock_minutes_Inr: "clock_minutes v = Inr m \<longleftrightarrow> (\<exists>s. v = JStr s \<and> clock_digits s = Some m)"
  by (auto simp: clock_minutes_def split: json.splits option.splits)

lemma clock_of_Inr: "clock_of v path a b step = Inr w \<longleftrightarrow> w = v \<and> clock_form a b step v"
  by (auto simp: clock_of_def clock_form_def clock_minutes_Inr split: sum.splits)
    (auto simp: clock_minutes_def)

lemma clock_form_scalar: "clock_form a b step v \<Longrightarrow> params_of v = {}"
  by (auto simp: clock_form_def)

text \<open>Both clocks of a window are read, and the first is before the second.\<close>

definition window_form :: "(int \<Rightarrow> int \<Rightarrow> bool) \<Rightarrow> json \<Rightarrow> json \<Rightarrow> bool" where
  "window_form before a b \<longleftrightarrow> (\<exists>m n. clock_minutes a = Inr m \<and> clock_minutes b = Inr n \<and> before m n)"

section \<open>Normal forms of series\<close>

definition flag_kvs :: "bool \<Rightarrow> (string \<times> json) list" where
  "flag_kvs across = [(''across_sessions'', JBool across)]"

text \<open>The arguments of an indicator under their keys, each in the form its kind asks for.\<close>

definition params_form ::
  "checker \<Rightarrow> (string \<Rightarrow> 'k \<Rightarrow> var_kind) \<Rightarrow> (string \<times> 'k) list \<Rightarrow> (string \<times> json) list \<Rightarrow> bool" where
  "params_form ck kind_of ps kvs \<longleftrightarrow>
     list_all2 (\<lambda>p kv. fst kv = fst p \<and> arg_form ck (kind_of (fst p) (snd p)) (snd kv)) ps kvs"

definition indicator_kind :: "int \<Rightarrow> string \<Rightarrow> string \<times> int \<Rightarrow> var_kind" where
  "indicator_kind maximum key k =
     (if fst k = ''count'' then Count (snd k) maximum else Amount (Some MAX_MULTIPLIER))"

definition library_kind :: "int \<Rightarrow> string \<Rightarrow> string \<Rightarrow> var_kind" where
  "library_kind maximum key k = (if k = ''count'' then Count 0 maximum else Number)"

definition output_form :: "string list \<Rightarrow> (string \<times> json) list \<Rightarrow> bool" where
  "output_form outputs kvs \<longleftrightarrow>
     (if outputs = [] then kvs = [] else \<exists>s \<in> set outputs. kvs = [(''output'', JStr s)])"

definition atr_form :: "checker \<Rightarrow> json \<Rightarrow> bool" where
  "atr_form ck v \<longleftrightarrow>
     (\<exists>n sm fl across. v = JObj ((''length'', n) # sm @ fl)
        \<and> (sm = [] \<or> (\<exists>s \<in> set ATR_SMOOTHINGS. sm = [(''smoothing'', JStr s)]))
        \<and> (fl = [] \<and> \<not> across \<or> fl = flag_kvs across)
        \<and> arg_form ck (Count 1 (longest_window ck across)) n)"

inductive series_form :: "checker \<Rightarrow> json \<Rightarrow> bool" for ck where
  whole: "isfinite (JInt i) = Inr True \<Longrightarrow> series_form ck (JInt i)"
| real: "is_finite (float_value t) \<Longrightarrow> series_form ck (JFloat t)"
| field: "s \<in> set PRICE_FIELDS \<Longrightarrow> series_form ck (JStr s)"
| prev: "series_form ck s \<Longrightarrow> arg_form ck (Count 1 (ck_bars ck - 1)) n \<Longrightarrow>
    series_form ck (JObj [(''prev'', s), (''bars'', n)])"
| rolling: "op \<in> set ROLLING_OPERATORS \<Longrightarrow> series_form ck s \<Longrightarrow>
    arg_form ck (Count (if op = ''std'' then 2 else 1) (longest_window ck across)) n \<Longrightarrow>
    series_form ck (JObj [(op, s), (''length'', n), (''across_sessions'', JBool across)])"
| value_at: "series_form ck s \<Longrightarrow> clock_form (ck_first_end ck) SESSION_CLOSE_MINUTES (ck_step ck) t \<Longrightarrow>
    series_form ck (JObj [(''value_at'', s), (''time'', t)])"
| indicator: "(op, spec) \<in> set INDICATORS \<Longrightarrow>
    (if takes_series spec then series_form ck operand else operand = JObj []) \<Longrightarrow>
    params_form ck (indicator_kind (longest_window ck across)) (is_params spec) params \<Longrightarrow>
    output_form (is_outputs spec) out \<Longrightarrow>
    series_form ck (JObj ((op, operand) # params @ flag_kvs across @ out))"
| library: "library_indicator (ck_library ck) name = Inr (Some spec) \<Longrightarrow>
    params_form ck (library_kind (longest_window ck across)) (li_params spec) params \<Longrightarrow>
    map fst inputs = filter (\<lambda>k. k \<in> fst ` set inputs) (li_inputs spec) \<Longrightarrow>
    (\<forall>kv \<in> set inputs. series_form ck (snd kv)) \<Longrightarrow> s \<in> set (li_outputs spec) \<Longrightarrow>
    series_form ck (JObj [(''indicator'', JStr name), (''params'', JObj params), (''inputs'', JObj inputs),
      (''output'', JStr s), (''across_sessions'', JBool across)])"
| param: "declared ck Number name \<Longrightarrow> series_form ck (JObj [(''param'', JStr name)])"
| binary: "op \<in> set BINARY_OPERATORS \<Longrightarrow> series_form ck s \<Longrightarrow> series_form ck t \<Longrightarrow>
    series_form ck (JObj [(op, JList [s, t])])"
| unary: "op \<in> set UNARY_OPERATORS \<Longrightarrow> series_form ck s \<Longrightarrow> series_form ck (JObj [(op, s)])"
| atr: "atr_form ck v \<Longrightarrow> series_form ck (JObj [(''atr'', v)])"
| session: "op \<in> set SESSION_OPERATORS \<Longrightarrow> series_form ck (JObj [(op, JObj [])])"
| range: "op \<in> set RANGE_OPERATORS \<Longrightarrow>
    clock_form SESSION_OPEN_MINUTES (ck_last_exit ck) (ck_step ck) a \<Longrightarrow>
    clock_form (ck_first_end ck) SESSION_CLOSE_MINUTES (ck_step ck) b \<Longrightarrow> window_form (<) a b \<Longrightarrow>
    series_form ck (JObj [(op, JObj [(''from'', a), (''to'', b)])])"

section \<open>Normal forms of conditions, sides, exits and specs\<close>

inductive condition_form :: "checker \<Rightarrow> json \<Rightarrow> bool" for ck where
  compare: "op \<in> set COMPARISON_OPERATORS \<or> op \<in> set CROSS_OPERATORS \<Longrightarrow> series_form ck s \<Longrightarrow> series_form ck t \<Longrightarrow>
    condition_form ck (JObj [(op, JList [s, t])])"
| junction: "op = ''all'' \<or> op = ''any'' \<Longrightarrow> cs \<noteq> [] \<Longrightarrow> (\<forall>c \<in> set cs. condition_form ck c) \<Longrightarrow>
    condition_form ck (JObj [(op, JList cs)])"
| negation: "condition_form ck c \<Longrightarrow> condition_form ck (JObj [(''not'', c)])"
| every_minutes: "ck_step ck \<le> i \<Longrightarrow> i \<le> SESSION_CLOSE_MINUTES - SESSION_OPEN_MINUTES \<Longrightarrow> i mod ck_step ck = 0 \<Longrightarrow>
    condition_form ck (JObj [(''every_minutes'', JInt i)])"
| time_is: "clock_form (ck_first_end ck) SESSION_CLOSE_MINUTES (ck_step ck) t \<Longrightarrow>
    condition_form ck (JObj [(''time_is'', t)])"
| time_between: "clock_form (ck_first_end ck) SESSION_CLOSE_MINUTES (ck_step ck) a \<Longrightarrow>
    clock_form (ck_first_end ck) SESSION_CLOSE_MINUTES (ck_step ck) b \<Longrightarrow> window_form (\<le>) a b \<Longrightarrow>
    condition_form ck (JObj [(''time_between'', JList [a, b])])"

inductive side_form :: "checker \<Rightarrow> json \<Rightarrow> bool" for ck where
  fixed: "s = ''long'' \<or> s = ''short'' \<Longrightarrow> side_form ck (JStr s)"
| signed: "op \<in> set SIDE_OPERATORS \<Longrightarrow> series_form ck s \<Longrightarrow> side_form ck (JObj [(op, s)])"

inductive distance_form :: "checker \<Rightarrow> string \<Rightarrow> json \<Rightarrow> bool" for ck where
  level: "series_form ck s \<Longrightarrow> distance_form ck ''stop_loss'' (JObj [(''level'', s)])"
| signal_bar: "distance_form ck ''stop_loss'' (JObj [(''signal_bar'', JBool True)])"
| r_multiple: "stop = ''take_profit'' \<or> stop = ''trail_after'' \<Longrightarrow> arg_form ck (Amount None) v \<Longrightarrow>
    distance_form ck stop (JObj [(''r_multiple'', v)])"
| atr: "arg_form ck (Count 1 (ck_bars ck)) n \<Longrightarrow> arg_form ck (Amount None) m \<Longrightarrow>
    distance_form ck stop (JObj [(''atr'', JObj [(''length'', n), (''multiple'', m)])])"
| percent: "arg_form ck (Amount (Some 100)) v \<Longrightarrow> distance_form ck stop (JObj [(''percent'', v)])"
| plain: "kind = ''points'' \<or> kind = ''ticks'' \<Longrightarrow> arg_form ck (Amount None) v \<Longrightarrow>
    distance_form ck stop (JObj [(kind, v)])"

text \<open>An optional entry, and the entries of a list of keys in that order.\<close>

definition entry_form :: "string \<Rightarrow> (json \<Rightarrow> bool) \<Rightarrow> (string \<times> json) list \<Rightarrow> bool" where
  "entry_form key P kvs \<longleftrightarrow> kvs = [] \<or> (\<exists>v. P v \<and> kvs = [(key, v)])"

definition entries_form :: "string list \<Rightarrow> (string \<Rightarrow> json \<Rightarrow> bool) \<Rightarrow> (string \<times> json) list \<Rightarrow> bool" where
  "entries_form keys P kvs \<longleftrightarrow>
     map fst kvs = filter (\<lambda>k. k \<in> fst ` set kvs) keys \<and> (\<forall>kv \<in> set kvs. P (fst kv) (snd kv))"

definition sides_form :: "checker \<Rightarrow> json \<Rightarrow> bool" where
  "sides_form ck v \<longleftrightarrow>
     (\<exists>sides. v = JObj sides \<and> sides \<noteq> [] \<and> entries_form [''long'', ''short''] (\<lambda>_. condition_form ck) sides)"

text \<open>A multiple of the stop distance needs the stop; a delay of the trailing stop needs that stop.\<close>

definition stops_linked :: "(string \<times> json) list \<Rightarrow> bool" where
  "stops_linked stops \<longleftrightarrow>
     (\<forall>key \<in> {''take_profit'', ''trail_after''}.
        has_key ''r_multiple'' (get_or key (JObj []) (JObj stops)) \<longrightarrow> has_key ''stop_loss'' (JObj stops)) \<and>
     (has_key ''trail_after'' (JObj stops) \<longrightarrow> has_key ''trailing_stop'' (JObj stops))"

definition exit_form :: "checker \<Rightarrow> int option \<Rightarrow> json \<Rightarrow> bool" where
  "exit_form ck flat n \<longleftrightarrow>
     (\<exists>after_bars at_time b stops whens.
        n = JObj (after_bars @ at_time @ [(''on_opposite_signal'', JBool b)] @ stops @ whens)
        \<and> entry_form ''after_bars''
            (arg_form ck (Count 1 (if flat = None then MAX_WINDOW_BARS else ck_bars ck - 1))) after_bars
        \<and> entry_form ''at_time'' (clock_form (ck_first_end ck + ck_step ck)
            (case flat of None \<Rightarrow> ck_last_exit ck | Some m \<Rightarrow> m) (ck_step ck)) at_time
        \<and> entries_form STOP_KEYS (distance_form ck) stops \<and> stops_linked stops
        \<and> entry_form ''exit_when'' (sides_form ck) whens)"

definition signal_form :: "checker \<Rightarrow> json \<Rightarrow> bool" where
  "signal_form ck v \<longleftrightarrow>
     (\<exists>c s. v = JObj [(''when'', c), (''side'', s)] \<and> condition_form ck c \<and> side_form ck s)"

text \<open>The last minute of a day trade, when the spec names one.\<close>

definition flat_minutes :: "(string \<times> json) list \<Rightarrow> int option" where
  "flat_minutes flat_at =
     (case flat_at of [] \<Rightarrow> None
      | (_, v) # _ \<Rightarrow> (case clock_minutes v of Inl _ \<Rightarrow> None | Inr m \<Rightarrow> Some m))"

definition spec_form :: "checker \<Rightarrow> json \<Rightarrow> bool" where
  "spec_form ck0 n \<longleftrightarrow>
     (\<exists>bar ck tick sigs ex trades flat_at skips.
        n = JObj ([(''language'', JStr RULE_LANGUAGE), (''bar'', JStr bar), (''tick_size'', tick),
              (''session'', JObj (map (\<lambda>(k, v). (k, JStr v)) SUPPORTED_SESSION)), (''signals'', JList sigs),
              (''exit'', ex), (''max_trades_per_session'', trades)] @ flat_at @ skips)
        \<and> bar \<in> fst ` set BAR_MINUTES \<and> set_bar bar ck0 = Inr ck \<and> is_amount tick None = Inr True
        \<and> sigs \<noteq> [] \<and> (\<forall>s \<in> set sigs. signal_form ck s) \<and> exit_form ck (flat_minutes flat_at) ex
        \<and> is_count trades 1 (ck_bars ck)
        \<and> entry_form ''flat_at'' (clock_form (ck_first_end ck + ck_step ck) (ck_last_exit ck) (ck_step ck)) flat_at
        \<and> entry_form ''skip_days'' (\<lambda>v. skip_days_ok v \<and> v \<noteq> JList []) skips)"

section \<open>The loops of the checker\<close>

lemma params_of_members: "params_of (JObj kvs) = (\<Union>kv \<in> set kvs. params_of (JObj [kv]))"
  by (auto simp: params_of.simps(1))

lemma params_of_member: "(\<And>s. v \<noteq> JStr s) \<Longrightarrow> params_of (JObj [(k, v)]) = params_of v"
  by (simp add: params_of.simps(1))

lemma forB_sound:
  assumes "forB f xs u = Inr (ys, u')"
    and "\<And>x u y u'. x \<in> set xs \<Longrightarrow> f x u = Inr (y, u') \<Longrightarrow> Q x y \<and> u' = u \<union> g y"
  shows "list_all2 Q xs ys \<and> u' = u \<union> \<Union> (g ` set ys)"
  using assms
proof (induction xs arbitrary: u ys)
  case (Cons x xs)
  from Cons.prems(1) obtain y v zs where y: "f x u = Inr (y, v)" and zs: "forB f xs v = Inr (zs, u')"
    and ys: "ys = y # zs" by auto
  from Cons.prems(2) [OF _ y] have "Q x y" "v = u \<union> g y" by auto
  with Cons.IH [OF zs Cons.prems(2)] ys show ?case by auto
qed simp

lemma forB_complete:
  "list_all2 (\<lambda>x y. \<forall>u. f x u = Inr (y, u \<union> g y)) xs ys \<Longrightarrow> forB f xs u = Inr (ys, u \<union> \<Union> (g ` set ys))"
proof (induction xs ys arbitrary: u rule: list_all2_induct)
  case (Cons x xs y ys)
  then have "forB f xs (u \<union> g y) = Inr (ys, u \<union> g y \<union> \<Union> (g ` set ys))" by blast
  moreover have "u \<union> g y \<union> \<Union> (g ` set ys) = u \<union> \<Union> (g ` set (y # ys))" by auto
  ultimately show ?case using Cons.hyps(1) by (simp add: bindB_ok [where x = y])
qed simp

lemma arg_form_not_str: "arg_form ck kind v \<Longrightarrow> v \<noteq> JStr s"
  by (auto simp: arg_form_def literal_fits_def value_fits_def is_amount_def is_number_def is_count_def
      split: var_kind.splits)

lemma params_of_arg: "arg_form ck kind v \<Longrightarrow> params_of (JObj [(k, v)]) = params_of v"
  by (rule params_of_member) (rule arg_form_not_str)

lemma params_of_Cons:
  "(\<And>s. v \<noteq> JStr s) \<Longrightarrow> params_of (JObj ((k, v) # kvs)) = params_of v \<union> params_of (JObj kvs)"
  using params_of_simps(4) [of "[(k, v)]" kvs] by (simp add: params_of_member)

text \<open>The argument loops of the two kinds of indicator.\<close>

lemma indicator_param_of:
  "indicator_param ck node path maximum (key, k) =
     bindB (arg_of ck (indicator_kind maximum key k) (jget key node) (dot path key)) (\<lambda>v. retB (key, v))"
  by (cases k) (simp add: indicator_param_def indicator_kind_def arg_of_def)

lemma library_param_of:
  "library_param ck node path maximum (key, kind) =
     bindB (arg_of ck (library_kind maximum key kind) (jget key node) (dot path key)) (\<lambda>v. retB (key, v))"
  by (simp add: library_param_def library_kind_def arg_of_def)

lemma params_loop_sound:
  assumes run: "forB f ps u = Inr (kvs, u')"
    and f: "\<And>key k. f (key, k) = bindB (arg_of ck (kind_of key k) (jget key node) (dot path key)) (\<lambda>v. retB (key, v))"
  shows "params_form ck kind_of ps kvs \<and> u' = u \<union> params_of (JObj kvs)"
proof -
  have "list_all2 (\<lambda>p kv. fst kv = fst p \<and> arg_form ck (kind_of (fst p) (snd p)) (snd kv)) ps kvs
      \<and> u' = u \<union> (\<Union>kv \<in> set kvs. params_of (JObj [kv]))"
  proof (rule forB_sound [OF run])
    fix p u kv u' assume "p \<in> set ps" and r: "f p u = Inr (kv, u')"
    obtain key k where p: "p = (key, k)" by (cases p)
    from r obtain v where a: "arg_of ck (kind_of key k) (jget key node) (dot path key) u = Inr (v, u')"
      and kv: "kv = (key, v)" by (auto simp: p f)
    from arg_sound [OF a] show "(fst kv = fst p \<and> arg_form ck (kind_of (fst p) (snd p)) (snd kv))
        \<and> u' = u \<union> params_of (JObj [kv])"
      using params_of_arg [of ck "kind_of key k" v key] by (simp add: p kv)
  qed
  then show ?thesis by (simp add: params_form_def params_of_members [of kvs])
qed

lemma params_loop_complete:
  assumes form: "params_form ck kind_of ps kvs" and found: "\<And>k v. (k, v) \<in> set kvs \<Longrightarrow> jget k node = v"
    and f: "\<And>key k. f (key, k) = bindB (arg_of ck (kind_of key k) (jget key node) (dot path key)) (\<lambda>v. retB (key, v))"
  shows "forB f ps u = Inr (kvs, u \<union> params_of (JObj kvs))"
  unfolding params_of_members [of kvs]
proof (rule forB_complete)
  show "list_all2 (\<lambda>p kv. \<forall>u. f p u = Inr (kv, u \<union> params_of (JObj [kv]))) ps kvs"
    unfolding list_all2_conv_all_nth
  proof (intro conjI allI impI)
    show "length ps = length kvs" using form by (simp add: params_form_def list_all2_lengthD)
    fix i u assume i: "i < length ps"
    obtain key k where p: "ps ! i = (key, k)" by (cases "ps ! i")
    have "fst (kvs ! i) = key \<and> arg_form ck (kind_of key k) (snd (kvs ! i))"
      using list_all2_nthD [OF form [unfolded params_form_def] i] p by simp
    then obtain v where kv: "kvs ! i = (key, v)" and a: "arg_form ck (kind_of key k) v"
      by (cases "kvs ! i") simp
    have "(key, v) \<in> set kvs"
      using i kv form nth_mem [of i kvs] by (simp add: params_form_def list_all2_lengthD)
    then have j: "jget key node = v" by (rule found)
    show "f (ps ! i) u = Inr (kvs ! i, u \<union> params_of (JObj [kvs ! i]))"
      unfolding p kv f j params_of_arg [OF a] by (simp add: bindB_ok [where x = v] arg_complete [OF a])
  qed
qed

end
