(* ===== verification/Rule_Sound.thy ===== *)
theory Rule_Sound
  imports Rule_Grammar
begin

text \<open>
  Soundness of the checker of \<open>rule_language/validation.py\<close>: whatever a method of \<open>_Validator\<close> returns is
  a normal form of its kind, and the variables it has marked as used are exactly those the normal form
  refers to.
\<close>

section \<open>What a check returns is a normal form\<close>

lemma across_flag_Inr: "across_flag node path = Inr b \<Longrightarrow> get_or ''across_sessions'' (JBool False) node = JBool b"
  by (simp add: across_flag_def split: json.splits)

lemma one_of_str: "one_of v names \<Longrightarrow> \<exists>s \<in> set names. v = JStr s"
  by (simp add: one_of_def split: json.splits)

lemma operator_in: "operator_of node path allowed kind = Inr op \<Longrightarrow> op \<in> set allowed"
  unfolding operator_of_Inr by (metis filter_eq_ConsD)

lemma indicators_distinct: "distinct (map fst INDICATORS)"
  by code_simp

lemma indicator_entry: "op \<in> set INDICATOR_OPERATORS \<Longrightarrow> (op, the (map_of INDICATORS op)) \<in> set INDICATORS"
  unfolding INDICATOR_OPERATORS_def by (metis in_set_conv_decomp list.set_map map_of_SomeD
      map_of_eq_None_iff option.exhaust_sel)

text \<open>No key of an indicator or of an argument is \<open>param\<close>.\<close>

lemma indicator_key: "op \<in> set INDICATOR_OPERATORS \<Longrightarrow> op \<noteq> ''param''"
  by (auto simp: INDICATOR_OPERATORS_def INDICATORS_def)

lemma params_of_output: "output_form outputs out \<Longrightarrow> params_of (JObj out) = {}"
  by (auto simp: output_form_def split: if_splits)

lemma params_of_flag: "params_of (JObj (flag_kvs b)) = {}"
  by (simp add: flag_kvs_def)

lemma indicator_sound:
  assumes run: "indicator rec ck op spec node path u = Inr (n, u')" and key: "op \<noteq> ''param''"
    and rec: "\<And>p u s u'. rec (jget op node) p u = Inr (s, u') \<Longrightarrow> P s \<and> u' = u \<union> params_of s"
  shows "\<exists>operand across params out. n = JObj ((op, operand) # params @ flag_kvs across @ out)
      \<and> (if takes_series spec then P operand else operand = JObj [])
      \<and> params_form ck (indicator_kind (longest_window ck across)) (is_params spec) params
      \<and> output_form (is_outputs spec) out \<and> u' = u \<union> params_of n"
proof -
  from run obtain across operand params u1 where
    operand: "(if takes_series spec then rec (jget op node) (dot path op) u = Inr (operand, u1)
               else operand = JObj [] \<and> u1 = u)"
    and params: "forB (indicator_param ck node path (longest_window ck across)) (is_params spec) u1 = Inr (params, u')"
    and out: "is_outputs spec = [] \<or> one_of (jget ''output'' node) (is_outputs spec)"
    and n: "n = JObj ((op, operand) # params @ flag_kvs across
              @ (if is_outputs spec \<noteq> [] then [(''output'', jget ''output'' node)] else []))"
    unfolding indicator_def flag_kvs_def
    by (simp only: bindB_Inr liftB_Inr retB_Inr need_Inr split: if_splits) auto
  define os where "os = (if is_outputs spec \<noteq> [] then [(''output'', jget ''output'' node)] else [])"
  have os: "output_form (is_outputs spec) os"
    using out by (auto simp: os_def output_form_def dest: one_of_str)
  have op: "(if takes_series spec then P operand else operand = JObj []) \<and> u1 = u \<union> params_of operand"
    using operand rec by (auto split: if_splits)
  have ps: "params_form ck (indicator_kind (longest_window ck across)) (is_params spec) params
      \<and> u' = u1 \<union> params_of (JObj params)"
    by (rule params_loop_sound [OF params indicator_param_of])
  have "params_of n = params_of operand \<union> params_of (JObj params)"
    using n os key by (simp add: params_of_output params_of_flag os_def)
  with op ps os n show ?thesis unfolding os_def by blast
qed

lemma keyed_list:
  "list_all2 (\<lambda>key kv. fst kv = key \<and> P (snd kv)) ks kvs \<Longrightarrow>
   map fst kvs = ks \<and> (\<forall>kv \<in> set kvs. P (snd kv))"
  by (induction ks kvs rule: list_all2_induct) auto

lemma params_form_keys: "params_form ck kind_of ps kvs \<Longrightarrow> map fst kvs = map fst ps"
  unfolding params_form_def by (induction ps kvs rule: list_all2_induct) auto

lemma usable_Inr:
  "usable_indicator ck v path = Inr (name, spec) \<Longrightarrow>
   v = JStr name \<and> library_indicator (ck_library ck) name = Inr (Some spec)"
  by (auto simp: usable_indicator_def split: json.splits option.splits)

lemma params_of_op: "op \<noteq> ''param'' \<Longrightarrow> params_of (JObj [(op, v)]) = params_of v"
  using params_of_simps(2) [of op v "[]"] by simp

text \<open>The inputs of a library indicator are price fields, so no key among them is \<open>param\<close>.\<close>

lemma library_inputs_params:
  assumes lib: "library_indicator lib name = Inr (Some spec)" and keys: "map fst inputs = filter P (li_inputs spec)"
  shows "(\<Union>kv \<in> set inputs. params_of (snd kv)) = params_of (JObj inputs)"
  unfolding params_of_members [of inputs]
proof (rule SUP_cong [OF refl])
  fix kv assume kv: "kv \<in> set inputs"
  then have "fst kv \<in> set (map fst inputs)" by simp
  then have "fst kv \<in> set PRICE_INPUTS" using library_entry_inputs [OF lib] unfolding keys by auto
  then have "fst kv \<noteq> ''param''" by (auto simp: PRICE_INPUTS_def)
  then show "params_of (snd kv) = params_of (JObj [kv])" using params_of_op [of "fst kv" "snd kv"] by simp
qed

lemma library_sound:
  assumes run: "library_node rec ck node path u = Inr (n, u')" and wf_lib: "library_wf (ck_library ck)"
    and rec: "\<And>k p u s u'. rec (jget k (jget ''inputs'' node)) p u = Inr (s, u') \<Longrightarrow>
        P s \<and> u' = u \<union> params_of s"
  shows "\<exists>name spec params inputs s across.
      n = JObj [(''indicator'', JStr name), (''params'', JObj params), (''inputs'', JObj inputs),
            (''output'', JStr s), (''across_sessions'', JBool across)]
      \<and> library_indicator (ck_library ck) name = Inr (Some spec)
      \<and> params_form ck (library_kind (longest_window ck across)) (li_params spec) params
      \<and> map fst inputs = filter (\<lambda>k. k \<in> fst ` set inputs) (li_inputs spec)
      \<and> (\<forall>kv \<in> set inputs. P (snd kv)) \<and> s \<in> set (li_outputs spec) \<and> u' = u \<union> params_of n"
proof -
  define given where "given = filter (\<lambda>key. has_key key (get_or ''inputs'' (JObj []) node))"
  from run obtain name spec across params0 params inputs u1 out where
    use: "usable_indicator ck (jget ''indicator'' node) path = Inr (name, spec)"
    and params: "forB (library_param ck params0 (dot path ''params'') (longest_window ck across))
        (li_params spec) u = Inr (params, u1)"
    and inputs: "forB (\<lambda>key. bindB (rec (jget key (jget ''inputs'' node)) (dot (dot path ''inputs'') key))
        (\<lambda>s. retB (key, s))) (given (li_inputs spec)) u1 = Inr (inputs, u')"
    and out: "one_of out (li_outputs spec)"
    and n: "n = JObj [(''indicator'', JStr name), (''params'', JObj (dict_of params)),
        (''inputs'', JObj (dict_of inputs)), (''output'', out), (''across_sessions'', JBool across)]"
    unfolding library_node_def given_def Let_def
    by (simp only: bindB_Inr liftB_Inr retB_Inr need_Inr split_paired_Ex prod.case) blast
  from use have lib: "library_indicator (ck_library ck) name = Inr (Some spec)" by (auto dest: usable_Inr)
  from out obtain s where s: "out = JStr s" "s \<in> set (li_outputs spec)" by (auto dest: one_of_str)
  have ps: "params_form ck (library_kind (longest_window ck across)) (li_params spec) params
      \<and> u1 = u \<union> params_of (JObj params)"
    by (rule params_loop_sound [OF params library_param_of])
  have "list_all2 (\<lambda>key kv. fst kv = key \<and> P (snd kv)) (given (li_inputs spec)) inputs
      \<and> u' = u1 \<union> (\<Union>kv \<in> set inputs. params_of (snd kv))"
    by (rule forB_sound [OF inputs]) (auto dest: rec)
  then have keys: "map fst inputs = given (li_inputs spec)" and P: "\<forall>kv \<in> set inputs. P (snd kv)"
    and u': "u' = u1 \<union> (\<Union>kv \<in> set inputs. params_of (snd kv))"
    by (auto dest: keyed_list)
  have "distinct (map fst params)" "distinct (map fst inputs)"
    using library_entry_names [OF lib wf_lib] params_form_keys [OF conjunct1 [OF ps]] keys
    by (simp_all add: given_def)
  then have dicts: "dict_of params = params" "dict_of inputs = inputs" by (simp_all add: dict_of_distinct)
  have "fst ` set inputs = set (given (li_inputs spec))" using keys by (metis list.set_map)
  then have given: "map fst inputs = filter (\<lambda>k. k \<in> fst ` set inputs) (li_inputs spec)"
    using keys by (auto simp: given_def intro: filter_cong)
  note inner = library_inputs_params [OF lib keys [unfolded given_def]]
  have all: "u' = u \<union> params_of n"
    unfolding n dicts s(1) u' inner conjunct2 [OF ps] by (simp add: Un_assoc)
  show ?thesis
    using n [unfolded dicts s(1)] lib conjunct1 [OF ps] given P s(2) all by blast
qed

lemma scalar_sound:
  "scalar_series node path = Inr n \<Longrightarrow> is_scalar node \<Longrightarrow> n = node \<and> series_form ck node"
  by (cases node)
    (auto simp: scalar_series_def is_scalar_def isfinite_float intro: series_form.intros)

lemma atr_sound:
  assumes "atr_series ck v path u = Inr (n, u')"
  shows "atr_form ck n \<and> u' = u \<union> params_of n"
proof -
  from assms obtain across m where m: "count_arg ck (jget ''length'' v) (dot path ''length'') 1
      (longest_window ck across) u = Inr (m, u')"
    and fl: "across_flag v path = Inr across"
    and sm: "has_key ''smoothing'' v \<longrightarrow> one_of (jget ''smoothing'' v) ATR_SMOOTHINGS"
    and n: "n = JObj ([(''length'', m)]
       @ (if has_key ''smoothing'' v then [(''smoothing'', jget ''smoothing'' v)] else [])
       @ (if has_key ''across_sessions'' v then [(''across_sessions'', JBool across)] else []))"
    unfolding atr_series_def by (simp only: bindB_Inr liftB_Inr retB_Inr need_Inr) blast
  define sms where "sms = (if has_key ''smoothing'' v then [(''smoothing'', jget ''smoothing'' v)] else [])"
  define fls where "fls = (if has_key ''across_sessions'' v then [(''across_sessions'', JBool across)] else [])"
  have n': "n = JObj ((''length'', m) # sms @ fls)" by (simp add: n sms_def fls_def)
  have s: "sms = [] \<or> (\<exists>s \<in> set ATR_SMOOTHINGS. sms = [(''smoothing'', JStr s)])"
    using sm one_of_str by (auto simp: sms_def)
  have f: "fls = [] \<and> \<not> across \<or> fls = flag_kvs across"
    using across_flag_Inr [OF fl] by (auto simp: fls_def flag_kvs_def get_or_def)
  from count_sound [OF m] have a: "arg_form ck (Count 1 (longest_window ck across)) m" "u' = u \<union> params_of m"
    by auto
  have "params_of (JObj sms) = {}" "params_of (JObj fls) = {}" using s f by (auto simp: flag_kvs_def)
  with a(2) n' have "u' = u \<union> params_of n" by simp
  with n' s f a(1) show ?thesis unfolding atr_form_def by blast
qed

lemma series_classes:
  "op \<in> set SERIES_OPERATORS \<Longrightarrow>
   op = ''param'' \<or> op \<in> set BINARY_OPERATORS \<or> op \<in> set UNARY_OPERATORS \<or> op = ''prev'' \<or> op \<in> set ROLLING_OPERATORS
   \<or> op = ''atr'' \<or> op \<in> set SESSION_OPERATORS \<or> op = ''value_at'' \<or> op \<in> set RANGE_OPERATORS
   \<or> op \<in> set INDICATOR_OPERATORS \<or> op = ''indicator''"
  by (simp only: SERIES_OPERATORS_def set_append Un_iff list.set insert_iff empty_iff) argo

text \<open>The operators that stand alone: each branch ends in a production of the grammar.\<close>

lemma plain_sound:
  assumes run: "plain_series rec ck op v inside u = Inr (n, u')" and op: "op \<in> set SERIES_OPERATORS"
    and rest: "op \<noteq> ''prev''" "op \<notin> set ROLLING_OPERATORS" "op \<noteq> ''value_at''" "op \<notin> set INDICATOR_OPERATORS"
      "op \<noteq> ''indicator''"
    and rec: "\<And>x p w s w'. x \<in> set (json_parts v) \<Longrightarrow> rec x p w = Inr (s, w') \<Longrightarrow>
        series_form ck s \<and> w' = w \<union> params_of s"
  shows "series_form ck n \<and> u' = u \<union> params_of n"
proof -
  have self: "v \<in> set (json_parts v)" by (simp add: json_parts_def)
  consider (param) "op = ''param''"
    | (binary) "op \<noteq> ''param''" "op \<in> set BINARY_OPERATORS"
    | (unary) "op \<noteq> ''param''" "op \<notin> set BINARY_OPERATORS" "op \<in> set UNARY_OPERATORS"
    | (atr) "op \<noteq> ''param''" "op \<notin> set BINARY_OPERATORS" "op \<notin> set UNARY_OPERATORS" "op = ''atr''"
    | (session) "op \<noteq> ''param''" "op \<notin> set BINARY_OPERATORS" "op \<notin> set UNARY_OPERATORS" "op \<noteq> ''atr''"
        "op \<in> set SESSION_OPERATORS"
    | (range) "op \<noteq> ''param''" "op \<notin> set BINARY_OPERATORS" "op \<notin> set UNARY_OPERATORS" "op \<noteq> ''atr''"
        "op \<notin> set SESSION_OPERATORS" "op \<in> set RANGE_OPERATORS"
    using series_classes [OF op] rest by argo
  then show ?thesis
  proof cases
    case param
    with run obtain name where "v = JStr name" "declared ck Number name" "u' = insert name u"
      "n = JObj [(''param'', v)]"
      by (auto simp: plain_series_def param_Inr)
    then show ?thesis by (simp add: series_form.param)
  next
    case binary
    with run obtain a b s t w where ab: "check_pair v inside = Inr (a, b)"
      and st: "rec a (nth_path inside 0) u = Inr (s, w)" "rec b (nth_path inside 1) w = Inr (t, u')"
      and n: "n = JObj [(op, JList [s, t])]"
      by (auto simp: plain_series_def)
    from check_pair_parts [OF ab] rec st have "series_form ck s" "series_form ck t" "u' = u \<union> params_of s \<union> params_of t"
      by blast+
    with binary n show ?thesis by (auto intro: series_form.binary)
  next
    case unary
    with run obtain s where "rec v inside u = Inr (s, u')" "n = JObj [(op, s)]"
      by (auto simp: plain_series_def)
    with rec [OF self] unary show ?thesis by (auto intro: series_form.unary)
  next
    case atr
    with run obtain a where "atr_series ck v inside u = Inr (a, u')" "n = JObj [(''atr'', a)]"
      by (auto simp: plain_series_def)
    with atr_sound show ?thesis by (auto intro: series_form.atr)
  next
    case session
    with run show ?thesis by (auto simp: plain_series_def intro: series_form.session)
  next
    case range
    with run show ?thesis
      by (auto simp: plain_series_def clock_of_Inr window_form_def clock_form_scalar intro!: series_form.range)
  qed
qed

theorem series_sound:
  assumes "series ck node path u = Inr (n, u')" and lib: "library_wf (ck_library ck)"
  shows "series_form ck n \<and> u' = u \<union> params_of n"
  using assms(1)
proof (induction "size node" arbitrary: node path u n u' rule: less_induct)
  case less
  show ?case
  proof (cases "is_scalar node")
    case True
    with less.prems have "scalar_series node path = Inr n" "u' = u"
      by (simp_all add: series.simps [of ck node path])
    with True scalar_sound [of node path n ck] params_of_scalar [of node] show ?thesis by auto
  next
    case ns: False
    from less.prems ns obtain op where op: "operator_of node path SERIES_OPERATORS ''series'' = Inr op"
      by (auto simp: series.simps [of ck node path])
    then have opB: "liftB (operator_of node path SERIES_OPERATORS ''series'') u = Inr (op, u)" by simp
    note D = less.prems [unfolded series.simps [of ck node path] if_not_P [OF ns]
      bindB_ok [where m = "liftB (operator_of node path SERIES_OPERATORS ''series'')" and d = u, OF opB] Let_def]
    have sub: "series_form ck s \<and> v' = v \<union> params_of s" if "series ck (jget k node) p v = Inr (s, v')" for k p v s v'
      using less.hyps [OF size_jget_operator [OF op] that] .
    consider (prev) "op = ''prev''"
      | (rolling) "op \<noteq> ''prev''" "op \<in> set ROLLING_OPERATORS"
      | (value_at) "op \<noteq> ''prev''" "op \<notin> set ROLLING_OPERATORS" "op = ''value_at''"
      | (indicator) "op \<noteq> ''prev''" "op \<notin> set ROLLING_OPERATORS" "op \<noteq> ''value_at''" "op \<in> set INDICATOR_OPERATORS"
      | (library) "op \<noteq> ''prev''" "op \<notin> set ROLLING_OPERATORS" "op \<noteq> ''value_at''" "op \<notin> set INDICATOR_OPERATORS"
          "op = ''indicator''"
      | (plain) "op \<noteq> ''prev''" "op \<notin> set ROLLING_OPERATORS" "op \<noteq> ''value_at''" "op \<notin> set INDICATOR_OPERATORS"
          "op \<noteq> ''indicator''"
      by blast
    then show ?thesis
    proof cases
      case prev
      from D [unfolded if_P [OF prev]] obtain s u1 m where
        s: "series ck (jget op node) (dot path op) u = Inr (s, u1)" and
        m: "count_arg ck (jget ''bars'' node) (dot path ''bars'') 1 (ck_bars ck - 1) u1 = Inr (m, u')" and
        n: "n = JObj [(''prev'', s), (''bars'', m)]"
        by (simp only: bindB_Inr liftB_Inr retB_Inr) blast
      from sub [OF s] count_sound [OF m] show ?thesis by (auto simp: n intro: series_form.prev)
    next
      case rolling
      from D [unfolded if_not_P [OF rolling(1)] if_P [OF rolling(2)]] obtain across m u1 s where
        m: "count_arg ck (jget ''length'' node) (dot path ''length'') (if op = ''std'' then 2 else 1)
           (longest_window ck across) u = Inr (m, u1)" and
        s: "series ck (jget op node) (dot path op) u1 = Inr (s, u')" and
        n: "n = JObj [(op, s), (''length'', m), (''across_sessions'', JBool across)]"
        by (simp only: bindB_Inr liftB_Inr retB_Inr) blast
      have "op \<noteq> ''param''" using rolling by (auto simp: ROLLING_OPERATORS_def)
      with sub [OF s] count_sound [OF m] rolling show ?thesis by (simp add: n series_form.rolling Un_ac)
    next
      case value_at
      from D [unfolded if_not_P [OF value_at(1)] if_not_P [OF value_at(2)] if_P [OF value_at(3)]] obtain t s where
        t: "clock_of (jget ''time'' node) (dot path ''time'') (ck_first_end ck) SESSION_CLOSE_MINUTES (ck_step ck) = Inr t" and
        s: "series ck (jget op node) (dot path op) u = Inr (s, u')" and
        n: "n = JObj [(''value_at'', s), (''time'', t)]"
        by (simp only: bindB_Inr liftB_Inr retB_Inr) blast
      from t have "clock_form (ck_first_end ck) SESSION_CLOSE_MINUTES (ck_step ck) t" by (auto simp: clock_of_Inr)
      with sub [OF s] clock_form_scalar [OF this] show ?thesis by (simp add: n series_form.value_at)
    next
      case indicator
      from D [unfolded if_not_P [OF indicator(1)] if_not_P [OF indicator(2)] if_not_P [OF indicator(3)]
          if_P [OF indicator(4)]]
      show ?thesis
        using indicator_sound [OF _ indicator_key [OF indicator(4)], where rec = "series ck" and P = "series_form ck"]
          sub series_form.indicator [OF indicator_entry [OF indicator(4)]] by blast
    next
      case library
      from D [unfolded if_not_P [OF library(1)] if_not_P [OF library(2)] if_not_P [OF library(3)]
          if_not_P [OF library(4)] if_P [OF library(5)]]
      show ?thesis
        using library_sound [OF _ lib, where rec = "series ck" and P = "series_form ck"]
          less.hyps [OF size_inputs_operator [OF op]] series_form.library by blast
    next
      case plain
      from D [unfolded if_not_P [OF plain(1)] if_not_P [OF plain(2)] if_not_P [OF plain(3)]
          if_not_P [OF plain(4)] if_not_P [OF plain(5)]]
      have "plain_series (series ck) ck op (jget op node) (dot path op) u = Inr (n, u')" by auto
      then show ?thesis
        by (rule plain_sound [OF _ operator_in [OF op] plain less.hyps [OF size_part_operator [OF op]]])
    qed
  qed
qed

section \<open>Conditions\<close>

lemma condition_classes:
  "op \<in> set CONDITION_OPERATORS \<Longrightarrow>
   op \<in> set COMPARISON_OPERATORS \<or> op \<in> set CROSS_OPERATORS \<or> op = ''all'' \<or> op = ''any'' \<or> op = ''not''
   \<or> op = ''time_is'' \<or> op = ''time_between'' \<or> op = ''every_minutes''"
  by (simp only: CONDITION_OPERATORS_def set_append Un_iff list.set insert_iff empty_iff) argo

lemma condition_key: "op \<in> set CONDITION_OPERATORS \<Longrightarrow> op \<noteq> ''param''"
  by (auto simp: CONDITION_OPERATORS_def COMPARISON_OPERATORS_def CROSS_OPERATORS_def)

lemma conditions_of_Inr: "conditions_of v p = Inr xs \<Longrightarrow> v = JList xs \<and> xs \<noteq> []"
  by (auto simp: conditions_of_def split: json.splits list.splits)

lemma time_window_Inr:
  "time_window ck v p = Inr w \<Longrightarrow>
   \<exists>a b. w = JList [a, b] \<and> v = w \<and> clock_form (ck_first_end ck) SESSION_CLOSE_MINUTES (ck_step ck) a
     \<and> clock_form (ck_first_end ck) SESSION_CLOSE_MINUTES (ck_step ck) b \<and> window_form (\<le>) a b"
  by (auto simp: time_window_def check_pair_def clock_of_Inr window_form_def split: json.splits list.splits)

theorem condition_sound:
  assumes "condition ck node path u = Inr (n, u')" and lib: "library_wf (ck_library ck)"
  shows "condition_form ck n \<and> u' = u \<union> params_of n"
  using assms(1)
proof (induction "size node" arbitrary: node path u n u' rule: less_induct)
  case less
  from less.prems obtain op where op: "operator_of node path CONDITION_OPERATORS ''condition'' = Inr op"
    by (auto simp: condition.simps [of ck node path])
  then have opB: "liftB (operator_of node path CONDITION_OPERATORS ''condition'') u = Inr (op, u)" by simp
  note D = less.prems [unfolded condition.simps [of ck node path]
    bindB_ok [where m = "liftB (operator_of node path CONDITION_OPERATORS ''condition'')" and d = u, OF opB] Let_def]
  note key = params_of_op [OF condition_key [OF operator_in [OF op]]]
  consider (compare) "op \<in> set COMPARISON_OPERATORS \<or> op \<in> set CROSS_OPERATORS"
    | (junction) "\<not> (op \<in> set COMPARISON_OPERATORS \<or> op \<in> set CROSS_OPERATORS)" "op = ''all'' \<or> op = ''any''"
    | (rest) "\<not> (op \<in> set COMPARISON_OPERATORS \<or> op \<in> set CROSS_OPERATORS)" "\<not> (op = ''all'' \<or> op = ''any'')"
    by argo
  then show ?case
  proof cases
    case compare
    from D [unfolded if_P [OF compare]] obtain a b s t w where
      "series ck a (nth_path (dot path op) 0) u = Inr (s, w)" "series ck b (nth_path (dot path op) 1) w = Inr (t, u')"
      and n: "n = JObj [(op, JList [s, t])]"
      by auto
    then have "series_form ck s" "series_form ck t" "u' = u \<union> params_of s \<union> params_of t"
      using series_sound [OF _ lib] by blast+
    with compare n show ?thesis by (simp add: key condition_form.compare Un_assoc)
  next
    case junction
    from D [unfolded if_not_P [OF junction(1)] if_P [OF junction(2)]] obtain items cs where
      items: "conditions_of (jget op node) (dot path op) = Inr items"
      and cs: "forB (\<lambda>(i, item). condition ck item (nth_path (dot path op) i)) (enumerate 0 items) u = Inr (cs, u')"
      and n: "n = JObj [(op, JList cs)]"
      by auto
    have "list_all2 (\<lambda>_. condition_form ck) (enumerate 0 items) cs \<and> u' = u \<union> (\<Union>c \<in> set cs. params_of c)"
      by (rule forB_sound [OF cs])
        (auto dest!: in_set_enumerate less.hyps [OF conditions_of_size [OF op items]])
    then have "\<forall>c \<in> set cs. condition_form ck c" "cs \<noteq> []" "u' = u \<union> params_of (JList cs)"
      using conditions_of_Inr [OF items] by (auto dest: list_all2_lengthD simp: list_all2_conv_all_nth in_set_conv_nth)
    with junction n show ?thesis by (simp add: key condition_form.junction)
  next
    case rest
    note D = D [unfolded if_not_P [OF rest(1)] if_not_P [OF rest(2)]]
    consider "op = ''not''" | "op = ''every_minutes''" | "op = ''time_is''" | "op = ''time_between''"
      using condition_classes [OF operator_in [OF op]] rest by argo
    then show ?thesis
    proof cases
      case 1
      with D obtain c where "condition ck (jget op node) (dot path op) u = Inr (c, u')" "n = JObj [(''not'', c)]"
        by auto
      with less.hyps [OF size_jget_operator [OF op]] show ?thesis by (auto intro: condition_form.negation)
    next
      case 2
      with D show ?thesis
        by (auto simp: is_count_def split: json.splits intro: condition_form.every_minutes)
    next
      case 3
      with D show ?thesis
        by (auto simp: clock_of_Inr clock_form_scalar intro: condition_form.time_is)
    next
      case 4
      with D obtain w where "time_window ck (jget op node) (dot path op) = Inr w" "u' = u"
        "n = JObj [(''time_between'', w)]"
        by auto
      then show ?thesis
        by (auto dest!: time_window_Inr simp: clock_form_scalar intro: condition_form.time_between)
    qed
  qed
qed

section \<open>Sides and exits\<close>

lemma side_sound:
  assumes "side ck node path u = Inr (n, u')" and lib: "library_wf (ck_library ck)"
  shows "side_form ck n \<and> u' = u \<union> params_of n"
proof (cases node)
  case (JStr s)
  with assms(1) show ?thesis by (auto simp: side_def Let_def intro: side_form.fixed split: if_splits)
next
  case (JObj kvs)
  with assms(1) obtain op v s where op: "op \<in> set SIDE_OPERATORS" and s: "series ck v (dot path op) u = Inr (s, u')"
    and n: "n = JObj [(op, s)]"
    by (auto simp: side_def Let_def split: list.splits prod.splits if_splits)
  from op have "op \<noteq> ''param''" by (auto simp: SIDE_OPERATORS_def)
  with series_sound [OF s lib] op n show ?thesis by (auto simp: params_of_op intro: side_form.signed)
qed (use assms(1) in \<open>simp_all add: side_def Let_def\<close>)

lemma stop_kinds: "map_of STOP_ONLY_KINDS kind = Some stops \<longleftrightarrow>
   (kind = ''level'' \<or> kind = ''signal_bar'') \<and> stops = [''stop_loss'']
   \<or> kind = ''r_multiple'' \<and> stops = [''take_profit'', ''trail_after'']"
  by (auto simp: STOP_ONLY_KINDS_def)

lemma distance_kinds:
  "kind \<in> set (DISTANCE_KINDS @ map fst STOP_ONLY_KINDS) \<Longrightarrow> map_of STOP_ONLY_KINDS kind = None \<Longrightarrow>
   kind = ''percent'' \<or> kind = ''points'' \<or> kind = ''ticks'' \<or> kind = ''atr''"
  by (simp add: DISTANCE_KINDS_def map_of_eq_None_iff)

lemma distance_sound:
  assumes run: "distance ck node path stop u = Inr (n, u')" and lib: "library_wf (ck_library ck)"
  shows "distance_form ck stop n \<and> u' = u \<union> params_of n"
proof -
  let ?op = "operator_of node path (DISTANCE_KINDS @ map fst STOP_ONLY_KINDS) ''distance''"
  from run obtain kind where op: "?op = Inr kind" by (auto simp: distance_def)
  then have opB: "liftB ?op u = Inr (kind, u)" by simp
  note D = run [unfolded distance_def bindB_ok [where m = "liftB ?op" and d = u, OF opB] Let_def]
  show ?thesis
  proof (cases "map_of STOP_ONLY_KINDS kind")
    case (Some stops)
    from stop_kinds [THEN iffD1, OF Some] consider
        (level) "kind = ''level''" "stops = [''stop_loss'']"
      | (bar) "kind = ''signal_bar''" "stops = [''stop_loss'']"
      | (multiple) "kind = ''r_multiple''" "stops = [''take_profit'', ''trail_after'']"
      by argo
    then show ?thesis
    proof cases
      case level
      with D Some obtain s where "stop = ''stop_loss''" "series ck (jget kind node) (dot path kind) u = Inr (s, u')"
        "n = JObj [(''level'', s)]"
        by auto
      with series_sound [OF _ lib] show ?thesis by (fastforce intro: distance_form.level)
    next
      case bar
      with D Some show ?thesis by (auto intro: distance_form.signal_bar)
    next
      case multiple
      with D Some obtain v where "stop = ''take_profit'' \<or> stop = ''trail_after''"
        and v: "amount_arg ck (jget kind node) (dot path kind) None u = Inr (v, u')" and n: "n = JObj [(''r_multiple'', v)]"
        by auto
      with amount_sound [OF v] show ?thesis by (simp add: distance_form.r_multiple)
    qed
  next
    case None
    from distance_kinds [OF operator_in [OF op] None] consider (atr) "kind = ''atr''" | (percent) "kind = ''percent''"
      | (other) "kind = ''points'' \<or> kind = ''ticks''"
      by argo
    then show ?thesis
    proof cases
      case atr
      with D None obtain w m u1 k where
        "count_arg ck (jget ''length'' w) (dot (dot path kind) ''length'') 1 (ck_bars ck) u = Inr (k, u1)"
        "amount_arg ck (jget ''multiple'' w) (dot (dot path kind) ''multiple'') None u1 = Inr (m, u')"
        "n = JObj [(''atr'', JObj [(''length'', k), (''multiple'', m)])]"
        by auto
      with count_sound amount_sound show ?thesis by (fastforce intro: distance_form.atr)
    next
      case percent
      with D None obtain v where v: "amount_arg ck (jget kind node) (dot path kind) (Some 100) u = Inr (v, u')"
        and n: "n = JObj [(''percent'', v)]"
        by auto
      with amount_sound [OF v] show ?thesis by (simp add: distance_form.percent)
    next
      case other
      with D None obtain v where v: "amount_arg ck (jget kind node) (dot path kind) None u = Inr (v, u')"
        and n: "n = JObj [(kind, v)]"
        by auto
      have "kind \<noteq> ''param''" using other by auto
      with amount_sound [OF v] other show ?thesis by (simp add: n params_of_op distance_form.plain)
    qed
  qed
qed

lemma entry_sound:
  assumes "entry key node m u = Inr (kvs, u')" and "key \<noteq> ''param''"
    and "\<And>u v u'. m u = Inr (v, u') \<Longrightarrow> P v \<and> u' = u \<union> params_of v"
  shows "entry_form key P kvs \<and> u' = u \<union> params_of (JObj kvs)"
  using assms(1,2) by (auto simp: entry_def entry_form_def params_of_op dest: assms(3) split: if_splits)

text \<open>The entries found under a list of keys.\<close>

lemma params_of_Cons_member: "params_of (JObj (kv # kvs)) = params_of (JObj [kv]) \<union> params_of (JObj kvs)"
  using params_of_simps(4) [of "[kv]" kvs] by simp

lemma entries_sound:
  assumes run: "forB (\<lambda>key. entry key node (f key)) keys u = Inr (kvss, u')"
    and f: "\<And>key w v w'. key \<in> set keys \<Longrightarrow> f key w = Inr (v, w') \<Longrightarrow> P key v \<and> w' = w \<union> params_of v"
    and keys: "distinct keys" "''param'' \<notin> set keys"
  shows "entries_form keys P (concat kvss) \<and> u' = u \<union> params_of (JObj (concat kvss))"
proof -
  have "list_all2 (\<lambda>key kvs. entry_form key (P key) kvs) keys kvss
      \<and> u' = u \<union> (\<Union>kvs \<in> set kvss. params_of (JObj kvs))"
  proof (rule forB_sound [OF run])
    fix key w kvs w' assume k: "key \<in> set keys" and r: "entry key node (f key) w = Inr (kvs, w')"
    show "entry_form key (P key) kvs \<and> w' = w \<union> params_of (JObj kvs)"
      by (rule entry_sound [OF r]) (use k keys f in auto)
  qed
  moreover have "list_all2 (\<lambda>key kvs. entry_form key (P key) kvs) ks xss \<Longrightarrow> distinct ks \<Longrightarrow>
      entries_form ks P (concat xss) \<and> params_of (JObj (concat xss)) = (\<Union>kvs \<in> set xss. params_of (JObj kvs))
      \<and> fst ` set (concat xss) \<subseteq> set ks" for ks xss
  proof (induction ks xss rule: list_all2_induct)
    case (Cons k ks xs xss)
    then have "filter (\<lambda>j. j \<in> fst ` set xs \<or> j \<in> fst ` set (concat xss)) ks = filter (\<lambda>j. j \<in> fst ` set (concat xss)) ks"
      by (intro filter_cong refl) (auto simp: entry_form_def)
    moreover have "k \<notin> fst ` set (concat xss)" using Cons by (meson distinct.simps(2) subsetD)
    ultimately show ?case using Cons unfolding entry_form_def
      by (elim disjE exE conjE) (simp_all add: entries_form_def image_Un subset_insertI2 params_of_Cons_member [of _ "concat _"])
  qed (simp add: entries_form_def)
  ultimately show ?thesis using keys(1) by blast
qed

lemma two_keys: "set xs \<subseteq> {a, b} \<Longrightarrow> xs \<noteq> [] \<Longrightarrow> set xs = {a} \<or> set xs = {b} \<or> set xs = {a, b}"
  by (cases xs) auto

lemma exit_when_sound:
  assumes run: "exit_when ck node path u = Inr (n, u')" and lib: "library_wf (ck_library ck)"
  shows "sides_form ck n \<and> u' = u \<union> params_of n"
proof -
  from run obtain sides where keys: "set (obj_keys node) \<subseteq> {''long'', ''short''}" "obj_keys node \<noteq> []"
    and sides: "forB (\<lambda>key. bindB (condition ck (jget key node) (dot path key)) (\<lambda>c. retB (key, c)))
        (sort (remdups (obj_keys node))) u = Inr (sides, u')" and n: "n = JObj sides"
    unfolding exit_when_def by (simp only: bindB_Inr liftB_Inr retB_Inr need_Inr check_object_Inr list.set) blast
  define ks where "ks = sort (remdups (obj_keys node))"
  have "list_all2 (\<lambda>key kv. fst kv = key \<and> condition_form ck (snd kv)) ks sides
      \<and> u' = u \<union> (\<Union>kv \<in> set sides. params_of (snd kv))"
    unfolding ks_def by (rule forB_sound [OF sides]) (auto dest: condition_sound [OF _ lib])
  then have fs: "map fst sides = ks" "\<forall>kv \<in> set sides. condition_form ck (snd kv)"
    and u': "u' = u \<union> (\<Union>kv \<in> set sides. params_of (snd kv))"
    by (auto dest: keyed_list)
  have "ks = [''long''] \<or> ks = [''short''] \<or> ks = [''long'', ''short'']"
  proof -
    have "ks = sorted_list_of_set (set (obj_keys node))" by (simp add: ks_def sorted_list_of_set_sort_remdups)
    moreover note two_keys [OF keys]
    moreover have "sorted_list_of_set {''long''} = [''long'']" "sorted_list_of_set {''short''} = [''short'']"
      "sorted_list_of_set {''long'', ''short''} = [''long'', ''short'']"
      by code_simp+
    ultimately show ?thesis by metis
  qed
  then have ks: "entries_form [''long'', ''short''] (\<lambda>_. condition_form ck) sides" "sides \<noteq> []"
      "\<forall>kv \<in> set sides. fst kv \<noteq> ''param''"
    using fs by (auto simp: entries_form_def map_eq_Cons_conv)
  have "params_of n = (\<Union>kv \<in> set sides. params_of (snd kv))"
    unfolding n params_of_members [of sides] using ks(3)
    by (intro SUP_cong refl) (metis params_of_op prod.collapse)
  with ks n u' show ?thesis unfolding sides_form_def by blast
qed

lemma has_key_append: "has_key k (JObj (kvs @ kvs')) \<longleftrightarrow> k \<in> fst ` set kvs \<or> has_key k (JObj kvs')"
  by (auto simp: has_key_def)

lemma get_or_skip: "k \<notin> fst ` set kvs \<Longrightarrow> get_or k d (JObj (kvs @ kvs')) = get_or k d (JObj kvs')"
proof -
  assume "k \<notin> fst ` set kvs"
  then have "map_of kvs k = None" "has_key k (JObj (kvs @ kvs')) = has_key k (JObj kvs')"
    by (simp_all add: map_of_eq_None_iff has_key_append)
  then show ?thesis by (simp add: get_or_def map_add_def split: option.splits)
qed

lemma entry_form_keys: "entry_form key P kvs \<Longrightarrow> fst ` set kvs \<subseteq> {key}"
  by (auto simp: entry_form_def)

text \<open>The links between the stops, read off the whole result or off the stops alone.\<close>

lemma stops_linked_in:
  assumes "fst ` set pre \<inter> set STOP_KEYS = {}"
  shows "(\<forall>key \<in> {''take_profit'', ''trail_after''}.
        has_key ''r_multiple'' (get_or key (JObj []) (JObj (pre @ stops))) \<longrightarrow> has_key ''stop_loss'' (JObj (pre @ stops)))
     \<and> (has_key ''trail_after'' (JObj (pre @ stops)) \<longrightarrow> has_key ''trailing_stop'' (JObj (pre @ stops)))
     \<longleftrightarrow> stops_linked stops"
proof -
  have skip: "has_key k (JObj (pre @ stops)) = has_key k (JObj stops)
      \<and> get_or k d (JObj (pre @ stops)) = get_or k d (JObj stops)" if "k \<in> set STOP_KEYS" for k d
  proof -
    from that assms have "k \<notin> fst ` set pre" by blast
    then show ?thesis by (simp add: has_key_append get_or_skip)
  qed
  have keys: "''stop_loss'' \<in> set STOP_KEYS" "''take_profit'' \<in> set STOP_KEYS" "''trailing_stop'' \<in> set STOP_KEYS"
    "''trail_after'' \<in> set STOP_KEYS"
    by (simp_all add: STOP_KEYS_def)
  have both: "(\<forall>k \<in> {a, b}. P k) \<longleftrightarrow> P a \<and> P b" for a b :: string and P by simp
  show ?thesis
    by (simp only: both stops_linked_def conjunct1 [OF skip [OF keys(1)]]
      conjunct1 [OF skip [OF keys(3)]] conjunct1 [OF skip [OF keys(4)]] conjunct2 [OF skip [OF keys(2)]]
      conjunct2 [OF skip [OF keys(4)]])
qed

lemma stop_keys_fresh: "fst ` set ([(''after_bars'', a), (''at_time'', b), (''on_opposite_signal'', c)]) \<inter> set STOP_KEYS = {}"
  by (simp add: STOP_KEYS_def)

theorem exit_sound:
  assumes run: "exit_rules ck node path flat u = Inr (n, u')" and lib: "library_wf (ck_library ck)"
  shows "exit_form ck flat n \<and> u' = u \<union> params_of n"
proof -
  from run obtain ab at_t opp stops whens u1 u2 u3 where
    ab: "entry ''after_bars'' node (count_arg ck (jget ''after_bars'' node) (dot path ''after_bars'') 1
        (if flat = None then MAX_WINDOW_BARS else ck_bars ck - 1)) u = Inr (ab, u1)"
    and at_t: "entry ''at_time'' node (liftB (clock_of (jget ''at_time'' node) (dot path ''at_time'')
        (ck_first_end ck + ck_step ck) (case flat of None \<Rightarrow> ck_last_exit ck | Some m \<Rightarrow> m) (ck_step ck))) u1
        = Inr (at_t, u2)"
    and opp: "opp = JBool True \<or> opp = JBool False"
    and stops: "forB (\<lambda>key. entry key node (distance ck (jget key node) (dot path key) key)) STOP_KEYS u2 = Inr (stops, u3)"
    and r: "\<forall>key \<in> set [''take_profit'', ''trail_after'']. has_key ''r_multiple'' (get_or key (JObj []) (JObj (ab @ at_t
        @ [(''on_opposite_signal'', opp)] @ concat stops))) \<longrightarrow> has_key ''stop_loss'' (JObj (ab @ at_t
        @ [(''on_opposite_signal'', opp)] @ concat stops))"
    and trail: "has_key ''trail_after'' (JObj (ab @ at_t @ [(''on_opposite_signal'', opp)] @ concat stops)) \<longrightarrow>
        has_key ''trailing_stop'' (JObj (ab @ at_t @ [(''on_opposite_signal'', opp)] @ concat stops))"
    and whens: "entry ''exit_when'' node (exit_when ck (jget ''exit_when'' node) (dot path ''exit_when'')) u3
        = Inr (whens, u')"
    and n: "n = JObj (ab @ at_t @ [(''on_opposite_signal'', opp)] @ concat stops @ whens)"
    unfolding exit_rules_def Let_def
    by (simp only: bindB_Inr liftB_Inr retB_Inr need_Inr mapR_need) blast
  have ab_form: "entry_form ''after_bars'' (arg_form ck (Count 1 (if flat = None then MAX_WINDOW_BARS else ck_bars ck - 1)))
      ab \<and> u1 = u \<union> params_of (JObj ab)"
    by (rule entry_sound [OF ab]) (simp_all add: count_sound)
  have at_form: "entry_form ''at_time'' (clock_form (ck_first_end ck + ck_step ck)
      (case flat of None \<Rightarrow> ck_last_exit ck | Some m \<Rightarrow> m) (ck_step ck)) at_t \<and> u2 = u1 \<union> params_of (JObj at_t)"
    by (rule entry_sound [OF at_t]) (auto simp: clock_of_Inr clock_form_scalar)
  have stops_form: "entries_form STOP_KEYS (distance_form ck) (concat stops) \<and> u3 = u2 \<union> params_of (JObj (concat stops))"
    by (rule entries_sound [OF stops]) (auto simp: STOP_KEYS_def dest: distance_sound [OF _ lib])
  have when_form: "entry_form ''exit_when'' (sides_form ck) whens \<and> u' = u3 \<union> params_of (JObj whens)"
    by (rule entry_sound [OF whens]) (auto dest: exit_when_sound [OF _ lib])
  have "fst ` set (ab @ at_t @ [(''on_opposite_signal'', opp)]) \<inter> set STOP_KEYS = {}"
    using entry_form_keys [OF conjunct1 [OF ab_form]] entry_form_keys [OF conjunct1 [OF at_form]] stop_keys_fresh
    by (auto simp: STOP_KEYS_def)
  from stops_linked_in [OF this, of "concat stops"] r trail have linked: "stops_linked (concat stops)"
    by (simp add: set_ConsD)
  from opp obtain b where b: "opp = JBool b" by blast
  have "u' = u \<union> params_of n"
    using ab_form at_form stops_form when_form by (simp add: n b Un_assoc)
  with n ab_form at_form stops_form when_form linked b show ?thesis unfolding exit_form_def by blast
qed

section \<open>Specs\<close>

lemma set_bar_same: "set_bar bar ck0 = Inr ck \<Longrightarrow> ck_variables ck = ck_variables ck0 \<and> ck_library ck = ck_library ck0"
  by (auto simp: set_bar_def)

lemma signal_sound:
  assumes "signal ck v path u = Inr (n, u')" and lib: "library_wf (ck_library ck)"
  shows "signal_form ck n \<and> u' = u \<union> params_of n"
proof -
  from assms(1) obtain c s w where c: "condition ck (jget ''when'' v) (dot path ''when'') u = Inr (c, w)"
    and s: "side ck (jget ''side'' v) (dot path ''side'') w = Inr (s, u')"
    and n: "n = JObj [(''when'', c), (''side'', s)]"
    unfolding signal_def by (simp only: bindB_Inr liftB_Inr retB_Inr) blast
  from condition_sound [OF c lib] side_sound [OF s lib] n show ?thesis
    by (auto simp: signal_form_def)
qed

lemma check_bar_Inr: "check_bar v path = Inr bar \<longleftrightarrow> v = JStr bar \<and> bar \<in> fst ` set BAR_MINUTES"
  by (auto simp: check_bar_def split: json.splits)

lemma signal_list_Inr: "signal_list v path = Inr xs \<longleftrightarrow> v = JList xs \<and> xs \<noteq> []"
  by (auto simp: signal_list_def neq_Nil_conv split: json.splits list.splits)

lemma flat_clock_Inr:
  "entry_form ''flat_at'' (clock_form a b step) flat_at \<Longrightarrow> flat_clock flat_at = Inr (flat_minutes flat_at)"
  by (auto simp: flat_clock_def entry_form_def flat_minutes_def clock_form_def clock_minutes_def split: option.splits)

lemma header_sound:
  assumes "spec_header ck0 spec = Inr (bar, ck, flat_at)"
  shows "bar \<in> fst ` set BAR_MINUTES" "set_bar bar ck0 = Inr ck" "is_amount (jget ''tick_size'' spec) None = Inr True"
    "entry_form ''flat_at'' (clock_form (ck_first_end ck + ck_step ck) (ck_last_exit ck) (ck_step ck)) flat_at"
  using assms unfolding spec_header_def Let_def
  by (auto simp: check_bar_Inr entry_form_def clock_of_Inr split: if_splits)

lemma amount_scalar: "is_amount v m = Inr True \<Longrightarrow> params_of v = {}"
  using literal_not_obj [of "Amount m" v] by (simp add: literal_fits_def value_fits_def)

lemma count_scalar: "is_count v a b \<Longrightarrow> params_of v = {}"
  by (simp add: is_count_def split: json.splits)

lemma skip_days_scalar: "skip_days_ok v \<Longrightarrow> params_of v = {}"
  by (cases v) (auto simp: skip_days_ok_def dest!: bspec one_of_str)

lemma session_scalar: "params_of (JObj (map (\<lambda>(k, v). (k, JStr v)) SUPPORTED_SESSION)) = {}"
  by (simp add: SUPPORTED_SESSION_def)

theorem spec_sound:
  assumes run: "rule_spec ck0 spec u = Inr (n, u')" and lib: "library_wf (ck_library ck0)"
  shows "spec_form ck0 n \<and> u' = u \<union> params_of n"
proof -
  let ?p = "''rule_spec''"
  let ?trades = "jget ''max_trades_per_session'' spec" and ?skip = "jget ''skip_days'' spec"
  from run obtain bar ck flat_at signals sigs fm ex u2 where
    head: "spec_header ck0 spec = Inr (bar, ck, flat_at)"
    and signals: "signal_list (jget ''signals'' spec) (dot ?p ''signals'') = Inr signals"
    and sigs: "forB (\<lambda>(i, v). signal ck v (nth_path (dot ?p ''signals'') i)) (enumerate 0 signals) u = Inr (sigs, u2)"
    and trades: "is_count ?trades 1 (ck_bars ck)" and skip: "has_key ''skip_days'' spec \<longrightarrow> skip_days_ok ?skip"
    and fm: "flat_clock flat_at = Inr fm"
    and ex: "exit_rules ck (get_or ''exit'' (JObj []) spec) (dot ?p ''exit'') fm u2 = Inr (ex, u')"
    and n: "n = JObj ([(''language'', JStr RULE_LANGUAGE), (''bar'', JStr bar),
       (''tick_size'', jget ''tick_size'' spec),
       (''session'', JObj (map (\<lambda>(k, v). (k, JStr v)) SUPPORTED_SESSION)), (''signals'', JList sigs),
       (''exit'', ex), (''max_trades_per_session'', ?trades)] @ flat_at
       @ (if has_key ''skip_days'' spec \<and> ?skip \<noteq> JList [] then [(''skip_days'', ?skip)] else []))"
    unfolding rule_spec_def Let_def
    by (simp only: bindB_Inr liftB_Inr retB_Inr need_Inr split_paired_Ex prod.case) blast
  define skips where "skips = (if has_key ''skip_days'' spec \<and> jget ''skip_days'' spec \<noteq> JList []
      then [(''skip_days'', jget ''skip_days'' spec)] else [])"
  note bar = header_sound [OF head]
  from set_bar_same [OF bar(2)] lib have lib': "library_wf (ck_library ck)" by simp
  have none: "params_of (JObj flat_at) = {}" using bar(4) by (auto simp: entry_form_def clock_form_scalar)
  have "list_all2 (\<lambda>_. signal_form ck) (enumerate 0 signals) sigs \<and> u2 = u \<union> (\<Union>s \<in> set sigs. params_of s)"
    by (rule forB_sound [OF sigs]) (auto dest: signal_sound [OF _ lib'])
  then have sig_form: "\<forall>s \<in> set sigs. signal_form ck s" "sigs \<noteq> []" "u2 = u \<union> params_of (JList sigs)"
    using signals by (auto simp: signal_list_Inr list_all2_conv_all_nth in_set_conv_nth)
  have fm': "fm = flat_minutes flat_at" using fm flat_clock_Inr [OF bar(4)] by simp
  from exit_sound [OF ex lib'] have ex_form: "exit_form ck (flat_minutes flat_at) ex" "u' = u2 \<union> params_of ex"
    by (simp_all add: fm')
  have skips: "entry_form ''skip_days'' (\<lambda>v. skip_days_ok v \<and> v \<noteq> JList []) skips" "params_of (JObj skips) = {}"
    using skip skip_days_scalar by (auto simp: entry_form_def skips_def)
  have "u' = u \<union> params_of n"
    unfolding n skips_def [symmetric]
    using none sig_form(3) ex_form(2) skips(2) bar(3) trades
    by (simp add: session_scalar amount_scalar count_scalar Un_ac)
  moreover have "spec_form ck0 n"
    unfolding spec_form_def n skips_def [symmetric]
    using bar sig_form trades ex_form(1) skips(1) by blast
  ultimately show ?thesis by blast
qed

section \<open>Every reference is declared\<close>

text \<open>The variables whose values fit some place of use.\<close>

definition usable_names :: "checker \<Rightarrow> string set" where
  "usable_names ck = {name. \<exists>kind. declared ck kind name}"

lemma usable_variable: "usable_names ck \<subseteq> fst ` set (ck_variables ck)"
  by (auto simp: usable_names_def declared_def dest!: map_of_SomeD intro: rev_image_eqI)

lemma usable_same: "ck_variables ck = ck_variables ck' \<Longrightarrow> usable_names ck = usable_names ck'"
  by (simp add: usable_names_def declared_def)

lemma arg_declared: "arg_form ck kind v \<Longrightarrow> params_of v \<subseteq> usable_names ck"
  using literal_not_obj [of kind v] by (auto simp: arg_form_def usable_names_def)

lemma params_form_declared:
  assumes "params_form ck kind_of ps kvs"
  shows "params_of (JObj kvs) \<subseteq> usable_names ck"
  using assms unfolding params_form_def
proof (induction ps kvs rule: list_all2_induct)
  case (Cons p ps kv kvs)
  then have "params_of (JObj [kv]) \<subseteq> usable_names ck"
    using arg_declared params_of_arg [of ck "kind_of (fst p) (snd p)" "snd kv" "fst kv"] by (cases kv) simp
  with Cons.IH show ?case using params_of_Cons_member by blast
qed simp

lemma series_declared: "series_form ck n \<Longrightarrow> params_of n \<subseteq> usable_names ck"
proof (induction n rule: series_form.induct)
  case (indicator op spec operand across params out)
  then have "op \<noteq> ''param''"
    by (intro indicator_key) (force simp: INDICATOR_OPERATORS_def)
  with indicator show ?case
    by (auto simp: params_of_output params_of_flag dest: params_form_declared split: if_splits)
next
  case (library name spec across params inputs s)
  have "params_of (JObj inputs) \<subseteq> usable_names ck"
    using library by (simp only: library_inputs_params [OF library(1,3), symmetric]) blast
  with library params_form_declared show ?case by fastforce
qed (auto simp: params_of_op atr_form_def flag_kvs_def clock_form_scalar ROLLING_OPERATORS_def BINARY_OPERATORS_def
      UNARY_OPERATORS_def SESSION_OPERATORS_def RANGE_OPERATORS_def usable_names_def
      dest!: arg_declared)

lemma condition_declared: "condition_form ck n \<Longrightarrow> params_of n \<subseteq> usable_names ck"
proof (induction n rule: condition_form.induct)
  case (compare op s t)
  then have "op \<noteq> ''param''" by (auto simp: COMPARISON_OPERATORS_def CROSS_OPERATORS_def)
  with compare series_declared show ?case by (simp add: params_of_op)
next
  case (junction op cs)
  then have "op \<noteq> ''param''" by auto
  with junction show ?case by (auto simp: params_of_op)
qed (simp_all add: clock_form_scalar)

lemma side_declared: "side_form ck n \<Longrightarrow> params_of n \<subseteq> usable_names ck"
proof (induction n rule: side_form.induct)
  case (signed op s)
  then have "op \<noteq> ''param''" by (auto simp: SIDE_OPERATORS_def)
  with signed series_declared show ?case by (simp add: params_of_op)
qed simp

lemma distance_declared: "distance_form ck stop n \<Longrightarrow> params_of n \<subseteq> usable_names ck"
proof (induction rule: distance_form.induct)
  case (plain kind v stop)
  then have "kind \<noteq> ''param''" by auto
  with plain arg_declared show ?case by (simp add: params_of_op)
qed (simp_all add: series_declared arg_declared)

lemma entries_declared:
  assumes "entries_form keys P kvs" and "''param'' \<notin> set keys" and "\<And>k v. P k v \<Longrightarrow> params_of v \<subseteq> S"
  shows "params_of (JObj kvs) \<subseteq> S"
  unfolding params_of_members [of kvs]
proof (rule UN_least)
  fix kv assume kv: "kv \<in> set kvs"
  then have "fst kv \<in> set (map fst kvs)" by simp
  then have "fst kv \<in> set keys" using assms(1) unfolding entries_form_def by (metis filter_is_subset subsetD)
  with assms(2) have "fst kv \<noteq> ''param''" by metis
  then have "params_of (JObj [kv]) = params_of (snd kv)" using params_of_op [of "fst kv" "snd kv"] by simp
  moreover have "P (fst kv) (snd kv)" using kv assms(1) by (simp add: entries_form_def)
  ultimately show "params_of (JObj [kv]) \<subseteq> S" using assms(3) by simp
qed

lemma exit_declared:
  assumes "exit_form ck flat n"
  shows "params_of n \<subseteq> usable_names ck"
proof -
  from assms obtain ab at_t b stops whens where
    n: "n = JObj (ab @ at_t @ [(''on_opposite_signal'', JBool b)] @ stops @ whens)"
    and ab: "entry_form ''after_bars'' (arg_form ck (Count 1 (if flat = None then MAX_WINDOW_BARS else ck_bars ck - 1))) ab"
    and at_t: "entry_form ''at_time'' (clock_form (ck_first_end ck + ck_step ck)
            (case flat of None \<Rightarrow> ck_last_exit ck | Some m \<Rightarrow> m) (ck_step ck)) at_t"
    and stops: "entries_form STOP_KEYS (distance_form ck) stops"
    and whens: "entry_form ''exit_when'' (sides_form ck) whens"
    unfolding exit_form_def by blast
  have sides: "params_of v \<subseteq> usable_names ck" if "sides_form ck v" for v
  proof -
    from that obtain sides where v: "v = JObj sides" and s: "entries_form [''long'', ''short''] (\<lambda>_. condition_form ck) sides"
      unfolding sides_form_def by blast
    show ?thesis unfolding v by (rule entries_declared [OF s]) (simp_all add: condition_declared)
  qed
  have "params_of (JObj stops) \<subseteq> usable_names ck"
    by (rule entries_declared [OF stops]) (simp_all add: STOP_KEYS_def distance_declared)
  moreover have "params_of (JObj ab) \<subseteq> usable_names ck" "params_of (JObj at_t) = {}"
    using ab at_t by (auto simp: entry_form_def clock_form_scalar dest: arg_declared [THEN subsetD])
  ultimately show ?thesis using whens by (auto simp: n entry_form_def dest: sides [THEN subsetD])
qed

lemma spec_declared:
  assumes "spec_form ck0 n"
  shows "params_of n \<subseteq> usable_names ck0"
proof -
  from assms obtain bar ck tick sigs ex trades flat_at skips where
    n: "n = JObj ([(''language'', JStr RULE_LANGUAGE), (''bar'', JStr bar), (''tick_size'', tick),
              (''session'', JObj (map (\<lambda>(k, v). (k, JStr v)) SUPPORTED_SESSION)), (''signals'', JList sigs),
              (''exit'', ex), (''max_trades_per_session'', trades)] @ flat_at @ skips)"
    and ck: "set_bar bar ck0 = Inr ck" and tick: "is_amount tick None = Inr True"
    and sigs: "\<forall>s \<in> set sigs. signal_form ck s" and ex: "exit_form ck (flat_minutes flat_at) ex"
    and trades: "is_count trades 1 (ck_bars ck)"
    and flat: "entry_form ''flat_at'' (clock_form (ck_first_end ck + ck_step ck) (ck_last_exit ck) (ck_step ck)) flat_at"
    and skips: "entry_form ''skip_days'' (\<lambda>v. skip_days_ok v \<and> v \<noteq> JList []) skips"
    unfolding spec_form_def by blast
  have "params_of s \<subseteq> usable_names ck" if "s \<in> set sigs" for s
  proof -
    from sigs that obtain c d where s: "s = JObj [(''when'', c), (''side'', d)]"
      and forms: "condition_form ck c" "side_form ck d"
      unfolding signal_form_def by blast
    from condition_declared [OF forms(1)] side_declared [OF forms(2)] show ?thesis by (simp add: s)
  qed
  then have "params_of (JList sigs) \<subseteq> usable_names ck" by auto
  moreover have "params_of (JObj flat_at) = {}" "params_of (JObj skips) = {}"
    using flat skips by (auto simp: entry_form_def clock_form_scalar skip_days_scalar)
  ultimately show ?thesis
    using exit_declared [OF ex] usable_same [of ck ck0] set_bar_same [OF ck]
    by (simp add: n session_scalar amount_scalar [OF tick] count_scalar [OF trades])
qed

end
