(* ===== verification/Rule_Complete.thy ===== *)
theory Rule_Complete
  imports Rule_Sound
begin

text \<open>
  Completeness of the checker of \<open>rule_language/validation.py\<close>: a normal form is accepted and returned
  as it is, and marks exactly the variables it refers to. With \<open>Rule_Sound\<close>, checking is idempotent.
\<close>

section \<open>Reading a normal form\<close>

text \<open>The keys that go with an operator are not operators.\<close>

lemma reserved_keys:
  "\<forall>k \<in> set [''bars'', ''length'', ''across_sessions'', ''time'', ''output'', ''params'', ''inputs''].
     k \<notin> set SERIES_OPERATORS"
  by code_simp

lemma operator_alone: "op \<in> set allowed \<Longrightarrow> \<forall>k \<in> fst ` set kvs. k \<notin> set allowed \<Longrightarrow>
   operator_of (JObj ((op, v) # kvs)) path allowed kind = Inr op"
  by (force simp: operator_of_Inr filter_empty_conv)

lemma series_op_in:
  "op \<in> set ROLLING_OPERATORS \<or> op \<in> set BINARY_OPERATORS \<or> op \<in> set UNARY_OPERATORS \<or> op \<in> set SESSION_OPERATORS
   \<or> op \<in> set RANGE_OPERATORS \<or> op \<in> set INDICATOR_OPERATORS \<or> op \<in> {''param'', ''prev'', ''atr'', ''value_at'', ''indicator''}
   \<Longrightarrow> op \<in> set SERIES_OPERATORS"
  by (simp only: SERIES_OPERATORS_def set_append Un_iff list.set insert_iff empty_iff) argo

lemma plain_ops:
  "\<forall>op \<in> set ([''param'', ''atr''] @ BINARY_OPERATORS @ UNARY_OPERATORS @ SESSION_OPERATORS @ RANGE_OPERATORS).
     op \<noteq> ''prev'' \<and> op \<notin> set ROLLING_OPERATORS \<and> op \<noteq> ''value_at'' \<and> op \<notin> set INDICATOR_OPERATORS \<and> op \<noteq> ''indicator''"
  by code_simp

lemma bind_lift: "bindB (liftB (Inr x)) f = f x"
  by (rule ext) (simp add: body_step)

lemma plain_at:
  assumes "op \<in> set ([''param'', ''atr''] @ BINARY_OPERATORS @ UNARY_OPERATORS @ SESSION_OPERATORS @ RANGE_OPERATORS)"
  shows "series ck (JObj [(op, v)]) path u = plain_series (series ck) ck op v (dot path op) u"
proof -
  from assms have "op \<in> set SERIES_OPERATORS"
    by (intro series_op_in) (simp only: set_append Un_iff list.set insert_iff empty_iff, argo)
  then have op: "operator_of (JObj [(op, v)]) path SERIES_OPERATORS ''series'' = Inr op"
    by (intro operator_alone) simp_all
  note ne = plain_ops [rule_format, OF assms]
  have obj: "check_object (JObj [(op, v)]) path [op] [] = Inr (JObj [(op, v)])" by (simp add: check_object_Inr)
  show ?thesis
    by (simp only: series.simps [of ck "JObj [(op, v)]"] op obj ne bind_lift Let_def if_False)
      (simp add: is_scalar_def)
qed

text \<open>The operators that stand alone, each on its own normal form.\<close>

lemma plain_disjoint: "distinct ([''param'', ''atr''] @ BINARY_OPERATORS @ UNARY_OPERATORS @ SESSION_OPERATORS @ RANGE_OPERATORS)"
  by code_simp

lemma atr_complete: "atr_form ck v \<Longrightarrow> atr_series ck v path u = Inr (v, u \<union> params_of v)"
proof -
  assume "atr_form ck v"
  then obtain n sm fl across where v: "v = JObj ((''length'', n) # sm @ fl)"
    and sm: "sm = [] \<or> (\<exists>s \<in> set ATR_SMOOTHINGS. sm = [(''smoothing'', JStr s)])"
    and fl: "fl = [] \<and> \<not> across \<or> fl = flag_kvs across"
    and n: "arg_form ck (Count 1 (longest_window ck across)) n"
    unfolding atr_form_def by blast
  from n have off: "\<not> across \<Longrightarrow> arg_form ck (Count 1 (longest_window ck False)) n" by simp
  from sm fl show ?thesis
    by (elim disjE bexE conjE)
      (simp_all add: v atr_series_def check_object_Inr count_complete [OF n] count_complete [OF off] across_flag_def get_or_def has_key_def
        flag_kvs_def one_of_def ex_bool_eq)
qed

section \<open>The indicators\<close>

text \<open>The catalogue: its keys, and those of each entry, are distinct, and none but the first is an operator.\<close>

lemma catalogue:
  "\<forall>(op, spec) \<in> set INDICATORS.
     map_of INDICATORS op = Some spec \<and> op \<in> set INDICATOR_OPERATORS
     \<and> distinct (op # map fst (is_params spec) @ [''across_sessions'', ''output''])
     \<and> (\<forall>k \<in> set (map fst (is_params spec)). k \<notin> set SERIES_OPERATORS)
     \<and> op \<noteq> ''prev'' \<and> op \<notin> set ROLLING_OPERATORS \<and> op \<noteq> ''value_at'' \<and> op \<noteq> ''param''"
  by code_simp

lemma jget_member: "distinct (map fst kvs) \<Longrightarrow> (k, v) \<in> set kvs \<Longrightarrow> jget k (JObj kvs) = v"
  by simp

lemma has_key_of: "(k, v) \<in> set kvs \<Longrightarrow> has_key k (JObj (kv # kvs))"
  by (force simp: has_key_def)

lemma indicator_complete:
  assumes entry: "(op, spec) \<in> set INDICATORS"
    and operand: "if takes_series spec then series_form ck operand \<and> (\<forall>p u. series ck operand p u = Inr (operand, u \<union> params_of operand))
        else operand = JObj []"
    and params: "params_form ck (indicator_kind (longest_window ck across)) (is_params spec) params"
    and out: "output_form (is_outputs spec) out"
  shows "series ck (JObj ((op, operand) # params @ flag_kvs across @ out)) path u
      = Inr (JObj ((op, operand) # params @ flag_kvs across @ out),
          u \<union> params_of (JObj ((op, operand) # params @ flag_kvs across @ out)))" (is "series ck ?n path u = Inr (_, ?u)")
proof -
  from catalogue entry have facts: "map_of INDICATORS op = Some spec" "op \<in> set INDICATOR_OPERATORS"
    "distinct (op # map fst (is_params spec) @ [''across_sessions'', ''output''])"
    "\<forall>k \<in> set (map fst (is_params spec)). k \<notin> set SERIES_OPERATORS"
    "op \<noteq> ''prev''" "op \<notin> set ROLLING_OPERATORS" "op \<noteq> ''value_at''" "op \<noteq> ''param''"
    by blast+
  define kvs where "kvs = params @ flag_kvs across @ out"
  have out_keys: "map fst out = (if is_outputs spec = [] then [] else [''output''])"
    using out by (auto simp: output_form_def split: if_splits)
  have keys: "map fst kvs = map fst (is_params spec) @ ''across_sessions'' # map fst out"
    by (simp add: kvs_def params_form_keys [OF params] flag_kvs_def)
  have dist: "distinct (map fst ((op, operand) # kvs))"
    using facts(3) by (simp add: keys out_keys)
  have "\<forall>k \<in> fst ` set kvs. k \<notin> set SERIES_OPERATORS"
    using facts(4) reserved_keys unfolding list.set_map [symmetric] keys out_keys by simp
  then have op: "operator_of (JObj ((op, operand) # kvs)) path SERIES_OPERATORS ''series'' = Inr op"
    using facts(2) by (intro operator_alone) (simp_all add: series_op_in)
  have found: "jget op (JObj ((op, operand) # kvs)) = operand" by simp
  have member: "(k, v) \<in> set kvs \<Longrightarrow> jget k (JObj ((op, operand) # kvs)) = v" for k v
    by (rule jget_member [OF dist]) simp
  let ?N = "JObj ((op, operand) # kvs)"
  have mem: "(''across_sessions'', JBool across) \<in> set kvs" by (simp add: kvs_def flag_kvs_def)
  then have flag: "across_flag ?N path = Inr across"
    by (simp only: across_flag_def get_or_def has_key_of [OF mem] member [OF mem] if_True json.case)
  have obj: "check_object ?N path (op # map fst (is_params spec) @ (if is_outputs spec \<noteq> [] then [''output''] else []))
      [''across_sessions''] = Inr ?N"
    unfolding check_object_Inr obj_keys.simps list.map keys out_keys by auto
  have run: "forB (indicator_param ck ?N path (longest_window ck across)) (is_params spec) w
      = Inr (params, w \<union> params_of (JObj params))" for w
    by (rule params_loop_complete [OF params member indicator_param_of]) (simp add: kvs_def)
  have loop: "bindB (forB (indicator_param ck ?N path (longest_window ck across)) (is_params spec)) f w
      = f params (w \<union> params_of (JObj params))" for f :: "(string \<times> json) list \<Rightarrow> (string set, json) body" and w
    by (simp only: bindB_def run sum.case prod.case)
  have first: "bindB (if takes_series spec then series ck operand p
        else bindB (liftB (need (operand = JObj []) q r)) (\<lambda>_. retB (JObj []))) f w
      = f operand (w \<union> params_of operand)" for f :: "json \<Rightarrow> (string set, json) body" and p q r w
    using operand by (cases "takes_series spec") (simp_all add: bindB_def need_def body_step)
  have outs: "(is_outputs spec = [] \<or> one_of (jget ''output'' ?N) (is_outputs spec))
      \<and> (if is_outputs spec \<noteq> [] then [(''output'', jget ''output'' ?N)] else []) = out"
  proof (cases "is_outputs spec = []")
    case False
    with out obtain s where s: "s \<in> set (is_outputs spec)" "out = [(''output'', JStr s)]" by (auto simp: output_form_def)
    then have "(''output'', JStr s) \<in> set kvs" by (simp add: kvs_def)
    from member [OF this] s False show ?thesis by (simp only: one_of_def json.case) simp
  qed (use out in \<open>simp add: output_form_def\<close>)
  have "series ck ?N path u = indicator (series ck) ck op spec ?N path u"
    by (simp only: series.simps [of ck ?N] op bind_lift Let_def facts if_False if_True option.sel)
      (simp add: is_scalar_def)
  also have "\<dots> = Inr (?N, u \<union> params_of operand \<union> params_of (JObj params))"
    unfolding indicator_def obj flag bind_lift found first loop conjunct2 [OF outs]
    by (simp only: conjunct1 [OF outs] need_def guardR_simps bind_lift)
      (simp add: body_step kvs_def flag_kvs_def)
  also have "u \<union> params_of operand \<union> params_of (JObj params) = u \<union> params_of ?N"
    using facts(8) out by (simp add: kvs_def params_of_flag params_of_output Un_assoc)
  finally show ?thesis unfolding kvs_def .
qed

lemma library_op:
  "''indicator'' \<noteq> ''prev''" "''indicator'' \<notin> set ROLLING_OPERATORS" "''indicator'' \<noteq> ''value_at''"
  "''indicator'' \<notin> set INDICATOR_OPERATORS"
  by code_simp+

lemma library_complete:
  assumes lib: "library_indicator (ck_library ck) name = Inr (Some spec)" and wf_lib: "library_wf (ck_library ck)"
    and params: "params_form ck (library_kind (longest_window ck across)) (li_params spec) params"
    and keys: "map fst inputs = filter (\<lambda>k. k \<in> fst ` set inputs) (li_inputs spec)"
    and inputs: "\<forall>kv \<in> set inputs. series_form ck (snd kv) \<and> (\<forall>p u. series ck (snd kv) p u = Inr (snd kv, u \<union> params_of (snd kv)))"
    and s: "s \<in> set (li_outputs spec)"
  shows "series ck (JObj [(''indicator'', JStr name), (''params'', JObj params), (''inputs'', JObj inputs), (''output'', JStr s),
      (''across_sessions'', JBool across)]) path u
    = Inr (JObj [(''indicator'', JStr name), (''params'', JObj params), (''inputs'', JObj inputs), (''output'', JStr s),
        (''across_sessions'', JBool across)],
        u \<union> params_of (JObj [(''indicator'', JStr name), (''params'', JObj params), (''inputs'', JObj inputs), (''output'', JStr s),
        (''across_sessions'', JBool across)]))" (is "series ck ?n path u = Inr (_, ?u)")
proof -
  have op: "operator_of ?n path SERIES_OPERATORS ''series'' = Inr ''indicator''"
    using reserved_keys by (intro operator_alone) (simp_all add: series_op_in)
  have dist: "distinct (map fst params)" "distinct (map fst inputs)"
    using library_entry_names [OF lib wf_lib] by (simp_all add: params_form_keys [OF params] keys)
  have use: "usable_indicator ck (JStr name) path = Inr (name, spec)"
    by (simp add: usable_indicator_def lib)
  have flag: "across_flag ?n path = Inr across"
    by (simp add: across_flag_def get_or_def has_key_def)
  have obj: "check_object ?n path [''indicator'', ''params''] [''inputs'', ''output'', ''across_sessions''] = Inr ?n"
    "check_object (JObj params) p (map fst (li_params spec)) [] = Inr (JObj params)"
    "check_object (JObj inputs) p [] (li_inputs spec) = Inr (JObj inputs)" for p
    unfolding check_object_Inr obj_keys.simps params_form_keys [OF params] keys by auto
  have params_run: "forB (library_param ck (JObj params) p (longest_window ck across)) (li_params spec) w
      = Inr (params, w \<union> params_of (JObj params))" for p w
    by (rule params_loop_complete [OF params jget_member [OF dist(1)] library_param_of])
  have asked: "filter (\<lambda>k. has_key k (JObj inputs)) (li_inputs spec) = map fst inputs"
    unfolding keys by (simp add: has_key_def)
  have inputs_run: "forB (\<lambda>k. bindB (series ck (jget k (JObj inputs)) (dot p k)) (\<lambda>t. retB (k, t))) (map fst inputs) w
      = Inr (inputs, w \<union> (\<Union>kv \<in> set inputs. params_of (snd kv)))" for p w
  proof (rule forB_complete)
    show "list_all2 (\<lambda>k kv. \<forall>w. bindB (series ck (jget k (JObj inputs)) (dot p k)) (\<lambda>t. retB (k, t)) w
        = Inr (kv, w \<union> params_of (snd kv))) (map fst inputs) inputs"
      unfolding list_all2_map1
    proof (rule list.rel_refl_strong, rule allI)
      fix kv w assume kv: "kv \<in> set inputs"
      then have "jget (fst kv) (JObj inputs) = snd kv" by (intro jget_member [OF dist(2)]) simp
      with inputs kv show "bindB (series ck (jget (fst kv) (JObj inputs)) (dot p (fst kv))) (\<lambda>t. retB (fst kv, t)) w
          = Inr (kv, w \<union> params_of (snd kv))"
        by simp
    qed
  qed
  note inner = library_inputs_params [OF lib keys]
  have params_loop: "bindB (forB (library_param ck (JObj params) p (longest_window ck across)) (li_params spec)) f w
      = f params (w \<union> params_of (JObj params))" for f :: "(string \<times> json) list \<Rightarrow> (string set, json) body" and p w
    by (simp only: bindB_def params_run sum.case prod.case)
  have inputs_loop: "bindB (forB (\<lambda>k. bindB (series ck (jget k (JObj inputs)) (dot p k)) (\<lambda>t. retB (k, t))) (map fst inputs)) f w
      = f inputs (w \<union> (\<Union>kv \<in> set inputs. params_of (snd kv)))"
    for f :: "(string \<times> json) list \<Rightarrow> (string set, json) body" and p w
    by (subst bindB_def) (simp only: inputs_run sum.case prod.case)
  have at_n: "jget ''indicator'' ?n = JStr name" "jget ''params'' ?n = JObj params" "jget ''inputs'' ?n = JObj inputs"
    "get_or ''inputs'' (JObj []) ?n = JObj inputs" "get_or ''output'' d ?n = JStr s" for d
    by (simp_all add: get_or_def has_key_def)
  have "series ck ?n path u = library_node (series ck) ck ?n path u"
    by (simp only: series.simps [of ck ?n] op bind_lift Let_def library_op if_False if_True)
      (simp add: is_scalar_def)
  also have "\<dots> = Inr (?n, u \<union> params_of (JObj params) \<union> params_of (JObj inputs))"
    unfolding library_node_def Let_def at_n obj use flag bind_lift prod.case params_loop asked inputs_loop inner
    using s by (simp add: one_of_def dict_of_distinct dist body_step need_def Un_assoc)
  finally show ?thesis by (simp add: Un_assoc)
qed

theorem series_complete:
  "series_form ck n \<Longrightarrow> library_wf (ck_library ck) \<Longrightarrow> series ck n path u = Inr (n, u \<union> params_of n)"
proof (induction n arbitrary: path u rule: series_form.induct)
  case (prev s m)
  have op: "operator_of (JObj [(''prev'', s), (''bars'', m)]) path SERIES_OPERATORS ''series'' = Inr ''prev''"
    using reserved_keys by (intro operator_alone) (simp_all add: series_op_in)
  show ?case
    using prev count_complete [OF prev(2)]
    by (simp add: series.simps [of ck "JObj [(''prev'', s), (''bars'', m)]"] is_scalar_def op check_object_Inr Un_assoc)
next
  case (rolling op s across m)
  let ?n = "JObj [(op, s), (''length'', m), (''across_sessions'', JBool across)]"
  have op: "operator_of ?n path SERIES_OPERATORS ''series'' = Inr op"
    using reserved_keys rolling by (intro operator_alone) (simp_all add: series_op_in)
  have ne: "op \<noteq> ''prev''" "op \<noteq> ''length''" "op \<noteq> ''across_sessions''" "op \<noteq> ''param''"
    using rolling(1) by (auto simp: ROLLING_OPERATORS_def)
  show ?case
    using rolling count_complete [OF rolling(3)] ne
    by (simp add: series.simps [of ck ?n] is_scalar_def op check_object_Inr Un_ac across_flag_def get_or_def has_key_def)
next
  case (value_at s t)
  let ?n = "JObj [(''value_at'', s), (''time'', t)]"
  have op: "operator_of ?n path SERIES_OPERATORS ''series'' = Inr ''value_at''"
    using reserved_keys by (intro operator_alone) (simp_all add: series_op_in)
  have ne: "''value_at'' \<notin> set ROLLING_OPERATORS" by (simp add: ROLLING_OPERATORS_def)
  show ?case
    using value_at ne
    by (simp add: series.simps [of ck ?n] is_scalar_def op check_object_Inr clock_of_Inr clock_form_scalar)
next
  case (param name)
  then show ?case by (simp add: plain_at plain_series_def param_Inr)
next
  case (binary op s t)
  then have "op \<noteq> ''param''" using plain_disjoint by auto
  with binary show ?case by (simp add: plain_at plain_series_def check_pair_def params_of_op Un_assoc)
next
  case (unary op s)
  then have "op \<noteq> ''param''" "op \<notin> set BINARY_OPERATORS" using plain_disjoint by auto
  with unary show ?case by (simp add: plain_at plain_series_def params_of_op)
next
  case (atr v)
  have "''atr'' \<notin> set BINARY_OPERATORS" "''atr'' \<notin> set UNARY_OPERATORS" using plain_disjoint by auto
  with atr show ?case by (simp add: plain_at plain_series_def atr_complete)
next
  case (session op)
  then have "op \<noteq> ''param''" "op \<noteq> ''atr''" "op \<notin> set BINARY_OPERATORS" "op \<notin> set UNARY_OPERATORS"
    using plain_disjoint by auto
  with session show ?case by (simp add: plain_at plain_series_def params_of_op)
next
  case (range op a b)
  then have "op \<noteq> ''param''" "op \<noteq> ''atr''" "op \<notin> set BINARY_OPERATORS" "op \<notin> set UNARY_OPERATORS"
      "op \<notin> set SESSION_OPERATORS"
    using plain_disjoint by auto
  with range show ?case
    by (auto simp: plain_at plain_series_def check_object_Inr clock_of_Inr window_form_def params_of_op clock_form_scalar)
next
  case (whole i)
  then show ?case by (simp add: series.simps [of ck "JInt i"] is_scalar_def scalar_series_def)
next
  case (field s)
  then show ?case by (simp add: series.simps [of ck "JStr s"] is_scalar_def scalar_series_def)
next
  case (real t)
  then show ?case by (simp add: series.simps [of ck "JFloat t"] is_scalar_def scalar_series_def isfinite_float)
next
  case (indicator op spec operand across params out)
  then show ?case by (intro indicator_complete) auto
next
  case (library name spec across params inputs s)
  then show ?case by (intro library_complete) auto
qed

section \<open>Conditions, sides and exits\<close>

lemma condition_op_in:
  "op \<in> set COMPARISON_OPERATORS \<or> op \<in> set CROSS_OPERATORS
   \<or> op \<in> {''all'', ''any'', ''not'', ''time_is'', ''time_between'', ''every_minutes''} \<Longrightarrow> op \<in> set CONDITION_OPERATORS"
  by (simp only: CONDITION_OPERATORS_def set_append Un_iff list.set insert_iff empty_iff)

lemma condition_ops:
  "\<forall>op \<in> {''all'', ''any'', ''not'', ''time_is'', ''time_between'', ''every_minutes''}.
     \<not> (op \<in> set COMPARISON_OPERATORS \<or> op \<in> set CROSS_OPERATORS)"
  by code_simp

text \<open>A condition is a single key: the checks of its object pass.\<close>

lemma condition_at:
  assumes "op \<in> set CONDITION_OPERATORS"
  shows "operator_of (JObj [(op, v)]) path CONDITION_OPERATORS ''condition'' = Inr op"
    and "check_object (JObj [(op, v)]) path [op] [] = Inr (JObj [(op, v)])"
    and "jget op (JObj [(op, v)]) = v"
  using assms by (auto intro: operator_alone simp: check_object_Inr)

lemma enumerate_loop:
  assumes "\<And>x i w. x \<in> set xs \<Longrightarrow> f i x w = Inr (x, w \<union> params_of x)"
  shows "forB (\<lambda>(i, x). f i x) (enumerate k xs) u = Inr (xs, u \<union> (\<Union>x \<in> set xs. params_of x))"
proof (rule forB_complete)
  show "list_all2 (\<lambda>p y. \<forall>u. (case p of (i, x) \<Rightarrow> f i x) u = Inr (y, u \<union> params_of y)) (enumerate k xs) xs"
    using assms by (simp add: list_all2_conv_all_nth nth_enumerate_eq)
qed

theorem condition_complete:
  "condition_form ck n \<Longrightarrow> library_wf (ck_library ck) \<Longrightarrow> condition ck n path u = Inr (n, u \<union> params_of n)"
proof (induction n arbitrary: path u rule: condition_form.induct)
  case (compare op s t)
  then have "op \<in> set CONDITION_OPERATORS" by (intro condition_op_in) argo
  note at_op = condition_at [OF this]
  have "op \<noteq> ''param''" using compare(1) by (auto simp: COMPARISON_OPERATORS_def CROSS_OPERATORS_def)
  with compare series_complete show ?case
    by (simp add: condition.simps [of ck "JObj [(op, JList [s, t])]"] at_op check_pair_def params_of_op Un_assoc Let_def)
next
  case (junction op cs)
  then have op: "op \<in> set CONDITION_OPERATORS" "\<not> (op \<in> set COMPARISON_OPERATORS \<or> op \<in> set CROSS_OPERATORS)"
      "op \<noteq> ''param''"
    using condition_ops by (auto intro: condition_op_in)
  have "forB (\<lambda>(i, item). condition ck item (nth_path (dot path op) i)) (enumerate 0 cs) u
      = Inr (cs, u \<union> (\<Union>c \<in> set cs. params_of c))"
    using junction by (intro enumerate_loop) auto
  moreover have "conditions_of (JList cs) p = Inr cs" for p using junction(2) by (cases cs) (simp_all add: conditions_of_def)
  ultimately show ?case using op junction(1)
    by (simp add: condition.simps [of ck "JObj [(op, JList cs)]"] condition_at params_of_op Let_def)
next
  case (negation c)
  have "''not'' \<in> set CONDITION_OPERATORS" by (simp add: condition_op_in)
  with condition_ops negation show ?case
    by (simp add: condition.simps [of ck "JObj [(''not'', c)]"] condition_at Let_def)
next
  case (every_minutes i)
  have "''every_minutes'' \<in> set CONDITION_OPERATORS" by (simp add: condition_op_in)
  with condition_ops every_minutes show ?case
    by (simp add: condition.simps [of ck "JObj [(''every_minutes'', JInt i)]"] condition_at is_count_def Let_def)
next
  case (time_is t)
  have "''time_is'' \<in> set CONDITION_OPERATORS" by (simp add: condition_op_in)
  with condition_ops time_is show ?case
    by (simp add: condition.simps [of ck "JObj [(''time_is'', t)]"] condition_at clock_of_Inr clock_form_scalar Let_def)
next
  case (time_between a b)
  have "''time_between'' \<in> set CONDITION_OPERATORS" by (simp add: condition_op_in)
  moreover have "time_window ck (JList [a, b]) p = Inr (JList [a, b])" for p
    using time_between by (auto simp: time_window_def check_pair_def clock_of_Inr window_form_def)
  ultimately show ?case using condition_ops time_between
    by (simp add: condition.simps [of ck "JObj [(''time_between'', JList [a, b])]"] condition_at clock_form_scalar Let_def)
qed

lemma side_complete: "side_form ck n \<Longrightarrow> library_wf (ck_library ck) \<Longrightarrow> side ck n path u = Inr (n, u \<union> params_of n)"
proof (induction n rule: side_form.induct)
  case (signed op s)
  then have "op \<noteq> ''param''" by (auto simp: SIDE_OPERATORS_def)
  with signed series_complete show ?case by (simp add: side_def params_of_op)
qed (auto simp: side_def)

lemma distance_op_in:
  "\<forall>kind \<in> {''level'', ''signal_bar'', ''r_multiple'', ''percent'', ''points'', ''ticks'', ''atr''}.
     kind \<in> set (DISTANCE_KINDS @ map fst STOP_ONLY_KINDS)"
  by code_simp

lemma distance_at:
  "kind \<in> {''level'', ''signal_bar'', ''r_multiple'', ''percent'', ''points'', ''ticks'', ''atr''} \<Longrightarrow>
   operator_of (JObj [(kind, v)]) path (DISTANCE_KINDS @ map fst STOP_ONLY_KINDS) ''distance'' = Inr kind"
  by (rule operator_alone) (rule bspec [OF distance_op_in], assumption, simp)

lemma stop_only:
  "map_of STOP_ONLY_KINDS ''level'' = Some [''stop_loss'']" "map_of STOP_ONLY_KINDS ''signal_bar'' = Some [''stop_loss'']"
  "map_of STOP_ONLY_KINDS ''r_multiple'' = Some [''take_profit'', ''trail_after'']"
  "map_of STOP_ONLY_KINDS ''percent'' = None" "map_of STOP_ONLY_KINDS ''points'' = None"
  "map_of STOP_ONLY_KINDS ''ticks'' = None" "map_of STOP_ONLY_KINDS ''atr'' = None"
  by code_simp+

lemma distance_complete:
  "distance_form ck stop n \<Longrightarrow> library_wf (ck_library ck) \<Longrightarrow> distance ck n path stop u = Inr (n, u \<union> params_of n)"
proof (induction rule: distance_form.induct)
  case (r_multiple stop v)
  then show ?case
    by (elim disjE) (simp_all add: distance_def distance_at stop_only check_object_Inr Let_def amount_complete)
next
  case (plain kind v stop)
  then show ?case
    by (elim disjE) (simp_all add: distance_def distance_at stop_only check_object_Inr Let_def amount_complete)
qed (simp_all add: distance_def distance_at stop_only check_object_Inr Let_def series_complete count_complete
      amount_complete Un_assoc)

section \<open>Exits\<close>

text \<open>The entries of an object under one key.\<close>

definition entries_at :: "string \<Rightarrow> (string \<times> json) list \<Rightarrow> (string \<times> json) list" where
  "entries_at key kvs = filter (\<lambda>kv. fst kv = key) kvs"

lemma entries_at_simps [simp]:
  "entries_at key [] = []" "entries_at key (kvs @ kvs') = entries_at key kvs @ entries_at key kvs'"
  "entries_at key ((k, v) # kvs) = (if k = key then (k, v) # entries_at key kvs else entries_at key kvs)"
  by (simp_all add: entries_at_def)

lemma entries_at_none: "key \<notin> fst ` set kvs \<Longrightarrow> entries_at key kvs = []"
  by (auto simp: entries_at_def filter_empty_conv)

lemma entries_at_one: "entries_at key kvs = [(key, v)] \<Longrightarrow> jget key (JObj kvs) = v \<and> has_key key (JObj kvs)"
  by (induction kvs) (auto simp: has_key_def split: if_splits)

lemma entries_at_empty: "entries_at key kvs = [] \<Longrightarrow> \<not> has_key key (JObj kvs)"
  by (auto simp: has_key_def entries_at_def filter_empty_conv)

lemma entry_complete:
  assumes at_key: "entries_at key kvs = es" and form: "entry_form key P es" and key: "key \<noteq> ''param''"
    and run: "\<And>v w. P v \<Longrightarrow> jget key (JObj kvs) = v \<Longrightarrow> m w = Inr (v, w \<union> params_of v)"
  shows "entry key (JObj kvs) m u = Inr (es, u \<union> params_of (JObj es))"
proof (cases es)
  case Nil
  with at_key entries_at_empty show ?thesis by (simp add: entry_def)
next
  case (Cons e es')
  with form obtain v where es: "es = [(key, v)]" and v: "P v" by (auto simp: entry_form_def)
  from entries_at_one [of key kvs v] at_key es have got: "jget key (JObj kvs) = v" "has_key key (JObj kvs)" by simp_all
  from run [OF v got(1)] got(2) key show ?thesis by (simp add: entry_def es params_of_op)
qed

lemma entries_concat:
  "distinct keys \<Longrightarrow> map fst kvs = filter (\<lambda>k. k \<in> fst ` set kvs) keys \<Longrightarrow> concat (map (\<lambda>k. entries_at k kvs) keys) = kvs"
proof (induction keys arbitrary: kvs)
  case (Cons k ks)
  show ?case
  proof (cases "k \<in> fst ` set kvs")
    case True
    with Cons.prems(2) obtain v rest where kvs: "kvs = (k, v) # rest" and rest: "map fst rest = filter (\<lambda>j. j \<in> fst ` set kvs) ks"
      by (cases kvs) auto
    have "filter (\<lambda>j. j \<in> fst ` set kvs) ks = filter (\<lambda>j. j \<in> fst ` set rest) ks"
      using Cons.prems(1) kvs by (intro filter_cong) auto
    then have sub: "concat (map (\<lambda>j. entries_at j rest) ks) = rest" using Cons.IH [of rest] Cons.prems(1) rest by simp
    have "k \<notin> fst ` set rest"
    proof -
      have "set (map fst rest) \<subseteq> set ks" unfolding rest by auto
      then show ?thesis using Cons.prems(1) by auto
    qed
    moreover have "map (\<lambda>j. entries_at j kvs) ks = map (\<lambda>j. entries_at j rest) ks"
      using Cons.prems(1) kvs by auto
    ultimately have "concat (map (\<lambda>j. entries_at j kvs) (k # ks)) = entries_at k kvs @ rest"
      by (simp only: list.map concat.simps sub)
    then show ?thesis using \<open>k \<notin> fst ` set rest\<close> by (simp only: kvs) (simp add: entries_at_none)
  next
    case False
    with Cons show ?thesis by (simp add: entries_at_none)
  qed
qed simp

lemma entries_complete:
  assumes form: "entries_form keys P stops" and keys: "distinct keys" "''param'' \<notin> set keys"
    and at_keys: "\<And>key. key \<in> set keys \<Longrightarrow> entries_at key kvs = entries_at key stops"
    and run: "\<And>key v w. P key v \<Longrightarrow> jget key (JObj kvs) = v \<Longrightarrow> f key w = Inr (v, w \<union> params_of v)"
  shows "\<exists>kvss. forB (\<lambda>key. entry key (JObj kvs) (f key)) keys u = Inr (kvss, u \<union> params_of (JObj stops))
    \<and> concat kvss = stops"
proof -
  have dist: "distinct (map fst stops)" using form keys(1) by (simp add: entries_form_def)
  have one: "entry_form key (P key) (entries_at key stops)" for key
  proof (cases "key \<in> fst ` set stops")
    case True
    then obtain v where v: "(key, v) \<in> set stops" by auto
    then have "entries_at key stops = [(key, v)]" using dist
      by (induction stops) (auto simp: entries_at_none image_iff)
    moreover have "P key v" using form v by (auto simp: entries_form_def)
    ultimately show ?thesis by (simp add: entry_form_def)
  qed (simp add: entries_at_none entry_form_def)
  have "forB (\<lambda>key. entry key (JObj kvs) (f key)) keys u
      = Inr (map (\<lambda>k. entries_at k stops) keys, u \<union> (\<Union>es \<in> set (map (\<lambda>k. entries_at k stops) keys). params_of (JObj es)))"
  proof (rule forB_complete)
    show "list_all2 (\<lambda>key es. \<forall>u. entry key (JObj kvs) (f key) u = Inr (es, u \<union> params_of (JObj es)))
        keys (map (\<lambda>k. entries_at k stops) keys)"
      using keys(2) by (auto simp: list_all2_map2 intro!: list.rel_refl_strong entry_complete [OF at_keys one] run)
  qed
  moreover have cc: "concat (map (\<lambda>k. entries_at k stops) keys) = stops"
    using form keys(1) by (intro entries_concat) (simp_all add: entries_form_def)
  moreover have "(\<Union>es \<in> set kvss. params_of (JObj es)) = params_of (JObj (concat kvss))" for kvss
    by (induction kvss) simp_all
  ultimately show ?thesis by metis
qed

lemma sides_complete:
  assumes "sides_form ck n" and lib: "library_wf (ck_library ck)"
  shows "exit_when ck n path u = Inr (n, u \<union> params_of n)"
proof -
  from assms(1) obtain sides where n: "n = JObj sides" and ne: "sides \<noteq> []"
    and form: "entries_form [''long'', ''short''] (\<lambda>_. condition_form ck) sides"
    unfolding sides_form_def by blast
  define ks where "ks = map fst sides"
  have ks_eq: "ks = filter (\<lambda>k. k \<in> fst ` set sides) [''long'', ''short'']"
    using form by (simp only: ks_def entries_form_def)
  have ks: "set ks \<subseteq> set [''long'', ''short'']" "distinct ks" "sorted ks"
  proof -
    show "set ks \<subseteq> set [''long'', ''short'']" unfolding ks_eq by (rule filter_is_subset)
    show "distinct ks" unfolding ks_eq by (rule distinct_filter) code_simp
    show "sorted ks" unfolding ks_eq by (rule sorted_wrt_filter) code_simp
  qed
  have order: "sort (remdups (map fst sides)) = map fst sides"
    using ks(2,3) by (simp add: ks_def distinct_remdups_id sort_key_id_if_sorted)
  have loop: "forB (\<lambda>key. bindB (condition ck (jget key (JObj sides)) (dot path key)) (\<lambda>c. retB (key, c))) (map fst sides) u
      = Inr (sides, u \<union> (\<Union>kv \<in> set sides. params_of (JObj [kv])))"
  proof (rule forB_complete)
    show "list_all2 (\<lambda>key kv. \<forall>u. bindB (condition ck (jget key (JObj sides)) (dot path key)) (\<lambda>c. retB (key, c)) u
        = Inr (kv, u \<union> params_of (JObj [kv]))) (map fst sides) sides"
      unfolding list_all2_map1
    proof (rule list.rel_refl_strong, rule allI)
      fix kv u assume kv: "kv \<in> set sides"
      then have "jget (fst kv) (JObj sides) = snd kv" using ks(2) by (intro jget_member) (simp_all add: ks_def)
      moreover have c: "condition_form ck (snd kv)" using form kv by (simp add: entries_form_def)
      moreover have "fst kv \<noteq> ''param''"
      proof -
        have "fst kv \<in> set ks" using kv by (simp add: ks_def)
        then show ?thesis using ks(1) by auto
      qed
      ultimately show "bindB (condition ck (jget (fst kv) (JObj sides)) (dot path (fst kv))) (\<lambda>c. retB (fst kv, c)) u
          = Inr (kv, u \<union> params_of (JObj [kv]))"
        using condition_complete [OF c lib] params_of_op [of "fst kv" "snd kv"] by simp
    qed
  qed
  have obj: "check_object (JObj sides) path [] [''long'', ''short''] = Inr (JObj sides)"
    using ks(1) unfolding check_object_Inr obj_keys.simps ks_def by simp
  show ?thesis
    unfolding n exit_when_def obj bind_lift obj_keys.simps order params_of_members [of sides]
    using ne loop by (simp add: need_def bind_lift)
qed

lemma entries_at_self: "entry_form key P es \<Longrightarrow> entries_at key es = es"
  by (auto simp: entry_form_def)

lemma bound_ok: "m u = Inr (x, u1) \<Longrightarrow> f x u1 = Inr z \<Longrightarrow> bindB m f u = Inr z"
  by (simp add: bindB_ok)

lemma need_ok: "b \<Longrightarrow> liftB (need b path reason) u = Inr ((), u)"
  by simp

lemma links_ok: "\<forall>x \<in> set xs. P x \<Longrightarrow>
   liftB (mapR (\<lambda>x. need (P x) (p x) (r x)) xs) u = Inr (replicate (length xs) (), u)"
  by (simp add: mapR_need)

lemma exit_keys_known:
  "set STOP_KEYS \<subseteq> set EXIT_KEYS" "''after_bars'' \<in> set EXIT_KEYS" "''at_time'' \<in> set EXIT_KEYS"
  "''exit_when'' \<in> set EXIT_KEYS" "''on_opposite_signal'' \<in> set EXIT_KEYS"
  by code_simp+

lemma keys_within:
  "A \<subseteq> {a} \<Longrightarrow> B \<subseteq> {b} \<Longrightarrow> D \<subseteq> {d} \<Longrightarrow> S \<subseteq> T \<Longrightarrow> T \<subseteq> E \<Longrightarrow> a \<in> E \<Longrightarrow> b \<in> E \<Longrightarrow> d \<in> E \<Longrightarrow> c \<in> E \<Longrightarrow>
   A \<union> B \<union> {c} \<union> S \<union> D \<subseteq> E"
  by blast

lemma keys_apart: "A \<subseteq> {a} \<Longrightarrow> B \<subseteq> {b} \<Longrightarrow> a \<notin> T \<Longrightarrow> b \<notin> T \<Longrightarrow> c \<notin> T \<Longrightarrow> (A \<union> (B \<union> {c})) \<inter> T = {}"
  by blast

lemma exit_complete:
  assumes form: "exit_form ck flat n" and lib: "library_wf (ck_library ck)"
  shows "exit_rules ck n path flat u = Inr (n, u \<union> params_of n)"
proof -
  from form obtain ab at_t b stops whens where
    n: "n = JObj (ab @ at_t @ [(''on_opposite_signal'', JBool b)] @ stops @ whens)"
    and ab: "entry_form ''after_bars'' (arg_form ck (Count 1 (if flat = None then MAX_WINDOW_BARS else ck_bars ck - 1))) ab"
    and at_t: "entry_form ''at_time'' (clock_form (ck_first_end ck + ck_step ck)
            (case flat of None \<Rightarrow> ck_last_exit ck | Some m \<Rightarrow> m) (ck_step ck)) at_t"
    and stops: "entries_form STOP_KEYS (distance_form ck) stops" and linked: "stops_linked stops"
    and whens: "entry_form ''exit_when'' (sides_form ck) whens"
    unfolding exit_form_def by blast
  define pre where "pre = ab @ at_t @ [(''on_opposite_signal'', JBool b)]"
  define kvs where "kvs = pre @ stops @ whens"
  have keys: "fst ` set ab \<subseteq> {''after_bars''}" "fst ` set at_t \<subseteq> {''at_time''}" "fst ` set whens \<subseteq> {''exit_when''}"
    "fst ` set stops \<subseteq> set STOP_KEYS"
  proof -
    show "fst ` set stops \<subseteq> set STOP_KEYS"
      using stops unfolding entries_form_def list.set_map [symmetric] by (metis filter_is_subset)
  qed (rule entry_form_keys [OF ab] entry_form_keys [OF at_t] entry_form_keys [OF whens])+
  have stop_keys: "''after_bars'' \<notin> set STOP_KEYS" "''at_time'' \<notin> set STOP_KEYS" "''exit_when'' \<notin> set STOP_KEYS"
    "''on_opposite_signal'' \<notin> set STOP_KEYS" "''param'' \<notin> set STOP_KEYS" "distinct STOP_KEYS"
    by code_simp+
  have apart: "k \<noteq> j \<Longrightarrow> fst ` set es \<subseteq> {j} \<Longrightarrow> entries_at k es = []" for k j es
    by (rule entries_at_none) blast
  have out: "k \<notin> set STOP_KEYS \<Longrightarrow> entries_at k stops = []" for k
    by (rule entries_at_none) (use keys(4) in blast)
  have at_key: "entries_at ''after_bars'' kvs = ab" "entries_at ''at_time'' kvs = at_t" "entries_at ''exit_when'' kvs = whens"
    "entries_at ''on_opposite_signal'' kvs = [(''on_opposite_signal'', JBool b)]"
    using stop_keys entries_at_self [OF ab] entries_at_self [OF at_t] entries_at_self [OF whens]
    by (simp_all add: kvs_def pre_def out apart [OF _ keys(1)] apart [OF _ keys(2)] apart [OF _ keys(3)])
  have at_stop: "k \<in> set STOP_KEYS \<Longrightarrow> entries_at k kvs = entries_at k stops" for k
  proof -
    assume k: "k \<in> set STOP_KEYS"
    then have "k \<noteq> ''after_bars''" "k \<noteq> ''at_time''" "k \<noteq> ''exit_when''" "k \<noteq> ''on_opposite_signal''"
      using stop_keys by metis+
    then show ?thesis by (simp add: kvs_def pre_def apart [OF _ keys(1)] apart [OF _ keys(2)] apart [OF _ keys(3)])
  qed
  have opp: "get_or ''on_opposite_signal'' (JBool False) (JObj kvs) = JBool b"
    using entries_at_one [OF at_key(4)] by (simp add: get_or_def)
  have obj: "check_object (JObj kvs) path [] EXIT_KEYS = Inr (JObj kvs)"
  proof -
    have "fst ` set kvs = fst ` set ab \<union> fst ` set at_t \<union> {''on_opposite_signal''} \<union> fst ` set stops \<union> fst ` set whens"
      by (simp add: kvs_def pre_def image_Un Un_assoc)
    then have "fst ` set kvs \<subseteq> set EXIT_KEYS"
      by (simp only:) (rule keys_within [OF keys exit_keys_known])
    then show ?thesis by (simp add: check_object_Inr)
  qed
  have "fst ` set pre \<inter> set STOP_KEYS = {}"
    unfolding pre_def set_append image_Un using keys_apart [OF keys(1,2) stop_keys(1,2,4)] by simp
  from stops_linked_in [OF this, of stops] linked have links:
    "\<forall>key \<in> {''take_profit'', ''trail_after''}. has_key ''r_multiple'' (get_or key (JObj []) (JObj (pre @ stops)))
       \<longrightarrow> has_key ''stop_loss'' (JObj (pre @ stops))"
    "has_key ''trail_after'' (JObj (pre @ stops)) \<longrightarrow> has_key ''trailing_stop'' (JObj (pre @ stops))"
    by blast+
  have "\<exists>kvss. forB (\<lambda>key. entry key (JObj kvs) (distance ck (jget key (JObj kvs)) (dot path key) key)) STOP_KEYS
      (u \<union> params_of (JObj ab) \<union> params_of (JObj at_t))
      = Inr (kvss, u \<union> params_of (JObj ab) \<union> params_of (JObj at_t) \<union> params_of (JObj stops)) \<and> concat kvss = stops"
    by (rule entries_complete [OF stops stop_keys(6,5) at_stop]) (simp_all add: distance_complete lib)
  then obtain kvss where stops_run: "forB (\<lambda>key. entry key (JObj kvs) (distance ck (jget key (JObj kvs)) (dot path key) key)) STOP_KEYS
      (u \<union> params_of (JObj ab) \<union> params_of (JObj at_t))
      = Inr (kvss, u \<union> params_of (JObj ab) \<union> params_of (JObj at_t) \<union> params_of (JObj stops))"
    and cat: "concat kvss = stops"
    by blast
  have ab_run: "entry ''after_bars'' (JObj kvs) (count_arg ck (jget ''after_bars'' (JObj kvs)) p 1
      (if flat = None then MAX_WINDOW_BARS else ck_bars ck - 1)) w = Inr (ab, w \<union> params_of (JObj ab))" for p w
    by (rule entry_complete [OF at_key(1) ab]) (simp_all add: count_complete)
  have at_run: "entry ''at_time'' (JObj kvs) (liftB (clock_of (jget ''at_time'' (JObj kvs)) p (ck_first_end ck + ck_step ck)
      (case flat of None \<Rightarrow> ck_last_exit ck | Some m \<Rightarrow> m) (ck_step ck))) w = Inr (at_t, w \<union> params_of (JObj at_t))" for p w
    by (rule entry_complete [OF at_key(2) at_t]) (simp_all add: clock_of_Inr clock_form_scalar)
  have when_run: "entry ''exit_when'' (JObj kvs) (exit_when ck (jget ''exit_when'' (JObj kvs)) p) w
      = Inr (whens, w \<union> params_of (JObj whens))" for p w
    by (rule entry_complete [OF at_key(3) whens]) (simp_all add: sides_complete lib)
  have n_kvs: "n = JObj kvs" by (simp add: n kvs_def pre_def)
  have whole: "u \<union> params_of (JObj ab) \<union> params_of (JObj at_t) \<union> params_of (JObj stops) \<union> params_of (JObj whens)
      = u \<union> params_of (JObj kvs)"
    by (simp add: kvs_def pre_def Un_assoc)
  show ?thesis
    unfolding n_kvs exit_rules_def obj bind_lift Let_def opp
    by (rule bound_ok, rule ab_run, rule bound_ok, rule at_run,
        rule bound_ok, rule need_ok, simp, rule bound_ok, rule stops_run,
        rule bound_ok, rule links_ok, use links in \<open>simp add: pre_def cat\<close>,
        rule bound_ok, rule need_ok, use links in \<open>simp add: pre_def cat\<close>,
        rule bound_ok, rule when_run, simp only: whole cat retB_Inr, simp add: kvs_def pre_def)
qed

section \<open>Specs\<close>

lemma signal_complete:
  assumes "signal_form ck n" and lib: "library_wf (ck_library ck)"
  shows "signal ck n path u = Inr (n, u \<union> params_of n)"
proof -
  from assms(1) obtain c s where n: "n = JObj [(''when'', c), (''side'', s)]" and c: "condition_form ck c"
    and s: "side_form ck s"
    unfolding signal_form_def by blast
  show ?thesis
    by (simp add: n signal_def check_object_Inr condition_complete [OF c lib] side_complete [OF s lib] Un_assoc)
qed

lemma session_complete: "check_session (JObj (map (\<lambda>(k, v). (k, JStr v)) SUPPORTED_SESSION)) p = Inr ()"
  by (simp add: check_session_def check_object_Inr SUPPORTED_SESSION_def need_def)

text \<open>The fixed part of a normal spec, and its two optional entries.\<close>

definition spec_core :: "string \<Rightarrow> json \<Rightarrow> json list \<Rightarrow> json \<Rightarrow> json \<Rightarrow> (string \<times> json) list" where
  "spec_core bar tick sigs ex trades =
     [(''language'', JStr RULE_LANGUAGE), (''bar'', JStr bar), (''tick_size'', tick),
      (''session'', JObj (map (\<lambda>(k, v). (k, JStr v)) SUPPORTED_SESSION)), (''signals'', JList sigs),
      (''exit'', ex), (''max_trades_per_session'', trades)]"

lemma spec_core_keys: "map fst (spec_core bar tick sigs ex trades) =
  [''language'', ''bar'', ''tick_size'', ''session'', ''signals'', ''exit'', ''max_trades_per_session'']"
  by (simp add: spec_core_def)

lemma spec_lookup:
  "jget ''language'' (JObj (spec_core bar tick sigs ex trades @ r)) = JStr RULE_LANGUAGE"
  "jget ''bar'' (JObj (spec_core bar tick sigs ex trades @ r)) = JStr bar"
  "jget ''tick_size'' (JObj (spec_core bar tick sigs ex trades @ r)) = tick"
  "jget ''session'' (JObj (spec_core bar tick sigs ex trades @ r)) = JObj (map (\<lambda>(k, v). (k, JStr v)) SUPPORTED_SESSION)"
  "jget ''signals'' (JObj (spec_core bar tick sigs ex trades @ r)) = JList sigs"
  "get_or ''exit'' d (JObj (spec_core bar tick sigs ex trades @ r)) = ex"
  "jget ''max_trades_per_session'' (JObj (spec_core bar tick sigs ex trades @ r)) = trades"
  "k = ''flat_at'' \<or> k = ''skip_days'' \<Longrightarrow> jget k (JObj (spec_core bar tick sigs ex trades @ r)) = jget k (JObj r)
     \<and> has_key k (JObj (spec_core bar tick sigs ex trades @ r)) = has_key k (JObj r)"
proof -
  assume "k = ''flat_at'' \<or> k = ''skip_days''"
  then show "jget k (JObj (spec_core bar tick sigs ex trades @ r)) = jget k (JObj r)
     \<and> has_key k (JObj (spec_core bar tick sigs ex trades @ r)) = has_key k (JObj r)"
    by (elim disjE) (simp_all add: spec_core_def has_key_def)
qed (simp_all add: spec_core_def get_or_def has_key_def)

lemma optional_lookup:
  assumes "entry_form ''flat_at'' P flat_at" and "entry_form ''skip_days'' Q skips"
  shows "has_key ''flat_at'' (JObj (flat_at @ skips)) \<longleftrightarrow> flat_at \<noteq> []"
    and "flat_at \<noteq> [] \<Longrightarrow> P (jget ''flat_at'' (JObj (flat_at @ skips))) \<and> flat_at = [(''flat_at'', jget ''flat_at'' (JObj (flat_at @ skips)))]"
    and "has_key ''skip_days'' (JObj (flat_at @ skips)) \<longleftrightarrow> skips \<noteq> []"
    and "skips \<noteq> [] \<Longrightarrow> Q (jget ''skip_days'' (JObj (flat_at @ skips))) \<and> skips = [(''skip_days'', jget ''skip_days'' (JObj (flat_at @ skips)))]"
    and "set (map fst (flat_at @ skips)) \<subseteq> {''flat_at'', ''skip_days''}"
  using assms unfolding entry_form_def by (auto simp: has_key_def)

lemma top_keys:
  "set [''language'', ''bar'', ''tick_size'', ''session'', ''signals'', ''exit'', ''max_trades_per_session'']
    \<subseteq> set TOP_LEVEL_KEYS \<union> set [''exit'', ''skip_days'', ''flat_at'']"
  "{''flat_at'', ''skip_days''} \<subseteq> set TOP_LEVEL_KEYS \<union> set [''exit'', ''skip_days'', ''flat_at'']"
  "set TOP_LEVEL_KEYS \<subseteq> set [''language'', ''bar'', ''tick_size'', ''session'', ''signals'', ''exit'', ''max_trades_per_session'']"
  by code_simp+

lemma header_complete:
  assumes bar: "bar \<in> fst ` set BAR_MINUTES" and ck: "set_bar bar ck0 = Inr ck" and tick: "is_amount tick None = Inr True"
    and flat: "entry_form ''flat_at'' (clock_form (ck_first_end ck + ck_step ck) (ck_last_exit ck) (ck_step ck)) flat_at"
    and skips: "entry_form ''skip_days'' Q skips"
  shows "spec_header ck0 (JObj (spec_core bar tick sigs ex trades @ flat_at @ skips)) = Inr (bar, ck, flat_at)"
proof -
  let ?n = "JObj (spec_core bar tick sigs ex trades @ flat_at @ skips)"
  note opt = optional_lookup [OF flat skips]
  have obj: "check_object ?n path TOP_LEVEL_KEYS [''exit'', ''skip_days'', ''flat_at''] = Inr ?n" for path
  proof -
    have "set (map fst (spec_core bar tick sigs ex trades @ flat_at @ skips))
        \<subseteq> set TOP_LEVEL_KEYS \<union> set [''exit'', ''skip_days'', ''flat_at'']"
      unfolding map_append [of fst "spec_core bar tick sigs ex trades"] spec_core_keys set_append [of "_ # _"]
      by (rule Un_least [OF top_keys(1) subset_trans [OF opt(5) top_keys(2)]])
    moreover have "set TOP_LEVEL_KEYS \<subseteq> set (map fst (spec_core bar tick sigs ex trades @ flat_at @ skips))"
      unfolding map_append [of fst "spec_core bar tick sigs ex trades"] spec_core_keys set_append [of "_ # _"]
      by (rule le_supI1 [OF top_keys(3)])
    ultimately show ?thesis by (simp only: check_object_Inr obj_keys.simps is_obj_simps simp_thms)
  qed
  have f: "(if has_key ''flat_at'' ?n then bindR (clock_of (jget ''flat_at'' ?n) path (ck_first_end ck + ck_step ck)
      (ck_last_exit ck) (ck_step ck)) (\<lambda>v. Inr [(''flat_at'', v)]) else Inr []) = Inr flat_at" for path
  proof -
    define v where "v = jget ''flat_at'' (JObj (flat_at @ skips))"
    have e: "has_key ''flat_at'' ?n \<longleftrightarrow> flat_at \<noteq> []" "jget ''flat_at'' ?n = v"
      using spec_lookup(8) [OF disjI1 [OF refl]] opt(1) unfolding v_def by metis+
    show ?thesis unfolding e using opt(2) unfolding v_def [symmetric] by (auto simp: clock_of_Inr)
  qed
  have "check_bar (JStr bar) path = Inr bar" for path using bar by (simp add: check_bar_Inr)
  then show ?thesis
    by (simp only: spec_header_def Let_def obj f spec_lookup(1-4) ck tick session_complete need_def guardR_simps
        bindR_simps json_eq.simps simp_thms)
qed

text \<open>The entries of a normal spec, by their keys.\<close>

lemma spec_complete:
  assumes form: "spec_form ck0 n" and lib: "library_wf (ck_library ck0)"
  shows "rule_spec ck0 n u = Inr (n, u \<union> params_of n)"
proof -
  from form obtain bar ck tick sigs ex trades flat_at skips where
    n: "n = JObj ([(''language'', JStr RULE_LANGUAGE), (''bar'', JStr bar), (''tick_size'', tick),
              (''session'', JObj (map (\<lambda>(k, v). (k, JStr v)) SUPPORTED_SESSION)), (''signals'', JList sigs),
              (''exit'', ex), (''max_trades_per_session'', trades)] @ flat_at @ skips)"
    and bar: "bar \<in> fst ` set BAR_MINUTES" and ck: "set_bar bar ck0 = Inr ck" and tick: "is_amount tick None = Inr True"
    and sigs: "sigs \<noteq> []" "\<forall>s \<in> set sigs. signal_form ck s" and ex: "exit_form ck (flat_minutes flat_at) ex"
    and trades: "is_count trades 1 (ck_bars ck)"
    and flat: "entry_form ''flat_at'' (clock_form (ck_first_end ck + ck_step ck) (ck_last_exit ck) (ck_step ck)) flat_at"
    and skips: "entry_form ''skip_days'' (\<lambda>v. skip_days_ok v \<and> v \<noteq> JList []) skips"
    unfolding spec_form_def by blast
  from set_bar_same [OF ck] lib have lib': "library_wf (ck_library ck)" by simp
  have n_core: "n = JObj (spec_core bar tick sigs ex trades @ flat_at @ skips)" by (simp add: n spec_core_def)
  note header = header_complete [OF bar ck tick flat skips]
  note opt = optional_lookup [OF flat skips]
  have loop: "forB (\<lambda>(i, v). signal ck v (nth_path p i)) (enumerate 0 sigs) u = Inr (sigs, u \<union> (\<Union>s \<in> set sigs. params_of s))" for p
    using sigs signal_complete [OF _ lib'] by (intro enumerate_loop) auto
  have flat_run: "flat_clock flat_at = Inr (flat_minutes flat_at)" by (rule flat_clock_Inr [OF flat])
  have none: "params_of (JObj flat_at) = {}" "params_of (JObj skips) = {}"
    using flat skips by (auto simp: entry_form_def clock_form_scalar skip_days_scalar)
  have pn: "params_of n = (\<Union>s \<in> set sigs. params_of s) \<union> params_of ex"
    by (simp add: n none session_scalar amount_scalar [OF tick] count_scalar [OF trades])
  define v where "v = jget ''skip_days'' (JObj (flat_at @ skips))"
  have skip: "has_key ''skip_days'' n \<longleftrightarrow> skips \<noteq> []" "jget ''skip_days'' n = v"
    unfolding n_core v_def using spec_lookup(8) [OF disjI2 [OF refl]] opt(3) by metis+
  have skip_ok: "(skips \<noteq> [] \<longrightarrow> skip_days_ok v)
      \<and> (if skips \<noteq> [] \<and> v \<noteq> JList [] then [(''skip_days'', v)] else []) = skips"
    using opt(4) unfolding v_def [symmetric] by auto
  have list_ok: "signal_list (JList sigs) p = Inr sigs" for p using sigs(1) by (simp add: signal_list_Inr)
  have ret: "retB (JObj ([(''language'', JStr RULE_LANGUAGE), (''bar'', JStr bar), (''tick_size'', tick),
      (''session'', JObj (map (\<lambda>(k, v). (k, JStr v)) SUPPORTED_SESSION)), (''signals'', JList sigs),
      (''exit'', ex), (''max_trades_per_session'', trades)] @ flat_at @ skips)) w = Inr (n, u \<union> params_of n)"
    if "w = u \<union> (\<Union>s \<in> set sigs. params_of s) \<union> params_of ex" for w
    by (simp only: that pn) (simp add: n Un_assoc)
  show ?thesis
    unfolding rule_spec_def Let_def skip conjunct2 [OF skip_ok]
    unfolding n_core spec_lookup list_ok header bind_lift prod.case flat_run
    by (rule bound_ok, rule loop, rule bound_ok, rule need_ok, rule trades,
        rule bound_ok, rule need_ok, rule conjunct1 [OF skip_ok],
        rule bound_ok, rule exit_complete [OF ex lib'], rule ret [unfolded n_core], rule refl)
qed

end
