(* ===== verification/Rule_Check.thy ===== *)
theory Rule_Check
  imports Rule_Complete
begin

text \<open>
  The whole check of a rule spec: its size limits against a recursive count, the variables and their
  grid, and how a check repeated on its own result behaves.
\<close>

section \<open>Size\<close>

lemma child_size: "c \<in> set (json_children v) \<Longrightarrow> size c < size v"
  using size_children [of v] member_le_sum_list [of "size c" "map size (json_children v)"] by auto

text \<open>The elements of a document and how deep they nest, counted by recursion.\<close>

function node_count :: "json \<Rightarrow> nat" where
  "node_count v = 1 + sum_list (map node_count (json_children v))"
  by pat_completeness auto
termination
  by (relation "measure size") (auto intro: child_size)

function nesting :: "json \<Rightarrow> nat" where
  "nesting v = 1 + foldr max (map nesting (json_children v)) 0"
  by pat_completeness auto
termination
  by (relation "measure size") (auto intro: child_size)

declare node_count.simps [simp del] nesting.simps [simp del]

lemma foldr_max_le: "foldr max xs (0 :: nat) \<le> k \<longleftrightarrow> (\<forall>x \<in> set xs. x \<le> k)"
  by (induction xs) auto

lemma nesting_le: "nesting v \<le> Suc k \<longleftrightarrow> (\<forall>c \<in> set (json_children v). nesting c \<le> k)"
  by (subst nesting.simps) (simp add: foldr_max_le)

text \<open>What the stack still holds fits the limits, counted from the nodes visited so far.\<close>

lemma check_size_loop_exact:
  "visited \<le> MAX_RULE_NODES \<Longrightarrow>
   check_size_loop stack visited = Inr () \<longleftrightarrow>
     visited + sum_list (map (\<lambda>e. node_count (fst e)) stack) \<le> MAX_RULE_NODES
     \<and> (\<forall>e \<in> set stack. nesting (fst e) + snd e \<le> MAX_RULE_DEPTH + 1)"
proof (induction stack visited rule: check_size_loop.induct)
  case (1 stack visited)
  show ?case
  proof (cases stack rule: rev_cases)
    case Nil
    with 1 show ?thesis by (simp add: check_size_loop.simps [of "[]"])
  next
    case (snoc rest e)
    obtain v d where e: "e = (v, d)" by (cases e)
    let ?next = "rest @ map (\<lambda>c. (c, d + 1)) (json_children v)"
    have count: "sum_list (map (\<lambda>e. node_count (fst e)) ?next) + 1 = sum_list (map (\<lambda>e. node_count (fst e)) stack)"
      by (simp add: snoc e node_count.simps [of v] comp_def)
    have depth: "(\<forall>e \<in> set stack. nesting (fst e) + snd e \<le> MAX_RULE_DEPTH + 1) \<longleftrightarrow>
        d \<le> MAX_RULE_DEPTH \<and> (\<forall>e \<in> set ?next. nesting (fst e) + snd e \<le> MAX_RULE_DEPTH + 1)"
    proof -
      have "nesting v + d \<le> MAX_RULE_DEPTH + 1 \<longleftrightarrow>
          d \<le> MAX_RULE_DEPTH \<and> (\<forall>c \<in> set (json_children v). nesting c + (d + 1) \<le> MAX_RULE_DEPTH + 1)"
        unfolding nesting.simps [of v] using foldr_max_le [of "map nesting (json_children v)" "MAX_RULE_DEPTH - d"]
        by auto
      moreover have "(\<forall>e \<in> set stack. P e) \<longleftrightarrow> (\<forall>e \<in> set rest. P e) \<and> P (v, d)"
        "(\<forall>e \<in> set ?next. P e) \<longleftrightarrow> (\<forall>e \<in> set rest. P e) \<and> (\<forall>c \<in> set (json_children v). P (c, d + 1))" for P
        by (auto simp: snoc e)
      ultimately show ?thesis by auto
    qed
    have step: "check_size_loop stack visited = Inr () \<longleftrightarrow>
        visited + 1 \<le> MAX_RULE_NODES \<and> d \<le> MAX_RULE_DEPTH \<and> check_size_loop ?next (visited + 1) = Inr ()"
      by (subst check_size_loop.simps) (simp add: snoc e Let_def)
    have total: "visited + sum_list (map (\<lambda>e. node_count (fst e)) stack) \<le> MAX_RULE_NODES \<longleftrightarrow>
        visited + 1 + sum_list (map (\<lambda>e. node_count (fst e)) ?next) \<le> MAX_RULE_NODES"
      using count by linarith
    show ?thesis
    proof (cases "visited + 1 \<le> MAX_RULE_NODES \<and> d \<le> MAX_RULE_DEPTH")
      case True
      then have next_ok: "need (visited + 1 \<le> MAX_RULE_NODES) p r = Inr ()" "need (d \<le> MAX_RULE_DEPTH) p r = Inr ()" for p r
        by simp_all
      have "(v, d) = last stack" "stack \<noteq> []" "butlast stack = rest" by (simp_all add: snoc e)
      from "1.IH" [OF this(2) this(1) refl refl next_ok] True
      have "check_size_loop ?next (visited + 1) = Inr () \<longleftrightarrow>
          visited + 1 + sum_list (map (\<lambda>e. node_count (fst e)) ?next) \<le> MAX_RULE_NODES
          \<and> (\<forall>e \<in> set ?next. nesting (fst e) + snd e \<le> MAX_RULE_DEPTH + 1)"
        by (simp only: \<open>butlast stack = rest\<close>)
      with True show ?thesis unfolding step depth total by blast
    next
      case False
      then show ?thesis unfolding step depth total by linarith
    qed
  qed
qed

lemma check_size_nesting:
  "check_size spec = Inr () \<longleftrightarrow> node_count spec \<le> MAX_RULE_NODES \<and> nesting spec \<le> MAX_RULE_DEPTH"
  using check_size_loop_exact [of 0 "[(spec, 1)]"] by (simp add: check_size_def)

section \<open>The whole check\<close>

lemma new_checker_same: "new_checker table lib = Inr ck \<Longrightarrow> ck_variables ck = table \<and> ck_library ck = lib"
  by (auto simp: new_checker_def dest: set_bar_same)

lemma new_checker_ok: "\<exists>ck. new_checker table lib = Inr ck"
  by (simp add: new_checker_def set_bar_def bar_minutes_def bars_per_session_def first_bar_end_minutes_def BAR_MINUTES_def)

text \<open>The number of settings a set of variables spans.\<close>

definition grid_ok :: "(string \<times> json) list \<Rightarrow> bool" where
  "grid_ok table \<longleftrightarrow> (\<exists>counts. mapR (\<lambda>kv. value_count (snd kv)) table = Inr counts \<and> prod_list counts \<le> MAX_VARIABLE_GRID)"

lemma check_grid_size_Inr: "check_grid_size table = Inr u \<longleftrightarrow> grid_ok table"
  by (auto simp: check_grid_size_def grid_ok_def Let_def)

text \<open>
  A spec is accepted exactly when it fits the limits, is a sentence of the grammar up to normalization,
  uses every declared variable and spans a small enough grid.
\<close>

lemma validate_rule_spec_Inr:
  "validate_rule_spec lib spec vars = Inr n \<longleftrightarrow>
     is_obj spec \<and> check_size spec = Inr () \<and>
     (\<exists>table ck used. variable_table vars = Inr table \<and> new_checker table lib = Inr ck \<and>
        rule_spec ck spec {} = Inr (n, used) \<and> fst ` set table \<subseteq> used \<and> grid_ok table)"
proof -
  have unused: "sort (filter (\<lambda>name. name \<notin> used) (map fst table)) = [] \<longleftrightarrow> fst ` set table \<subseteq> used"
    for used and table :: "(string \<times> json) list"
  proof -
    have "sort xs = [] \<longleftrightarrow> xs = []" for xs :: "string list" by (metis length_0_conv length_sort)
    then show ?thesis by (auto simp: filter_empty_conv)
  qed
  have unit: "(\<exists>u. P u) \<longleftrightarrow> P ()" for P :: "unit \<Rightarrow> bool" by (metis (full_types) old.unit.exhaust)
  show ?thesis
    unfolding validate_rule_spec_def Let_def bindR_Inr_iff need_Inr split_paired_Ex prod.case unused check_grid_size_Inr
      unit sum.inject
    by (rule iffI; elim exE conjE; hypsubst?; intro exI conjI; assumption?) (simp_all only:)
qed

text \<open>
  The rules as a specification of the checker: a normal form over the declared variables, all of them
  used, whose grid is small enough.
\<close>

definition rules_ok :: "vectorbt option \<Rightarrow> json \<Rightarrow> json \<Rightarrow> bool" where
  "rules_ok lib vars n \<longleftrightarrow>
     (\<exists>table ck. variable_table vars = Inr table \<and> new_checker table lib = Inr ck \<and> spec_form ck n
        \<and> params_of n = fst ` set table \<and> grid_ok table)"

lemma validate_sound:
  assumes "validate_rule_spec lib spec vars = Inr n" and lib: "library_wf lib"
  shows "rules_ok lib vars n"
proof -
  from assms(1) obtain table ck used where t: "variable_table vars = Inr table" "new_checker table lib = Inr ck"
    and run: "rule_spec ck spec {} = Inr (n, used)" and used: "fst ` set table \<subseteq> used" and grid: "grid_ok table"
    unfolding validate_rule_spec_Inr by blast
  note same = new_checker_same [OF t(2)]
  from spec_sound [OF run] same lib have form: "spec_form ck n" "used = params_of n" by simp_all
  from spec_declared [OF form(1)] usable_variable [of ck] same used form(2) have "params_of n = fst ` set table" by auto
  with t form(1) grid show ?thesis unfolding rules_ok_def by blast
qed

text \<open>Every declared variable is used, so its values are numbers, distinct as floats.\<close>

lemma rules_ok_declared:
  assumes "rules_ok lib vars n" and "variable_table vars = Inr table" and "(name, variable) \<in> set table"
  obtains ck kind where "ck_variables ck = table" "declared ck kind name"
proof -
  from assms(1,2) obtain ck where ck: "new_checker table lib = Inr ck" "spec_form ck n" "params_of n = fst ` set table"
    unfolding rules_ok_def by auto
  from spec_declared [OF ck(2)] ck(3) assms(3) have "name \<in> usable_names ck" by force
  with new_checker_same [OF ck(1)] show ?thesis by (auto simp: usable_names_def intro: that)
qed

lemma spec_form_obj: "spec_form ck n \<Longrightarrow> is_obj n"
  by (auto simp: spec_form_def)

text \<open>A normal form is checked to itself; only its size may refuse it.\<close>

lemma validate_complete:
  assumes "rules_ok lib vars n" and "library_wf lib"
  shows "validate_rule_spec lib n vars = bindR (check_size n) (\<lambda>_. Inr n)"
proof -
  from assms(1) obtain table ck where t: "variable_table vars = Inr table" "new_checker table lib = Inr ck"
    and form: "spec_form ck n" and names: "params_of n = fst ` set table" and grid: "grid_ok table"
    unfolding rules_ok_def by blast
  from spec_complete [OF form, of "{}"] new_checker_same [OF t(2)] assms(2)
  have run: "rule_spec ck n {} = Inr (n, params_of n)" by simp
  show ?thesis
  proof (cases "check_size n")
    case (Inl e)
    then show ?thesis using t(1) spec_form_obj [OF form] by (simp add: validate_rule_spec_def need_def)
  next
    case (Inr u)
    then have "validate_rule_spec lib n vars = Inr n"
      unfolding validate_rule_spec_Inr using t run names grid spec_form_obj [OF form] by (auto intro!: exI [of _ "params_of n"])
    with Inr show ?thesis by simp
  qed
qed

lemma validate_again:
  "validate_rule_spec lib spec vars = Inr n \<Longrightarrow> library_wf lib \<Longrightarrow>
   validate_rule_spec lib n vars = bindR (check_size n) (\<lambda>_. Inr n)"
  by (intro validate_complete validate_sound)

lemma validate_fixed:
  assumes "library_wf lib"
  shows "validate_rule_spec lib n vars = Inr n \<longleftrightarrow>
    rules_ok lib vars n \<and> node_count n \<le> MAX_RULE_NODES \<and> nesting n \<le> MAX_RULE_DEPTH"
  using validate_sound [of lib n vars n] validate_complete [of lib vars n] assms
  by (auto simp: check_size_nesting [symmetric] validate_rule_spec_Inr)

end
