(* ===== verification/Rule_Guarantees.thy ===== *)
theory Rule_Guarantees
  imports Rule_Check
begin

text \<open>
  What the rule language promises: an accepted spec is returned as a sentence of the grammar, the
  checker accepts such sentences unchanged, and its size limits are those of a recursive count.
\<close>

section \<open>A spec and its normal form\<close>

definition demo_rules :: json where
  "demo_rules =
     JObj [(''language'', JStr ''qf_rules_v1''), (''bar'', JStr ''5m''), (''tick_size'', JFloat ''0.25''),
       (''session'', JObj [(''timezone'', JStr ''America/New_York''), (''open'', JStr ''09:30''), (''close'', JStr ''16:00'')]),
       (''signals'', JList [JObj [
          (''when'', JObj [(''gt'', JList [JStr ''close'', JObj [(''sma'', JStr ''close''), (''length'', JObj [(''param'', JStr ''n'')])]])]),
          (''side'', JStr ''long'')]]),
       (''max_trades_per_session'', JInt 1)]"

definition demo_variables :: json where
  "demo_variables = JObj [(''n'', JObj [(''values'', JList [JInt 5, JInt 10])])]"

definition demo_normal :: json where
  "demo_normal =
     JObj [(''language'', JStr ''qf_rules_v1''), (''bar'', JStr ''5m''), (''tick_size'', JFloat ''0.25''),
       (''session'', JObj [(''timezone'', JStr ''America/New_York''), (''open'', JStr ''09:30''), (''close'', JStr ''16:00'')]),
       (''signals'', JList [JObj [
          (''when'', JObj [(''gt'', JList [JStr ''close'', JObj [(''sma'', JStr ''close''), (''length'', JObj [(''param'', JStr ''n'')]),
             (''across_sessions'', JBool False)]])]),
          (''side'', JStr ''long'')]]),
       (''exit'', JObj [(''on_opposite_signal'', JBool False)]),
       (''max_trades_per_session'', JInt 1)]"

lemma demo_valid: "validate_rule_spec None demo_rules demo_variables = Inr demo_normal"
  by code_simp

lemma demo_fixed: "validate_rule_spec None demo_normal demo_variables = Inr demo_normal"
  by code_simp

section \<open>Claims\<close>

text \<open>
  C32: Only normal forms are accepted. Whatever spec and variables the checker is given, what it returns is
  a sentence of the grammar: every operator with operands of the right kind, every window, clock time and
  literal inside its bounds, every variable declared with distinct values that all fit its places of use,
  every declared variable used, and a grid of at most 100 combinations. Checking the returned copy again
  returns it unchanged, unless normalization has pushed it past the size limits.
\<close>

theorem accepted_rules_are_normal:
  assumes "validate_rule_spec lib spec vars = Inr n" and "library_wf lib"
  shows "rules_ok lib vars n \<and> validate_rule_spec lib n vars = bindR (check_size n) (\<lambda>_. Inr n)"
  using validate_sound [OF assms] validate_again [OF assms] by blast

theorem accepted_rules_are_normal_witness:
  "rules_ok None demo_variables demo_normal
   \<and> validate_rule_spec None demo_normal demo_variables = bindR (check_size demo_normal) (\<lambda>_. Inr demo_normal)"
  by (rule accepted_rules_are_normal [OF demo_valid]) (simp add: library_wf_def)

text \<open>
  C33: The checker decides the grammar. A document is accepted unchanged exactly when it is a sentence of
  the grammar over the declared variables that has at most 500 elements and nests at most 32 deep.
\<close>

theorem rules_decided:
  assumes "library_wf lib"
  shows "validate_rule_spec lib n vars = Inr n \<longleftrightarrow>
    rules_ok lib vars n \<and> node_count n \<le> MAX_RULE_NODES \<and> nesting n \<le> MAX_RULE_DEPTH"
  by (rule validate_fixed [OF assms])

theorem rules_decided_witness:
  "rules_ok None demo_variables demo_normal \<and> node_count demo_normal \<le> MAX_RULE_NODES
    \<and> nesting demo_normal \<le> MAX_RULE_DEPTH"
proof -
  have "library_wf None" by (simp add: library_wf_def)
  with demo_fixed show ?thesis using rules_decided [of None demo_normal demo_variables] by blast
qed

text \<open>
  C34: The size check counts exactly. The stack that visits a document and stops at the first excess
  accepts it just when a recursive count of its elements gives at most 500 and of its depth at most 32;
  the loop always ends, whatever the size of the document.
\<close>

theorem size_check_exact:
  "check_size spec = Inr () \<longleftrightarrow> node_count spec \<le> MAX_RULE_NODES \<and> nesting spec \<le> MAX_RULE_DEPTH"
  by (rule check_size_nesting)

end
