(* ===== verification/Rule_Order.thy ===== *)
theory Rule_Order
  imports Rule_Check
begin

text \<open>
  The order of an object's members does not matter to the checker: \<open>same_doc\<close> relates documents that
  are equal as Python values, and the checker accepts related documents alike, with the same result.
\<close>

section \<open>Equal documents\<close>

inductive same_doc :: "json \<Rightarrow> json \<Rightarrow> bool" where
  scalar: "\<not> is_obj v \<Longrightarrow> (\<And>xs. v \<noteq> JList xs) \<Longrightarrow> same_doc v v"
| elements: "length xs = length ys \<Longrightarrow> (\<forall>i < length xs. same_doc (xs ! i) (ys ! i)) \<Longrightarrow> same_doc (JList xs) (JList ys)"
| members: "distinct (map fst kvs) \<Longrightarrow> distinct (map fst kvs') \<Longrightarrow> set (map fst kvs) = set (map fst kvs') \<Longrightarrow>
    (\<forall>k. same_doc (jget k (JObj kvs)) (jget k (JObj kvs'))) \<Longrightarrow> same_doc (JObj kvs) (JObj kvs')"

inductive_cases same_scalarE: "same_doc JNull w" "same_doc (JBool b) w" "same_doc (JInt i) w" "same_doc (JFloat t) w"
  "same_doc (JStr s) w"
inductive_cases same_listE: "same_doc (JList xs) w"
inductive_cases same_objE: "same_doc (JObj kvs) w"

lemma same_scalars [simp]:
  "same_doc JNull w \<longleftrightarrow> w = JNull" "same_doc (JBool b) w \<longleftrightarrow> w = JBool b" "same_doc (JInt i) w \<longleftrightarrow> w = JInt i"
  "same_doc (JFloat t) w \<longleftrightarrow> w = JFloat t" "same_doc (JStr s) w \<longleftrightarrow> w = JStr s"
  by (auto elim: same_scalarE intro: same_doc.scalar)

lemma same_list: "same_doc (JList xs) w \<longleftrightarrow> (\<exists>ys. w = JList ys \<and> list_all2 same_doc xs ys)"
  by (auto simp: list_all2_conv_all_nth elim: same_listE intro: same_doc.elements)

lemma same_obj: "same_doc v w \<Longrightarrow> is_obj v = is_obj w"
  by (auto elim: same_doc.cases)

lemma same_keys: "same_doc v w \<Longrightarrow> set (obj_keys v) = set (obj_keys w)"
  by (auto elim: same_doc.cases)

lemma same_distinct: "same_doc v w \<Longrightarrow> distinct (obj_keys v) \<and> distinct (obj_keys w)"
proof (induction rule: same_doc.cases)
  case (scalar v)
  then show ?case by (cases v) auto
qed auto

lemma same_jget: "same_doc v w \<Longrightarrow> same_doc (jget k v) (jget k w)"
proof (induction rule: same_doc.cases)
  case (scalar v)
  then show ?case by (cases v) auto
qed simp_all

lemma same_has_key: "same_doc v w \<Longrightarrow> has_key k v = has_key k w"
  using same_keys by (simp add: has_key_def)

lemma same_get_or: "same_doc v w \<Longrightarrow> same_doc d d' \<Longrightarrow> same_doc (get_or k d v) (get_or k d' w)"
  by (simp add: get_or_def same_has_key same_jget)

lemma same_values_of: "same_doc v w \<Longrightarrow> same_doc (values_of v) (values_of w)"
  by (simp add: values_of_def same_obj same_jget)

lemma same_refl: "distinct_keys v \<Longrightarrow> same_doc v v"
proof (induction v rule: distinct_keys.induct)
  case (1 xs)
  then show ?case by (auto intro: same_doc.elements)
next
  case (2 kvs)
  have "same_doc (jget k (JObj kvs)) (jget k (JObj kvs))" for k
    using 2 by (auto split: option.splits dest!: map_of_SomeD)
  with 2 show ?case by (intro same_doc.members) auto
qed auto

lemma same_sym: "same_doc v w \<Longrightarrow> same_doc w v"
proof (induction rule: same_doc.induct)
  case (scalar v)
  then show ?case by (rule same_doc.scalar)
qed (auto intro: same_doc.intros)

lemma same_trans: "same_doc u v \<Longrightarrow> same_doc v w \<Longrightarrow> same_doc u w"
proof (induction arbitrary: w rule: same_doc.induct)
  case (elements xs ys)
  then show ?case by (auto simp: list_all2_conv_all_nth elim!: same_listE intro!: same_doc.elements)
next
  case (members kvs kvs')
  from members.prems obtain kvs'' where w: "w = JObj kvs''" "distinct (map fst kvs'')" "set (map fst kvs') = set (map fst kvs'')"
    "\<forall>k. same_doc (jget k (JObj kvs')) (jget k (JObj kvs''))"
    by (auto elim!: same_objE)
  with members show ?case by (auto intro!: same_doc.members)
qed simp

text \<open>A document and its sorted copy, and so any two with the same one, are equal.\<close>

lemma same_normalized: "distinct_keys v \<Longrightarrow> normalize v = Inr w \<Longrightarrow> same_doc v w"
proof (induction v arbitrary: w rule: normalize.induct)
  case (1 t)
  then show ?case by (auto split: if_splits)
next
  case (2 xs)
  then obtain ys where ys: "mapR normalize xs = Inr ys" "w = JList ys" by auto
  note all = mapR_Inr_list_all2 [OF ys(1)]
  show ?case unfolding ys(2)
  proof (rule same_doc.elements)
    show "\<forall>i < length xs. same_doc (xs ! i) (ys ! i)"
      using 2 list_all2_nthD [OF all] by auto
  qed (rule list_all2_lengthD [OF all])
next
  case (3 kvs)
  from 3(2) have "distinct (map fst kvs)" by simp
  with 3(3) obtain ms where ms: "w = JObj ms" "distinct (map fst ms)" "\<And>x. same_at (map_of kvs x) (map_of ms x)"
    by (blast elim: normalize_JObj_Inr [rotated])
  have keys: "set (map fst kvs) = set (map fst ms)"
  proof (rule set_eqI)
    fix k
    have "map_of kvs k = None \<longleftrightarrow> map_of ms k = None"
      using ms(3) [of k] by (auto simp: same_at_def split: option.splits)
    then show "k \<in> set (map fst kvs) \<longleftrightarrow> k \<in> set (map fst ms)"
      by (simp add: map_of_eq_None_iff)
  qed
  have member: "same_doc (jget k (JObj kvs)) (jget k (JObj ms))" for k
  proof (cases "map_of kvs k")
    case None
    with ms(3) [of k] show ?thesis by (simp add: same_at_def)
  next
    case (Some v)
    with ms(3) [of k] obtain v' where v': "normalize v = Inr v'" "map_of ms k = Some v'" by (auto simp: same_at_def)
    have "(k, v) \<in> set (sort_key fst kvs)" using Some by (simp add: map_of_SomeD)
    moreover have "distinct_keys v" using Some 3(2) by (auto dest!: map_of_SomeD)
    ultimately show ?thesis using 3(1) [of "(k, v)" v'] Some v' by simp
  qed
  show ?case unfolding ms(1) using 3(2) keys member ms(2) by (intro same_doc.members) simp_all
qed simp_all

lemma same_by_normal:
  "distinct_keys v \<Longrightarrow> distinct_keys w \<Longrightarrow> normalize v = Inr n \<Longrightarrow> normalize w = Inr n \<Longrightarrow> same_doc v w"
  by (blast intro: same_trans same_sym same_normalized)

section \<open>Bodies that agree\<close>

text \<open>
  Where the first body returns, the second returns a related value in the same state. The checks below
  agree on equal documents; a check that returns its argument returns an equal one.
\<close>

definition agrees :: "('a \<Rightarrow> 'b \<Rightarrow> bool) \<Rightarrow> ('u, 'a) body \<Rightarrow> ('u, 'b) body \<Rightarrow> bool" where
  "agrees Q m m' \<longleftrightarrow> (\<forall>u x u'. m u = Inr (x, u') \<longrightarrow> (\<exists>y. m' u = Inr (y, u') \<and> Q x y))"

lemma agrees_bind:
  "agrees Q m m' \<Longrightarrow> (\<And>x y. Q x y \<Longrightarrow> agrees P (f x) (g y)) \<Longrightarrow> agrees P (bindB m f) (bindB m' g)"
  unfolding agrees_def by fastforce

lemma agrees_ret: "Q x y \<Longrightarrow> agrees Q (retB x) (retB y)"
  by (simp add: agrees_def)

lemma agrees_raise: "agrees Q (raiseB e) m"
  by (simp add: agrees_def)

lemma agrees_lift: "(\<And>x. r = Inr x \<Longrightarrow> \<exists>y. r' = Inr y \<and> Q x y) \<Longrightarrow> agrees Q (liftB r) (liftB r')"
  by (simp add: agrees_def)

lemma agrees_refl: "agrees (=) m m"
  by (simp add: agrees_def)

lemma agrees_mono: "agrees Q m m' \<Longrightarrow> (\<And>x y. Q x y \<Longrightarrow> P x y) \<Longrightarrow> agrees P m m'"
  unfolding agrees_def by blast

lemma agrees_forB:
  "list_all2 (\<lambda>x y. agrees P (f x) (g y)) xs ys \<Longrightarrow> agrees (list_all2 P) (forB f xs) (forB g ys)"
  by (induction xs ys rule: list_all2_induct)
    (auto intro!: agrees_bind [where Q = P] agrees_bind [where Q = "list_all2 P"] agrees_ret)

lemma agrees_loop: "list_all2 (\<lambda>x y. agrees (=) (f x) (g y)) xs ys \<Longrightarrow> agrees (=) (forB f xs) (forB g ys)"
  using agrees_forB [of "(=)" f g xs ys] by (simp add: list.rel_eq)

lemma agrees_step:
  "agrees (=) m m' \<Longrightarrow> (\<And>x. agrees P (f x) (g x)) \<Longrightarrow> agrees P (bindB m f) (bindB m' g)"
  unfolding agrees_def by fastforce

lemma agrees_step_pair:
  "agrees (=) m m' \<Longrightarrow> (\<And>a b. agrees P (f a b) (g a b)) \<Longrightarrow>
   agrees P (bindB m (\<lambda>(a, b). f a b)) (bindB m' (\<lambda>(a, b). g a b))"
  unfolding agrees_def by fastforce

lemma agrees_need: "(b \<Longrightarrow> b') \<Longrightarrow> agrees (=) (liftB (need b p r)) (liftB (need b' p' r'))"
  by (rule agrees_lift) simp

lemma agrees_object:
  "same_doc v w \<Longrightarrow> agrees same_doc (liftB (check_object v p req opt)) (liftB (check_object w q req opt))"
  by (rule agrees_lift) (simp add: check_object_Inr same_obj same_keys)

lemma agrees_object_only:
  "same_doc v w \<Longrightarrow> (\<And>x y. agrees P (f x) (g y)) \<Longrightarrow>
   agrees P (bindB (liftB (check_object v p req opt)) f) (bindB (liftB (check_object w q req opt)) g)"
  by (rule agrees_bind [OF agrees_object])

lemma singleton_list: "set xs = {x} \<Longrightarrow> distinct xs \<Longrightarrow> xs = [x]"
  by (cases xs; cases "tl xs") auto

lemma agrees_operator:
  assumes "same_doc v w"
  shows "agrees (=) (liftB (operator_of v p allowed kind)) (liftB (operator_of w q allowed kind))"
proof (rule agrees_lift)
  fix op
  assume "operator_of v p allowed kind = Inr op"
  then have v: "is_obj v" "filter (\<lambda>k. k \<in> set allowed) (obj_keys v) = [op]" by (simp_all add: operator_of_Inr)
  have "set (filter (\<lambda>k. k \<in> set allowed) (obj_keys w)) = {op}"
    using arg_cong [OF v(2), of set] same_keys [OF assms] by simp
  moreover have "distinct (filter (\<lambda>k. k \<in> set allowed) (obj_keys w))"
    using same_distinct [OF assms] by simp
  ultimately have "filter (\<lambda>k. k \<in> set allowed) (obj_keys w) = [op]"
    by (rule singleton_list)
  with v(1) same_obj [OF assms] show "\<exists>op'. operator_of w q allowed kind = Inr op' \<and> op = op'"
    by (simp add: operator_of_Inr)
qed

lemma agrees_operator_then:
  "same_doc v w \<Longrightarrow> (\<And>op. operator_of v p allowed kind = Inr op \<Longrightarrow> agrees P (f op) (g op)) \<Longrightarrow>
   agrees P (bindB (liftB (operator_of v p allowed kind)) f) (bindB (liftB (operator_of w q allowed kind)) g)"
  using agrees_operator [of v w p allowed kind q] unfolding agrees_def by fastforce

lemma agrees_pair_then:
  assumes same: "same_doc v w"
    and rest: "\<And>a b a' b'. same_doc a a' \<Longrightarrow> same_doc b b' \<Longrightarrow> a \<in> set (json_parts v) \<Longrightarrow> b \<in> set (json_parts v) \<Longrightarrow>
      agrees P (f a b) (g a' b')"
  shows "agrees P (bindB (liftB (check_pair v p)) (\<lambda>(a, b). f a b)) (bindB (liftB (check_pair w q)) (\<lambda>(a, b). g a b))"
proof (cases "\<exists>a b. v = JList [a, b]")
  case True
  then obtain a b where v: "v = JList [a, b]" by blast
  with same obtain a' b' where w: "w = JList [a', b']" "same_doc a a'" "same_doc b b'"
    by (auto simp: same_list list_all2_Cons1)
  from rest [OF w(2,3)] show ?thesis
    by (simp add: v w(1) check_pair_def agrees_def json_parts_def)
next
  case False
  then have "\<nexists>x. check_pair v p = Inr x" by (auto simp: check_pair_def split: json.splits list.splits)
  then show ?thesis by (simp add: agrees_def)
qed

lemma agrees_if:
  "(b \<Longrightarrow> agrees P m m') \<Longrightarrow> (\<not> b \<Longrightarrow> agrees P n n') \<Longrightarrow> agrees P (if b then m else n) (if b then m' else n')"
  by simp

lemma agrees_across: "same_doc v w \<Longrightarrow> agrees (=) (liftB (across_flag v p)) (liftB (across_flag w q))"
  using same_get_or [of v w "JBool False" "JBool False" "''across_sessions''"]
  by (intro agrees_lift) (auto simp: across_flag_def split: json.splits)

lemma agrees_clock: "same_doc v w \<Longrightarrow> agrees (=) (liftB (clock_of v p a b s)) (liftB (clock_of w q a b s))"
  by (rule agrees_lift) (auto simp: clock_of_Inr clock_form_def)

lemma agrees_param: "same_doc v w \<Longrightarrow> agrees (=) (param ck v p kind) (param ck w q kind)"
  unfolding agrees_def by (auto simp: param_Inr)

lemma agrees_arg:
  assumes same: "same_doc v w"
  shows "agrees (=) (arg_of ck kind v p) (arg_of ck kind w q)"
proof (cases "is_obj v")
  case True
  with same_obj [OF same] have "is_obj w" by simp
  with True show ?thesis unfolding arg_of_obj param_node_def
    by (simp only: arg_of_obj param_node_def)
      (intro agrees_object_only agrees_step agrees_param agrees_refl same same_jget)
next
  case False
  show ?thesis
  proof (cases "\<exists>xs. v = JList xs")
    case True
    then show ?thesis unfolding agrees_def using False
      by (auto simp: arg_of_literal literal_fits_def value_fits_def is_amount_def is_number_def is_count_def
          split: var_kind.splits)
  next
    case scalar: False
    with False same have "v = w" by (cases v) auto
    with False same_obj [OF same] show ?thesis unfolding agrees_def by (auto simp: arg_of_literal)
  qed
qed

lemmas agrees_count = agrees_arg [of _ _ _ "Count lo hi" for lo hi, unfolded arg_of_def var_kind.case]
lemmas agrees_amount = agrees_arg [of _ _ _ "Amount hi" for hi, unfolded arg_of_def var_kind.case]
lemmas agrees_number = agrees_arg [of _ _ _ Number, unfolded arg_of_def var_kind.case]

lemmas agreement = agrees_object_only agrees_step agrees_across agrees_clock agrees_count agrees_amount
  agrees_number agrees_param agrees_refl agrees_need same_jget same_get_or

lemma same_empty: "same_doc v w \<Longrightarrow> v = JObj [] \<Longrightarrow> w = JObj []"
  by (auto elim: same_objE)

lemma same_one_of: "same_doc v w \<Longrightarrow> one_of v names \<Longrightarrow> w = v"
  by (cases v) (auto simp: one_of_def)

lemma agrees_guard:
  "(b \<Longrightarrow> b') \<Longrightarrow> (b \<Longrightarrow> agrees P f g) \<Longrightarrow>
   agrees P (bindB (liftB (need b p r)) (\<lambda>_. f)) (bindB (liftB (need b' p' r')) (\<lambda>_. g))"
  unfolding agrees_def by simp

section \<open>Series\<close>

lemma agrees_atr:
  assumes same: "same_doc v w"
  shows "agrees (=) (atr_series ck v p) (atr_series ck w p)"
proof -
  have key: "has_key k v = has_key k w" for k by (rule same_has_key [OF same])
  have out: "jget ''smoothing'' w = jget ''smoothing'' v" if "one_of (jget ''smoothing'' v) names" for names
    using same_one_of [OF same_jget [OF same] that] .
  show ?thesis
    unfolding atr_series_def key
    by (intro agrees_guard agreement same) (auto simp: out intro: agrees_refl)
qed

lemma agrees_indicator:
  assumes same: "same_doc v w" and rec: "\<And>k p. agrees (=) (rec (jget k v) p) (rec' (jget k w) p)"
  shows "agrees (=) (indicator rec ck op spec v p) (indicator rec' ck op spec w p)"
proof -
  have params: "agrees (=) (forB (indicator_param ck v p m) ps) (forB (indicator_param ck w p m) ps)" for m ps
    by (rule agrees_loop)
      (auto simp: list.rel_refl indicator_param_def list_all2_same intro!: agreement same)
  have operand: "agrees (=)
      (if takes_series spec then rec (jget op v) (dot p op)
       else bindB (liftB (need (jget op v = JObj []) q r)) (\<lambda>_. retB (JObj [])))
      (if takes_series spec then rec' (jget op w) (dot p op)
       else bindB (liftB (need (jget op w = JObj []) q r)) (\<lambda>_. retB (JObj [])))" for q r
    using same_empty [OF same_jget [OF same]] rec by (auto intro!: agrees_guard agrees_refl)
  have out: "jget ''output'' w = jget ''output'' v" if "one_of (jget ''output'' v) names" for names
    using same_one_of [OF same_jget [OF same] that] .
  show ?thesis
    unfolding indicator_def
    by (intro agrees_guard agrees_object_only agrees_step agrees_across operand params same)
      (auto simp: out intro: agrees_refl)
qed

lemma agrees_usable:
  assumes same: "same_doc v w"
  shows "agrees (=) (liftB (usable_indicator ck v p)) (liftB (usable_indicator ck w p))"
proof (rule agrees_lift)
  fix x
  assume run: "usable_indicator ck v p = Inr x"
  then have "v = JStr (fst x)" using usable_Inr [of ck v p "fst x" "snd x"] by simp
  with same run show "\<exists>y. usable_indicator ck w p = Inr y \<and> x = y" by simp
qed

lemma agrees_library:
  assumes same: "same_doc v w"
    and rec: "\<And>k j p. agrees (=) (rec (jget k (jget j v)) p) (rec' (jget k (jget j w)) p)"
  shows "agrees (=) (library_node rec ck v p) (library_node rec' ck w p)"
proof -
  have params: "agrees (=) (forB (library_param ck x q m) ps) (forB (library_param ck y q m) ps)"
    if "same_doc x y" for x y q m ps
    by (rule agrees_loop) (auto simp: library_param_def list_all2_same intro!: agreement that)
  have empty: "same_doc (JObj []) (JObj [])" by (rule same_doc.members) simp_all
  have key: "has_key k (get_or j (JObj []) v) = has_key k (get_or j (JObj []) w)" for k j
    by (intro same_has_key same_get_or same empty)
  have inputs: "agrees (=)
      (forB (\<lambda>k. bindB (rec (jget k (jget ''inputs'' v)) (dot q k)) (\<lambda>s. retB (k, s))) ks)
      (forB (\<lambda>k. bindB (rec' (jget k (jget ''inputs'' w)) (dot q k)) (\<lambda>s. retB (k, s))) ks)" for q ks
    by (rule agrees_loop) (auto simp: list_all2_same intro!: agrees_step rec agrees_refl)
  have out: "same_doc (get_or ''output'' (if length os = 1 then JStr (hd os) else JNull) v)
      (get_or ''output'' (if length os = 1 then JStr (hd os) else JNull) w)" for os
    by (intro same_get_or same) simp
  have chosen: "get_or ''output'' (if length os = 1 then JStr (hd os) else JNull) w
      = get_or ''output'' (if length os = 1 then JStr (hd os) else JNull) v"
    if "one_of (get_or ''output'' (if length os = 1 then JStr (hd os) else JNull) v) os" for os
    using same_one_of [OF out that] .
  show ?thesis
    unfolding library_node_def Let_def key
    apply (rule agrees_object_only [OF same])
    apply (rule agrees_step_pair [OF agrees_usable [OF same_jget [OF same]]])
    apply (rule agrees_step [OF agrees_across [OF same]])
    apply (rule agrees_bind [OF agrees_object [OF same_jget [OF same]]])
    apply (rule agrees_step, erule params)
    apply (rule agrees_object_only)
    apply (rule same_get_or)
    apply (rule same)
    apply (rule empty)
    apply (rule agrees_step [OF inputs])
    apply (rule agrees_guard)
     apply (simp only: chosen)
    apply (simp only: chosen)
    apply (rule agrees_refl)
    done
qed

lemma agrees_plain:
  assumes same: "same_doc v w"
    and rec: "\<And>x y p. x \<in> set (json_parts v) \<Longrightarrow> same_doc x y \<Longrightarrow> agrees (=) (rec x p) (rec' y p)"
  shows "agrees (=) (plain_series rec ck op v p) (plain_series rec' ck op w p)"
proof -
  have self: "v \<in> set (json_parts v)" by (simp add: json_parts_def)
  have empty: "v = JObj [] \<Longrightarrow> w = JObj []" by (rule same_empty [OF same])
  have window: "agrees (=)
     (bindB (liftB (clock_of (jget ''from'' x) q1 a b s)) (\<lambda>start. bindB (liftB (clock_of (jget ''to'' x) q2 c d s)) (\<lambda>stop.
        bindB (liftB (clock_minutes start)) (\<lambda>m. bindB (liftB (clock_minutes stop)) (\<lambda>n.
        bindB (liftB (need (m < n) q3 (r start stop))) (\<lambda>_. retB (h start stop)))))))
     (bindB (liftB (clock_of (jget ''from'' y) q1 a b s)) (\<lambda>start. bindB (liftB (clock_of (jget ''to'' y) q2 c d s)) (\<lambda>stop.
        bindB (liftB (clock_minutes start)) (\<lambda>m. bindB (liftB (clock_minutes stop)) (\<lambda>n.
        bindB (liftB (need (m < n) q3 (r start stop))) (\<lambda>_. retB (h start stop)))))))"
    if "same_doc x y" for x y q1 q2 q3 a b c d s r and h :: "json \<Rightarrow> json \<Rightarrow> json"
    by (rule agrees_step, rule agrees_clock, rule same_jget, rule that,
        rule agrees_step, rule agrees_clock, rule same_jget, rule that, rule agrees_refl)
  show ?thesis
    unfolding plain_series_def
    apply (intro agrees_if)
          apply (rule agrees_step, rule agrees_param, rule same, rule agrees_refl)
         apply (rule agrees_pair_then, rule same)
         apply (rule agrees_step, erule rec, assumption)
         apply (rule agrees_step, erule (1) rec, rule agrees_refl)
        apply (rule agrees_step, rule rec [OF self same], rule agrees_refl)
       apply (rule agrees_step, rule agrees_atr, rule same, rule agrees_refl)
      apply (rule agrees_guard, erule empty, rule agrees_refl)
     apply (rule agrees_bind, rule agrees_object, rule same)
     apply (erule window)
    done
qed

lemma agrees_series: "same_doc v w \<Longrightarrow> agrees (=) (series ck v p) (series ck w p)"
proof (induction "size v" arbitrary: v w p rule: less_induct)
  case less
  note same = less.prems
  show ?case
  proof (cases "is_scalar v")
    case True
    then have "w = v" using same by (cases v) (auto simp: is_scalar_def)
    then show ?thesis by (simp add: agrees_refl)
  next
    case False
    then have w: "\<not> is_scalar w" using same
      by (cases v) (auto simp: is_scalar_def same_list elim!: same_objE)
    have member: "same_doc (jget k v) (jget k w)" for k by (rule same_jget [OF same])
    have rec: "agrees (=) (series ck x q) (series ck y q)" if "size x < size v" "same_doc x y" for x y q
      by (rule less.hyps [OF that])
    show ?thesis
      unfolding series.simps [of ck v] series.simps [of ck w] Let_def if_not_P [OF False] if_not_P [OF w]
      apply (rule agrees_operator_then [OF same])
      subgoal for op
        apply (intro agrees_if)
             apply (rule agrees_object_only [OF same])
             apply (rule agrees_step, rule rec [OF size_jget_operator member], assumption)
             apply (rule agrees_step, rule agrees_count, rule member, rule agrees_refl)
            apply (rule agrees_object_only [OF same])
            apply (rule agrees_step, rule agrees_across [OF same])
            apply (rule agrees_step, rule agrees_count, rule member)
            apply (rule agrees_step, rule rec [OF size_jget_operator member], assumption, rule agrees_refl)
           apply (rule agrees_object_only [OF same])
           apply (rule agrees_step, rule agrees_clock, rule member)
           apply (rule agrees_step, rule rec [OF size_jget_operator member], assumption, rule agrees_refl)
          apply (rule agrees_indicator [OF same], rule rec [OF size_jget_operator member], assumption)
         apply (rule agrees_library [OF same], rule rec [OF size_inputs_operator], assumption)
         apply (rule same_jget, rule member)
        apply (rule agrees_object_only [OF same])
        apply (rule agrees_plain [OF member], erule rec [OF size_part_operator], assumption, assumption)
        done
      done
  qed
qed

section \<open>Conditions, sides, exits\<close>

lemma agrees_window: "same_doc v w \<Longrightarrow> agrees (=) (liftB (time_window ck v p)) (liftB (time_window ck w p))"
proof (rule agrees_lift)
  fix x
  assume same: "same_doc v w" and run: "time_window ck v p = Inr x"
  then obtain a b where v: "v = JList [a, b]" "clock_form (ck_first_end ck) SESSION_CLOSE_MINUTES (ck_step ck) a"
    "clock_form (ck_first_end ck) SESSION_CLOSE_MINUTES (ck_step ck) b"
    by (auto simp: time_window_def check_pair_def clock_of_Inr split: json.splits list.splits)
  with same have "w = v" by (auto simp: clock_form_def same_list list_all2_Cons1)
  with run show "\<exists>y. time_window ck w p = Inr y \<and> x = y" by simp
qed

lemma agrees_conditions:
  "same_doc v w \<Longrightarrow> agrees (\<lambda>xs ys. list_all2 same_doc xs ys \<and> conditions_of v p = Inr xs)
     (liftB (conditions_of v p)) (liftB (conditions_of w p))"
  by (rule agrees_lift) (auto simp: conditions_of_def same_list list_all2_Cons1 split: json.splits list.splits)

lemma agrees_condition: "same_doc v w \<Longrightarrow> agrees (=) (condition ck v p) (condition ck w p)"
proof (induction "size v" arbitrary: v w p rule: less_induct)
  case less
  note same = less.prems
  have member: "same_doc (jget k v) (jget k w)" for k by (rule same_jget [OF same])
  have rec: "agrees (=) (condition ck x q) (condition ck y q)" if "size x < size v" "same_doc x y" for x y q
    by (rule less.hyps [OF that])
  have junction: "agrees (=) (forB (\<lambda>(i, item). condition ck item (nth_path q i)) (enumerate 0 xs))
      (forB (\<lambda>(i, item). condition ck item (nth_path q i)) (enumerate 0 ys))"
    if "list_all2 same_doc xs ys" "\<And>x. x \<in> set xs \<Longrightarrow> size x < size v" for q xs ys
    using that by (intro agrees_loop) (auto simp: list_all2_conv_all_nth nth_enumerate_eq intro!: rec)
  have count: "is_count (jget op w) a b \<and> (case jget op w of JInt i \<Rightarrow> i mod s = 0 | _ \<Rightarrow> False)"
      "jget op w = jget op v"
    if "is_count (jget op v) a b \<and> (case jget op v of JInt i \<Rightarrow> i mod s = 0 | _ \<Rightarrow> False)" for op a b s
    using that member [of op] by (auto simp: is_count_def split: json.splits)
  show ?case
    unfolding condition.simps [of ck v] condition.simps [of ck w] Let_def
    apply (rule agrees_operator_then [OF same])
    apply (rule agrees_object_only [OF same])
    subgoal for op
      apply (intro agrees_if)
           apply (rule agrees_pair_then, rule member)
           apply (rule agrees_step, erule agrees_series, rule agrees_step, erule agrees_series, rule agrees_refl)
          apply (rule agrees_bind, rule agrees_conditions, rule member)
          apply (rule agrees_step, rule junction, erule conjunct1, erule conditions_of_size, erule conjunct2)
           apply assumption
          apply (rule agrees_refl)
         apply (rule agrees_step, rule rec [OF size_jget_operator member], assumption, rule agrees_refl)
        apply (rule agrees_guard, erule count(1), drule count(2), simp only: agrees_refl)
       apply (rule agrees_step, rule agrees_clock, rule member, rule agrees_refl)
      apply (rule agrees_step, rule agrees_window, rule member, rule agrees_refl)
      done
    done
qed

lemma agrees_side:
  assumes same: "same_doc v w"
  shows "agrees (=) (side ck v p) (side ck w p)"
proof (cases "\<exists>k x. v = JObj [(k, x)]")
  case True
  then obtain k x where v: "v = JObj [(k, x)]" by blast
  from same_keys [OF same] same_distinct [OF same] same_obj [OF same] v
  obtain kvs where w: "w = JObj kvs" "set (map fst kvs) = {k}" "distinct (map fst kvs)"
    by (cases w) auto
  then have "map fst kvs = [k]" by (intro singleton_list)
  then obtain y where y: "w = JObj [(k, y)]" using w(1) by auto
  have "same_doc x y" using same_jget [OF same, of k] by (simp add: v y)
  then show ?thesis
    unfolding v y side_def Let_def
    by (simp only: json.case list.case prod.case)
      (rule agrees_if, rule agrees_step, erule agrees_series, rule agrees_refl, rule agrees_raise)
next
  case False
  show ?thesis
  proof (cases "\<exists>s. v = JStr s")
    case True
    with same show ?thesis by (auto intro: agrees_refl)
  next
    case no: False
    with False have "side ck v p u \<noteq> Inr z" for u z
      unfolding side_def Let_def by (cases v) (auto split: list.splits)
    then show ?thesis by (simp add: agrees_def)
  qed
qed

lemma agrees_distance:
  assumes same: "same_doc v w"
  shows "agrees (=) (distance ck v p stop) (distance ck w p stop)"
proof -
  have member: "same_doc (jget k v) (jget k w)" for k by (rule same_jget [OF same])
  have true: "jget k v = JBool True \<Longrightarrow> jget k w = JBool True" for k using member [of k] by simp
  show ?thesis
    unfolding distance_def Let_def
    apply (rule agrees_operator_then [OF same])
    apply (rule agrees_object_only [OF same])
    subgoal for kind
      apply (cases "map_of STOP_ONLY_KINDS kind"; simp only: option.case)
       apply (intro agrees_if)
        apply (rule agrees_bind, rule agrees_object, rule member)
        apply (rule agrees_step, rule agrees_count, erule same_jget)
        apply (rule agrees_step, rule agrees_amount, erule same_jget, rule agrees_refl)
       apply (rule agrees_step, rule agrees_amount, rule member, rule agrees_refl)
      apply (rule agrees_step, rule agrees_refl)
      apply (intro agrees_if)
       apply (rule agrees_guard, erule true, rule agrees_refl)
      apply (rule agrees_step)
       apply (intro agrees_if, rule agrees_series, rule member, rule agrees_amount, rule member)
      apply (rule agrees_refl)
      done
    done
qed

lemma agrees_entry:
  "same_doc v w \<Longrightarrow> agrees (=) m m' \<Longrightarrow> agrees (=) (entry k v m) (entry k w m')"
  by (simp add: entry_def same_has_key) (auto intro: agrees_step agrees_refl)

lemma same_sorted_keys: "same_doc v w \<Longrightarrow> sort (remdups (obj_keys v)) = sort (remdups (obj_keys w))"
  using same_keys by (metis sorted_list_of_set_sort_remdups)

lemma agrees_exit_when:
  assumes same: "same_doc v w"
  shows "agrees (=) (exit_when ck v p) (exit_when ck w p)"
proof -
  have "obj_keys v \<noteq> [] \<Longrightarrow> obj_keys w \<noteq> []" using same_keys [OF same] by auto
  moreover have "agrees (=)
      (forB (\<lambda>key. bindB (condition ck (jget key v) (dot p key)) (\<lambda>c. retB (key, c))) ks)
      (forB (\<lambda>key. bindB (condition ck (jget key w) (dot p key)) (\<lambda>c. retB (key, c))) ks)" for ks
    by (rule agrees_loop)
      (auto simp: list_all2_same intro!: agrees_step agrees_condition same_jget same agrees_refl)
  ultimately show ?thesis
    unfolding exit_when_def same_sorted_keys [OF same]
    by (intro agrees_object_only agrees_guard agrees_step agrees_refl same) auto
qed

lemma agrees_exit:
  assumes same: "same_doc v w"
  shows "agrees (=) (exit_rules ck v p flat) (exit_rules ck w p flat)"
proof -
  have member: "same_doc (jget k v) (jget k w)" for k by (rule same_jget [OF same])
  have opposite: "get_or k (JBool False) w = get_or k (JBool False) v"
    if "get_or k (JBool False) v = JBool True \<or> get_or k (JBool False) v = JBool False" for k
    using that same_get_or [OF same, of "JBool False" "JBool False" k] by auto
  have stops: "agrees (=) (forB (\<lambda>key. entry key v (distance ck (jget key v) (dot p key) key)) ks)
      (forB (\<lambda>key. entry key w (distance ck (jget key w) (dot p key) key)) ks)" for ks
    by (rule agrees_loop) (auto simp: list_all2_same intro!: agrees_entry agrees_distance member same)
  show ?thesis
    unfolding exit_rules_def Let_def
    apply (rule agrees_object_only [OF same])
    apply (rule agrees_step, rule agrees_entry [OF same], rule agrees_count, rule member)
    apply (rule agrees_step, rule agrees_entry [OF same], rule agrees_clock, rule member)
    apply (rule agrees_guard, simp only: opposite)
    apply (simp only: opposite)
    apply (rule agrees_step, rule stops)
    apply (rule agrees_step, rule agrees_refl)
    apply (rule agrees_step, rule agrees_refl)
    apply (rule agrees_step, rule agrees_entry [OF same], rule agrees_exit_when, rule member)
    apply (rule agrees_refl)
    done
qed

section \<open>Specs\<close>

lemma agrees_signal:
  assumes same: "same_doc v w"
  shows "agrees (=) (signal ck v p) (signal ck w p)"
  unfolding signal_def
  by (intro agrees_object_only agrees_step agrees_condition agrees_side agrees_refl same_jget same)

lemma agrees_equal:
  "(\<And>x. r v = Inr x \<Longrightarrow> \<not> is_obj v \<and> (\<forall>xs. v \<noteq> JList xs)) \<Longrightarrow> same_doc v w \<Longrightarrow> agrees (=) (liftB (r v)) (liftB (r w))"
  by (rule agrees_lift) (auto elim: same_doc.cases)

lemma liftB_bind: "liftB (bindR m f) = bindB (liftB m) (\<lambda>x. liftB (f x))"
  by (rule ext) (simp add: bindB_def liftB_def bindR_def split: sum.splits)

lemma agrees_header:
  assumes same: "same_doc v w"
  shows "agrees (=) (liftB (spec_header ck v)) (liftB (spec_header ck w))"
proof -
  have member: "same_doc (jget k v) (jget k w)" for k by (rule same_jget [OF same])
  have eq_text: "json_eq (jget k a) (JStr s) \<Longrightarrow> same_doc a b \<Longrightarrow> json_eq (jget k b) (JStr s)" for k s a b
    using same_jget [of a b k] by (cases "jget k a") (auto simp: number_of_def)
  have bar: "agrees (=) (liftB (check_bar (jget k v) p)) (liftB (check_bar (jget k w) p))" for k p
    using member [of k] by (intro agrees_lift) (auto simp: check_bar_def split: json.splits)
  have tick: "agrees (=) (liftB (is_amount (jget k v) m)) (liftB (is_amount (jget k w) m))" for k m
    using member [of k] same_obj [OF member, of k]
    by (cases "jget k v") (auto simp: is_amount_def is_number_def same_list agrees_refl is_obj_def split: json.splits)
  have session: "agrees (=) (liftB (check_session (jget k v) p)) (liftB (check_session (jget k w) p))" for k p
    unfolding check_session_def liftB_bind
    by (rule agrees_bind, rule agrees_object, rule member, rule agrees_step, rule agrees_lift)
      (auto simp: SUPPORTED_SESSION_def intro: eq_text agrees_refl)
  have flat: "agrees (=)
      (liftB (if has_key k v then bindR (clock_of (jget k v) q a b s) (\<lambda>v. Inr [(k, v)]) else Inr []))
      (liftB (if has_key k w then bindR (clock_of (jget k w) q a b s) (\<lambda>v. Inr [(k, v)]) else Inr []))" for k q a b s
    using member [of k] same_has_key [OF same, of k]
    by (intro agrees_lift) (auto simp: clock_of_Inr clock_form_def split: if_splits)
  show ?thesis
    unfolding spec_header_def Let_def liftB_bind
    apply (rule agrees_object_only [OF same])
    apply (rule agrees_guard, erule eq_text [OF _ same])
    apply (rule agrees_step, rule bar)
    apply (rule agrees_step, rule agrees_refl)
    apply (rule agrees_step, rule tick)
    apply (rule agrees_step, rule agrees_refl)
    apply (rule agrees_step, rule session)
    apply (rule agrees_step, rule flat [unfolded liftB_bind])
    apply (rule agrees_refl)
    done
qed

lemma header_tick:
  assumes "spec_header ck v = Inr x" and "same_doc v w"
  shows "jget ''tick_size'' w = jget ''tick_size'' v"
proof -
  from assms(1) have "is_amount (jget ''tick_size'' v) None = Inr True"
    unfolding spec_header_def Let_def bindR_Inr_iff need_Inr by auto
  with same_jget [OF assms(2), of "''tick_size''"] show ?thesis
    by (auto simp: is_amount_def is_number_def split: json.splits)
qed

lemma agrees_header_tick:
  "same_doc v w \<Longrightarrow> agrees (\<lambda>x y. x = y \<and> jget ''tick_size'' w = jget ''tick_size'' v)
     (liftB (spec_header ck v)) (liftB (spec_header ck w))"
  using agrees_header [of v w ck] header_tick [of ck v _ w] unfolding agrees_def by fastforce

lemma agrees_signals:
  "same_doc v w \<Longrightarrow> agrees (list_all2 same_doc) (liftB (signal_list v p)) (liftB (signal_list w p))"
  by (rule agrees_lift) (auto simp: signal_list_def same_list list_all2_Cons1 split: json.splits list.splits)

lemma same_strings: "list_all2 same_doc xs ys \<Longrightarrow> \<forall>x \<in> set xs. one_of x names \<Longrightarrow> ys = xs"
  by (induction xs ys rule: list_all2_induct) (auto dest: same_one_of)

lemma same_skip_days: "same_doc v w \<Longrightarrow> skip_days_ok v \<Longrightarrow> w = v"
  by (cases v) (auto simp: skip_days_ok_def same_list dest: same_strings)

lemma same_count: "same_doc v w \<Longrightarrow> is_count v a b \<Longrightarrow> w = v"
  by (cases v) (auto simp: is_count_def)

lemma agrees_spec:
  assumes same: "same_doc v w"
  shows "agrees (=) (rule_spec ck v) (rule_spec ck w)"
proof -
  have member: "same_doc (jget k v) (jget k w)" for k by (rule same_jget [OF same])
  have key: "has_key k v = has_key k w" for k by (rule same_has_key [OF same])
  have empty: "same_doc (JObj []) (JObj [])" by (rule same_doc.members) simp_all
  have sigs: "agrees (=) (forB (\<lambda>(i, v). signal ck v (nth_path q i)) (enumerate 0 xs))
      (forB (\<lambda>(i, v). signal ck v (nth_path q i)) (enumerate 0 ys))" if "list_all2 same_doc xs ys" for ck q xs ys
    using that by (intro agrees_loop) (auto simp: list_all2_conv_all_nth nth_enumerate_eq intro!: agrees_signal)
  have trades: "jget k w = jget k v" if "is_count (jget k v) a b" for k a b
    by (rule same_count [OF member that])
  have skips: "has_key k w \<longrightarrow> skip_days_ok (jget k w)" "has_key k w \<Longrightarrow> jget k w = jget k v"
    if "has_key k w \<longrightarrow> skip_days_ok (jget k v)" for k
    using that same_skip_days [OF member, of k] by auto
  have tail: "(if has_key k w \<and> jget k w \<noteq> JList [] then [(k, jget k w)] else [])
      = (if has_key k w \<and> jget k v \<noteq> JList [] then [(k, jget k v)] else [])"
    if "has_key k w \<longrightarrow> skip_days_ok (jget k v)" for k
    using skips(2) [OF that] by auto
  show ?thesis
    unfolding rule_spec_def Let_def key
    apply (rule agrees_bind [OF agrees_header_tick [OF same]])
    apply (clarsimp split del: if_split)
    apply (rule agrees_bind [OF agrees_signals [OF member]])
    apply (rule agrees_step, erule sigs)
    apply (rule agrees_guard, simp only: trades)
    apply (rule agrees_guard, erule skips(1))
    apply (rule agrees_step, rule agrees_refl)
    apply (rule agrees_step, rule agrees_exit, rule same_get_or [OF same empty])
    apply (simp only: trades tail agrees_refl)
    done
qed

section \<open>Size and the whole check\<close>

lemma children_of_keys:
  assumes "distinct (map fst kvs)"
  shows "map snd kvs = map (\<lambda>k. jget k (JObj kvs)) (map fst kvs)"
  using assms by (auto simp: map_of_eq_Some_iff [THEN iffD2])

lemma same_node_count: "same_doc v w \<Longrightarrow> node_count v = node_count w"
proof (induction rule: same_doc.induct)
  case (elements xs ys)
  then have "map node_count xs = map node_count ys" by (intro nth_equalityI) auto
  then show ?case by (simp add: node_count.simps [of "JList _"] json_children_def)
next
  case (members kvs kvs')
  have count: "node_count (JObj ms) = 1 + (\<Sum>k \<in> set (map fst ms). node_count (jget k (JObj ms)))"
    if "distinct (map fst ms)" for ms
    using sum_list_distinct_conv_sum_set [OF that, of "\<lambda>k. node_count (jget k (JObj ms))"] children_of_keys [OF that]
    by (simp add: node_count.simps [of "JObj ms"] json_children_def comp_def del: jget.simps map_eq_conv)
  show ?case
    using members(3,4) by (simp only: count [OF members(1)] count [OF members(2)])
qed simp

lemma same_children:
  assumes "same_doc v w" and "c \<in> set (json_children v)"
  obtains c' where "c' \<in> set (json_children w)" "same_doc c c'"
  using assms(1)
proof cases
  case (elements xs ys)
  from assms(2) obtain i where "i < length xs" "c = xs ! i" by (auto simp: elements(1) json_children_def in_set_conv_nth)
  with elements show ?thesis by (intro that [of "ys ! i"]) (simp_all add: json_children_def)
next
  case (members kvs kvs')
  from assms(2) obtain k where k: "(k, c) \<in> set kvs" by (auto simp: members(1) json_children_def)
  then have "k \<in> set (map fst kvs')" using members(5) by force
  then obtain c' where c': "(k, c') \<in> set kvs'" by auto
  from k c' members(3,4,6) have "same_doc c c'"
    by (auto simp: map_of_eq_Some_iff [THEN iffD2] dest: spec [of _ k])
  with c' show ?thesis by (intro that [of c']) (auto simp: members(2) json_children_def intro: rev_image_eqI)
next
  case scalar
  then have "json_children v = []" by (cases v) (auto simp: json_children_def)
  with assms(2) show ?thesis by simp
qed

lemma same_nesting: "same_doc v w \<Longrightarrow> nesting v \<le> n \<Longrightarrow> nesting w \<le> n"
proof (induction n arbitrary: v w)
  case 0
  then show ?case by (simp add: nesting.simps [of v])
next
  case (Suc n)
  have "nesting c \<le> n" if c: "c \<in> set (json_children w)" for c
  proof -
    from same_children [OF same_sym [OF Suc.prems(1)] c] obtain b where "b \<in> set (json_children v)" "same_doc b c"
      by (blast intro: same_sym)
    with Suc.prems(2) Suc.IH show ?thesis by (auto simp: nesting_le)
  qed
  then show ?case by (simp add: nesting_le)
qed

lemma same_check_size: "same_doc v w \<Longrightarrow> check_size v = Inr () \<longleftrightarrow> check_size w = Inr ()"
  using same_node_count [of v w] same_nesting [of v w] same_nesting [of w v] same_sym [of v w]
  by (auto simp: check_size_nesting)

lemma validate_same:
  assumes "same_doc v w" and "validate_rule_spec lib v vars = Inr n"
  shows "validate_rule_spec lib w vars = Inr n"
proof -
  from assms(2) obtain table ck used where t: "is_obj v" "check_size v = Inr ()" "variable_table vars = Inr table"
    "new_checker table lib = Inr ck" "rule_spec ck v {} = Inr (n, used)" "fst ` set table \<subseteq> used" "grid_ok table"
    by (auto simp: validate_rule_spec_Inr)
  have "rule_spec ck w {} = Inr (n, used)" using agrees_spec [OF assms(1), of ck] t(5) by (simp add: agrees_def)
  with t same_obj [OF assms(1)] same_check_size [OF assms(1)] show ?thesis
    by (auto simp: validate_rule_spec_Inr)
qed

end
