(* ===== verification/Rule_Keys.thy ===== *)
theory Rule_Keys
  imports Rule_Order
begin

text \<open>A sentence of the grammar is a Python value: none of its objects repeats a key.\<close>

lemma arg_keys: "arg_form ck kind v \<Longrightarrow> distinct_keys v"
  using literal_not_obj [of kind v]
  by (cases v) (auto simp: arg_form_def literal_fits_def value_fits_def is_amount_def is_number_def is_count_def
      split: var_kind.splits)

lemma clock_keys: "clock_form a b s v \<Longrightarrow> distinct_keys v"
  by (auto simp: clock_form_def)

lemma params_keys: "params_form ck kind_of ps kvs \<Longrightarrow> \<forall>kv \<in> set kvs. distinct_keys (snd kv)"
  unfolding params_form_def by (induction ps kvs rule: list_all2_induct) (auto intro: arg_keys)

lemma atr_keys: "atr_form ck v \<Longrightarrow> distinct_keys v"
  by (auto simp: atr_form_def flag_kvs_def intro: arg_keys)

lemma entries_keys:
  assumes "entries_form keys P kvs" "distinct keys" "\<And>k v. P k v \<Longrightarrow> distinct_keys v"
  shows "distinct (map fst kvs)" "\<forall>kv \<in> set kvs. distinct_keys (snd kv)"
proof -
  from assms(1) have keys: "map fst kvs = filter (\<lambda>k. k \<in> fst ` set kvs) keys" by (simp add: entries_form_def)
  show "distinct (map fst kvs)" using assms(2) by (subst keys) simp
  show "\<forall>kv \<in> set kvs. distinct_keys (snd kv)" using assms(1,3) by (auto simp: entries_form_def)
qed

lemma operator_keys:
  "op \<in> set ROLLING_OPERATORS \<Longrightarrow> op \<noteq> ''length'' \<and> op \<noteq> ''across_sessions''"
proof -
  have "\<forall>op \<in> set ROLLING_OPERATORS. op \<noteq> ''length'' \<and> op \<noteq> ''across_sessions''" by code_simp
  then show "op \<in> set ROLLING_OPERATORS \<Longrightarrow> op \<noteq> ''length'' \<and> op \<noteq> ''across_sessions''" by blast
qed

lemma series_keys:
  assumes "library_wf (ck_library ck)"
  shows "series_form ck n \<Longrightarrow> distinct_keys n"
proof (induction n rule: series_form.induct)
  case (rolling op s across n)
  then show ?case using operator_keys [OF rolling(1)] by (auto intro: arg_keys)
next
  case (indicator op spec operand across params out)
  from catalogue indicator(1) have cat: "distinct (op # map fst (is_params spec) @ [''across_sessions'', ''output''])"
    by blast
  have out: "map fst out = (if is_outputs spec = [] then [] else [''output''])" "\<forall>kv \<in> set out. distinct_keys (snd kv)"
    using \<open>output_form (is_outputs spec) out\<close> by (auto simp: output_form_def split: if_splits)
  have "distinct_keys operand" using indicator by (auto split: if_splits)
  moreover have "distinct (map fst ((op, operand) # params @ flag_kvs across @ out))"
    using cat by (auto simp: params_form_keys [OF \<open>params_form ck _ (is_params spec) params\<close>] out(1) flag_kvs_def)
  ultimately show ?case using params_keys [OF \<open>params_form ck _ (is_params spec) params\<close>] out(2)
    by (auto simp: flag_kvs_def)
next
  case (library name spec across params inputs s)
  note names = library_entry_names [OF library(1) assms]
  have "distinct (map fst inputs)" using library(3) names by (metis distinct_filter)
  moreover have "distinct (map fst params)" using names by (simp add: params_form_keys [OF library(2)])
  ultimately show ?case using library params_keys [OF library(2)] by auto
qed (auto simp: clock_keys arg_keys atr_keys)

lemma condition_keys:
  assumes "library_wf (ck_library ck)"
  shows "condition_form ck n \<Longrightarrow> distinct_keys n"
  by (induction n rule: condition_form.induct) (auto simp: series_keys [OF assms] clock_keys)

lemma side_keys:
  assumes "library_wf (ck_library ck)"
  shows "side_form ck n \<Longrightarrow> distinct_keys n"
  by (induction n rule: side_form.induct) (auto simp: series_keys [OF assms])

lemma distance_keys:
  assumes "library_wf (ck_library ck)"
  shows "distance_form ck stop n \<Longrightarrow> distinct_keys n"
  by (induction stop n rule: distance_form.induct) (auto simp: series_keys [OF assms] arg_keys)

lemma entry_keys: "entry_form k P kvs \<Longrightarrow> (\<And>v. P v \<Longrightarrow> distinct_keys v) \<Longrightarrow>
    distinct (map fst kvs) \<and> (\<forall>kv \<in> set kvs. distinct_keys (snd kv))"
  by (auto simp: entry_form_def)

lemma apart: "X \<subseteq> {x} \<Longrightarrow> x \<notin> Y \<Longrightarrow> X \<inter> Y = {}"
  by blast

lemma distinct_parts:
  assumes "distinct (map fst A)" "distinct (map fst B)" "distinct (map fst S)" "distinct (map fst W)"
    and A: "fst ` set A \<subseteq> {a}" and B: "fst ` set B \<subseteq> {b}" and W: "fst ` set W \<subseteq> {w}" and S: "fst ` set S \<subseteq> T"
    and T: "T \<inter> {a, b, c, w} = {}" and apart_keys: "distinct [a, b, c, w]"
  shows "distinct (map fst (A @ B @ [(c, v)] @ S @ W))"
proof -
  have rest: "x \<notin> fst ` set S" if "x \<in> {a, b, c, w}" for x using S T that by blast
  have w: "x \<notin> fst ` set W" if "x \<noteq> w" for x using W that by blast
  have "fst ` set W \<inter> fst ` set S = {}" by (rule apart [OF W]) (simp add: rest)
  moreover have "fst ` set A \<inter> (fst ` set B \<union> ({c} \<union> (fst ` set S \<union> fst ` set W))) = {}"
    using rest w B apart_keys by (intro apart [OF A]) auto
  moreover have "fst ` set B \<inter> ({c} \<union> (fst ` set S \<union> fst ` set W)) = {}"
    using rest w apart_keys by (intro apart [OF B]) auto
  moreover have "c \<notin> fst ` set S \<union> fst ` set W" using rest w apart_keys by auto
  ultimately show ?thesis using assms(1-4) by (simp add: Int_commute)
qed

lemma exit_keys:
  assumes "library_wf (ck_library ck)" and "exit_form ck flat n"
  shows "distinct_keys n"
proof -
  from assms(2) obtain ab at_t b stops whens where
    n: "n = JObj (ab @ at_t @ [(''on_opposite_signal'', JBool b)] @ stops @ whens)"
    and ab: "entry_form ''after_bars'' (arg_form ck (Count 1 (if flat = None then MAX_WINDOW_BARS else ck_bars ck - 1))) ab"
    and at_t: "entry_form ''at_time'' (clock_form (ck_first_end ck + ck_step ck)
            (case flat of None \<Rightarrow> ck_last_exit ck | Some m \<Rightarrow> m) (ck_step ck)) at_t"
    and stops: "entries_form STOP_KEYS (distance_form ck) stops"
    and whens: "entry_form ''exit_when'' (sides_form ck) whens"
    unfolding exit_form_def by blast
  have sides: "distinct_keys v" if "sides_form ck v" for v
  proof -
    from that obtain sides where v: "v = JObj sides" and s: "entries_form [''long'', ''short''] (\<lambda>_. condition_form ck) sides"
      unfolding sides_form_def by blast
    show ?thesis using entries_keys [OF s] condition_keys [OF assms(1)] by (simp add: v)
  qed
  have keys: "distinct STOP_KEYS" "set STOP_KEYS \<inter> {''after_bars'', ''at_time'', ''on_opposite_signal'', ''exit_when''} = {}"
    by code_simp+
  have fixed: "distinct [''after_bars'', ''at_time'', ''on_opposite_signal'', ''exit_when'']" by code_simp
  have within: "set (map fst stops) \<subseteq> set STOP_KEYS"
    using stops unfolding entries_form_def by (metis filter_is_subset)
  have parts: "distinct (map fst ab) \<and> (\<forall>kv \<in> set ab. distinct_keys (snd kv))"
      "distinct (map fst at_t) \<and> (\<forall>kv \<in> set at_t. distinct_keys (snd kv))"
      "distinct (map fst whens) \<and> (\<forall>kv \<in> set whens. distinct_keys (snd kv))"
    by (rule entry_keys [OF ab], erule arg_keys, rule entry_keys [OF at_t], erule clock_keys,
        rule entry_keys [OF whens], erule sides)
  note stop = entries_keys [OF stops keys(1) distance_keys [OF assms(1)]]
  have "distinct (map fst (ab @ at_t @ [(''on_opposite_signal'', JBool b)] @ stops @ whens))"
    by (rule distinct_parts [OF _ _ stop(1) _ entry_form_keys [OF ab] entry_form_keys [OF at_t]
          entry_form_keys [OF whens] within [unfolded list.set_map] keys(2) fixed])
      (simp_all add: parts)
  with parts stop(2) show ?thesis by (simp only: n distinct_keys.simps set_append ball_Un) simp
qed

lemma spec_keys:
  assumes lib: "library_wf (ck_library ck0)" and form: "spec_form ck0 n"
  shows "distinct_keys n"
proof -
  from form obtain bar ck tick sigs ex trades flat_at skips where
    n: "n = JObj ([(''language'', JStr RULE_LANGUAGE), (''bar'', JStr bar), (''tick_size'', tick),
              (''session'', JObj (map (\<lambda>(k, v). (k, JStr v)) SUPPORTED_SESSION)), (''signals'', JList sigs),
              (''exit'', ex), (''max_trades_per_session'', trades)] @ flat_at @ skips)"
    and ck: "set_bar bar ck0 = Inr ck" and tick: "is_amount tick None = Inr True"
    and sigs: "\<forall>s \<in> set sigs. signal_form ck s" and ex: "exit_form ck (flat_minutes flat_at) ex"
    and trades: "is_count trades 1 (ck_bars ck)"
    and flat: "entry_form ''flat_at'' (clock_form (ck_first_end ck + ck_step ck) (ck_last_exit ck) (ck_step ck)) flat_at"
    and skips: "entry_form ''skip_days'' (\<lambda>v. skip_days_ok v \<and> v \<noteq> JList []) skips"
    unfolding spec_form_def by blast
  from set_bar_same [OF ck] lib have lib': "library_wf (ck_library ck)" by simp
  have signals: "distinct_keys s" if "s \<in> set sigs" for s
    using sigs that condition_keys [OF lib'] side_keys [OF lib'] by (auto simp: signal_form_def)
  have days: "distinct_keys v" if "skip_days_ok v \<and> v \<noteq> JList []" for v
    using that by (auto simp: skip_days_ok_def one_of_def split: json.splits)
  have parts: "distinct (map fst flat_at) \<and> (\<forall>kv \<in> set flat_at. distinct_keys (snd kv))"
      "distinct (map fst skips) \<and> (\<forall>kv \<in> set skips. distinct_keys (snd kv))"
    by (rule entry_keys [OF flat], erule clock_keys, rule entry_keys [OF skips], erule days)
  have scalars: "distinct_keys tick" "distinct_keys trades"
    using tick trades by (auto simp: is_amount_def is_number_def is_count_def split: json.splits)
  have "distinct_keys (JObj (map (\<lambda>(k, v). (k, JStr v)) SUPPORTED_SESSION))" by (simp add: SUPPORTED_SESSION_def)
  moreover have "distinct (map fst (flat_at @ skips)) \<and> set (map fst (flat_at @ skips)) \<inter>
      {''language'', ''bar'', ''tick_size'', ''session'', ''signals'', ''exit'', ''max_trades_per_session''} = {}"
    using flat skips by (auto simp: entry_form_def)
  ultimately show ?thesis using parts scalars signals exit_keys [OF lib' ex] by (simp add: n ball_Un)
qed

end
