(* ===== verification/Strategy_Models.thy ===== *)
theory Strategy_Models
  imports Py_Text
begin

text \<open>
  The typed models of strategies and the governance of their parameters: \<open>strategies/models.py\<close>,
  \<open>strategies/parameter_governance.py\<close> and the registry of \<open>strategies/__init__.py\<close>. The value of a
  setting is a \<open>setting\<close>, a float in it its number; messages leave out the values they print.
\<close>

section \<open>Settings\<close>

datatype setting = SNone | SBool bool | SInt int | SFloat py_float | SStr string

datatype value_type = Type_int | Type_float | Type_bool | Type_str

fun value_type_name :: "value_type \<Rightarrow> string" where
  "value_type_name Type_int = ''int''"
| "value_type_name Type_float = ''float''"
| "value_type_name Type_bool = ''bool''"
| "value_type_name Type_str = ''str''"

fun setting_type_name :: "setting \<Rightarrow> string" where
  "setting_type_name SNone = ''NoneType''"
| "setting_type_name (SBool _) = ''bool''"
| "setting_type_name (SInt _) = ''int''"
| "setting_type_name (SFloat _) = ''float''"
| "setting_type_name (SStr _) = ''str''"

text \<open>\<open>isinstance(value, value_type)\<close>: a \<open>bool\<close> is an \<open>int\<close>. Equality compares numbers across types.\<close>

fun is_instance :: "value_type \<Rightarrow> setting \<Rightarrow> bool" where
  "is_instance Type_int (SInt _) = True"
| "is_instance Type_int (SBool _) = True"
| "is_instance Type_float (SFloat _) = True"
| "is_instance Type_bool (SBool _) = True"
| "is_instance Type_str (SStr _) = True"
| "is_instance _ _ = False"

fun is_bool :: "setting \<Rightarrow> bool" where
  "is_bool (SBool _) = True"
| "is_bool _ = False"

fun setting_number :: "setting \<Rightarrow> py_float option" where
  "setting_number (SBool b) = Some (Fin (if b then 1 else 0))"
| "setting_number (SInt i) = Some (Fin (of_int i))"
| "setting_number (SFloat x) = Some x"
| "setting_number _ = None"

definition setting_eq :: "setting \<Rightarrow> setting \<Rightarrow> bool" where
  "setting_eq a b \<longleftrightarrow>
     (case (setting_number a, setting_number b) of
        (Some x, Some y) \<Rightarrow> num_eq x y
      | (None, None) \<Rightarrow> a = b
      | _ \<Rightarrow> False)"

definition setting_in :: "setting \<Rightarrow> setting list \<Rightarrow> bool" where
  "setting_in v vs \<longleftrightarrow> (\<exists>w \<in> set vs. setting_eq v w)"

text \<open>\<open>len(vs) == len(set(vs))\<close>: no two of them are equal.\<close>

fun settings_distinct :: "setting list \<Rightarrow> bool" where
  "settings_distinct [] = True"
| "settings_distinct (v # vs) = (\<not> setting_in v vs \<and> settings_distinct vs)"

definition number_less :: "py_float option \<Rightarrow> py_float option \<Rightarrow> exn + bool" where
  "number_less a b =
     (case (a, b) of
        (Some x, Some y) \<Rightarrow> Inr (num_less x y)
      | _ \<Rightarrow> Inl (TypeError ''< not supported between these values''))"

section \<open>Models\<close>

record strategy_identity =
  si_strategy_id :: string
  si_name :: string
  si_family :: string
  si_version :: string
  si_description :: string
  si_direction :: string

record data_requirements =
  dq_required_fields :: "string list"
  dq_supported_intervals :: "string list"
  dq_asset_classes :: "string list"
  dq_minimum_history_bars :: int
  dq_adjusted_prices :: "bool option"

record parameter_definition =
  pd_name :: string
  pd_value_type :: value_type
  pd_default :: setting
  pd_description :: string
  pd_optimizable :: bool
  pd_allowed_values :: "setting list option"
  pd_minimum :: "py_float option"
  pd_maximum :: "py_float option"
  pd_classification :: string
  pd_reference_value :: setting
  pd_source :: string
  pd_rationale :: string
  pd_structural :: bool
  pd_expected_grid_contribution :: "int option"
  pd_approval_state :: string

record trading_assumptions =
  ta_signal_timing :: string
  ta_execution_timing :: string
  ta_position_sizing :: string
  ta_fee_rate :: py_float
  ta_slippage_rate :: py_float
  ta_stop_loss :: "string option"
  ta_profit_target :: "string option"
  ta_maximum_holding_period :: "int option"
  ta_pyramiding :: bool
  ta_same_bar_limitation :: "string option"

record strategy_specification =
  sp_identity :: strategy_identity
  sp_data :: data_requirements
  sp_parameters :: "parameter_definition list"
  sp_assumptions :: trading_assumptions
  sp_hypothesis :: string
  sp_source :: string
  sp_approval_state :: string

definition candidate_values :: "parameter_definition \<Rightarrow> setting list" where
  "candidate_values d = (case pd_allowed_values d of None \<Rightarrow> [] | Some vs \<Rightarrow> vs)"

definition parameter_validate :: "parameter_definition \<Rightarrow> setting \<Rightarrow> exn + unit" where
  "parameter_validate d v =
     bindR (guardR (is_instance (pd_value_type d) v \<and> \<not> (pd_value_type d = Type_int \<and> is_bool v))
       (TypeError (pd_name d @ '' must be '' @ value_type_name (pd_value_type d) @ '', not ''
          @ setting_type_name v))) (\<lambda>_.
     bindR (guardR (case pd_allowed_values d of None \<Rightarrow> True | Some vs \<Rightarrow> setting_in v vs)
       (ValueError (pd_name d @ '' must be one of its allowed values''))) (\<lambda>_.
     bindR (case pd_minimum d of
              None \<Rightarrow> Inr False
            | Some m \<Rightarrow> number_less (setting_number v) (Some m)) (\<lambda>low.
     bindR (guardR (\<not> low) (ValueError (pd_name d @ '' must be at least its minimum''))) (\<lambda>_.
     bindR (case pd_maximum d of
              None \<Rightarrow> Inr False
            | Some m \<Rightarrow> number_less (Some m) (setting_number v)) (\<lambda>high.
     guardR (\<not> high) (ValueError (pd_name d @ '' must be at most its maximum'')))))))"

definition parameter_normalize :: "parameter_definition \<Rightarrow> setting \<Rightarrow> exn + setting" where
  "parameter_normalize d value =
     bindR (case value of
              SInt i \<Rightarrow>
                if pd_value_type d = Type_float then bindR (to_float (JInt i)) (\<lambda>x. Inr (SFloat x)) else Inr value
            | _ \<Rightarrow> Inr value) (\<lambda>v.
     bindR (parameter_validate d v) (\<lambda>_. Inr v))"

definition parameter_map :: "strategy_specification \<Rightarrow> (string \<times> parameter_definition) list" where
  "parameter_map spec = dict_of (map (\<lambda>d. (pd_name d, d)) (sp_parameters spec))"

definition reference_configuration :: "strategy_specification \<Rightarrow> (string \<times> setting) list" where
  "reference_configuration spec = dict_of (map (\<lambda>d. (pd_name d, pd_reference_value d)) (sp_parameters spec))"

section \<open>Governance of parameters\<close>

definition PARAMETER_CLASSIFICATIONS :: "string list" where
  "PARAMETER_CLASSIFICATIONS =
     [''fixed'', ''source_defined'', ''bounded_discrete'', ''local_sensitivity'', ''structural_choice'']"

definition APPROVAL_STATES :: "string list" where
  "APPROVAL_STATES = [''draft'', ''approved'', ''rejected'']"

definition require :: "bool \<Rightarrow> string \<Rightarrow> exn + unit" where
  "require b message = guardR b (ValueError message)"

text \<open>The part of \<open>validate_parameter_definition\<close> on the candidate values.\<close>

definition validate_candidates :: "parameter_definition \<Rightarrow> exn + unit" where
  "validate_candidates d =
     (let name = pd_name d; candidates = candidate_values d in
      if pd_optimizable d then
        bindR (require (candidates \<noteq> []) (name @ '': optimized parameter requires candidate values'')) (\<lambda>_.
        bindR (require (settings_distinct candidates) (name @ '': candidate values must be unique'')) (\<lambda>_.
        bindR (require (setting_in (pd_reference_value d) candidates)
          (name @ '': reference value must be included in candidate values'')) (\<lambda>_.
        require (pd_expected_grid_contribution d = Some (int (length candidates)))
          (name @ '': expected grid contribution must equal candidate count''))))
      else require (pd_expected_grid_contribution d \<in> {None, Some 1})
        (name @ '': non-optimized parameter grid contribution must be 1''))"

definition validate_parameter_definition :: "parameter_definition \<Rightarrow> bool \<Rightarrow> exn + unit" where
  "validate_parameter_definition d require_approved =
     (let name = pd_name d in
      bindR (require (pd_classification d \<in> set PARAMETER_CLASSIFICATIONS)
        (name @ '': invalid classification '' @ repr_str (pd_classification d))) (\<lambda>_.
      bindR (require (strip name \<noteq> []) ''Parameter name is required'') (\<lambda>_.
      bindR (require (pd_approval_state d \<in> set APPROVAL_STATES)
        (name @ '': invalid approval state '' @ repr_str (pd_approval_state d))) (\<lambda>_.
      bindR (require (strip (pd_source d) \<noteq> []) (name @ '': source is required'')) (\<lambda>_.
      bindR (require (strip (pd_rationale d) \<noteq> []) (name @ '': rationale is required'')) (\<lambda>_.
      bindR (require (setting_eq (pd_reference_value d) (pd_default d))
        (name @ '': default must equal the reference value'')) (\<lambda>_.
      bindR (require (require_approved \<longrightarrow> pd_approval_state d = ''approved'')
        (name @ '': parameter plan is not approved for execution'')) (\<lambda>_.
      bindR (validate_candidates d) (\<lambda>_.
      bindR (require (\<not> (pd_classification d = ''fixed'' \<and> pd_optimizable d))
        (name @ '': fixed parameter cannot be optimized'')) (\<lambda>_.
      if pd_classification d = ''structural_choice'' then
        bindR (require (pd_structural d) (name @ '': structural choice must be marked structural'')) (\<lambda>_.
        require (\<not> pd_optimizable d) (name @ '': structural choice cannot enter an ordinary grid''))
      else require (\<not> pd_structural d) (name @ '': structural parameter must use structural_choice'')))))))))))"

definition validate_parameter_plan :: "strategy_specification \<Rightarrow> bool \<Rightarrow> exn + unit" where
  "validate_parameter_plan spec require_approved =
     bindR (require (strip (sp_hypothesis spec) \<noteq> []) ''Strategy hypothesis is required'') (\<lambda>_.
     bindR (require (strip (sp_source spec) \<noteq> []) ''Strategy source is required'') (\<lambda>_.
     bindR (require (sp_approval_state spec \<in> set APPROVAL_STATES)
       (''Invalid strategy approval state: '' @ repr_str (sp_approval_state spec))) (\<lambda>_.
     bindR (require (require_approved \<longrightarrow> sp_approval_state spec = ''approved'')
       ''Strategy parameter plan is not approved for execution'') (\<lambda>_.
     bindR (require (distinct (map pd_name (sp_parameters spec))) ''Parameter names must be unique'') (\<lambda>_.
     bindR (mapR (\<lambda>d. validate_parameter_definition d require_approved) (sp_parameters spec)) (\<lambda>_.
     Inr ()))))))"

record grid_contribution =
  gc_name :: string
  gc_classification :: string
  gc_candidate_count :: nat

record plan_summary =
  ps_optimized_parameters :: "grid_contribution list"
  ps_total_combinations :: nat
  ps_fixed_parameters :: "string list"
  ps_fixed_parameter_count :: nat
  ps_structural_choice_parameters :: "string list"
  ps_warning_threshold :: int
  ps_warnings :: "string list"

definition summarize_parameter_plan :: "strategy_specification \<Rightarrow> int \<Rightarrow> bool \<Rightarrow> exn + plan_summary" where
  "summarize_parameter_plan spec warning_threshold require_approved =
     bindR (require (1 \<le> warning_threshold) ''warning_threshold must be positive'') (\<lambda>_.
     bindR (validate_parameter_plan spec require_approved) (\<lambda>_.
     let contributions = map (\<lambda>d. \<lparr>gc_name = pd_name d, gc_classification = pd_classification d,
           gc_candidate_count = length (candidate_values d)\<rparr>) (filter pd_optimizable (sp_parameters spec));
         total = prod_list (map gc_candidate_count contributions);
         structural = map pd_name (filter (\<lambda>d. pd_classification d = ''structural_choice'') (sp_parameters spec));
         fixed = map pd_name (filter (\<lambda>d. pd_classification d = ''fixed'') (sp_parameters spec)) in
     Inr \<lparr>ps_optimized_parameters = contributions, ps_total_combinations = total, ps_fixed_parameters = fixed,
       ps_fixed_parameter_count = length fixed, ps_structural_choice_parameters = structural,
       ps_warning_threshold = warning_threshold,
       ps_warnings =
         (if warning_threshold < int total
          then [''Grid has '' @ nat_str total @ '' combinations, exceeding the provisional warning threshold of ''
                @ int_str warning_threshold @ ''.''] else [])
         @ (if structural \<noteq> []
            then [''Structural choices are excluded from the ordinary parameter grid: '' @ commas structural]
            else [])\<rparr>))"

section \<open>Registry\<close>

text \<open>A strategy of the program: one written in Python, or one compiled from a rule definition.\<close>

datatype strategy_object = Built_in strategy_specification | Rule_compiled json strategy_specification

fun strategy_spec :: "strategy_object \<Rightarrow> strategy_specification" where
  "strategy_spec (Built_in spec) = spec"
| "strategy_spec (Rule_compiled _ spec) = spec"

definition strategy_id_of :: "strategy_object \<Rightarrow> string" where
  "strategy_id_of s = si_strategy_id (sp_identity (strategy_spec s))"

type_synonym registry = "(string \<times> strategy_object) list"

definition registry_register :: "strategy_object \<Rightarrow> (registry, unit) body" where
  "registry_register s =
     (\<lambda>reg. if strategy_id_of s \<in> fst ` set reg
       then Inl (ValueError (''Strategy ID already registered: '' @ strategy_id_of s))
       else Inr ((), reg @ [(strategy_id_of s, s)]))"

definition registry_get :: "registry \<Rightarrow> string \<Rightarrow> exn + strategy_object" where
  "registry_get reg strategy_id =
     (case map_of reg strategy_id of
        None \<Rightarrow> Inl (KeyError (''Unknown strategy ID: '' @ strategy_id))
      | Some s \<Rightarrow> Inr s)"

end
