(* ===== verification/Rule_Strategy.thy ===== *)
theory Rule_Strategy
  imports Rule_Language Strategy_Models
begin

text \<open>
  The strategy compiled from a rule spec: \<open>strategies/rule_spec_strategy.py\<close> up to the signals, which are
  computed on pandas frames. A definition is a document whose identity hashes its normalized rules and
  variables; it is installed once as a file and read back by identity. The files are a map from paths to
  texts, the registered strategies the dictionary \<open>_LOADED\<close>. The operations are steps: they return the
  store they leave also when they raise. What the disk answers to writing a file is an argument.
\<close>

section \<open>Definitions\<close>

definition RULE_COMPILER_VERSION :: string where "RULE_COMPILER_VERSION = ''1.0.0''"
definition RULE_STRATEGY_PREFIX :: string where "RULE_STRATEGY_PREFIX = ''rules_''"
definition RULE_STRATEGY_ROOT_ENV :: string where "RULE_STRATEGY_ROOT_ENV = ''QF_RULE_STRATEGY_ROOT''"
definition ARTIFACT_ROOT_ENV :: string where "ARTIFACT_ROOT_ENV = ''QUANT_FACTORY_ARTIFACT_ROOT''"

definition BACKTEST_APPROVAL_PROVENANCE :: string where
  "BACKTEST_APPROVAL_PROVENANCE =
     ''Owner standing policy 2026-10-13: auto-test every valid idea; backtesting only; '' @
     ''paper trading requires separate owner approval.''"

definition DEFINITION_KEYS :: "string list" where
  "DEFINITION_KEYS = [''strategy_id'', ''version'', ''rule_spec'', ''variables'']"
definition LEGACY_KEYS :: "string list" where
  "LEGACY_KEYS = [''candidate_id'', ''title'']"
definition REQUIRED_FIELDS :: "string list" where
  "REQUIRED_FIELDS = [''Open'', ''High'', ''Low'', ''Close'', ''Volume'']"
definition BAR_WORDS :: "(string \<times> string) list" where
  "BAR_WORDS = [(''1m'', ''one-minute''), (''5m'', ''five-minute'')]"

text \<open>\<open>json.dumps(..., sort_keys=True, allow_nan=False)\<close>: the canonical text, or a \<open>ValueError\<close>.\<close>

definition canonical_rule_spec_json :: "json \<Rightarrow> exn + string" where
  "canonical_rule_spec_json spec =
     (case normalize spec of
        Inl _ \<Rightarrow> Inl (ValueError ''Out of range float values are not JSON compliant'')
      | Inr sorted_copy \<Rightarrow> Inr (dumps sorted_copy))"

definition normalized_variable :: "string \<times> json \<Rightarrow> exn + string \<times> json" where
  \<open>normalized_variable kv =
     (case kv of (name, variable) \<Rightarrow>
        (case (if name = [] then JNull else values_of variable) of
           JList (x # xs) \<Rightarrow> Inr (name, JObj [(''values'', JList (x # xs))])
         | _ \<Rightarrow> Inl (RuleSpecError (dot ''variables'' name) ''must be an object with a non-empty "values" list'')))\<close>

definition normalized_variables :: "json \<Rightarrow> exn + (string \<times> json) list" where
  "normalized_variables variables =
     bindR (variable_table variables) (\<lambda>table. mapR normalized_variable (sort_key fst table))"

definition rule_strategy_definition ::
  "vectorbt option \<Rightarrow> (string \<Rightarrow> string) \<Rightarrow> json \<Rightarrow> json \<Rightarrow> exn + json" where
  "rule_strategy_definition lib sha rules variables =
     bindR (normalized_variables variables) (\<lambda>table.
     bindR (validate_rule_spec lib rules (JObj table)) (\<lambda>spec.
     bindR (canonical_rule_spec_json (JObj [(''compiler_version'', JStr RULE_COMPILER_VERSION),
       (''rule_spec'', spec), (''variables'', JObj table)])) (\<lambda>payload.
     Inr (JObj [(''strategy_id'', JStr (RULE_STRATEGY_PREFIX @ take 16 (sha payload))),
       (''version'', JStr RULE_COMPILER_VERSION), (''rule_spec'', spec), (''variables'', JObj table)]))))"

definition without_legacy_keys :: "json \<Rightarrow> json" where
  "without_legacy_keys d =
     (case d of JObj kvs \<Rightarrow> JObj (filter (\<lambda>kv. fst kv \<notin> set LEGACY_KEYS) kvs) | _ \<Rightarrow> d)"

definition checked_definition :: "vectorbt option \<Rightarrow> (string \<Rightarrow> string) \<Rightarrow> json \<Rightarrow> exn + json" where
  "checked_definition lib sha d0 =
     (let d = without_legacy_keys d0 in
     bindR (guardR (is_obj d \<and> set (obj_keys d) = set DEFINITION_KEYS)
       (ValueError (''A rule strategy definition must have exactly the keys ''
          @ py_repr (JList (map JStr (sort DEFINITION_KEYS)))))) (\<lambda>_.
     bindR (guardR (json_eq (jget ''version'' d) (JStr RULE_COMPILER_VERSION))
       (ValueError (''Rule strategy '' @ py_str (jget ''strategy_id'' d) @ '' was built for rule compiler ''
          @ py_repr (jget ''version'' d) @ ''; this compiler is '' @ RULE_COMPILER_VERSION))) (\<lambda>_.
     bindR (rule_strategy_definition lib sha (jget ''rule_spec'' d) (jget ''variables'' d)) (\<lambda>rebuilt.
     bindR (canonical_rule_spec_json rebuilt) (\<lambda>ours.
     bindR (canonical_rule_spec_json d) (\<lambda>theirs.
     bindR (guardR (ours = theirs)
       (ValueError (''Rule strategy definition '' @ py_repr (jget ''strategy_id'' d)
          @ '' does not match its normalized content; rebuild it with rule_strategy_definition''))) (\<lambda>_.
     Inr rebuilt)))))))"

section \<open>The specification\<close>

definition is_int :: "json \<Rightarrow> bool" where
  "is_int v \<longleftrightarrow> (case v of JInt _ \<Rightarrow> True | _ \<Rightarrow> False)"

definition candidate_settings :: "json list \<Rightarrow> exn + setting list" where
  "candidate_settings vs =
     (if \<forall>v \<in> set vs. is_int v then Inr (map (\<lambda>v. case v of JInt i \<Rightarrow> SInt i | _ \<Rightarrow> SNone) vs)
      else bindR (mapR to_float vs) (\<lambda>xs. Inr (map SFloat xs)))"

text \<open>The module's \<open>_parameter_definition\<close>; \<open>candidates[0]\<close> exists, since a variable has values.\<close>

definition rule_parameter :: "string \<Rightarrow> json list \<Rightarrow> exn + parameter_definition" where
  "rule_parameter name vs =
     bindR (candidate_settings vs) (\<lambda>candidates.
     let grid = 1 < length candidates in
     Inr \<lparr>pd_name = name, pd_value_type = (if \<forall>v \<in> set vs. is_int v then Type_int else Type_float),
       pd_default = hd candidates,
       pd_description = ''Candidate variable '' @ name @ '' referenced by the rule spec.'',
       pd_optimizable = grid, pd_allowed_values = Some candidates, pd_minimum = None, pd_maximum = None,
       pd_classification = (if grid then ''bounded_discrete'' else ''fixed''),
       pd_reference_value = hd candidates, pd_source = BACKTEST_APPROVAL_PROVENANCE,
       pd_rationale = ''Bounded values declared by the Candidate packet; the compiler never tunes them.'',
       pd_structural = False,
       pd_expected_grid_contribution = (if grid then Some (int (length candidates)) else None),
       pd_approval_state = ''approved''\<rparr>)"

definition describe :: "json \<Rightarrow> exn + string option" where
  "describe d =
     (case d of JNull \<Rightarrow> Inr None | _ \<Rightarrow> bindR (canonical_rule_spec_json d) (\<lambda>t. Inr (Some t)))"

definition describe_stop :: "json \<Rightarrow> exn + string option" where
  "describe_stop exits =
     bindR (describe (jget ''stop_loss'' exits)) (\<lambda>fixed.
     if \<not> has_key ''trailing_stop'' exits then Inr fixed
     else bindR (canonical_rule_spec_json (jget ''trailing_stop'' exits)) (\<lambda>t.
       let trailing = ''trailing '' @ t in
       Inr (Some (case fixed of None \<Rightarrow> trailing | Some f \<Rightarrow> f @ ''; '' @ trailing))))"

definition list_items :: "json \<Rightarrow> json list" where
  "list_items v = (case v of JList xs \<Rightarrow> xs | _ \<Rightarrow> [])"

definition signal_direction :: "json \<Rightarrow> string" where
  "signal_direction sig = (case jget ''side'' sig of JStr s \<Rightarrow> s | _ \<Rightarrow> ''both'')"

definition direction_of :: "json \<Rightarrow> string" where
  "direction_of spec =
     (let sides = remdups (map signal_direction (list_items (jget ''signals'' spec))) in
      if length sides = 1 then hd sides else ''both'')"

definition rule_parameters :: "json \<Rightarrow> exn + parameter_definition list" where
  "rule_parameters variables =
     (case variables of
        JObj table \<Rightarrow>
          mapR (\<lambda>kv. rule_parameter (fst kv) (list_items (jget ''values'' (snd kv)))) table
      | _ \<Rightarrow> Inl (TypeError ''variables must be an object''))"

definition rule_assumptions :: "json \<Rightarrow> string \<Rightarrow> exn + trading_assumptions" where
  "rule_assumptions spec bar_word =
     (let exits = jget ''exit'' spec in
     bindR (describe_stop exits) (\<lambda>stop.
     bindR (describe (jget ''take_profit'' exits)) (\<lambda>target.
     Inr \<lparr>ta_signal_timing = ''Completed '' @ bar_word
            @ '' regular-session bars; the first firing signal in list order wins'',
       ta_execution_timing = ''Next contiguous '' @ bar_word @ '' bar open'',
       ta_position_sizing = ''One contract; at most '' @ py_str (jget ''max_trades_per_session'' spec)
         @ '' entries per session'',
       ta_fee_rate = Fin 0, ta_slippage_rate = Fin 0, ta_stop_loss = stop, ta_profit_target = target,
       ta_maximum_holding_period = (case jget ''after_bars'' exits of JInt i \<Rightarrow> Some i | _ \<Rightarrow> None),
       ta_pyramiding = False,
       ta_same_bar_limitation = Some
         ''No same-bar entry and exit and no same-bar reversal; signals fill at the next open.''\<rparr>)))"

definition rule_specification :: "json \<Rightarrow> exn + strategy_specification" where
  "rule_specification d =
     (let spec = jget ''rule_spec'' d; bar = py_str (jget ''bar'' spec); strategy_id = py_str (jget ''strategy_id'' d) in
     bindR (bars_per_session bar) (\<lambda>bars.
     bindR (rule_parameters (jget ''variables'' d)) (\<lambda>params.
     bindR (case map_of BAR_WORDS bar of None \<Rightarrow> Inl (KeyError bar) | Some w \<Rightarrow> Inr w) (\<lambda>bar_word.
     bindR (rule_assumptions spec bar_word) (\<lambda>assumptions.
     Inr \<lparr>sp_identity = \<lparr>si_strategy_id = strategy_id, si_name = ''Rule strategy '' @ strategy_id,
         si_family = ''rule_spec'', si_version = py_str (jget ''version'' d),
         si_description = RULE_LANGUAGE @ '' rules compiled by rule compiler '' @ RULE_COMPILER_VERSION @ ''.'',
         si_direction = direction_of spec\<rparr>,
       sp_data = \<lparr>dq_required_fields = REQUIRED_FIELDS, dq_supported_intervals = [bar],
         dq_asset_classes = [''futures'', ''equity'', ''etf''], dq_minimum_history_bars = bars,
         dq_adjusted_prices = None\<rparr>,
       sp_parameters = params, sp_assumptions = assumptions,
       sp_hypothesis = ''Declarative '' @ RULE_LANGUAGE @ '' rules of strategy '' @ strategy_id
         @ '', backtested as submitted; no edge is claimed.'',
       sp_source = BACKTEST_APPROVAL_PROVENANCE, sp_approval_state = ''approved''\<rparr>)))))"

section \<open>Strategies\<close>

definition rule_spec_strategy :: "vectorbt option \<Rightarrow> (string \<Rightarrow> string) \<Rightarrow> json \<Rightarrow> exn + strategy_object" where
  "rule_spec_strategy lib sha d =
     bindR (checked_definition lib sha d) (\<lambda>checked.
     bindR (rule_specification checked) (\<lambda>spec.
     Inr (Rule_compiled checked spec)))"

definition validate_parameters :: "strategy_object \<Rightarrow> (string \<times> setting) list \<Rightarrow> exn + (string \<times> setting) list" where
  "validate_parameters s parameters =
     (let definitions = parameter_map (strategy_spec s); strategy_id = strategy_id_of s;
          unsupported = sort (filter (\<lambda>k. k \<notin> fst ` set definitions) (map fst parameters));
          missing = sort (filter (\<lambda>k. k \<notin> fst ` set parameters) (map fst definitions)) in
     bindR (require (unsupported = [])
       (''Unsupported parameter(s) for '' @ strategy_id @ '': '' @ commas unsupported)) (\<lambda>_.
     bindR (require (missing = []) (''Missing parameter(s) for '' @ strategy_id @ '': '' @ commas missing)) (\<lambda>_.
     mapR (\<lambda>(name, d). bindR (parameter_normalize d (the (map_of parameters name))) (\<lambda>v. Inr (name, v)))
       definitions)))"

section \<open>Installation\<close>

record rule_store =
  rs_loaded :: "(string \<times> strategy_object) list"
  rs_files :: "(string \<times> string) list"

definition rule_strategy_root :: "string option \<Rightarrow> string \<Rightarrow> string \<Rightarrow> string option" where
  "rule_strategy_root given configured_env artifacts_env =
     (case given of
        Some r \<Rightarrow> Some r
      | None \<Rightarrow>
          let configured = strip configured_env; artifacts = strip artifacts_env in
          if configured \<noteq> [] then Some configured
          else if artifacts \<noteq> [] then Some (artifacts @ ''/rule_strategies'') else None)"

definition definition_path :: "string \<Rightarrow> string \<Rightarrow> string" where
  "definition_path directory strategy_id = directory @ ''/'' @ strategy_id @ ''.json''"

definition remember :: "strategy_object \<Rightarrow> (rule_store, strategy_object) steps" where
  "remember s store =
     (case map_of (rs_loaded store) (strategy_id_of s) of
        Some first \<Rightarrow> (Inr first, store)
      | None \<Rightarrow> (Inr s, store\<lparr>rs_loaded := rs_loaded store @ [(strategy_id_of s, s)]\<rparr>))"

text \<open>
  Making the directory, filling a temporary file and \<open>os.replace\<close>: \<open>disk\<close> says for a path whether
  they succeed or what they raise. The replacement is atomic and the \<open>finally\<close> block removes the
  temporary file, so a write that raises leaves no file.
\<close>

definition write_file :: "(string \<Rightarrow> exn + unit) \<Rightarrow> string \<Rightarrow> string \<Rightarrow> (rule_store, unit) steps" where
  "write_file disk path t store =
     (case disk path of
        Inl e \<Rightarrow> (Inl e, store)
      | Inr _ \<Rightarrow> (Inr (), store\<lparr>rs_files := rs_files store @ [(path, t)]\<rparr>))"

text \<open>\<open>json.dumps(..., indent=2)\<close>: a member or element per line, indented by its depth.\<close>

definition newline :: "nat \<Rightarrow> string" where
  "newline n = CHR 0x0A # replicate (2 * n) (CHR '' '')"

fun pretty :: "nat \<Rightarrow> json \<Rightarrow> string"
  and pretty_elems :: "nat \<Rightarrow> json list \<Rightarrow> string"
  and pretty_members :: "nat \<Rightarrow> (string \<times> json) list \<Rightarrow> string" where
  "pretty n (JList []) = ''[]''"
| "pretty n (JList (x # xs)) = CHR ''['' # newline (Suc n) @ pretty_elems (Suc n) (x # xs)"
| "pretty n (JObj []) = ''{}''"
| "pretty n (JObj (kv # kvs)) = CHR ''{'' # newline (Suc n) @ pretty_members (Suc n) (kv # kvs)"
| "pretty n v = dumps v"
| "pretty_elems n [] = newline (n - 1) @ '']''"
| "pretty_elems n [x] = pretty n x @ newline (n - 1) @ '']''"
| "pretty_elems n (x # y # ys) = pretty n x @ CHR '','' # newline n @ pretty_elems n (y # ys)"
| "pretty_members n [] = newline (n - 1) @ ''}''"
| "pretty_members n [(k, v)] = str_lit k @ '': '' @ pretty n v @ newline (n - 1) @ ''}''"
| "pretty_members n ((k, v) # m # ms) =
     str_lit k @ '': '' @ pretty n v @ CHR '','' # newline n @ pretty_members n (m # ms)"

definition definition_text :: "json \<Rightarrow> exn + string" where
  "definition_text d =
     (case normalize d of
        Inl _ \<Rightarrow> Inl (ValueError ''Out of range float values are not JSON compliant'')
      | Inr sorted_copy \<Rightarrow> Inr (pretty 0 sorted_copy @ [CHR 0x0A]))"

definition read_installed :: "string \<Rightarrow> exn + string" where
  "read_installed t =
     (case json_loads t of
        None \<Rightarrow> Inl (ValueError ''JSONDecodeError'')
      | Some d \<Rightarrow> canonical_rule_spec_json (without_legacy_keys d))"

definition definition_of :: "strategy_object \<Rightarrow> json" where
  "definition_of s = (case s of Rule_compiled d _ \<Rightarrow> d | Built_in _ \<Rightarrow> JNull)"

definition install_rule_strategy ::
  "vectorbt option \<Rightarrow> (string \<Rightarrow> string) \<Rightarrow> (string \<Rightarrow> exn + unit) \<Rightarrow> string option \<Rightarrow> json \<Rightarrow>
   (rule_store, strategy_object) steps" where
  "install_rule_strategy lib sha disk directory d =
     andThen (askS (\<lambda>_. rule_spec_strategy lib sha d)) (\<lambda>s.
     case directory of
       None \<Rightarrow> askS (\<lambda>_. Inl (ValueError (''Set '' @ RULE_STRATEGY_ROOT_ENV @ '' or '' @ ARTIFACT_ROOT_ENV
         @ '', or pass root, to install rule strategies'')))
     | Some dir \<Rightarrow>
         let path = definition_path dir (strategy_id_of s) in
         andThen (askS (\<lambda>_. definition_text (definition_of s))) (\<lambda>t.
         andThen (askS (\<lambda>store. Inr (map_of (rs_files store) path))) (\<lambda>found.
         case found of
           Some t' \<Rightarrow>
             andThen (askS (\<lambda>_. case read_installed t' of
                 Inl e \<Rightarrow> Inl (if is_value_error e
                   then ValueError (''Installed rule strategy '' @ path @ '' is unreadable; it is never overwritten'')
                   else e)
               | Inr existing \<Rightarrow> Inr existing)) (\<lambda>existing.
             andThen (askS (\<lambda>_. canonical_rule_spec_json (definition_of s))) (\<lambda>ours.
             andThen (askS (\<lambda>_. guardR (existing = ours)
               (ValueError (''Rule strategy '' @ strategy_id_of s
                  @ '' is already installed with different content; it is immutable'')))) (\<lambda>_.
             remember s)))
         | None \<Rightarrow> andThen (write_file disk path t) (\<lambda>_. remember s))))"

definition is_strategy_id :: "string \<Rightarrow> bool" where
  "is_strategy_id s \<longleftrightarrow>
     length s = 22 \<and> take 6 s = RULE_STRATEGY_PREFIX \<and> (\<forall>c \<in> set (drop 6 s). c \<in> set ''0123456789abcdef'')"

definition load_rule_strategy ::
  "vectorbt option \<Rightarrow> (string \<Rightarrow> string) \<Rightarrow> string option \<Rightarrow> string \<Rightarrow> (rule_store, strategy_object) steps" where
  "load_rule_strategy lib sha directory strategy_id =
     andThen (askS (\<lambda>store. Inr (map_of (rs_loaded store) strategy_id))) (\<lambda>loaded.
     case loaded of
       Some s \<Rightarrow> askS (\<lambda>_. Inr s)
     | None \<Rightarrow>
         andThen (askS (\<lambda>store. Inr (case directory of
             None \<Rightarrow> None
           | Some dir \<Rightarrow> map_of (rs_files store) (definition_path dir strategy_id)))) (\<lambda>found.
         andThen (askS (\<lambda>_. case (is_strategy_id strategy_id, found) of
             (True, Some t) \<Rightarrow> Inr t
           | _ \<Rightarrow> Inl (KeyError (''Unknown strategy ID: '' @ strategy_id)))) (\<lambda>t.
         andThen (askS (\<lambda>_. case json_loads t of
             None \<Rightarrow> Inl (ValueError ''JSONDecodeError'')
           | Some d \<Rightarrow> rule_spec_strategy lib sha d)) (\<lambda>s.
         andThen (askS (\<lambda>_. guardR (strategy_id_of s = strategy_id)
           (ValueError (''Rule strategy file '' @ definition_path (case directory of None \<Rightarrow> '''' | Some dir \<Rightarrow> dir) strategy_id
              @ '' holds '' @ strategy_id_of s @ '', not '' @ strategy_id)))) (\<lambda>_.
         remember s)))))"

definition get_strategy ::
  "registry \<Rightarrow> vectorbt option \<Rightarrow> (string \<Rightarrow> string) \<Rightarrow> string option \<Rightarrow> string \<Rightarrow> (rule_store, strategy_object) steps" where
  "get_strategy reg lib sha directory strategy_id =
     (case registry_get reg strategy_id of
        Inr s \<Rightarrow> askS (\<lambda>_. Inr s)
      | Inl e \<Rightarrow>
          if prefix RULE_STRATEGY_PREFIX strategy_id then load_rule_strategy lib sha directory strategy_id
          else askS (\<lambda>_. Inl e))"

end
