(* ===== verification/Rule_Identity.thy ===== *)
theory Rule_Identity
  imports Rule_Keys Rule_Strategy
begin

text \<open>
  The identity of a rule strategy: how a definition depends on the spec and its variables, when the
  checker of definitions accepts one, and what a definition read back from its file yields.
\<close>

section \<open>Sorted copies of equal documents\<close>

lemma mapR_cases: "(\<exists>ys. mapR f xs = Inr ys) \<longleftrightarrow> (\<forall>x \<in> set xs. \<exists>y. f x = Inr y)"
  by (induction xs) auto

lemma normalize_members:
  "(\<exists>k. normalize (JObj kvs) = Inr k) \<longleftrightarrow> (\<forall>kv \<in> set kvs. \<exists>v. normalize (snd kv) = Inr v)"
proof -
  have "(\<exists>k. normalize (JObj kvs) = Inr k) \<longleftrightarrow>
      (\<exists>ms. mapR (\<lambda>kv. bindR (normalize (snd kv)) (\<lambda>v. Inr (fst kv, v))) (sort_key fst kvs) = Inr ms)"
    by auto
  also have "\<dots> \<longleftrightarrow> (\<forall>kv \<in> set kvs. \<exists>v. normalize (snd kv) = Inr v)"
    unfolding mapR_cases by auto
  finally show ?thesis .
qed

lemma jget_pair: "distinct (map fst kvs) \<Longrightarrow> kv \<in> set kvs \<Longrightarrow> jget (fst kv) (JObj kvs) = snd kv"
  using jget_member [of kvs "fst kv" "snd kv"] by simp

lemma same_normalize: "same_doc v w \<Longrightarrow> normalize v = Inr k \<Longrightarrow> normalize w = Inr k"
proof (induction arbitrary: k rule: same_doc.induct)
  case (elements xs ys)
  then obtain zs where zs: "mapR normalize xs = Inr zs" "k = JList zs" by auto
  note all = mapR_Inr_list_all2 [OF zs(1)]
  have "\<forall>i < length ys. normalize (ys ! i) = Inr (zs ! i)"
    using elements list_all2_nthD [OF all] by auto
  then have "map normalize ys = map Inr zs"
    using elements(1) list_all2_lengthD [OF all] by (intro nth_equalityI) auto
  then have "mapR normalize ys = Inr zs"
    by (induction ys arbitrary: zs) (auto simp: map_eq_Cons_conv)
  with zs show ?case by simp
next
  case (members kvs kvs')
  have member: "normalize (jget x (JObj kvs)) = Inr l \<Longrightarrow> normalize (jget x (JObj kvs')) = Inr l" for x l
    using members(4) by blast
  have "\<exists>l. normalize (snd kv) = Inr l" if "kv \<in> set kvs'" for kv
  proof -
    from that members(3) have "fst kv \<in> fst ` set kvs" by force
    then obtain kv0 where kv0: "kv0 \<in> set kvs" "fst kv0 = fst kv" by auto
    then obtain l where "normalize (snd kv0) = Inr l" using normalize_members [of kvs] members(5) by blast
    with member [of "fst kv" l] jget_pair [OF members(1) kv0(1)] jget_pair [OF members(2) that] kv0(2) show ?thesis by auto
  qed
  then obtain l where l: "normalize (JObj kvs') = Inr l" using normalize_members [of kvs'] by blast
  have "k = l"
  proof (rule normalize_ext [OF members(1,2) members(5) l])
    fix x u u'
    assume u: "same_at (map_of kvs x) u" "same_at (map_of kvs' x) u'"
    show "u = u'"
    proof (cases "map_of kvs x")
      case None
      then have "map_of kvs' x = None" using members(3) by (simp add: map_of_eq_None_iff)
      with None u show ?thesis by (simp add: same_at_def)
    next
      case (Some v)
      then have "x \<in> fst ` set kvs" by (auto dest!: map_of_SomeD intro: rev_image_eqI)
      with members(3) obtain v' where v': "map_of kvs' x = Some v'" by (cases "map_of kvs' x") (auto simp: map_of_eq_None_iff)
      from u Some v' member [of x] show ?thesis by (auto simp: same_at_def)
    qed
  qed
  with l show ?case by simp
qed simp

lemma same_canonical:
  "same_doc v w \<Longrightarrow> canonical_rule_spec_json v = Inr t \<Longrightarrow> canonical_rule_spec_json w = Inr t"
  by (auto simp: canonical_rule_spec_json_def dest: same_normalize split: sum.splits)

lemma canonical_rules_Inr:
  "canonical_rule_spec_json v = Inr t \<longleftrightarrow> (\<exists>k. normalize v = Inr k \<and> t = dumps k)"
  by (auto simp: canonical_rule_spec_json_def split: sum.splits)

lemma canonical_rules_same:
  assumes "distinct_keys v" "distinct_keys w" "canonical_rule_spec_json v = Inr t" "canonical_rule_spec_json w = Inr t"
  shows "same_doc v w"
proof -
  from assms(3,4) obtain j k where j: "normalize v = Inr j" "normalize w = Inr k" "dumps j = dumps k"
    by (auto simp: canonical_rules_Inr)
  with dumps_inj [OF normalize_ok [OF assms(1) j(1)] normalize_ok [OF assms(2) j(2)]] have "j = k" by simp
  with j assms show ?thesis by (auto intro: same_by_normal)
qed

section \<open>Variables\<close>

lemma normalized_variable_Inr:
  "normalized_variable (name, variable) = Inr kv \<longleftrightarrow>
     name \<noteq> [] \<and> (\<exists>vs. vs \<noteq> [] \<and> values_of variable = JList vs \<and> kv = (name, JObj [(''values'', JList vs)]))"
  by (auto simp: normalized_variable_def neq_Nil_conv split: json.splits list.splits if_splits)

text \<open>A table of variables in its normal form.\<close>

definition table_form :: "(string \<times> json) list \<Rightarrow> bool" where
  "table_form table \<longleftrightarrow> sorted (map fst table) \<and>
     (\<forall>kv \<in> set table. fst kv \<noteq> [] \<and> (\<exists>vs. vs \<noteq> [] \<and> snd kv = JObj [(''values'', JList vs)]))"

lemma normalized_table:
  assumes "normalized_variables vars = Inr table"
  shows "table_form table"
proof -
  from assms obtain raw where raw: "mapR normalized_variable (sort_key fst raw) = Inr table"
    by (auto simp: normalized_variables_def)
  note all = mapR_Inr_list_all2 [OF raw]
  then have "map fst table = map fst (sort_key fst raw)"
    by (induction rule: list_all2_induct) (auto simp: normalized_variable_Inr)
  moreover from all have "\<forall>kv \<in> set table. fst kv \<noteq> [] \<and> (\<exists>vs. vs \<noteq> [] \<and> snd kv = JObj [(''values'', JList vs)])"
    by (induction rule: list_all2_induct) (auto simp: normalized_variable_Inr)
  ultimately show ?thesis by (simp add: table_form_def)
qed

lemma table_form_normal:
  assumes "table_form table"
  shows "normalized_variables (JObj table) = Inr table"
proof -
  have "mapR normalized_variable table = Inr (map (\<lambda>kv. kv) table)"
  proof (rule mapR_all_ok, rule ballI)
    fix kv assume "kv \<in> set table"
    with assms show "normalized_variable kv = Inr kv"
      by (cases kv) (force simp: table_form_def normalized_variable_Inr values_of_def)
  qed
  moreover have "sort_key fst table = table"
    using assms by (intro sort_key_id_if_sorted) (simp add: table_form_def)
  ultimately show ?thesis by (simp add: normalized_variables_def variable_table_def)
qed

text \<open>Equal variables have equal tables, up to the order inside their values.\<close>

lemma sorted_keys_same:
  fixes kvs kvs' :: "(string \<times> json) list"
  assumes "distinct (map fst kvs)" "distinct (map fst kvs')" "set (map fst kvs) = set (map fst kvs')"
  shows "map fst (sort_key fst kvs) = map fst (sort_key fst kvs')"
  using assms by (intro sorted_distinct_set_unique) (simp_all add: distinct_map)

lemma same_tables:
  assumes "same_doc vars vars'" and "normalized_variables vars = Inr table"
  shows "\<exists>table'. normalized_variables vars' = Inr table'
    \<and> list_all2 (\<lambda>a b. fst a = fst b \<and> same_doc (snd a) (snd b)) table table'"
  using assms(1)
proof cases
  case scalar
  with assms(2) show ?thesis by (cases vars) (auto simp: normalized_variables_def variable_table_def)
next
  case (elements xs ys)
  with assms(2) show ?thesis by (simp add: normalized_variables_def variable_table_def)
next
  case (members kvs kvs')
  let ?a = "sort_key fst kvs" and ?b = "sort_key fst kvs'"
  from assms(2) have run: "mapR normalized_variable ?a = Inr table"
    by (simp add: members(1) normalized_variables_def variable_table_def)
  note all = mapR_Inr_list_all2 [OF run]
  note keys = sorted_keys_same [OF members(3-5)]
  then have len: "length ?a = length ?b" by (metis length_map)
  have "\<exists>kv'. normalized_variable (?b ! i) = Inr kv' \<and> fst (table ! i) = fst kv' \<and> same_doc (snd (table ! i)) (snd kv')"
    if i: "i < length ?a" for i
  proof -
    have fst_eq: "fst (?a ! i) = fst (?b ! i)" using keys i len by (metis nth_map)
    have "?a ! i \<in> set kvs" "?b ! i \<in> set kvs'" using i len nth_mem [of i ?a] nth_mem [of i ?b] by simp_all
    then have "jget (fst (?a ! i)) (JObj kvs) = snd (?a ! i)" "jget (fst (?a ! i)) (JObj kvs') = snd (?b ! i)"
      using jget_pair [OF members(3)] jget_pair [OF members(4)] fst_eq by metis+
    with members(6) have same: "same_doc (snd (?a ! i)) (snd (?b ! i))" by metis
    from list_all2_nthD [OF all i] obtain vs where vs: "fst (?a ! i) \<noteq> []" "vs \<noteq> []"
      "values_of (snd (?a ! i)) = JList vs" "table ! i = (fst (?a ! i), JObj [(''values'', JList vs)])"
      by (cases "?a ! i") (auto simp: normalized_variable_Inr)
    from same_values_of [OF same] vs(3) obtain ws where ws: "values_of (snd (?b ! i)) = JList ws" "list_all2 same_doc vs ws"
      by (auto simp: same_list)
    have "same_doc (JObj [(''values'', JList vs)]) (JObj [(''values'', JList ws)])"
      by (rule same_doc.members) (use ws(2) in \<open>auto simp: same_list\<close>)
    with ws vs fst_eq list_all2_lengthD [OF ws(2)] show ?thesis
      by (cases "?b ! i") (auto simp: normalized_variable_Inr)
  qed
  then obtain f where f: "\<And>i. i < length ?a \<Longrightarrow> normalized_variable (?b ! i) = Inr (f i) \<and> fst (table ! i) = fst (f i)
      \<and> same_doc (snd (table ! i)) (snd (f i))" by metis
  have "list_all2 (\<lambda>x y. normalized_variable x = Inr y) ?b (map f [0..<length ?b])"
    using f len by (simp add: list_all2_conv_all_nth)
  then have "mapR normalized_variable ?b = Inr (map f [0..<length ?b])"
    by (induction rule: list_all2_induct) auto
  moreover have "list_all2 (\<lambda>a b. fst a = fst b \<and> same_doc (snd a) (snd b)) table (map f [0..<length ?b])"
    using f len list_all2_lengthD [OF all] by (simp add: list_all2_conv_all_nth)
  ultimately show ?thesis by (simp add: members(2) normalized_variables_def variable_table_def)
qed

text \<open>The values of an accepted variable are numbers, finite and distinct as floats.\<close>

definition number_values :: "json list \<Rightarrow> bool" where
  "number_values vs \<longleftrightarrow> (\<forall>v \<in> set vs. is_number v = Inr True) \<and> (\<exists>fs. mapR to_float vs = Inr fs \<and> distinct fs)"

lemma number_cases: "is_number v = Inr True \<Longrightarrow> (\<exists>i. v = JInt i) \<or> (\<exists>t. v = JFloat t \<and> is_finite (float_value t))"
  by (cases v) (auto simp: is_number_def isfinite_float)

lemma declared_numbers:
  assumes "declared ck kind name" "map_of (ck_variables ck) name = Some variable"
  shows "\<exists>vs. values_of variable = JList vs \<and> vs \<noteq> [] \<and> number_values vs"
proof -
  from assms obtain vs fs where vs: "values_of variable = JList vs" "vs \<noteq> []" "\<forall>v \<in> set vs. value_fits kind v = Inr True"
    "mapR to_float vs = Inr fs" "distinct fs"
    by (auto simp: declared_def)
  have "is_number v = Inr True" if v: "v \<in> set vs" for v
  proof (cases kind)
    case (Count lo hi)
    with vs(3) v obtain i where i: "v = JInt i" by (fastforce simp: value_fits_def is_count_def split: json.splits)
    from vs(4) v obtain x where "to_float v = Inr x" using mapR_cases [of to_float vs] by blast
    with i show ?thesis
      by (auto simp: is_number_def isfinite_def to_float_def split: py_float.splits dest: sym)
  qed (use vs(3) v in \<open>auto simp: value_fits_def is_amount_def\<close>)
  with vs show ?thesis by (auto simp: number_values_def)
qed

lemma accepted_values:
  assumes "rules_ok lib (JObj table) n" and "distinct (map fst table)" and "(name, variable) \<in> set table"
  shows "\<exists>vs. values_of variable = JList vs \<and> vs \<noteq> [] \<and> number_values vs"
proof -
  from assms obtain ck kind where ck: "ck_variables ck = table" "declared ck kind name"
    by (auto simp: variable_table_def elim: rules_ok_declared)
  from assms(2,3) ck(1) have "map_of (ck_variables ck) name = Some variable" by (simp add: map_of_is_SomeI)
  from declared_numbers [OF ck(2) this] show ?thesis .
qed

lemma same_numbers: "list_all2 same_doc vs ws \<Longrightarrow> number_values vs \<Longrightarrow> ws = vs"
proof -
  assume same: "list_all2 same_doc vs ws" and "number_values vs"
  then have "\<forall>v \<in> set vs. is_number v = Inr True" by (simp add: number_values_def)
  with same show ?thesis
    by (induction rule: list_all2_induct) (auto dest: number_cases)
qed

section \<open>Definitions\<close>

definition payload_doc :: "json \<Rightarrow> (string \<times> json) list \<Rightarrow> json" where
  "payload_doc n table = JObj [(''compiler_version'', JStr RULE_COMPILER_VERSION), (''rule_spec'', n),
     (''variables'', JObj table)]"

definition definition_doc :: "string \<Rightarrow> json \<Rightarrow> (string \<times> json) list \<Rightarrow> json" where
  "definition_doc sid n table = JObj [(''strategy_id'', JStr sid), (''version'', JStr RULE_COMPILER_VERSION),
     (''rule_spec'', n), (''variables'', JObj table)]"

lemma definition_Inr:
  "rule_strategy_definition lib sha spec vars = Inr d \<longleftrightarrow>
     (\<exists>table n t. normalized_variables vars = Inr table \<and> validate_rule_spec lib spec (JObj table) = Inr n
        \<and> canonical_rule_spec_json (payload_doc n table) = Inr t
        \<and> d = definition_doc (RULE_STRATEGY_PREFIX @ take 16 (sha t)) n table)"
  by (auto simp: rule_strategy_definition_def payload_doc_def definition_doc_def)

lemma definition_doc_sel [simp]:
  "jget ''rule_spec'' (definition_doc sid n table) = n"
  "jget ''variables'' (definition_doc sid n table) = JObj table"
  "jget ''version'' (definition_doc sid n table) = JStr RULE_COMPILER_VERSION"
  "jget ''strategy_id'' (definition_doc sid n table) = JStr sid"
  "is_obj (definition_doc sid n table)" "set (obj_keys (definition_doc sid n table)) = set DEFINITION_KEYS"
  "without_legacy_keys (definition_doc sid n table) = definition_doc sid n table"
  by (simp_all add: definition_doc_def DEFINITION_KEYS_def without_legacy_keys_def LEGACY_KEYS_def)

text \<open>The table of the variables: its keys are theirs, so distinct.\<close>

lemma table_keys:
  assumes "normalized_variables vars = Inr table"
  shows "set (map fst table) = set (obj_keys vars)" "distinct (obj_keys vars) \<Longrightarrow> distinct (map fst table)"
proof -
  from assms obtain raw where raw: "variable_table vars = Inr raw" "mapR normalized_variable (sort_key fst raw) = Inr table"
    by (auto simp: normalized_variables_def)
  from mapR_Inr_list_all2 [OF raw(2)] have keys: "map fst table = map fst (sort_key fst raw)"
    by (induction rule: list_all2_induct) (auto simp: normalized_variable_Inr)
  have "obj_keys vars = map fst raw" using raw(1) by (auto simp: variable_table_def split: json.splits)
  then show "set (map fst table) = set (obj_keys vars)" "distinct (obj_keys vars) \<Longrightarrow> distinct (map fst table)"
    by (simp_all add: keys distinct_map)
qed

text \<open>Equal specs over equal variables have one definition, whatever the order of their members.\<close>

lemma definition_same:
  assumes spec: "same_doc spec spec'" and vars: "same_doc vars vars'" and lib: "library_wf lib"
    and run: "rule_strategy_definition lib sha spec vars = Inr d"
  shows "rule_strategy_definition lib sha spec' vars' = Inr d"
proof -
  from run obtain table n t where t: "normalized_variables vars = Inr table"
    "validate_rule_spec lib spec (JObj table) = Inr n" "canonical_rule_spec_json (payload_doc n table) = Inr t"
    "d = definition_doc (RULE_STRATEGY_PREFIX @ take 16 (sha t)) n table"
    by (auto simp: definition_Inr)
  from same_tables [OF vars t(1)] obtain table' where table': "normalized_variables vars' = Inr table'"
    and all: "list_all2 (\<lambda>a b. fst a = fst b \<and> same_doc (snd a) (snd b)) table table'" by blast
  have dist: "distinct (map fst table)" using table_keys(2) [OF t(1)] same_distinct [OF vars] by blast
  note forms = normalized_table [OF t(1)] normalized_table [OF table']
  note ok = validate_sound [OF t(2) lib]
  have "table' = table"
  proof (rule nth_equalityI)
    show "length table' = length table" using list_all2_lengthD [OF all] by simp
    fix i assume i: "i < length table'"
    with list_all2_lengthD [OF all] have i': "i < length table" by simp
    from forms i i' obtain vs ws where vs: "snd (table ! i) = JObj [(''values'', JList vs)]"
      "snd (table' ! i) = JObj [(''values'', JList ws)]"
      by (meson nth_mem table_form_def)
    from list_all2_nthD [OF all i'] have same: "fst (table ! i) = fst (table' ! i)" "same_doc (snd (table ! i)) (snd (table' ! i))"
      by simp_all
    from same_jget [OF same(2), of "''values''"] have "list_all2 same_doc vs ws" by (simp add: vs same_list)
    moreover have "number_values vs"
      using accepted_values [OF ok dist, of "fst (table ! i)" "snd (table ! i)"] nth_mem [OF i']
      by (simp add: vs values_of_def) (simp add: vs [symmetric])
    ultimately have "ws = vs" by (rule same_numbers)
    with vs same(1) show "table' ! i = table ! i" by (simp add: prod_eq_iff)
  qed
  with table' t validate_same [OF spec t(2)] show ?thesis by (auto simp: definition_Inr)
qed

text \<open>A definition is rebuilt from its own rules and variables, if they are not too large.\<close>

lemma definition_again:
  assumes run: "rule_strategy_definition lib sha spec vars = Inr d" and lib: "library_wf lib"
  shows "rule_strategy_definition lib sha (jget ''rule_spec'' d) (jget ''variables'' d)
    = bindR (check_size (jget ''rule_spec'' d)) (\<lambda>_. Inr d)"
proof -
  from run obtain table n t where t: "normalized_variables vars = Inr table"
    "validate_rule_spec lib spec (JObj table) = Inr n" "canonical_rule_spec_json (payload_doc n table) = Inr t"
    "d = definition_doc (RULE_STRATEGY_PREFIX @ take 16 (sha t)) n table"
    by (auto simp: definition_Inr)
  from table_form_normal [OF normalized_table [OF t(1)]] validate_again [OF t(2) lib] t(3)
  show ?thesis
    by (cases "check_size n")
      (simp_all add: rule_strategy_definition_def t(4) payload_doc_def [symmetric], simp add: definition_doc_def payload_doc_def)
qed

lemma definition_canonical:
  assumes "rule_strategy_definition lib sha spec vars = Inr d"
  shows "\<exists>t. canonical_rule_spec_json d = Inr t"
proof -
  from assms obtain table n t where t: "canonical_rule_spec_json (payload_doc n table) = Inr t"
    "d = definition_doc (RULE_STRATEGY_PREFIX @ take 16 (sha t)) n table"
    by (auto simp: definition_Inr)
  then obtain k where "normalize (payload_doc n table) = Inr k" by (auto simp: canonical_rules_Inr)
  then have "\<exists>v. normalize n = Inr v" "\<exists>v. normalize (JObj table) = Inr v"
    using normalize_members [of "[(''compiler_version'', JStr RULE_COMPILER_VERSION), (''rule_spec'', n), (''variables'', JObj table)]"]
    unfolding payload_doc_def by (simp_all del: normalize.simps)
  then have "\<exists>k. normalize d = Inr k"
    unfolding t(2) definition_doc_def normalize_members by (simp add: normalize_members del: normalize.simps(3))
  then show ?thesis by (auto simp: canonical_rules_Inr)
qed

lemma checked_own:
  assumes run: "rule_strategy_definition lib sha spec vars = Inr d" and lib: "library_wf lib"
  shows "checked_definition lib sha d = bindR (check_size (jget ''rule_spec'' d)) (\<lambda>_. Inr d)"
proof -
  from run obtain sid n table where d: "d = definition_doc sid n table" by (auto simp: definition_Inr)
  from definition_canonical [OF run] obtain t where t: "canonical_rule_spec_json d = Inr t" by blast
  from definition_again [OF run lib] t show ?thesis
    by (cases "check_size n") (simp_all add: checked_definition_def d Let_def)
qed

section \<open>The checker of definitions\<close>

lemma checked_Inr:
  "checked_definition lib sha d0 = Inr c \<longleftrightarrow>
     (let d = without_legacy_keys d0 in
      is_obj d \<and> set (obj_keys d) = set DEFINITION_KEYS \<and> json_eq (jget ''version'' d) (JStr RULE_COMPILER_VERSION)
      \<and> rule_strategy_definition lib sha (jget ''rule_spec'' d) (jget ''variables'' d) = Inr c
      \<and> (\<exists>t. canonical_rule_spec_json c = Inr t \<and> canonical_rule_spec_json d = Inr t))"
  by (auto simp: checked_definition_def Let_def)

lemma without_legacy_again: "without_legacy_keys (without_legacy_keys d) = without_legacy_keys d"
  by (cases d) (simp_all add: without_legacy_keys_def)

lemma same_without_legacy:
  assumes "same_doc d d'"
  shows "same_doc (without_legacy_keys d) (without_legacy_keys d')"
  using assms
proof cases
  case scalar
  then show ?thesis using assms by (cases d) (auto simp: without_legacy_keys_def)
next
  case (elements xs ys)
  with assms show ?thesis by (simp add: without_legacy_keys_def)
next
  case (members kvs kvs')
  have dist: "distinct (map fst (filter P ms))" if "distinct (map fst ms)" for P and ms :: "(string \<times> json) list"
    using that by (induction ms) auto
  have keep: "fst ` {kv \<in> set ms. fst kv \<notin> L} = fst ` set ms - L" for L :: "string set" and ms :: "(string \<times> json) list"
    by auto
  have get: "map_of (filter (\<lambda>kv. fst kv \<notin> L) ms) k = (if k \<in> L then None else map_of ms k)" for L ms k
    by (induction ms) auto
  have "same_doc (JObj (filter (\<lambda>kv. fst kv \<notin> set LEGACY_KEYS) kvs)) (JObj (filter (\<lambda>kv. fst kv \<notin> set LEGACY_KEYS) kvs'))"
  proof (rule same_doc.members)
    show "set (map fst (filter (\<lambda>kv. fst kv \<notin> set LEGACY_KEYS) kvs)) = set (map fst (filter (\<lambda>kv. fst kv \<notin> set LEGACY_KEYS) kvs'))"
      using members(5) by (simp add: keep)
    show "\<forall>k. same_doc (jget k (JObj (filter (\<lambda>kv. fst kv \<notin> set LEGACY_KEYS) kvs)))
        (jget k (JObj (filter (\<lambda>kv. fst kv \<notin> set LEGACY_KEYS) kvs')))"
      using members(6) by (simp add: get)
  qed (use members dist in auto)
  with members(1,2) show ?thesis by (simp add: without_legacy_keys_def)
qed

lemma json_eq_str: "json_eq v (JStr s) \<Longrightarrow> v = JStr s"
  by (cases v) (auto simp: number_of_def)

lemma checked_same:
  assumes same: "same_doc d d'" and lib: "library_wf lib" and run: "checked_definition lib sha d = Inr c"
  shows "checked_definition lib sha d' = Inr c"
proof -
  let ?d = "without_legacy_keys d" and ?d' = "without_legacy_keys d'"
  note same' = same_without_legacy [OF same]
  note gets = same_jget [OF same']
  from run obtain t where t: "is_obj ?d" "set (obj_keys ?d) = set DEFINITION_KEYS"
    "json_eq (jget ''version'' ?d) (JStr RULE_COMPILER_VERSION)"
    "rule_strategy_definition lib sha (jget ''rule_spec'' ?d) (jget ''variables'' ?d) = Inr c"
    "canonical_rule_spec_json c = Inr t" "canonical_rule_spec_json ?d = Inr t"
    by (auto simp: checked_Inr Let_def)
  have "jget ''version'' ?d' = jget ''version'' ?d"
    using gets [of "''version''"] json_eq_str [OF t(3)] by simp
  moreover have "is_obj ?d'" "set (obj_keys ?d') = set DEFINITION_KEYS"
    using t(1,2) same_obj [OF same'] same_keys [OF same'] by simp_all
  ultimately show ?thesis
    using t definition_same [OF gets gets lib t(4)] same_canonical [OF same' t(6)] by (simp add: checked_Inr Let_def)
qed

lemma checked_stripped: "checked_definition lib sha (without_legacy_keys d) = checked_definition lib sha d"
  by (simp add: checked_definition_def without_legacy_again)

lemma distinct_jget: "distinct_keys d \<Longrightarrow> distinct_keys (jget k d)"
  by (cases d) (auto split: option.splits dest: map_of_SomeD)

lemma distinct_without_legacy: "distinct_keys d \<Longrightarrow> distinct_keys (without_legacy_keys d)"
proof (cases d)
  case (JObj kvs)
  moreover assume "distinct_keys d"
  moreover have "distinct (map fst kvs) \<Longrightarrow> distinct (map fst (filter P kvs))" for P
    by (induction kvs) auto
  ultimately show ?thesis by (auto simp: without_legacy_keys_def)
qed (simp_all add: without_legacy_keys_def)

lemma numbers_keys: "number_values vs \<Longrightarrow> v \<in> set vs \<Longrightarrow> distinct_keys v"
  by (auto simp: number_values_def dest!: bspec [of _ _ v] number_cases)

lemma definition_keys:
  assumes run: "rule_strategy_definition lib sha spec vars = Inr d" and lib: "library_wf lib"
    and vars: "distinct_keys vars"
  shows "distinct_keys d"
proof -
  from run obtain table n sid where t: "normalized_variables vars = Inr table"
    "validate_rule_spec lib spec (JObj table) = Inr n" "d = definition_doc sid n table"
    by (auto simp: definition_Inr)
  have dist: "distinct (map fst table)" using table_keys(2) [OF t(1)] vars by (cases vars) auto
  note ok = validate_sound [OF t(2) lib]
  then obtain ck where ck: "new_checker table lib = Inr ck" "spec_form ck n"
    by (auto simp: rules_ok_def variable_table_def)
  have "distinct_keys n" using spec_keys [OF _ ck(2)] new_checker_same [OF ck(1)] lib by simp
  moreover have "distinct_keys (snd kv)" if kv: "kv \<in> set table" for kv
  proof -
    from kv normalized_table [OF t(1)] obtain vs where vs: "snd kv = JObj [(''values'', JList vs)]"
      by (auto simp: table_form_def)
    with accepted_values [OF ok dist, of "fst kv" "snd kv"] kv have "number_values vs"
      by (cases kv) (simp add: values_of_def)
    then show ?thesis by (simp add: vs numbers_keys)
  qed
  ultimately show ?thesis using dist by (simp add: t(3) definition_doc_def)
qed

text \<open>What the checker of definitions returned passes it again.\<close>

lemma checked_again:
  assumes run: "checked_definition lib sha d = Inr c" and lib: "library_wf lib" and keys: "distinct_keys d"
  shows "checked_definition lib sha c = Inr c"
proof -
  let ?d = "without_legacy_keys d"
  from run obtain t where t: "rule_strategy_definition lib sha (jget ''rule_spec'' ?d) (jget ''variables'' ?d) = Inr c"
    "canonical_rule_spec_json c = Inr t" "canonical_rule_spec_json ?d = Inr t"
    by (auto simp: checked_Inr Let_def)
  note keys' = distinct_without_legacy [OF keys]
  have "same_doc ?d c"
    using canonical_rules_same [OF keys' definition_keys [OF t(1) lib distinct_jget [OF keys']] t(3,2)] .
  from checked_same [OF this lib] run show ?thesis by (simp add: checked_stripped)
qed

lemma checked_doc:
  assumes "checked_definition lib sha d = Inr c"
  obtains t n table where "c = definition_doc (RULE_STRATEGY_PREFIX @ take 16 (sha t)) n table"
  using assms by (auto simp: checked_Inr Let_def definition_Inr)

section \<open>Strategies\<close>

lemma strategy_Inr:
  "rule_spec_strategy lib sha d = Inr s \<longleftrightarrow>
     (\<exists>c spec. checked_definition lib sha d = Inr c \<and> rule_specification c = Inr spec \<and> s = Rule_compiled c spec)"
  by (auto simp: rule_spec_strategy_def)

lemma strategy_id_sel:
  assumes "rule_spec_strategy lib sha d = Inr s"
  shows "strategy_id_of s = py_str (jget ''strategy_id'' (definition_of s))"
  using assms by (auto simp: strategy_Inr strategy_id_of_def rule_specification_def definition_of_def Let_def)

text \<open>The strategy rebuilt from a sorted copy of its definition is the strategy.\<close>

lemma strategy_reread:
  assumes run: "rule_spec_strategy lib sha d = Inr s" and lib: "library_wf lib" and keys: "distinct_keys d"
    and copy: "normalize (definition_of s) = Inr k"
  shows "rule_spec_strategy lib sha k = Inr s" and "json_ok k"
proof -
  from run obtain c spec where c: "checked_definition lib sha d = Inr c" "rule_specification c = Inr spec"
    "s = Rule_compiled c spec" by (auto simp: strategy_Inr)
  let ?d = "without_legacy_keys d"
  from c(1) have "rule_strategy_definition lib sha (jget ''rule_spec'' ?d) (jget ''variables'' ?d) = Inr c"
    by (auto simp: checked_Inr Let_def)
  then have dist: "distinct_keys c"
    by (rule definition_keys [OF _ lib distinct_jget [OF distinct_without_legacy [OF keys]]])
  have copy': "normalize c = Inr k" using copy by (simp add: c(3) definition_of_def)
  from normalize_ok [OF dist copy'] show "json_ok k" .
  from checked_same [OF same_normalized [OF dist copy'] lib checked_again [OF c(1) lib keys]]
  show "rule_spec_strategy lib sha k = Inr s" using c(2,3) by (simp add: strategy_Inr)
qed

end
