(* ===== verification/Rule_Files.thy ===== *)
theory Rule_Files
  imports Rule_Identity
begin

text \<open>
  Definitions as files: the indented text of a definition reads back as the definition, and so an
  installed strategy is the strategy that is loaded, in any later process.
\<close>

section \<open>Indented text\<close>

lemma skip_newline [simp]: "skip (newline n @ s) = skip s"
proof -
  have "dropWhile is_ws (replicate m (CHR '' '') @ s) = dropWhile is_ws s" for m
    by (induction m) (simp_all add: is_ws_def)
  then show ?thesis by (simp add: newline_def skip_def is_ws_def)
qed

lemma num_end_newline [simp]: "num_end (newline n @ s)"
  by (simp add: newline_def num_end_def is_digit_def)

lemma pretty_start: "json_ok j \<Longrightarrow> \<exists>c t. pretty n j = c # t \<and> value_start c"
proof (cases j)
  case (JList xs)
  then show ?thesis by (cases xs) (simp_all add: value_start_def is_ws_def)
next
  case (JObj kvs)
  then show ?thesis by (cases kvs) (simp_all add: value_start_def is_ws_def)
qed (use dumps_start [of j] in auto)

lemma skip_pretty: "json_ok j \<Longrightarrow> skip (pretty n j @ r) = pretty n j @ r"
  using pretty_start [of j n] by (auto simp: skip_value)

lemma pretty_elems_start:
  "\<forall>x \<in> set xs. json_ok x \<Longrightarrow> xs \<noteq> [] \<Longrightarrow> \<exists>c t. pretty_elems n xs = c # t \<and> value_start c"
  using pretty_start [of "hd xs" n] by (cases xs rule: dumps_elems.cases) auto

lemma pretty_members_start: "kvs \<noteq> [] \<Longrightarrow> \<exists>t. pretty_members n kvs = CHR 0x22 # t"
  by (cases kvs rule: dumps_members.cases) (auto simp: str_lit_def)

lemma skip_blank: "skip (CHR '' '' # s) = skip s"
  by (simp add: skip_def is_ws_def)

lemma num_end_comma [simp]: "num_end (CHR '','' # r)"
  by (simp add: num_end_def is_digit_def)

lemma pretty_read:
  "json_ok j \<Longrightarrow> num_end r \<Longrightarrow> length (pretty n j) \<le> f \<Longrightarrow> pval f (pretty n j @ r) = Some (j, r)"
  "\<forall>x \<in> set xs. json_ok x \<Longrightarrow> xs \<noteq> [] \<Longrightarrow> length (pretty_elems n xs) \<le> f \<Longrightarrow>
     pelems f (pretty_elems n xs @ r) = Some (xs, r)"
  "\<forall>kv \<in> set kvs. json_ok (snd kv) \<Longrightarrow> kvs \<noteq> [] \<Longrightarrow> length (pretty_members n kvs) \<le> f \<Longrightarrow>
     pmembers f (pretty_members n kvs @ r) = Some (kvs, r)"
proof (induction n j and n xs and n kvs arbitrary: f r and f r and f r rule: pretty_pretty_elems_pretty_members.induct)
  case (1 n)
  then obtain m where "f = Suc m" by (cases f) auto
  then show ?case by simp
next
  case (2 n x xs)
  then obtain m where m: "f = Suc m" "length (pretty_elems (Suc n) (x # xs)) \<le> m" by (cases f) auto
  obtain c t where ct: "pretty_elems (Suc n) (x # xs) = c # t" "value_start c"
    using pretty_elems_start [of "x # xs" "Suc n"] 2(2) by auto
  have "pelems m (pretty_elems (Suc n) (x # xs) @ r) = Some (x # xs, r)" using 2 m by simp
  with m ct show ?case
    by (simp add: skip_value del: pretty_elems.simps) (auto simp: value_start_def)
next
  case (3 n)
  then obtain m where "f = Suc m" by (cases f) auto
  then show ?case by simp
next
  case (4 n kv kvs)
  then obtain m where m: "f = Suc m" "length (pretty_members (Suc n) (kv # kvs)) \<le> m" by (cases f) auto
  obtain t where t: "pretty_members (Suc n) (kv # kvs) = CHR 0x22 # t"
    using pretty_members_start [of "kv # kvs" "Suc n"] by auto
  have "pmembers m (pretty_members (Suc n) (kv # kvs) @ r) = Some (kv # kvs, r)" using 4 m by simp
  with m t 4(2) show ?case by (simp add: dict_of_distinct del: pretty_members.simps)
next
  case (7 n x)
  then obtain m where m: "f = Suc m" "length (pretty n x) \<le> m" by (cases f) auto
  with 7 have "pval m (pretty n x @ newline (n - 1) @ CHR '']'' # r) = Some (x, newline (n - 1) @ CHR '']'' # r)" by simp
  with m show ?case by simp
next
  case (8 n x y ys)
  then obtain m where m: "f = Suc m" "length (pretty n x) \<le> m" "length (pretty_elems n (y # ys)) \<le> m" by (cases f) auto
  let ?rest = "CHR '','' # newline n @ pretty_elems n (y # ys) @ r"
  have "pval m (pretty n x @ ?rest) = Some (x, ?rest)" using 8 m by simp
  moreover obtain c t where ct: "pretty_elems n (y # ys) = c # t" "value_start c"
    using pretty_elems_start [of "y # ys" n] 8 by auto
  moreover have "pelems m (pretty_elems n (y # ys) @ r) = Some (y # ys, r)" using 8 m by simp
  ultimately show ?case using m by (simp add: skip_value push_def)
next
  case (10 n k v)
  then obtain m where m: "f = Suc m" "length (pretty n v) \<le> m" by (cases f) auto
  with 10 have "pval m (pretty n v @ newline (n - 1) @ CHR ''}'' # r) = Some (v, newline (n - 1) @ CHR ''}'' # r)" by simp
  with m 10 show ?case by (simp add: str_lit_def pstr_str_lit skip_blank skip_pretty)
next
  case (11 n k v kv kvs)
  then obtain m where m: "f = Suc m" "length (pretty n v) \<le> m" "length (pretty_members n (kv # kvs)) \<le> m" by (cases f) auto
  let ?rest = "CHR '','' # newline n @ pretty_members n (kv # kvs) @ r"
  have "pval m (pretty n v @ ?rest) = Some (v, ?rest)" using 11 m by simp
  moreover obtain t where t: "pretty_members n (kv # kvs) = CHR 0x22 # t"
    using pretty_members_start [of "kv # kvs" n] by auto
  moreover have "pmembers m (pretty_members n (kv # kvs) @ r) = Some (kv # kvs, r)" using 11 m by simp
  ultimately show ?case using m 11 by (simp add: str_lit_def pstr_str_lit skip_blank skip_pretty push_def)
qed (simp_all add: parse_printed(1) del: dumps.simps json_ok.simps)

lemma pretty_loads: "json_ok j \<Longrightarrow> json_loads (pretty 0 j @ [CHR 0x0A]) = Some j"
  using pretty_read(1) [of j "[CHR 0x0A]" 0 "Suc (length (pretty 0 j @ [CHR 0x0A]))"] skip_pretty [of j 0 "[CHR 0x0A]"]
  by (simp add: json_loads_def skip_def is_ws_def num_end_def is_digit_def)

section \<open>Installing and loading\<close>

lemma definition_text_read:
  "definition_text d = Inr t \<Longrightarrow> normalize d = Inr k \<Longrightarrow> json_ok k \<Longrightarrow> json_loads t = Some k"
  by (auto simp: definition_text_def pretty_loads)

lemma definition_text_Inr: "definition_text d = Inr t \<longleftrightarrow> (\<exists>k. normalize d = Inr k \<and> t = pretty 0 k @ [CHR 0x0A])"
  by (auto simp: definition_text_def split: sum.splits)

lemma remember_cases:
  "remember s q = (Inr s', q') \<longleftrightarrow>
     (map_of (rs_loaded q) (strategy_id_of s) = Some s' \<and> q' = q \<or>
      map_of (rs_loaded q) (strategy_id_of s) = None \<and> s' = s
        \<and> q' = q\<lparr>rs_loaded := rs_loaded q @ [(strategy_id_of s, s)]\<rparr>)"
  by (auto simp: remember_def split: option.splits)

lemma remember_total: "\<exists>s' q'. remember s q = (Inr s', q')"
  by (auto simp: remember_def split: option.splits)

lemma remember_Inl: "remember s q \<noteq> (Inl e, q')"
  by (simp add: remember_def split: option.splits)

lemma remember_files: "remember s q = (r, q') \<Longrightarrow> rs_files q' = rs_files q"
  by (auto simp: remember_def split: option.splits)

lemma ask_result:
  "andThen (askS g) f q = (r, q') \<longleftrightarrow>
     (\<exists>e. g q = Inl e \<and> r = Inl e \<and> q' = q) \<or> (\<exists>x. g q = Inr x \<and> f x q = (r, q'))"
  by (auto simp: andThen_ask split: sum.splits)

lemma write_result:
  "andThen (write_file disk path t) f q = (r, q') \<longleftrightarrow>
     (\<exists>e. disk path = Inl e \<and> r = Inl e \<and> q' = q) \<or>
     disk path = Inr () \<and> f () (q\<lparr>rs_files := rs_files q @ [(path, t)]\<rparr>) = (r, q')"
  by (auto simp: andThen_def write_file_def split: sum.splits)

lemmas store_steps = ask_result write_result

text \<open>What an installation that returns did, on a fresh path and on a taken one.\<close>

lemma install_fresh:
  assumes "install_rule_strategy lib sha disk (Some dir) d q = (Inr s', q')" and "rule_spec_strategy lib sha d = Inr s"
    and "map_of (rs_files q) (definition_path dir (strategy_id_of s)) = None"
  obtains t where "definition_text (definition_of s) = Inr t"
    "remember s (q\<lparr>rs_files := rs_files q @ [(definition_path dir (strategy_id_of s), t)]\<rparr>) = (Inr s', q')"
  using assms by (auto simp: install_rule_strategy_def Let_def store_steps simp del: andThen_Inr)

lemma install_taken:
  assumes "rule_spec_strategy lib sha d = Inr s" and "definition_text (definition_of s) = Inr t0"
    and "map_of (rs_files q) (definition_path dir (strategy_id_of s)) = Some t"
  shows "install_rule_strategy lib sha disk (Some dir) d q = (Inr s', q') \<longleftrightarrow>
    (\<exists>x. read_installed t = Inr x \<and> canonical_rule_spec_json (definition_of s) = Inr x \<and> remember s q = (Inr s', q'))"
  using assms by (auto simp: install_rule_strategy_def Let_def store_steps guardR_def simp del: andThen_Inr split: sum.splits)

text \<open>
  Whatever an installation or a load was given, and whether it returned or raised, the files that
  were there keep their text; one that raised changed nothing at all.
\<close>

lemma install_files:
  assumes "install_rule_strategy lib sha disk dir d q = (r, q')"
  shows "\<exists>new. rs_files q' = rs_files q @ new \<and> (\<forall>e. r = Inl e \<longrightarrow> q' = q) \<and>
    (\<forall>(p, t) \<in> set new. map_of (rs_files q) p = None)"
proof -
  have kept: "rs_files q' = rs_files p \<and> (\<forall>e. r \<noteq> Inl e)" if "remember s p = (r, q')" for s p
    using that remember_files remember_Inl by blast
  from assms consider e where "r = Inl e" "q' = q" | s where "remember s q = (r, q')"
    | s path t where "map_of (rs_files q) path = None" "remember s (q\<lparr>rs_files := rs_files q @ [(path, t)]\<rparr>) = (r, q')"
  proof (cases "rule_spec_strategy lib sha d")
    case s: (Inr s)
    show thesis
    proof (cases dir)
      case (Some root)
      let ?found = "map_of (rs_files q) (definition_path root (strategy_id_of s))"
      show thesis
        using assms s Some that by (cases ?found)
          (auto simp: install_rule_strategy_def Let_def store_steps simp del: andThen_Inr)
    qed (use assms s that(1) in \<open>auto simp: install_rule_strategy_def store_steps simp del: andThen_Inr\<close>)
  qed (use assms that(1) in \<open>auto simp: install_rule_strategy_def store_steps simp del: andThen_Inr\<close>)
  then show ?thesis by cases (auto dest: kept)
qed

lemma load_file:
  assumes "rule_spec_strategy lib sha k = Inr s" and "json_loads t = Some k" and "is_strategy_id (strategy_id_of s)"
    and "map_of (rs_files q) (definition_path dir (strategy_id_of s)) = Some t"
    and "map_of (rs_loaded q) (strategy_id_of s) = None"
  shows "load_rule_strategy lib sha (Some dir) (strategy_id_of s) q
    = (Inr s, q\<lparr>rs_loaded := rs_loaded q @ [(strategy_id_of s, s)]\<rparr>)"
  using assms by (simp add: load_rule_strategy_def andThen_ask guardR_def remember_def)

text \<open>The digest is hexadecimal, so an identity has the form the loader asks for.\<close>

definition hex_digest :: "(string \<Rightarrow> string) \<Rightarrow> bool" where
  "hex_digest sha \<longleftrightarrow> (\<forall>x. length (sha x) = 64 \<and> set (sha x) \<subseteq> set ''0123456789abcdef'')"

lemma strategy_id_form:
  assumes "rule_spec_strategy lib sha d = Inr s" and "hex_digest sha"
  shows "is_strategy_id (strategy_id_of s)"
proof -
  from assms(1) obtain c spec where c: "checked_definition lib sha d = Inr c" "s = Rule_compiled c spec"
    by (auto simp: strategy_Inr)
  from c(1) obtain t n table where doc: "c = definition_doc (RULE_STRATEGY_PREFIX @ take 16 (sha t)) n table"
    by (rule checked_doc)
  have id: "strategy_id_of s = RULE_STRATEGY_PREFIX @ take 16 (sha t)"
    using strategy_id_sel [OF assms(1)] by (simp add: c(2) doc definition_of_def py_str_def)
  have "set (take 16 (sha t)) \<subseteq> set ''0123456789abcdef''" "length (take 16 (sha t)) = 16"
    using assms(2) set_take_subset [of 16 "sha t"] unfolding hex_digest_def by (blast, simp)
  then show ?thesis unfolding id is_strategy_id_def RULE_STRATEGY_PREFIX_def by (simp add: subset_iff)
qed

lemma installed_loads:
  assumes s: "rule_spec_strategy lib sha d = Inr s" and lib: "library_wf lib" and keys: "distinct_keys d"
    and sha: "hex_digest sha" and printed: "definition_text (definition_of s) = Inr t"
    and stored: "map_of (rs_files q) (definition_path dir (strategy_id_of s)) = Some t"
    and new: "map_of (rs_loaded q) (strategy_id_of s) = None"
  shows "load_rule_strategy lib sha (Some dir) (strategy_id_of s) q
    = (Inr s, q\<lparr>rs_loaded := rs_loaded q @ [(strategy_id_of s, s)]\<rparr>)"
proof -
  from printed obtain k where k: "normalize (definition_of s) = Inr k" by (auto simp: definition_text_Inr)
  note again = strategy_reread [OF s lib keys k]
  from load_file [OF again(1) definition_text_read [OF printed k again(2)] strategy_id_form [OF s sha] stored new]
  show ?thesis .
qed

text \<open>The installed text is accepted for exactly the definitions with the same canonical text.\<close>

lemma read_installed_own:
  assumes s: "rule_spec_strategy lib sha d = Inr s" and lib: "library_wf lib" and keys: "distinct_keys d"
    and printed: "definition_text (definition_of s) = Inr t"
  shows "read_installed t = canonical_rule_spec_json (definition_of s)"
proof -
  from printed obtain k where k: "normalize (definition_of s) = Inr k" by (auto simp: definition_text_Inr)
  note again = strategy_reread [OF s lib keys k]
  from s obtain c spec where c: "checked_definition lib sha d = Inr c" "s = Rule_compiled c spec"
    by (auto simp: strategy_Inr)
  from c(1) obtain t' n table where doc: "c = definition_doc (RULE_STRATEGY_PREFIX @ take 16 (sha t')) n table"
    by (rule checked_doc)
  let ?d = "without_legacy_keys d"
  from c(1) have "rule_strategy_definition lib sha (jget ''rule_spec'' ?d) (jget ''variables'' ?d) = Inr c"
    by (auto simp: checked_Inr Let_def)
  then have dist: "distinct_keys c"
    by (rule definition_keys [OF _ lib distinct_jget [OF distinct_without_legacy [OF keys]]])
  have same: "same_doc c k" using k by (intro same_normalized [OF dist]) (simp add: c(2) definition_of_def)
  have "without_legacy_keys c = c" by (simp add: doc)
  then have "same_doc c (without_legacy_keys k)" using same_without_legacy [OF same] by simp
  moreover have "canonical_rule_spec_json c = Inr (dumps k)"
    using k by (simp add: c(2) definition_of_def canonical_rules_Inr)
  ultimately have "canonical_rule_spec_json (without_legacy_keys k) = Inr (dumps k)" by (rule same_canonical)
  with definition_text_read [OF printed k again(2)] \<open>canonical_rule_spec_json c = Inr (dumps k)\<close>
  show ?thesis by (simp add: read_installed_def c(2) definition_of_def)
qed

lemma definition_text_ok:
  assumes "rule_spec_strategy lib sha d = Inr s"
  obtains k where "definition_text (definition_of s) = Inr (pretty 0 k @ [CHR 0x0A])"
    "canonical_rule_spec_json (definition_of s) = Inr (dumps k)"
proof -
  from assms obtain c where "checked_definition lib sha d = Inr c" "definition_of s = c"
    by (auto simp: strategy_Inr definition_of_def)
  then obtain t where "canonical_rule_spec_json (definition_of s) = Inr t" by (auto simp: checked_Inr Let_def)
  then obtain k where "normalize (definition_of s) = Inr k" by (auto simp: canonical_rules_Inr)
  then show ?thesis by (intro that [of k]) (auto simp: definition_text_Inr canonical_rules_Inr)
qed

lemma install_new:
  assumes "rule_spec_strategy lib sha d = Inr s" and "definition_text (definition_of s) = Inr t"
    and "map_of (rs_files q) (definition_path dir (strategy_id_of s)) = None" and "map_of (rs_loaded q) (strategy_id_of s) = None"
    and "disk (definition_path dir (strategy_id_of s)) = Inr ()"
  shows "install_rule_strategy lib sha disk (Some dir) d q
    = (Inr s, q\<lparr>rs_files := rs_files q @ [(definition_path dir (strategy_id_of s), t)],
                rs_loaded := rs_loaded q @ [(strategy_id_of s, s)]\<rparr>)"
  using assms by (simp add: install_rule_strategy_def Let_def andThen_ask andThen_def write_file_def askS_def remember_def)

text \<open>Installing over an installed strategy compares canonical texts and writes nothing.\<close>

lemma install_over:
  assumes own: "rule_spec_strategy lib sha d = Inr s" "definition_text (definition_of s) = Inr t"
    and lib: "library_wf lib" and keys: "distinct_keys d"
    and other: "rule_spec_strategy lib sha d' = Inr s'" "strategy_id_of s' = strategy_id_of s"
    and stored: "map_of (rs_files q) (definition_path dir (strategy_id_of s)) = Some t"
  shows "case install_rule_strategy lib sha disk (Some dir) d' q of
      (Inr _, q') \<Rightarrow> canonical_rule_spec_json (definition_of s') = canonical_rule_spec_json (definition_of s)
        \<and> rs_files q' = rs_files q
    | (Inl _, q') \<Rightarrow> canonical_rule_spec_json (definition_of s') \<noteq> canonical_rule_spec_json (definition_of s)
        \<and> q' = q"
proof -
  obtain k where k: "definition_text (definition_of s') = Inr (pretty 0 k @ [CHR 0x0A])"
    "canonical_rule_spec_json (definition_of s') = Inr (dumps k)" by (rule definition_text_ok [OF other(1)])
  have path: "map_of (rs_files q) (definition_path dir (strategy_id_of s')) = Some t" using stored other(2) by simp
  note outcome = install_taken [OF other(1) k(1) path] and text_own = read_installed_own [OF own(1) lib keys own(2)]
  obtain z q' where run: "install_rule_strategy lib sha disk (Some dir) d' q = (z, q')"
    by (cases "install_rule_strategy lib sha disk (Some dir) d' q")
  show ?thesis
  proof (cases z)
    case (Inr r)
    with run outcome obtain x where x: "read_installed t = Inr x"
      "canonical_rule_spec_json (definition_of s') = Inr x" "remember s' q = (Inr r, q')" by blast
    from x(1,2) text_own have "canonical_rule_spec_json (definition_of s') = canonical_rule_spec_json (definition_of s)"
      by simp
    with x(3) show ?thesis by (simp add: run Inr remember_files)
  next
    case (Inl e)
    have "canonical_rule_spec_json (definition_of s') \<noteq> canonical_rule_spec_json (definition_of s)"
    proof
      assume "canonical_rule_spec_json (definition_of s') = canonical_rule_spec_json (definition_of s)"
      with outcome text_own k(2) remember_total [of s' q]
      have "\<exists>r q'. install_rule_strategy lib sha disk (Some dir) d' q = (Inr r, q')" by auto
      with run Inl show False by simp
    qed
    with Inl run install_files [OF run] show ?thesis by auto
  qed
qed

end
