(* ===== verification/Rule_Plan.thy ===== *)
theory Rule_Plan
  imports Rule_Identity
begin

text \<open>
  The parameters a rule strategy declares, against the governance every strategy is held to: their
  candidates are unique and contain the reference, their grid is the grid the rule language allowed.
\<close>

section \<open>Settings\<close>

definition PROVISIONAL_GRID_WARNING_THRESHOLD :: int where
  "PROVISIONAL_GRID_WARNING_THRESHOLD = int MAX_VARIABLE_GRID"

lemma settings_distinct_map:
  "distinct xs \<Longrightarrow> (\<And>x y. x \<in> set xs \<Longrightarrow> y \<in> set xs \<Longrightarrow> setting_eq (f x) (f y) \<Longrightarrow> x = y) \<Longrightarrow> settings_distinct (map f xs)"
  by (induction xs) (auto simp: setting_in_def)

lemma setting_eq_simps [simp]:
  "setting_eq (SInt i) (SInt j) \<longleftrightarrow> i = j"
  "setting_eq (SFloat x) (SFloat y) \<longleftrightarrow> num_eq x y"
  by (auto simp: setting_eq_def)

lemma num_eq_finite: "is_finite x \<Longrightarrow> num_eq x y \<longleftrightarrow> x = y"
  by (cases x; cases y) auto

lemma strip_Nil: "strip s = [] \<longleftrightarrow> (\<forall>c \<in> set s. is_space c)"
proof -
  have "(\<forall>c \<in> set (dropWhile is_space s). is_space c) \<longleftrightarrow> dropWhile is_space s = []"
    by (metis dropWhile_eq_Nil_conv dropWhile_idem)
  then show ?thesis by (simp add: strip_def dropWhile_eq_Nil_conv)
qed

lemma number_float: "is_number v = Inr True \<Longrightarrow> to_float v = Inr x \<Longrightarrow> is_finite x"
  by (auto dest!: number_cases simp: to_float_def split: py_float.splits dest: sym)

lemma floats_of_numbers:
  "\<forall>v \<in> set vs. is_number v = Inr True \<Longrightarrow> mapR to_float vs = Inr fs \<Longrightarrow> \<forall>x \<in> set fs. is_finite x"
  by (induction vs arbitrary: fs) (auto dest: number_float)

lemma mapR_distinct: "mapR f xs = Inr ys \<Longrightarrow> distinct ys \<Longrightarrow> distinct xs"
proof (induction xs arbitrary: ys)
  case (Cons x xs)
  then obtain y zs where y: "f x = Inr y" "mapR f xs = Inr zs" "ys = y # zs" by auto
  have "y \<in> set zs" if "x \<in> set xs"
    using that y(1,2) by (induction xs arbitrary: zs) auto
  with Cons y show ?case by auto
qed simp

lemma candidates_ok:
  assumes "number_values vs"
  obtains cs where "candidate_settings vs = Inr cs" "length cs = length vs" "settings_distinct cs"
    "\<forall>c \<in> set cs. setting_eq c c"
proof -
  from assms obtain fs where fs: "mapR to_float vs = Inr fs" "distinct fs" and num: "\<forall>v \<in> set vs. is_number v = Inr True"
    by (auto simp: number_values_def)
  show ?thesis
  proof (cases "\<forall>v \<in> set vs. is_int v")
    case True
    let ?f = "\<lambda>v. case v of JInt i \<Rightarrow> SInt i | _ \<Rightarrow> SNone"
    have ints: "\<exists>i. v = JInt i" if "v \<in> set vs" for v
      using True that by (cases v) (auto simp: is_int_def)
    have "settings_distinct (map ?f vs)"
      using mapR_distinct [OF fs] by (rule settings_distinct_map) (auto dest!: ints)
    moreover have "\<forall>c \<in> set (map ?f vs). setting_eq c c" by (auto dest!: ints)
    ultimately show ?thesis using True by (intro that [of "map ?f vs"]) (simp_all add: candidate_settings_def)
  next
    case False
    note fin = floats_of_numbers [OF num fs(1)]
    have "settings_distinct (map SFloat fs)"
      using fs(2) by (rule settings_distinct_map) (use fin in \<open>auto simp: num_eq_finite\<close>)
    moreover have "\<forall>c \<in> set (map SFloat fs). setting_eq c c" using fin by (auto simp: num_eq_finite)
    ultimately show ?thesis using False fs mapR_length [OF fs(1)]
      by (intro that [of "map SFloat fs"]) (auto simp: candidate_settings_def)
  qed
qed

section \<open>Parameters\<close>

lemma require_ok: "b \<Longrightarrow> bindR (require b m) f = f ()"
  by (simp add: require_def)

lemma require_last: "b \<Longrightarrow> require b m = Inr ()"
  by (simp add: require_def)

lemma bindR_unit: "bindR m (\<lambda>_. Inr ()) = m"
  by (cases m) simp_all

lemma classifications: "''bounded_discrete'' \<in> set PARAMETER_CLASSIFICATIONS" "''fixed'' \<in> set PARAMETER_CLASSIFICATIONS"
  "''approved'' \<in> set APPROVAL_STATES" "''bounded_discrete'' \<noteq> ''structural_choice''" "''fixed'' \<noteq> ''structural_choice''"
  "''bounded_discrete'' \<noteq> ''fixed''"
  by code_simp+

lemma provenance_text: "strip BACKTEST_APPROVAL_PROVENANCE \<noteq> []"
  "strip ''Bounded values declared by the Candidate packet; the compiler never tunes them.'' \<noteq> []"
  by code_simp+

text \<open>A parameter of a rule strategy passes every check, unless its name is blank.\<close>

lemma rule_parameter_ok:
  assumes nums: "number_values vs" and "vs \<noteq> []"
  obtains p where "rule_parameter name vs = Inr p" "pd_name p = name" "length (candidate_values p) = length vs"
    "pd_optimizable p \<longleftrightarrow> 1 < length vs" "pd_classification p \<noteq> ''structural_choice''"
    "validate_parameter_definition p True = require (strip name \<noteq> []) ''Parameter name is required''"
proof -
  from nums obtain cs where cs: "candidate_settings vs = Inr cs" "length cs = length vs" "settings_distinct cs"
    "\<forall>c \<in> set cs. setting_eq c c" by (rule candidates_ok)
  from assms(2) cs(2) have cs': "cs \<noteq> []" by auto
  then have hd: "setting_eq (hd cs) (hd cs)" "setting_in (hd cs) cs" using cs(4) hd_in_set [OF cs'] by (auto simp: setting_in_def intro!: bexI [of _ "hd cs"])
  obtain p where p: "rule_parameter name vs = Inr p" by (simp add: rule_parameter_def cs(1) Let_def)
  then have sel: "pd_name p = name" "candidate_values p = cs" "pd_optimizable p \<longleftrightarrow> 1 < length cs"
    "pd_classification p = (if 1 < length cs then ''bounded_discrete'' else ''fixed'')"
    "pd_reference_value p = hd cs" "pd_default p = hd cs" "pd_approval_state p = ''approved''"
    "pd_source p = BACKTEST_APPROVAL_PROVENANCE" "\<not> pd_structural p"
    "pd_rationale p = ''Bounded values declared by the Candidate packet; the compiler never tunes them.''"
    "pd_expected_grid_contribution p = (if 1 < length cs then Some (int (length cs)) else None)"
    by (auto simp: rule_parameter_def cs(1) Let_def candidate_values_def)
  have cand: "validate_candidates p = Inr ()"
    unfolding validate_candidates_def Let_def sel using hd cs(3) cs' by (simp add: require_def)
  have kind: "pd_classification p \<in> set PARAMETER_CLASSIFICATIONS" "pd_classification p \<noteq> ''structural_choice''"
    "\<not> (pd_classification p = ''fixed'' \<and> pd_optimizable p)"
  proof -
    have "pd_classification p = ''bounded_discrete'' \<or> pd_classification p = ''fixed'' \<and> \<not> pd_optimizable p"
      using sel(3,4) by argo
    with classifications show "pd_classification p \<in> set PARAMETER_CLASSIFICATIONS"
      "pd_classification p \<noteq> ''structural_choice''" "\<not> (pd_classification p = ''fixed'' \<and> pd_optimizable p)"
      by metis+
  qed
  have facts: "pd_approval_state p \<in> set APPROVAL_STATES" "strip (pd_source p) \<noteq> []" "strip (pd_rationale p) \<noteq> []"
    "setting_eq (pd_reference_value p) (pd_default p)" "True \<longrightarrow> pd_approval_state p = ''approved''"
    using hd(1) provenance_text classifications(3) by (simp_all only: sel simp_thms not_False_eq_True)
  have "validate_parameter_definition p True = require (strip name \<noteq> []) ''Parameter name is required''"
    unfolding validate_parameter_definition_def Let_def sel(1) require_ok [OF kind(1)] require_ok [OF facts(1)]
      require_ok [OF facts(2)] require_ok [OF facts(3)] require_ok [OF facts(4)] require_ok [OF facts(5)] cand bindR_simps
      require_ok [OF kind(3)] if_not_P [OF kind(2)] require_last [OF sel(9)] by (rule bindR_unit)
  with p sel cs(2) kind(2) show ?thesis by (intro that [of p]) simp_all
qed

section \<open>Plans\<close>

text \<open>The grid of a plan multiplies the candidates of its optimized parameters, and so of all of them.\<close>

lemma grid_product:
  "\<forall>p \<in> set ps. pd_optimizable p \<longleftrightarrow> 1 < length (candidate_values p) \<and> candidate_values p \<noteq> [] \<Longrightarrow>
   \<forall>p \<in> set ps. candidate_values p \<noteq> [] \<Longrightarrow>
   prod_list (map (\<lambda>d. length (candidate_values d)) (filter pd_optimizable ps))
     = prod_list (map (\<lambda>d. length (candidate_values d)) ps)"
proof (induction ps)
  case (Cons p ps)
  then show ?case by (cases "candidate_values p" rule: remdups_adj.cases) auto
qed simp

lemma rule_parameters_ok:
  assumes "\<forall>kv \<in> set table. \<exists>vs. snd kv = JObj [(''values'', JList vs)] \<and> vs \<noteq> [] \<and> number_values vs"
  obtains ps where "rule_parameters (JObj table) = Inr ps" "map pd_name ps = map fst table"
    "map (\<lambda>p. length (candidate_values p)) ps = map (\<lambda>kv. length (list_items (jget ''values'' (snd kv)))) table"
    "\<forall>p \<in> set ps. pd_optimizable p \<longleftrightarrow> 1 < length (candidate_values p) \<and> candidate_values p \<noteq> []"
    "\<forall>p \<in> set ps. candidate_values p \<noteq> []" "\<forall>p \<in> set ps. pd_classification p \<noteq> ''structural_choice''"
    "\<forall>p \<in> set ps. validate_parameter_definition p True = require (strip (pd_name p) \<noteq> []) ''Parameter name is required''"
  using assms
proof (induction table arbitrary: thesis)
  case Nil
  show ?case by (rule Nil.prems(1) [of "[]"]) (simp_all add: rule_parameters_def)
next
  case (Cons kv table)
  then obtain vs where vs: "snd kv = JObj [(''values'', JList vs)]" "vs \<noteq> []" "number_values vs" by auto
  obtain p where p: "rule_parameter (fst kv) vs = Inr p" "pd_name p = fst kv" "length (candidate_values p) = length vs"
    "pd_optimizable p \<longleftrightarrow> 1 < length vs" "pd_classification p \<noteq> ''structural_choice''"
    "validate_parameter_definition p True = require (strip (fst kv) \<noteq> []) ''Parameter name is required''"
    by (rule rule_parameter_ok [OF vs(3,2), of "fst kv"])
  have rest: "\<forall>kv \<in> set table. \<exists>vs. snd kv = JObj [(''values'', JList vs)] \<and> vs \<noteq> [] \<and> number_values vs"
    using Cons.prems(2) by simp
  obtain ps where ps: "rule_parameters (JObj table) = Inr ps" "map pd_name ps = map fst table"
    "map (\<lambda>p. length (candidate_values p)) ps = map (\<lambda>kv. length (list_items (jget ''values'' (snd kv)))) table"
    "\<forall>p \<in> set ps. pd_optimizable p \<longleftrightarrow> 1 < length (candidate_values p) \<and> candidate_values p \<noteq> []"
    "\<forall>p \<in> set ps. candidate_values p \<noteq> []" "\<forall>p \<in> set ps. pd_classification p \<noteq> ''structural_choice''"
    "\<forall>p \<in> set ps. validate_parameter_definition p True = require (strip (pd_name p) \<noteq> []) ''Parameter name is required''"
    by (rule Cons.IH [OF _ rest])
  have ne: "candidate_values p \<noteq> []" using p(3) vs(2) by auto
  show ?case
  proof (rule Cons.prems(1) [of "p # ps"])
    show "rule_parameters (JObj (kv # table)) = Inr (p # ps)"
      using p(1) ps(1) by (simp add: rule_parameters_def vs(1) list_items_def)
    show "map pd_name (p # ps) = map fst (kv # table)" using p(2) ps(2) by simp
    show "map (\<lambda>p. length (candidate_values p)) (p # ps)
        = map (\<lambda>kv. length (list_items (jget ''values'' (snd kv)))) (kv # table)"
      using p(3) ps(3) by (simp add: vs(1) list_items_def)
  qed (use p ps ne vs in auto)
qed

lemma accepted_table:
  assumes run: "rule_strategy_definition lib sha spec vars = Inr c" and lib: "library_wf lib" and keys: "distinct_keys vars"
  obtains sid n table where "c = definition_doc sid n table" "distinct (map fst table)"
    "\<forall>kv \<in> set table. \<exists>vs. snd kv = JObj [(''values'', JList vs)] \<and> vs \<noteq> [] \<and> number_values vs" "grid_ok table"
proof -
  from run obtain table n sid where t: "normalized_variables vars = Inr table"
    "validate_rule_spec lib spec (JObj table) = Inr n" "c = definition_doc sid n table"
    by (auto simp: definition_Inr)
  have dist: "distinct (map fst table)" using table_keys(2) [OF t(1)] keys by (cases vars) auto
  note ok = validate_sound [OF t(2) lib]
  have "\<exists>vs. snd kv = JObj [(''values'', JList vs)] \<and> vs \<noteq> [] \<and> number_values vs" if kv: "kv \<in> set table" for kv
  proof -
    from kv normalized_table [OF t(1)] obtain vs where vs: "snd kv = JObj [(''values'', JList vs)]" "vs \<noteq> []"
      by (auto simp: table_form_def)
    with accepted_values [OF ok dist, of "fst kv" "snd kv"] kv show ?thesis by (cases kv) (simp add: values_of_def)
  qed
  with t(3) dist ok show ?thesis
    by (intro that [of sid n table]) (auto simp: rules_ok_def variable_table_def)
qed

lemma grid_lengths:
  assumes "grid_ok table" and "\<forall>kv \<in> set table. \<exists>vs. snd kv = JObj [(''values'', JList vs)] \<and> vs \<noteq> [] \<and> number_values vs"
  shows "prod_list (map (\<lambda>kv. length (list_items (jget ''values'' (snd kv)))) table) \<le> MAX_VARIABLE_GRID"
proof -
  from assms(1) obtain counts where counts: "mapR (\<lambda>kv. value_count (snd kv)) table = Inr counts"
    "prod_list counts \<le> MAX_VARIABLE_GRID" by (auto simp: grid_ok_def)
  have "mapR (\<lambda>kv. value_count (snd kv)) table = Inr (map (\<lambda>kv. length (list_items (jget ''values'' (snd kv)))) table)"
    by (rule mapR_all_ok) (use assms(2) in \<open>fastforce simp: value_count_def list_items_def\<close>)
  with counts show ?thesis by simp
qed

lemma specification_parts:
  assumes "rule_specification c = Inr spec"
  shows "rule_parameters (jget ''variables'' c) = Inr (sp_parameters spec)" "strip (sp_hypothesis spec) \<noteq> []"
    "sp_source spec = BACKTEST_APPROVAL_PROVENANCE" "sp_approval_state spec = ''approved''"
proof -
  have "CHR ''D'' \<in> set (''Declarative '' @ x)" "\<not> is_space (CHR ''D'')" for x by (simp_all add: is_space_def)
  then have visible: "strip (''Declarative '' @ x) \<noteq> []" for x unfolding strip_Nil by blast
  from assms show "rule_parameters (jget ''variables'' c) = Inr (sp_parameters spec)" "strip (sp_hypothesis spec) \<noteq> []"
    "sp_source spec = BACKTEST_APPROVAL_PROVENANCE" "sp_approval_state spec = ''approved''"
    using visible by (auto simp: rule_specification_def Let_def)
qed

lemma plan_approved:
  assumes s: "rule_spec_strategy lib sha d = Inr s" and lib: "library_wf lib" and keys: "distinct_keys d"
  shows "validate_parameter_plan (strategy_spec s) True = Inr () \<longleftrightarrow>
      (\<forall>p \<in> set (sp_parameters (strategy_spec s)). strip (pd_name p) \<noteq> [])"
    and "validate_parameter_plan (strategy_spec s) True = Inr () \<Longrightarrow>
      \<exists>ps. summarize_parameter_plan (strategy_spec s) PROVISIONAL_GRID_WARNING_THRESHOLD True = Inr ps
        \<and> ps_total_combinations ps = prod_list (map (\<lambda>d. length (candidate_values d)) (sp_parameters (strategy_spec s)))
        \<and> ps_total_combinations ps \<le> MAX_VARIABLE_GRID \<and> ps_warnings ps = []"
proof -
  from s obtain c spec where c: "checked_definition lib sha d = Inr c" "rule_specification c = Inr spec"
    "s = Rule_compiled c spec" by (auto simp: strategy_Inr)
  let ?d = "without_legacy_keys d"
  from c(1) have "rule_strategy_definition lib sha (jget ''rule_spec'' ?d) (jget ''variables'' ?d) = Inr c"
    by (auto simp: checked_Inr Let_def)
  from accepted_table [OF this lib distinct_jget [OF distinct_without_legacy [OF keys]]]
  obtain sid n table where t: "c = definition_doc sid n table" "distinct (map fst table)" "grid_ok table"
    "\<forall>kv \<in> set table. \<exists>vs. snd kv = JObj [(''values'', JList vs)] \<and> vs \<noteq> [] \<and> number_values vs" by metis
  obtain ps where ps: "rule_parameters (JObj table) = Inr ps" "map pd_name ps = map fst table"
    "map (\<lambda>p. length (candidate_values p)) ps = map (\<lambda>kv. length (list_items (jget ''values'' (snd kv)))) table"
    "\<forall>p \<in> set ps. pd_optimizable p \<longleftrightarrow> 1 < length (candidate_values p) \<and> candidate_values p \<noteq> []"
    "\<forall>p \<in> set ps. candidate_values p \<noteq> []" "\<forall>p \<in> set ps. pd_classification p \<noteq> ''structural_choice''"
    "\<forall>p \<in> set ps. validate_parameter_definition p True = require (strip (pd_name p) \<noteq> []) ''Parameter name is required''"
    by (rule rule_parameters_ok [OF t(4)])
  note parts = specification_parts [OF c(2)]
  have params: "sp_parameters spec = ps" using parts(1) ps(1) by (simp add: t(1))
  have approved: "strip (sp_source spec) \<noteq> []" "sp_approval_state spec \<in> set APPROVAL_STATES"
    using parts(3,4) provenance_text(1) classifications(3) by simp_all
  show first: "validate_parameter_plan (strategy_spec s) True = Inr () \<longleftrightarrow>
      (\<forall>p \<in> set (sp_parameters (strategy_spec s)). strip (pd_name p) \<noteq> [])"
    using parts approved t(2) ps(2,7) mapR_cases [of "\<lambda>d. validate_parameter_definition d True" ps]
    by (simp add: validate_parameter_plan_def c(3) params require_def)
  assume ok: "validate_parameter_plan (strategy_spec s) True = Inr ()"
  have grid: "prod_list (map (\<lambda>d. length (candidate_values d)) ps) \<le> MAX_VARIABLE_GRID"
    using grid_lengths [OF t(3,4)] ps(3) by simp
  have none: "filter (\<lambda>d. pd_classification d = ''structural_choice'') ps = []"
    using ps(6) by (simp add: filter_empty_conv)
  have total: "prod_list (map (gc_candidate_count \<circ> (\<lambda>d. \<lparr>gc_name = pd_name d, gc_classification = pd_classification d,
      gc_candidate_count = length (candidate_values d)\<rparr>)) (filter pd_optimizable ps))
      = prod_list (map (\<lambda>d. length (candidate_values d)) ps)"
    using grid_product [OF ps(4,5)] by (simp add: comp_def)
  show "\<exists>ps. summarize_parameter_plan (strategy_spec s) PROVISIONAL_GRID_WARNING_THRESHOLD True = Inr ps
      \<and> ps_total_combinations ps = prod_list (map (\<lambda>d. length (candidate_values d)) (sp_parameters (strategy_spec s)))
      \<and> ps_total_combinations ps \<le> MAX_VARIABLE_GRID \<and> ps_warnings ps = []"
    using ok grid
    by (simp add: summarize_parameter_plan_def Let_def c(3) params none total require_def
        PROVISIONAL_GRID_WARNING_THRESHOLD_def MAX_VARIABLE_GRID_def)
qed

end
