(* ===== verification/Strategy_Guarantees.thy ===== *)
theory Strategy_Guarantees
  imports Rule_Guarantees Rule_Files Rule_Plan
begin

text \<open>
  What the strategies compiled from rules promise: identical rules share one identity, a definition
  survives its own check, an installed strategy is permanent, and every installed strategy obeys the
  governance of parameters.
\<close>

section \<open>One definition\<close>

definition demo_sha :: "string \<Rightarrow> string" where
  "demo_sha x = replicate 64 (CHR ''0'')"

definition demo_id :: string where
  "demo_id = ''rules_0000000000000000''"

definition demo_definition :: json where
  "demo_definition = JObj [(''strategy_id'', JStr demo_id), (''version'', JStr ''1.0.0''),
     (''rule_spec'', demo_normal), (''variables'', demo_variables)]"

lemma demo_defined: "rule_strategy_definition None demo_sha demo_rules demo_variables = Inr demo_definition"
  by code_simp

lemma demo_sizes: "check_size demo_normal = Inr ()"
  by code_simp

lemma demo_checked: "checked_definition None demo_sha demo_definition = Inr demo_definition"
  using checked_own [OF demo_defined] demo_sizes by (simp add: demo_definition_def library_wf_def)

lemma demo_keys: "distinct_keys demo_rules" "distinct_keys demo_variables" "distinct_keys demo_definition"
  by code_simp+

lemma demo_hex: "hex_digest demo_sha"
  by (simp add: hex_digest_def demo_sha_def)

text \<open>The same rules with their members in another order.\<close>

definition demo_shuffled :: json where
  "demo_shuffled = (case demo_rules of JObj kvs \<Rightarrow> JObj (rev kvs) | v \<Rightarrow> v)"

lemma demo_same_text: "\<exists>t. canonical_rule_spec_json demo_rules = Inr t \<and> canonical_rule_spec_json demo_shuffled = Inr t"
  "\<exists>t. canonical_rule_spec_json demo_variables = Inr t" "distinct_keys demo_shuffled"
proof -
  have "(case (canonical_rule_spec_json demo_rules, canonical_rule_spec_json demo_shuffled) of
      (Inr s, Inr t) \<Rightarrow> s = t | _ \<Rightarrow> False)"
    "(case canonical_rule_spec_json demo_variables of Inr _ \<Rightarrow> True | _ \<Rightarrow> False)" by code_simp+
  then show "\<exists>t. canonical_rule_spec_json demo_rules = Inr t \<and> canonical_rule_spec_json demo_shuffled = Inr t"
    "\<exists>t. canonical_rule_spec_json demo_variables = Inr t" by (auto split: sum.splits)
  show "distinct_keys demo_shuffled" by code_simp
qed

section \<open>Claims\<close>

text \<open>
  C35: Identical rules share one strategy. Two specs, and two sets of variables, with the same canonical
  text (documents equal up to the order of their members) have the same definition, and so the same
  strategy identity, whatever the digest: one is accepted with a definition exactly when the other is.
\<close>

theorem identical_rules_one_strategy:
  assumes "library_wf lib" and "distinct_keys spec" "distinct_keys spec'" "distinct_keys vars" "distinct_keys vars'"
    and "canonical_rule_spec_json spec = Inr a" "canonical_rule_spec_json spec' = Inr a"
    and "canonical_rule_spec_json vars = Inr b" "canonical_rule_spec_json vars' = Inr b"
  shows "rule_strategy_definition lib sha spec vars = Inr d \<longleftrightarrow> rule_strategy_definition lib sha spec' vars' = Inr d"
proof -
  note same = canonical_rules_same [OF assms(2,3,6,7)] canonical_rules_same [OF assms(4,5,8,9)]
  show ?thesis
    using definition_same [OF same assms(1)] definition_same [OF same [THEN same_sym] assms(1)] by blast
qed

theorem identical_rules_one_strategy_witness:
  "rule_strategy_definition None demo_sha demo_shuffled demo_variables = Inr demo_definition"
proof -
  from demo_same_text(1,2) obtain a b where t: "canonical_rule_spec_json demo_rules = Inr a"
    "canonical_rule_spec_json demo_shuffled = Inr a" "canonical_rule_spec_json demo_variables = Inr b" by blast
  have "library_wf None" by (simp add: library_wf_def)
  from identical_rules_one_strategy [OF this demo_keys(1) demo_same_text(3) demo_keys(2,2) t(1,2,3,3)] demo_defined
  show ?thesis by blast
qed

text \<open>
  C36: A definition survives its own check. What \<open>rule_strategy_definition\<close> returns is returned unchanged
  by the check every installation and every load makes, under the same identity, unless the normalized
  rules exceed the size limits that the submitted rules met; then the check refuses it.
\<close>

theorem definition_survives_check:
  assumes "rule_strategy_definition lib sha spec vars = Inr d" and "library_wf lib"
  shows "checked_definition lib sha d = bindR (check_size (jget ''rule_spec'' d)) (\<lambda>_. Inr d)"
  by (rule checked_own [OF assms])

theorem definition_survives_check_witness:
  "checked_definition None demo_sha demo_definition
    = bindR (check_size (jget ''rule_spec'' demo_definition)) (\<lambda>_. Inr demo_definition)"
  by (rule definition_survives_check [OF demo_defined]) (simp add: library_wf_def)

text \<open>
  C37: An installed strategy is permanent. After an installation on a fresh path returned a strategy, every
  later process with the same indicator library that finds the file and has not loaded the strategy yet
  loads exactly that strategy and changes no file. Installing any definition under the same identity returns
  exactly when its canonical text is the one installed, is refused otherwise with the store unchanged, and
  leaves every file as it is either way, whatever the disk would answer. No installation at all, of any
  definition under any library, changes a file that is there, and one that raises leaves the store as it was.
\<close>

theorem installed_strategy_permanent:
  assumes "library_wf lib" and "hex_digest sha" and "distinct_keys d"
    and "rule_spec_strategy lib sha d = Inr s" and "install_rule_strategy lib sha disk (Some dir) d q = (Inr r, q1)"
    and "map_of (rs_files q) (definition_path dir (strategy_id_of s)) = None"
    and "map_of (rs_files q2) (definition_path dir (strategy_id_of s)) = map_of (rs_files q1) (definition_path dir (strategy_id_of s))"
    and "map_of (rs_loaded q2) (strategy_id_of s) = None"
  shows "load_rule_strategy lib sha (Some dir) (strategy_id_of s) q2
      = (Inr s, q2\<lparr>rs_loaded := rs_loaded q2 @ [(strategy_id_of s, s)]\<rparr>)
    \<and> (\<forall>d' s'. rule_spec_strategy lib sha d' = Inr s' \<and> strategy_id_of s' = strategy_id_of s \<longrightarrow>
      (case install_rule_strategy lib sha disk' (Some dir) d' q2 of
         (Inr _, q3) \<Rightarrow> canonical_rule_spec_json (definition_of s') = canonical_rule_spec_json (definition_of s)
           \<and> rs_files q3 = rs_files q2
       | (Inl _, q3) \<Rightarrow> canonical_rule_spec_json (definition_of s') \<noteq> canonical_rule_spec_json (definition_of s)
           \<and> q3 = q2))
    \<and> (\<forall>lib' root d' path t. map_of (rs_files q2) path = Some t \<longrightarrow>
      (case install_rule_strategy lib' sha disk' root d' q2 of
         (Inr _, q3) \<Rightarrow> map_of (rs_files q3) path = Some t
       | (Inl _, q3) \<Rightarrow> q3 = q2))"
proof (intro conjI)
  obtain t where t: "definition_text (definition_of s) = Inr t"
    and rem: "remember s (q\<lparr>rs_files := rs_files q @ [(definition_path dir (strategy_id_of s), t)]\<rparr>) = (Inr r, q1)"
    by (rule install_fresh [OF assms(5,4,6)])
  have stored: "map_of (rs_files q2) (definition_path dir (strategy_id_of s)) = Some t"
    using assms(6,7) remember_files [OF rem] by (simp add: map_add_def)
  show "load_rule_strategy lib sha (Some dir) (strategy_id_of s) q2
      = (Inr s, q2\<lparr>rs_loaded := rs_loaded q2 @ [(strategy_id_of s, s)]\<rparr>)"
    by (rule installed_loads [OF assms(4,1,3,2) t stored assms(8)])
  show "\<forall>d' s'. rule_spec_strategy lib sha d' = Inr s' \<and> strategy_id_of s' = strategy_id_of s \<longrightarrow>
      (case install_rule_strategy lib sha disk' (Some dir) d' q2 of
         (Inr _, q3) \<Rightarrow> canonical_rule_spec_json (definition_of s') = canonical_rule_spec_json (definition_of s)
           \<and> rs_files q3 = rs_files q2
       | (Inl _, q3) \<Rightarrow> canonical_rule_spec_json (definition_of s') \<noteq> canonical_rule_spec_json (definition_of s)
           \<and> q3 = q2)"
    by (intro allI impI, elim conjE, rule install_over [OF assms(4) t assms(1,3) _ _ stored])
  show "\<forall>lib' root d' path t. map_of (rs_files q2) path = Some t \<longrightarrow>
      (case install_rule_strategy lib' sha disk' root d' q2 of
         (Inr _, q3) \<Rightarrow> map_of (rs_files q3) path = Some t
       | (Inl _, q3) \<Rightarrow> q3 = q2)"
  proof (intro allI impI)
    fix lib' root d' path t
    assume there: "map_of (rs_files q2) path = Some t"
    obtain z q3 where run: "install_rule_strategy lib' sha disk' root d' q2 = (z, q3)"
      by (cases "install_rule_strategy lib' sha disk' root d' q2")
    from install_files [OF run] there show "case install_rule_strategy lib' sha disk' root d' q2 of
         (Inr _, q3) \<Rightarrow> map_of (rs_files q3) path = Some t
       | (Inl _, q3) \<Rightarrow> q3 = q2"
      unfolding run by (cases z) (auto simp: map_add_def)
  qed
qed

theorem installed_strategy_permanent_witness:
  "\<exists>s q. install_rule_strategy None demo_sha (\<lambda>_. Inr ()) (Some ''/rules'') demo_definition
      \<lparr>rs_loaded = [], rs_files = []\<rparr> = (Inr s, q)
    \<and> load_rule_strategy None demo_sha (Some ''/rules'') (strategy_id_of s) (q\<lparr>rs_loaded := []\<rparr>)
      = (Inr s, q\<lparr>rs_loaded := [(strategy_id_of s, s)]\<rparr>)"
proof -
  have "case rule_specification demo_definition of Inr _ \<Rightarrow> True | _ \<Rightarrow> False" by code_simp
  with demo_checked obtain s where s: "rule_spec_strategy None demo_sha demo_definition = Inr s"
    by (auto simp: strategy_Inr split: sum.splits)
  obtain k where k: "definition_text (definition_of s) = Inr (pretty 0 k @ [CHR 0x0A])"
    by (rule definition_text_ok [OF s])
  let ?q = "\<lparr>rs_loaded = [], rs_files = []\<rparr> :: rule_store"
  note run = install_new [OF s k, of ?q "''/rules''" "\<lambda>_. Inr ()", simplified]
  have lib: "library_wf None" by (simp add: library_wf_def)
  from installed_strategy_permanent [OF lib demo_hex demo_keys(3) s run, where ?q2.0 = "?q\<lparr>rs_files :=
      [(definition_path ''/rules'' (strategy_id_of s), pretty 0 k @ [CHR 0x0A])]\<rparr>"] run
  show ?thesis by simp
qed

text \<open>
  C38: Every installed strategy may be executed. The parameters an installed rule strategy declares pass the
  governance check for approved plans exactly when no variable has a blank name, and then the plan summary
  counts the combinations of the declared values, at most 100, and carries no warning.
\<close>

theorem installed_plan_approved:
  assumes "rule_spec_strategy lib sha d = Inr s" and "library_wf lib" and "distinct_keys d"
  shows "(validate_parameter_plan (strategy_spec s) True = Inr () \<longleftrightarrow>
      (\<forall>p \<in> set (sp_parameters (strategy_spec s)). strip (pd_name p) \<noteq> []))
    \<and> (validate_parameter_plan (strategy_spec s) True = Inr () \<longrightarrow>
      (\<exists>ps. summarize_parameter_plan (strategy_spec s) PROVISIONAL_GRID_WARNING_THRESHOLD True = Inr ps
        \<and> ps_total_combinations ps = prod_list (map (\<lambda>d. length (candidate_values d)) (sp_parameters (strategy_spec s)))
        \<and> ps_total_combinations ps \<le> MAX_VARIABLE_GRID \<and> ps_warnings ps = []))"
  using plan_approved [OF assms] by blast

theorem installed_plan_approved_witness:
  "\<exists>s. rule_spec_strategy None demo_sha demo_definition = Inr s
    \<and> map pd_name (sp_parameters (strategy_spec s)) = [''n''] \<and> validate_parameter_plan (strategy_spec s) True = Inr ()"
proof -
  have "case rule_specification demo_definition of Inr spec \<Rightarrow> map pd_name (sp_parameters spec) = [''n''] | _ \<Rightarrow> False"
    by code_simp
  then obtain spec where spec: "rule_specification demo_definition = Inr spec" "map pd_name (sp_parameters spec) = [''n'']"
    by (auto split: sum.splits)
  with demo_checked have s: "rule_spec_strategy None demo_sha demo_definition = Inr (Rule_compiled demo_definition spec)"
    by (simp add: strategy_Inr)
  have "strip ''n'' \<noteq> []" by code_simp
  with spec(2) have "\<forall>p \<in> set (sp_parameters spec). strip (pd_name p) \<noteq> []" by (auto simp: map_eq_Cons_conv)
  with installed_plan_approved [OF s _ demo_keys(3)] spec(2) s show ?thesis by (auto simp: library_wf_def)
qed

end
