(* ===== verification/Candidate_Packet.thy ===== *)
theory Candidate_Packet
  imports Rule_Strategy Run_Service
begin

text \<open>
  Research proposals: \<open>research_intake/qf_candidate.py\<close>. A packet is parsed, validated into a list of
  issues, and stored as an idea draft; an owner's decision rewrites its status. What lies outside the
  program is the record \<open>packet_reader\<close>: the YAML parser (\<open>None\<close> for its error), the check of a
  bracketed host by \<open>urllib\<close> and \<open>ipaddress\<close>, and the indicator library the rule checker reads. The
  issues of a validation are the concatenation of the issues of its sections, in the order of the code.
\<close>

record packet_reader =
  pr_yaml :: "string \<Rightarrow> json option"
  pr_bracketed :: "string \<Rightarrow> bool"
  pr_library :: "vectorbt option"

definition QF_CANDIDATE_SCHEMA :: string where "QF_CANDIDATE_SCHEMA = ''qf_candidate_v1''"
definition MAX_PACKET_CHARS :: nat where "MAX_PACKET_CHARS = 100000"
definition MAX_VARIABLE_VALUES :: nat where "MAX_VARIABLE_VALUES = 64"
definition MAX_PARAMETER_COMBINATIONS :: nat where "MAX_PARAMETER_COMBINATIONS = 10000"

definition ALLOWED_STATUSES :: "string list" where
  "ALLOWED_STATUSES = [''draft'', ''needs_clarification'', ''ready_for_review'', ''owner_approved'', ''implemented'',
     ''rejected'', ''retired'']"

definition ALLOWED_IMPORTANCE :: "string list" where
  "ALLOWED_IMPORTANCE = [''high'', ''medium'', ''low'']"

definition FORBIDDEN_CONTROL_KEYS :: "string list" where
  "FORBIDDEN_CONTROL_KEYS = [''auto_launch'', ''execute_now'', ''submit_order'', ''place_order'', ''paper_trade'',
     ''live_trade'', ''capital_allocation'', ''python_code'', ''vectorbt_code'']"

section \<open>Values\<close>

text \<open>Python's truth of a value; \<open>_mapping\<close>, \<open>_text\<close>, \<open>_scalar\<close>; \<open>str.lower\<close>.\<close>

definition is_true :: "json \<Rightarrow> bool" where
  "is_true v =
     (case v of
        JNull \<Rightarrow> False
      | JBool b \<Rightarrow> b
      | JInt i \<Rightarrow> i \<noteq> 0
      | JFloat t \<Rightarrow> float_value t \<noteq> Fin 0
      | JStr s \<Rightarrow> s \<noteq> []
      | JList xs \<Rightarrow> xs \<noteq> []
      | JObj kvs \<Rightarrow> kvs \<noteq> [])"

definition mapping_of :: "json \<Rightarrow> json" where
  "mapping_of v = (if is_obj v then v else JObj [])"

definition text_of :: "json \<Rightarrow> string" where
  "text_of v = (case v of JNull \<Rightarrow> [] | _ \<Rightarrow> strip (py_str v))"

definition lower :: "string \<Rightarrow> string" where
  "lower s = map lower_char s"

definition is_json_scalar :: "json \<Rightarrow> bool" where
  "is_json_scalar v = (case v of JList _ \<Rightarrow> False | JObj _ \<Rightarrow> False | _ \<Rightarrow> True)"

definition or_default :: "string \<Rightarrow> string \<Rightarrow> string" where
  "or_default s d = (if s = [] then d else s)"

text \<open>\<open>f"{n:,}"\<close>: the digits in groups of three.\<close>

fun grouped :: "nat \<Rightarrow> string" where
  "grouped n =
     (if n < 1000 then nat_str n
      else grouped (n div 1000) @ CHR '','' # drop 1 (nat_str (1000 + n mod 1000)))"

declare grouped.simps [simp del]

function (sequential) plain :: "json \<Rightarrow> exn + json" where
  "plain (JObj kvs) =
     bindR (mapR (\<lambda>kv. bindR (plain (snd kv)) (\<lambda>v. Inr (fst kv, v))) kvs) (\<lambda>ms. Inr (JObj ms))"
| "plain (JList xs) = bindR (mapR plain xs) (\<lambda>ys. Inr (JList ys))"
| "plain (JFloat t) =
     (if is_finite (float_value t) then Inr (JFloat t)
      else Inl (CandidatePacketError ''candidate packet cannot contain NaN or infinite values''))"
| "plain v = Inr v"
  by pat_completeness auto
termination
  by (relation "measure size") (simp_all add: size_elem size_member del: json.size)

text \<open>\<open>_walk_items\<close>: every member at every depth, with its path, before the members inside it.\<close>

function (sequential) walk_items :: "json \<Rightarrow> string \<Rightarrow> (string \<times> string \<times> json) list" where
  "walk_items (JObj kvs) path =
     concat (map (\<lambda>kv. let child = path @ ''.'' @ fst kv in (child, fst kv, snd kv) # walk_items (snd kv) child) kvs)"
| "walk_items (JList xs) path =
     concat (map (\<lambda>(i, x). walk_items x (path @ ''['' @ nat_str i @ '']'')) (enumerate 0 xs))"
| "walk_items _ _ = []"
  by pat_completeness auto
termination
  by (relation "measure (size \<circ> fst)") (auto simp: size_elem size_member in_set_enumerate_eq simp del: json.size)

section \<open>Public URLs\<close>

text \<open>\<open>urlsplit\<close>: its scheme, the rest after it, and the network location of that rest.\<close>

definition scheme_char :: "char \<Rightarrow> bool" where
  "scheme_char c \<longleftrightarrow> is_ascii_alnum c \<or> c = CHR ''+'' \<or> c = CHR ''-'' \<or> c = CHR ''.''"

definition is_ascii_letter :: "char \<Rightarrow> bool" where
  "is_ascii_letter c \<longleftrightarrow> is_ascii_alnum c \<and> \<not> is_digit c"

definition clean_url :: "string \<Rightarrow> string" where
  "clean_url url =
     filter (\<lambda>c. c \<notin> {CHR 0x09, CHR 0x0D, CHR 0x0A}) (dropWhile (\<lambda>c. (of_char c :: nat) \<le> 32) url)"

definition split_scheme :: "string \<Rightarrow> string \<times> string" where
  "split_scheme url =
     (let name = takeWhile (\<lambda>c. c \<noteq> CHR '':'') url; rest = dropWhile (\<lambda>c. c \<noteq> CHR '':'') url in
      if name \<noteq> [] \<and> rest \<noteq> [] \<and> is_ascii_letter (hd name) \<and> (\<forall>c \<in> set name. scheme_char c)
      then (lower name, tl rest) else ([], url))"

definition netloc_of :: "string \<Rightarrow> string" where
  "netloc_of rest =
     (if take 2 rest = ''//'' then takeWhile (\<lambda>c. c \<notin> {CHR ''/'', CHR ''?'', CHR ''#''}) (drop 2 rest) else [])"

definition url_splits :: "(string \<Rightarrow> bool) \<Rightarrow> string \<Rightarrow> bool" where
  "url_splits bracketed netloc \<longleftrightarrow>
     (CHR ''['' \<in> set netloc \<longleftrightarrow> CHR '']'' \<in> set netloc) \<and> (CHR ''['' \<in> set netloc \<longrightarrow> bracketed netloc)"

text \<open>A name or password is given exactly when the location has an \<open>@\<close>.\<close>

definition valid_public_url :: "packet_reader \<Rightarrow> string \<Rightarrow> bool" where
  "valid_public_url pr url =
     (let (scheme, rest) = split_scheme (clean_url url); netloc = netloc_of rest in
      url_splits (pr_bracketed pr) netloc \<and> scheme \<in> {''http'', ''https''} \<and> netloc \<noteq> [] \<and> CHR ''@'' \<notin> set netloc)"

section \<open>Parsing\<close>

text \<open>The payload is an object, or text.\<close>

definition parse_candidate_packet :: "packet_reader \<Rightarrow> json \<Rightarrow> string option \<Rightarrow> exn + json" where
  "parse_candidate_packet pr payload format_hint =
     bindR
       (if is_obj payload then Inr payload
        else
          let packet = py_str payload; hint = lower (strip (str_or format_hint [])); start = dropWhile is_space packet;
              bad = Inl (CandidatePacketError ''candidate packet is not valid JSON/YAML'') in
          bindR (guardR (length packet \<le> MAX_PACKET_CHARS)
            (CandidatePacketError (''candidate packet exceeds '' @ grouped MAX_PACKET_CHARS @ '' characters''))) (\<lambda>_.
          if hint = ''json'' \<or> hint = [] \<and> take 1 start \<in> {''{'', ''[''}
          then (case json_loads packet of None \<Rightarrow> bad | Some v \<Rightarrow> Inr v)
          else if hint \<in> {''yaml'', ''yml'', []} then (case pr_yaml pr packet of None \<Rightarrow> bad | Some v \<Rightarrow> Inr v)
          else Inl (CandidatePacketError (''unsupported candidate format '' @ repr_str (str_or format_hint []))))) (\<lambda>doc.
     bindR (guardR (is_obj doc) (CandidatePacketError ''candidate packet must contain one top-level object'')) (\<lambda>_.
     Inr doc))"

section \<open>Issues\<close>

record candidate_issue =
  ci_severity :: string
  ci_code :: string
  ci_path :: string
  ci_message :: string

definition issue :: "string \<Rightarrow> string \<Rightarrow> string \<Rightarrow> string \<Rightarrow> candidate_issue" where
  "issue severity code path message =
     \<lparr>ci_severity = severity, ci_code = code, ci_path = path, ci_message = message\<rparr>"

definition error_if :: "bool \<Rightarrow> string \<Rightarrow> string \<Rightarrow> string \<Rightarrow> candidate_issue list" where
  "error_if b code path message = (if b then [issue ''error'' code path message] else [])"

definition warning_if :: "bool \<Rightarrow> string \<Rightarrow> string \<Rightarrow> string \<Rightarrow> candidate_issue list" where
  "warning_if b code path message = (if b then [issue ''warning'' code path message] else [])"

definition indexed :: "string \<Rightarrow> nat \<Rightarrow> string" where
  "indexed name i = name @ ''['' @ nat_str i @ '']''"

definition header_issues :: "json \<Rightarrow> candidate_issue list" where
  "header_issues doc =
     (let candidate = mapping_of (jget ''candidate'' doc); title = text_of (jget ''title'' candidate);
          status = or_default (text_of (jget ''status'' candidate)) ''draft'';
          hypothesis = mapping_of (jget ''hypothesis'' doc); market = mapping_of (jget ''market'' doc) in
      error_if (jget ''schema'' doc \<noteq> JStr QF_CANDIDATE_SCHEMA) ''schema'' ''schema''
        (''schema must be '' @ repr_str QF_CANDIDATE_SCHEMA) @
      error_if (title = []) ''candidate_title'' ''candidate.title'' ''candidate title is required'' @
      error_if (160 < length title) ''candidate_title_length'' ''candidate.title'' ''candidate title is too long'' @
      error_if (status \<notin> set ALLOWED_STATUSES) ''candidate_status'' ''candidate.status''
        ''candidate status is not recognized'' @
      error_if (text_of (jget ''behavior'' hypothesis) = []) ''hypothesis'' ''hypothesis.behavior''
        ''a falsifiable behavior hypothesis is required'' @
      warning_if (\<not> is_true (jget ''failure_theory'' hypothesis)) ''failure_theory_missing''
        ''hypothesis.failure_theory'' ''record why the proposed edge might fail before approval'' @
      error_if (lower (text_of (jget ''holding_style'' market)) \<noteq> ''intraday'') ''holding_style''
        ''market.holding_style'' ''current Quant Factory mandate requires holding_style: intraday'' @
      error_if (jget ''overnight_positions'' market \<noteq> JBool False) ''overnight_positions''
        ''market.overnight_positions'' ''current Quant Factory mandate requires overnight_positions: false'' @
      error_if (mapping_of (jget ''rules'' doc) = JObj []) ''rules'' ''rules'' ''testable strategy rules are required'')"

definition source_issues :: "packet_reader \<Rightarrow> nat \<times> json \<Rightarrow> candidate_issue list" where
  "source_issues pr item =
     (case item of (i, source) \<Rightarrow>
        let here = indexed ''sources'' i in
        if \<not> is_obj source then [issue ''error'' ''source_type'' here ''each source must be an object'']
        else
          let kind = lower (text_of (jget ''type'' source)); url = text_of (jget ''url'' source) in
          error_if (kind = []) ''source_kind'' (here @ ''.type'') ''source type is required'' @
          error_if (url \<noteq> [] \<and> \<not> valid_public_url pr url) ''source_url'' (here @ ''.url'')
            ''source URL must be http/https without embedded credentials'' @
          warning_if (url = [] \<and> kind \<noteq> ''owner_observation'') ''source_reference_missing'' here
            ''non-owner sources should retain a URL or equivalent reference'')"

definition sources_issues :: "packet_reader \<Rightarrow> json \<Rightarrow> candidate_issue list" where
  "sources_issues pr doc =
     (case jget ''sources'' doc of
        JNull \<Rightarrow> []
      | JList sources \<Rightarrow> concat (map (source_issues pr) (enumerate 0 sources))
      | _ \<Rightarrow> [issue ''error'' ''sources_type'' ''sources'' ''sources must be a list''])"

text \<open>The issue of one variable, and the factor by which it widens the grid.\<close>

definition variable_check :: "string \<times> json \<Rightarrow> exn + (candidate_issue list \<times> nat)" where
  "variable_check item =
     (case item of (name, definition) \<Rightarrow>
        let path = ''variables.'' @ name; here = path @ ''.values'';
            bad = (\<lambda>code place message. Inr ([issue ''error'' code place message], 1)) in
        if \<not> is_obj definition then bad ''variable_spec'' path ''variable definition must be an object''
        else
          (case jget ''values'' definition of
             JList (v # vs) \<Rightarrow>
               if MAX_VARIABLE_VALUES < length (v # vs)
               then bad ''variable_too_wide'' here
                 (''variable may contain at most '' @ nat_str MAX_VARIABLE_VALUES @ '' values'')
               else if \<not> list_all is_json_scalar (v # vs)
               then bad ''variable_scalar'' here ''variable values must be scalar JSON values''
               else
                 bindR (mapR canonical_json (v # vs)) (\<lambda>texts.
                 if \<not> distinct texts then bad ''variable_duplicate'' here ''variable values must be unique''
                 else Inr ([], length (v # vs)))
           | _ \<Rightarrow> bad ''variable_values'' here ''variable must define a non-empty bounded values list''))"

definition variables_check :: "json \<Rightarrow> exn + (candidate_issue list \<times> nat)" where
  "variables_check variables =
     (case variables of
        JObj table \<Rightarrow>
          bindR (mapR variable_check table) (\<lambda>checks.
          Inr (concat (map fst checks), prod_list (map snd checks)))
      | _ \<Rightarrow> Inr ([], 1))"

definition grid_issues :: "nat \<Rightarrow> candidate_issue list" where
  "grid_issues combinations =
     warning_if (MAX_PARAMETER_COMBINATIONS < combinations) ''large_parameter_space'' ''variables''
       (''bounded grid expands to '' @ grouped combinations @ '' combinations; review before execution'')"

definition candidate_rule_spec :: "packet_reader \<Rightarrow> json \<Rightarrow> exn + json option" where
  "candidate_rule_spec pr packet =
     bindR (plain packet) (\<lambda>doc.
     case jget ''rule_spec'' doc of
       JNull \<Rightarrow> Inr None
     | raw \<Rightarrow>
         bindR (validate_rule_spec (pr_library pr) raw (mapping_of (jget ''variables'' doc))) (\<lambda>spec.
         let timeframe = text_of (jget ''timeframe'' (mapping_of (jget ''market'' doc))) in
         bindR (guardR (jget ''bar'' spec = JStr timeframe)
           (RuleSpecError ''rule_spec.bar'' (py_repr (jget ''bar'' spec) @ '' must equal market.timeframe (''
             @ repr_str (or_default timeframe ''missing'') @ '')''))) (\<lambda>_.
         Inr (Some spec))))"

definition rule_spec_issues :: "packet_reader \<Rightarrow> json \<Rightarrow> exn + candidate_issue list" where
  "rule_spec_issues pr doc =
     (case candidate_rule_spec pr doc of
        Inr _ \<Rightarrow> Inr []
      | Inl (RuleSpecError path reason) \<Rightarrow>
          Inr [issue ''error'' ''rule_spec'' path (exn_text (RuleSpecError path reason))]
      | Inl e \<Rightarrow> Inl e)"

text \<open>The variants in order, with the identities seen so far.\<close>

fun variant_issues :: "nat \<Rightarrow> string list \<Rightarrow> json list \<Rightarrow> candidate_issue list" where
  "variant_issues i seen [] = []"
| "variant_issues i seen (variant # rest) =
     (let here = indexed ''variants'' i; variant_id = text_of (jget ''id'' variant) in
      if \<not> is_obj variant
      then issue ''error'' ''variant_type'' here ''each structural variant must be an object''
        # variant_issues (Suc i) seen rest
      else
        error_if (variant_id = []) ''variant_id'' (here @ ''.id'') ''structural variant id is required'' @
        error_if (variant_id \<noteq> [] \<and> variant_id \<in> set seen) ''variant_duplicate'' (here @ ''.id'')
          ''structural variant ids must be unique'' @
        warning_if (text_of (jget ''difference'' variant) = []) ''variant_difference'' (here @ ''.difference'')
          ''state how this structural variant differs from the base hypothesis'' @
        variant_issues (Suc i) (variant_id # seen) rest)"

definition variants_issues :: "json \<Rightarrow> candidate_issue list" where
  "variants_issues doc =
     (let variants = jget ''variants'' doc in
      if \<not> is_true variants then []
      else case variants of
          JList vs \<Rightarrow> variant_issues 0 [] vs
        | _ \<Rightarrow> [issue ''error'' ''variants_type'' ''variants'' ''variants must be a list''])"

definition question_issues :: "nat \<times> json \<Rightarrow> candidate_issue list" where
  "question_issues item =
     (case item of (i, question) \<Rightarrow>
        let here = indexed ''open_questions'' i in
        if \<not> is_obj question then [issue ''error'' ''question_type'' here ''each question must be an object'']
        else
          error_if (text_of (jget ''question'' question) = []) ''question_text'' (here @ ''.question'')
            ''question text is required'' @
          error_if (or_default (lower (text_of (jget ''importance'' question))) ''medium'' \<notin> set ALLOWED_IMPORTANCE)
            ''question_importance'' (here @ ''.importance'') ''importance must be high, medium, or low'')"

definition questions_issues :: "json \<Rightarrow> candidate_issue list" where
  "questions_issues doc =
     (let questions = jget ''open_questions'' doc in
      if \<not> is_true questions then []
      else case questions of
          JList qs \<Rightarrow> concat (map question_issues (enumerate 0 qs))
        | _ \<Rightarrow> [issue ''error'' ''questions_type'' ''open_questions'' ''open_questions must be a list''])"

definition execution_issues :: "json \<Rightarrow> candidate_issue list" where
  "execution_issues doc =
     (let execution = jget ''execution'' doc in
      if execution = JNull then []
      else if \<not> is_obj execution
      then [issue ''error'' ''execution_type'' ''execution'' ''execution must be an object'']
      else
        error_if (has_key ''use_qf_defaults'' execution \<and> (case jget ''use_qf_defaults'' execution of JBool _ \<Rightarrow> False | _ \<Rightarrow> True))
          ''execution_defaults'' ''execution.use_qf_defaults'' ''use_qf_defaults must be true or false'')"

text \<open>\<open>value not in (None, False, "", [], {})\<close> is Python's truth: equality makes both zeros \<open>False\<close>.\<close>

definition item_issues :: "string \<times> string \<times> json \<Rightarrow> candidate_issue list" where
  "item_issues item =
     (case item of (path, key, v) \<Rightarrow>
        error_if (key \<in> set FORBIDDEN_CONTROL_KEYS \<and> is_true v) ''forbidden_control'' path
          (key @ '' is not allowed in a QF Candidate packet; intake cannot execute or authorize trading'') @
        error_if (case v of JFloat t \<Rightarrow> \<not> is_finite (float_value t) | _ \<Rightarrow> False) ''non_finite'' path
          ''candidate packet cannot contain NaN or infinite values'')"

section \<open>Validation\<close>

record candidate_validation =
  cv_document :: json
  cv_canonical_json :: string
  cv_issues :: "candidate_issue list"
  cv_parameter_combinations :: nat

definition cv_errors :: "candidate_validation \<Rightarrow> candidate_issue list" where
  "cv_errors v = filter (\<lambda>i. ci_severity i = ''error'') (cv_issues v)"

definition cv_valid :: "candidate_validation \<Rightarrow> bool" where
  "cv_valid v \<longleftrightarrow> cv_errors v = []"

definition is_high_question :: "json \<Rightarrow> bool" where
  "is_high_question question \<longleftrightarrow> is_obj question \<and>
     lower (strip (py_str (get_or ''importance'' (JStr []) question))) = ''high''"

definition cv_review_ready :: "candidate_validation \<Rightarrow> bool" where
  "cv_review_ready v \<longleftrightarrow>
     cv_valid v \<and> \<not> list_ex is_high_question (list_items (jget ''open_questions'' (cv_document v)))"

definition validate_candidate_packet :: "packet_reader \<Rightarrow> json \<Rightarrow> exn + candidate_validation" where
  "validate_candidate_packet pr document =
     bindR (plain document) (\<lambda>doc.
     let variables = mapping_of (jget ''variables'' doc) in
     bindR (variables_check variables) (\<lambda>(of_variables, combinations).
     bindR (rule_spec_issues pr doc) (\<lambda>of_rules.
     bindR (canonical_json doc) (\<lambda>canonical.
     Inr \<lparr>cv_document = doc, cv_canonical_json = canonical,
       cv_issues = header_issues doc @ sources_issues pr doc @ of_variables @ grid_issues combinations @ of_rules
         @ variants_issues doc @ questions_issues doc @ execution_issues doc
         @ concat (map item_issues (walk_items doc ''$''))
         @ error_if (MAX_PACKET_CHARS < length canonical) ''packet_size'' ''$''
             (''canonical candidate packet exceeds '' @ grouped MAX_PACKET_CHARS @ '' characters''),
       cv_parameter_combinations = (if variables = JObj [] then 0 else combinations)\<rparr>))))"

fun join_with :: "string \<Rightarrow> string list \<Rightarrow> string" where
  "join_with sep [] = []"
| "join_with sep [x] = x"
| "join_with sep (x # xs) = x @ sep @ join_with sep xs"

definition issue_lines :: "candidate_validation \<Rightarrow> string" where
  "issue_lines v = join_with ''; '' (map (\<lambda>i. ci_path i @ '': '' @ ci_message i) (cv_errors v))"

definition packet_status :: "json \<Rightarrow> string" where
  "packet_status doc = or_default (text_of (jget ''status'' (mapping_of (jget ''candidate'' doc)))) ''draft''"

definition IMPORTABLE_STATUSES :: "string list" where
  "IMPORTABLE_STATUSES = [''draft'', ''needs_clarification'', ''ready_for_review'']"

definition require_importable :: "candidate_validation \<Rightarrow> exn + unit" where
  "require_importable v =
     bindR (guardR (cv_valid v) (CandidatePacketError (''candidate packet failed validation: '' @ issue_lines v))) (\<lambda>_.
     guardR (packet_status (cv_document v) \<in> set IMPORTABLE_STATUSES)
       (CandidatePacketError (''imported candidate cannot assert owner approval, implementation, ''
          @ ''rejection, or retirement'')))"

section \<open>Operations\<close>

definition source_attribution :: "json \<Rightarrow> string" where
  "source_attribution source =
     take 240 (join_with ('' '' @ [CHR 0xB7] @ '' '')
       (filter (\<lambda>part. part \<noteq> []) (map (\<lambda>k. text_of (jget k source)) [''creator'', ''community'', ''title''])))"

definition first_source :: "json \<Rightarrow> json" where
  "first_source doc = (case filter is_obj (list_items (jget ''sources'' doc)) of [] \<Rightarrow> JObj [] | s # _ \<Rightarrow> s)"

definition question_notes :: "json \<Rightarrow> string" where
  "question_notes doc =
     join_with [CHR 0x0A] (map (\<lambda>q. ''- '' @ text_of (jget ''question'' q))
       (filter (\<lambda>q. is_obj q \<and> text_of (jget ''question'' q) \<noteq> []) (list_items (jget ''open_questions'' doc))))"

definition checked_packet ::
  "packet_reader \<Rightarrow> json \<Rightarrow> string option \<Rightarrow> exn + json \<times> candidate_validation" where
  "checked_packet pr payload format_hint =
     bindR (parse_candidate_packet pr payload format_hint) (\<lambda>document.
     bindR (validate_candidate_packet pr document) (\<lambda>validation.
     bindR (require_importable validation) (\<lambda>_.
     Inr (document, validation))))"

text \<open>\<open>fresh\<close> is the text \<open>uuid4().hex\<close> gives when no draft identity is passed.\<close>

definition import_candidate_as_idea ::
  "packet_reader \<Rightarrow> string \<Rightarrow> stamp \<Rightarrow> stamp \<Rightarrow> json \<Rightarrow> string option \<Rightarrow> string option \<Rightarrow>
   (idea_draft \<times> candidate_validation) service" where
  "import_candidate_as_idea pr fresh t0 t1 payload format_hint draft_id =
     andThen (askS (\<lambda>_. checked_packet pr payload format_hint)) (\<lambda>(document, validation).
     let candidate = mapping_of (jget ''candidate'' document); hypothesis = mapping_of (jget ''hypothesis'' document);
         title = text_of (jget ''title'' candidate); description = text_of (jget ''behavior'' hypothesis);
         source = first_source document; source_url = text_of (jget ''url'' source);
         attribution = source_attribution source; notes = take 2000 (question_notes document) in
     andThen
       (case draft_id of
          None \<Rightarrow>
            andThen (save_idea_draft fresh t0 title description source_url attribution notes None) (\<lambda>draft.
            set_idea_candidate_packet t1 (dr_id draft) (cv_canonical_json validation))
        | Some k \<Rightarrow>
            andThen (save_candidate_idea t0 t1 k title (cv_canonical_json validation) description source_url
              attribution notes) (\<lambda>(draft, _).
            askS (\<lambda>_. Inr draft))) (\<lambda>draft.
     askS (\<lambda>_. Inr (draft, validation))))"

definition attach_candidate_to_idea ::
  "packet_reader \<Rightarrow> stamp \<Rightarrow> json \<Rightarrow> string \<Rightarrow> string option \<Rightarrow> (idea_draft \<times> candidate_validation) service" where
  "attach_candidate_to_idea pr now payload draft_id format_hint =
     andThen (askS (\<lambda>_. checked_packet pr payload format_hint)) (\<lambda>(_, validation).
     andThen (set_idea_candidate_packet now draft_id (cv_canonical_json validation)) (\<lambda>draft.
     askS (\<lambda>_. Inr (draft, validation))))"

definition DECISIONS :: "string list" where
  "DECISIONS = [''owner_approved'', ''rejected'']"

text \<open>The document with the decision as its status: \<open>document["candidate"]["status"] = decision\<close> on copies.\<close>

definition with_status :: "string \<Rightarrow> json \<Rightarrow> json" where
  "with_status decision doc =
     (case (doc, mapping_of (jget ''candidate'' doc)) of
        (JObj kvs, JObj candidate) \<Rightarrow>
          JObj (dict_put ''candidate'' (JObj (dict_put ''status'' (JStr decision) candidate)) kvs)
      | _ \<Rightarrow> doc)"

definition decided_packet ::
  "packet_reader \<Rightarrow> string \<Rightarrow> string \<Rightarrow> db \<Rightarrow> exn + candidate_validation" where
  "decided_packet pr draft_id decision d =
     bindR (case idea_get draft_id d of
         None \<Rightarrow> Inl (CandidatePacketError ''choose a saved Candidate before recording a decision'')
       | Some draft \<Rightarrow>
           bindR (guardR (dr_candidate_json draft \<noteq> [])
             (CandidatePacketError ''choose a saved Candidate before recording a decision'')) (\<lambda>_. Inr draft)) (\<lambda>draft.
     bindR (parse_candidate_packet pr (JStr (dr_candidate_json draft)) (Some ''json'')) (\<lambda>packet.
     bindR (validate_candidate_packet pr packet) (\<lambda>validation.
     bindR (guardR (cv_valid validation) (CandidatePacketError ''the saved Candidate is invalid'')) (\<lambda>_.
     bindR (guardR (decision = ''owner_approved'' \<longrightarrow> cv_review_ready validation)
       (CandidatePacketError ''resolve every high-importance question before accepting this Candidate'')) (\<lambda>_.
     bindR (validate_candidate_packet pr (with_status decision (cv_document validation))) (\<lambda>decided.
     bindR (guardR (cv_valid decided)
       (CandidatePacketError ''the owner decision produced an invalid Candidate'')) (\<lambda>_.
     Inr decided)))))))"

definition record_candidate_decision ::
  "packet_reader \<Rightarrow> stamp \<Rightarrow> string \<Rightarrow> string \<Rightarrow> (idea_draft \<times> candidate_validation) service" where
  "record_candidate_decision pr now draft_id decision =
     andThen (askS (\<lambda>_. guardR (decision \<in> set DECISIONS)
       (CandidatePacketError ''candidate decision must be owner_approved or rejected''))) (\<lambda>_.
     andThen (askS (decided_packet pr draft_id decision)) (\<lambda>decided.
     andThen (set_idea_candidate_packet now draft_id (cv_canonical_json decided)) (\<lambda>saved.
     askS (\<lambda>_. Inr (saved, decided)))))"

text \<open>Exporting: \<open>dump\<close> is \<open>yaml.safe_dump\<close>.\<close>

definition export_candidate_packet :: "packet_reader \<Rightarrow> (json \<Rightarrow> string) \<Rightarrow> json \<Rightarrow> string \<Rightarrow> exn + string" where
  "export_candidate_packet pr dump document format =
     bindR (validate_candidate_packet pr document) (\<lambda>validation.
     bindR (guardR (cv_valid validation)
       (CandidatePacketError (''candidate packet failed validation: '' @ issue_lines validation))) (\<lambda>_.
     if format = ''json'' then definition_text (cv_document validation)
     else if format \<in> {''yaml'', ''yml''} then Inr (dump (cv_document validation))
     else Inl (CandidatePacketError (''unsupported export format '' @ repr_str format))))"

end
