(* ===== verification/Candidate_Laws.thy ===== *)
theory Candidate_Laws
  imports Candidate_Packet Rule_Identity
begin

text \<open>
  What a valid packet is, on the document the database stores: its canonical text reads back as the same
  document with sorted members, so what the checks established of the packet holds of the stored one.
\<close>

declare askS_iff [simp del]

lemma askS_returns [simp]:
  "askS f d = (Inr x, d') \<longleftrightarrow> f d = Inr x \<and> d' = d"
  "askS f d = (Inl e, d') \<longleftrightarrow> f d = Inl e \<and> d' = d"
  by (auto simp: askS_def)

section \<open>Documents that differ in the order of members\<close>

lemma same_true: "same_doc v w \<Longrightarrow> is_true v = is_true w"
  by (induction rule: same_doc.cases) (auto simp: is_true_def split: json.splits)

lemma same_mapping: "same_doc v w \<Longrightarrow> same_doc (mapping_of v) (mapping_of w)"
  by (auto simp: mapping_of_def same_obj intro: same_doc.members)

definition opens_bracket :: "string \<Rightarrow> bool" where
  "opens_bracket s \<longleftrightarrow> take 1 s \<in> {''{'', ''[''}"

lemma strip_Cons:
  assumes "\<not> is_space c"
  shows "\<exists>t'. strip (c # t) = c # t'"
  using assms by (auto simp: strip_def dropWhile_append intro: exI [of _ "rev (dropWhile is_space (rev t))"])

lemma brackets_not_space: "\<not> is_space (CHR ''{'')" "\<not> is_space (CHR ''['')"
  by (simp_all add: is_space_def)

text \<open>The text of a list or an object opens with a bracket; every other value is its own equal.\<close>

lemma text_opens:
  assumes "\<not> is_json_scalar v"
  shows "opens_bracket (text_of v)"
  using assms
proof (cases v)
  case (JList xs)
  obtain t where "strip (CHR ''['' # commas (map py_repr xs) @ '']'') = CHR ''['' # t"
    using strip_Cons [OF brackets_not_space(2)] by blast
  with JList show ?thesis by (simp add: text_of_def py_str_def opens_bracket_def)
next
  case (JObj kvs)
  obtain t where "strip (CHR ''{'' # commas (map (\<lambda>kv. repr_str (fst kv) @ '': '' @ py_repr (snd kv)) kvs) @ ''}'') = CHR ''{'' # t"
    using strip_Cons [OF brackets_not_space(1)] by blast
  with JObj show ?thesis by (simp add: text_of_def py_str_def opens_bracket_def)
qed (simp_all add: is_json_scalar_def)

lemma same_scalar: "same_doc v w \<Longrightarrow> is_json_scalar v = is_json_scalar w \<and> (is_json_scalar v \<longrightarrow> w = v)"
  by (cases v) (auto simp: is_json_scalar_def same_list elim: same_objE)

lemma same_text: "same_doc v w \<Longrightarrow> text_of v = text_of w \<or> opens_bracket (text_of v) \<and> opens_bracket (text_of w)"
  using same_scalar text_opens by metis

lemma same_text_plain: "same_doc v w \<Longrightarrow> \<not> opens_bracket t \<Longrightarrow> text_of v = t \<longleftrightarrow> text_of w = t"
  using same_text by metis

section \<open>Controls\<close>

function (sequential) controls_off :: "json \<Rightarrow> bool" where
  "controls_off (JObj kvs) \<longleftrightarrow>
     (\<forall>kv \<in> set kvs. (fst kv \<in> set FORBIDDEN_CONTROL_KEYS \<longrightarrow> \<not> is_true (snd kv)) \<and> controls_off (snd kv))"
| "controls_off (JList xs) \<longleftrightarrow> (\<forall>x \<in> set xs. controls_off x)"
| "controls_off _ \<longleftrightarrow> True"
  by pat_completeness auto
termination
  by (relation "measure size") (auto simp: size_elem size_member simp del: json.size)

lemma walk_controls:
  "(\<forall>item \<in> set (walk_items v path). case item of (_, key, x) \<Rightarrow> key \<in> set FORBIDDEN_CONTROL_KEYS \<longrightarrow> \<not> is_true x)
    \<longleftrightarrow> controls_off v"
proof (induction v path rule: walk_items.induct)
  case (1 kvs path)
  then show ?case by (fastforce simp: Let_def)
next
  case (2 xs path)
  have "(\<forall>item \<in> set (walk_items (JList xs) path). case item of (_, key, x) \<Rightarrow> key \<in> set FORBIDDEN_CONTROL_KEYS \<longrightarrow> \<not> is_true x)
      \<longleftrightarrow> (\<forall>(i, x) \<in> set (enumerate 0 xs). controls_off x)"
    using 2 by fastforce
  also have "\<dots> \<longleftrightarrow> controls_off (JList xs)"
    using image_set [of snd "enumerate 0 xs"] by (force simp del: enumerate_simps)
  finally show ?case .
qed simp_all

lemma controls_off_jget: "controls_off (JObj kvs) \<Longrightarrow> controls_off (jget k (JObj kvs))
    \<and> (k \<in> set FORBIDDEN_CONTROL_KEYS \<longrightarrow> \<not> is_true (jget k (JObj kvs)))"
  by (cases "map_of kvs k") (auto simp: is_true_def [of JNull] dest!: map_of_SomeD)

lemma controls_off_members:
  "distinct (map fst kvs) \<Longrightarrow> controls_off (JObj kvs) \<longleftrightarrow>
     (\<forall>k. controls_off (jget k (JObj kvs)) \<and> (k \<in> set FORBIDDEN_CONTROL_KEYS \<longrightarrow> \<not> is_true (jget k (JObj kvs))))"
  by (metis controls_off.simps(1) controls_off_jget jget_pair)

lemma same_controls: "same_doc v w \<Longrightarrow> controls_off v = controls_off w"
proof (induction rule: same_doc.induct)
  case (elements xs ys)
  then show ?case by (fastforce simp: in_set_conv_nth)
next
  case (members kvs kvs')
  then show ?case by (metis controls_off_members same_true)
qed simp

section \<open>What a valid packet promises\<close>

definition research_only :: "json \<Rightarrow> bool" where
  "research_only doc \<longleftrightarrow>
     jget ''overnight_positions'' (mapping_of (jget ''market'' doc)) = JBool False \<and>
     lower (text_of (jget ''holding_style'' (mapping_of (jget ''market'' doc)))) = ''intraday'' \<and>
     (\<forall>(path, key, v) \<in> set (walk_items doc ''$''). key \<in> set FORBIDDEN_CONTROL_KEYS \<longrightarrow> \<not> is_true v)"

lemma research_only_controls:
  "research_only doc \<longleftrightarrow>
     jget ''overnight_positions'' (mapping_of (jget ''market'' doc)) = JBool False \<and>
     lower (text_of (jget ''holding_style'' (mapping_of (jget ''market'' doc)))) = ''intraday'' \<and> controls_off doc"
  using walk_controls [of doc "''$''"] by (auto simp: research_only_def)

lemma lower_bracket: "opens_bracket s \<Longrightarrow> opens_bracket (lower s)"
  by (cases s) (auto simp: opens_bracket_def lower_def lower_char_def)

lemma same_research_only:
  assumes "same_doc v w"
  shows "research_only v \<longleftrightarrow> research_only w"
proof -
  have market: "same_doc (mapping_of (jget ''market'' v)) (mapping_of (jget ''market'' w))"
    using assms by (intro same_mapping same_jget)
  have "lower (text_of (jget k (mapping_of (jget ''market'' v)))) = ''intraday'' \<longleftrightarrow>
      lower (text_of (jget k (mapping_of (jget ''market'' w)))) = ''intraday''" for k
    using same_text [OF same_jget [OF market, of k]] lower_bracket by (force simp: opens_bracket_def)
  moreover have "jget k (mapping_of (jget ''market'' v)) = JBool b \<longleftrightarrow> jget k (mapping_of (jget ''market'' w)) = JBool b" for k b
    using same_jget [OF market, of k] by (metis same_scalars(2) same_sym)
  ultimately show ?thesis using same_controls [OF assms] by (simp add: research_only_controls)
qed

lemma packet_status_same:
  assumes "same_doc v w" and "\<not> opens_bracket s"
  shows "packet_status v = s \<longleftrightarrow> packet_status w = s"
proof -
  have "same_doc (jget ''status'' (mapping_of (jget ''candidate'' v))) (jget ''status'' (mapping_of (jget ''candidate'' w)))"
    using assms(1) by (intro same_mapping same_jget)
  from same_text [OF this] assms(2) show ?thesis
    by (auto simp: packet_status_def or_default_def opens_bracket_def split: if_splits)
qed

lemma mapR_id: "mapR f xs = Inr ys \<Longrightarrow> (\<And>x y. x \<in> set xs \<Longrightarrow> f x = Inr y \<Longrightarrow> y = x) \<Longrightarrow> ys = xs"
  by (induction xs arbitrary: ys) auto

lemma plain_same: "plain v = Inr w \<Longrightarrow> w = v"
proof (induction v arbitrary: w rule: plain.induct)
  case (1 kvs)
  then obtain ms where ms: "mapR (\<lambda>kv. bindR (plain (snd kv)) (\<lambda>v. Inr (fst kv, v))) kvs = Inr ms" "w = JObj ms" by auto
  have "ms = kvs" by (rule mapR_id [OF ms(1)]) (auto dest: 1(1))
  with ms show ?case by simp
next
  case (2 xs)
  then obtain ys where ys: "mapR plain xs = Inr ys" "w = JList ys" by auto
  have "ys = xs" by (rule mapR_id [OF ys(1)]) (auto dest: 2(1))
  with ys show ?case by simp
qed (auto split: if_splits)

lemma errors_of_checks [simp]:
  "filter (\<lambda>i. ci_severity i = ''error'') (error_if b c p m) = error_if b c p m"
  "filter (\<lambda>i. ci_severity i = ''error'') (warning_if b c p m) = []"
  "error_if b c p m = [] \<longleftrightarrow> \<not> b"
  by (simp_all add: error_if_def warning_if_def issue_def)

lemma packet_validate_Inr:
  "validate_candidate_packet pr doc = Inr v \<Longrightarrow>
     cv_document v = doc \<and> canonical_json doc = Inr (cv_canonical_json v)"
  by (auto simp: validate_candidate_packet_def Let_def dest: plain_same)

lemma validate_issues:
  assumes "validate_candidate_packet pr doc = Inr v" and "cv_valid v"
  shows "filter (\<lambda>i. ci_severity i = ''error'') (header_issues doc) = []"
    and "filter (\<lambda>i. ci_severity i = ''error'') (concat (map item_issues (walk_items doc ''$''))) = []"
  using assms by (auto simp: validate_candidate_packet_def Let_def cv_valid_def cv_errors_def dest: plain_same)

lemma valid_packet:
  assumes "validate_candidate_packet pr doc = Inr v" and "cv_valid v"
  shows "research_only doc \<and> packet_status doc \<in> set ALLOWED_STATUSES"
proof -
  note none = validate_issues [OF assms]
  have "\<not> (key \<in> set FORBIDDEN_CONTROL_KEYS \<and> is_true x)" if "(path, key, x) \<in> set (walk_items doc ''$'')" for path key x
  proof -
    from none(2) that have "filter (\<lambda>i. ci_severity i = ''error'') (item_issues (path, key, x)) = []"
      by (auto simp: filter_concat)
    then show ?thesis by (simp add: item_issues_def)
  qed
  with none(1) show ?thesis
    by (auto simp: research_only_def header_issues_def packet_status_def Let_def)
qed

section \<open>The stored packet\<close>

text \<open>What the parsers promise: dictionaries, so no object repeats a key.\<close>

definition reader_wf :: "packet_reader \<Rightarrow> bool" where
  "reader_wf pr \<longleftrightarrow> (\<forall>t v. pr_yaml pr t = Some v \<longrightarrow> distinct_keys v)"

lemma parse_keys:
  "reader_wf pr \<Longrightarrow> distinct_keys payload \<Longrightarrow> parse_candidate_packet pr payload hint = Inr doc \<Longrightarrow> distinct_keys doc"
  by (auto simp: parse_candidate_packet_def Let_def reader_wf_def intro: json_loads_distinct_keys
      split: if_splits option.splits)

lemma stored_packet:
  assumes "distinct_keys doc" and "validate_candidate_packet pr doc = Inr v"
  shows "\<exists>k. json_loads (cv_canonical_json v) = Some k \<and> same_doc doc k"
  using canonical_json_read [OF assms(1)] packet_validate_Inr [OF assms(2)] same_normalized [OF assms(1)] by blast

lemma statuses_plain: "s \<in> set ALLOWED_STATUSES \<or> s \<in> set IMPORTABLE_STATUSES \<or> s \<in> set DECISIONS \<Longrightarrow> \<not> opens_bracket s"
  by (auto simp: ALLOWED_STATUSES_def IMPORTABLE_STATUSES_def DECISIONS_def opens_bracket_def)

lemma stored_valid:
  assumes "distinct_keys doc" and "validate_candidate_packet pr doc = Inr v" and "cv_valid v"
  obtains k where "json_loads (cv_canonical_json v) = Some k" "same_doc doc k" "research_only k"
    "packet_status k = packet_status doc"
proof -
  obtain k where k: "json_loads (cv_canonical_json v) = Some k" "same_doc doc k"
    using stored_packet [OF assms(1,2)] by blast
  note valid = valid_packet [OF assms(2,3)]
  show ?thesis
  proof (rule that [OF k])
    show "research_only k" using valid same_research_only [OF k(2)] by simp
    show "packet_status k = packet_status doc"
      using packet_status_same [OF k(2) statuses_plain, of "packet_status doc"] valid by simp
  qed
qed

lemma checked_packet_Inr:
  assumes "checked_packet pr payload hint = Inr (doc, v)" and "reader_wf pr" "distinct_keys payload"
  obtains k where "json_loads (cv_canonical_json v) = Some k" "research_only k" "packet_status k \<in> set IMPORTABLE_STATUSES"
proof -
  from assms(1) have p: "parse_candidate_packet pr payload hint = Inr doc" "validate_candidate_packet pr doc = Inr v"
    "cv_valid v" "packet_status (cv_document v) \<in> set IMPORTABLE_STATUSES"
    by (auto simp: checked_packet_def require_importable_def)
  from parse_keys [OF assms(2,3) p(1)] p(2,3) obtain k where "json_loads (cv_canonical_json v) = Some k" "research_only k"
    "packet_status k = packet_status doc" by (rule stored_valid)
  with p(2,4) packet_validate_Inr [OF p(2)] show ?thesis by (intro that [of k]) simp_all
qed

section \<open>Drafts\<close>

text \<open>
  Research intake writes one idea draft and nothing else: every other draft stays as it is, in its
  place, and so does every other table.
\<close>

definition only_draft :: "string \<Rightarrow> db \<Rightarrow> db \<Rightarrow> bool" where
  "only_draft k d d' \<longleftrightarrow>
     d\<lparr>idea_drafts := []\<rparr> = d'\<lparr>idea_drafts := []\<rparr> \<and>
     filter (\<lambda>r. dr_id r \<noteq> k) (idea_drafts d') = filter (\<lambda>r. dr_id r \<noteq> k) (idea_drafts d)"

interpretation intake: evolution "only_draft k" for k
  by unfold_locales (simp_all add: only_draft_def)

lemma filter_tupd: "(\<And>r. dr_id (f r) = dr_id r) \<Longrightarrow>
  filter (\<lambda>r. dr_id r \<noteq> k) (tupd dr_id k f xs) = filter (\<lambda>r. dr_id r \<noteq> k) xs"
  by (induction xs) (simp_all add: tupd_def)

lemma only_draft_updates:
  "ins_draft r d = Inr d' \<Longrightarrow> dr_id r = k \<Longrightarrow> only_draft k d d'"
  "upd_draft k f d = Inr d' \<Longrightarrow> (\<And>r. dr_id (f r) = dr_id r) \<Longrightarrow> only_draft k d d'"
  by (auto simp: ins_draft_Inr upd_draft_Inr only_draft_def filter_tupd split: option.splits)

lemma only_draft_other: "only_draft k d d' \<Longrightarrow> j \<noteq> k \<Longrightarrow> idea_get j d' = idea_get j d"
proof -
  assume "only_draft k d d'" "j \<noteq> k"
  moreover have "tget dr_id j (filter (\<lambda>r. dr_id r \<noteq> k) xs) = tget dr_id j xs" if "j \<noteq> k" for xs
    using that by (induction xs) auto
  ultimately show ?thesis by (metis idea_get_def only_draft_def)
qed

lemma only_draft_assert: "moves (only_draft k) (assert_row f)"
  by (rule movesI) (simp add: intake.evo_refl)

lemma only_draft_save: "moves (only_draft k) (idea_save now k ti de so a no)"
  unfolding idea_save_def
  by (intro intake.evo_rules intake.moves_upd only_draft_assert) (erule only_draft_updates, simp)+

lemma only_draft_set: "moves (only_draft k) (idea_set_candidate_packet now k candidate)"
  unfolding idea_set_candidate_packet_def
  by (intro intake.evo_rules intake.moves_upd only_draft_assert) (erule only_draft_updates, simp)

lemmas intake_rules = intake.keeps_rules intake.evo_rules only_draft_save only_draft_set

lemma intake_keeps:
  "keeps (only_draft (str_or k (''idea_'' @ fresh))) (save_idea_draft fresh now ti de so a no k)"
  "keeps (only_draft k') (set_idea_candidate_packet now k' candidate)"
  "keeps (only_draft k') (save_candidate_idea t0 t1 k' ti candidate de so a no)"
  unfolding save_idea_draft_def set_idea_candidate_packet_def save_candidate_idea_def by (intro intake_rules)+

lemma saved_draft_id: "save_idea_draft fresh now ti de so a no k d = (Inr x, d') \<Longrightarrow> dr_id x = str_or k (''idea_'' @ fresh)"
  by (auto simp: save_idea_draft_def transaction_Inr_iff idea_save_def Let_def idea_get_def
      dest: tget_SomeD split: option.splits)

lemma decision_keeps: "keeps (only_draft k) (record_candidate_decision pr now k decision)"
  unfolding record_candidate_decision_def by (intro intake_rules intake_keeps)

end
