(* ===== verification/Intake_Guarantees.thy ===== *)
theory Intake_Guarantees
  imports Candidate_Laws
begin

text \<open>
  What research intake promises: a packet that enters the database is a research proposal and nothing
  more, and an owner's decision changes its status and nothing else.
\<close>

section \<open>Drafts\<close>

lemma packet_set:
  assumes "set_idea_candidate_packet now k candidate d = (Inr draft, d')"
  shows "\<exists>e. idea_get k d = Some e \<and> dr_configuration_id e = None \<and> idea_get k d' = Some draft \<and>
    draft = e\<lparr>dr_candidate_json := candidate, dr_updated_at := now\<rparr>"
proof -
  from assms obtain e where e: "idea_get k d = Some e" "dr_configuration_id e = None" "idea_get k d' = Some draft"
    and d': "d' = d\<lparr>idea_drafts := tupd dr_id k (\<lambda>r. r\<lparr>dr_candidate_json := candidate, dr_updated_at := now\<rparr>) (idea_drafts d)\<rparr>"
    by (auto simp: set_idea_candidate_packet_def transaction_Inr_iff idea_set_candidate_packet_def upd_draft_Inr
        split: option.splits if_splits)
  have "idea_get k d' = Some (e\<lparr>dr_candidate_json := candidate, dr_updated_at := now\<rparr>)"
    using e(1) by (simp add: d' idea_get_def tget_tupd)
  with e show ?thesis by simp
qed

lemma idea_get_id: "idea_get k d = Some r \<Longrightarrow> dr_id r = k"
  by (auto simp: idea_get_def dest: tget_SomeD)

lemma import_Inr:
  assumes "import_candidate_as_idea pr fresh t0 t1 payload hint k d = (Inr (draft, v), d')"
  obtains doc where "checked_packet pr payload hint = Inr (doc, v)" "idea_get (dr_id draft) d' = Some draft"
    "dr_candidate_json draft = cv_canonical_json v" "only_draft (dr_id draft) d d'"
proof (cases k)
  case None
  with assms obtain doc d1 ti de so a no and x :: idea_draft where run: "checked_packet pr payload hint = Inr (doc, v)"
    "save_idea_draft fresh t0 ti de so a no None d = (Inr x, d1)"
    "set_idea_candidate_packet t1 (dr_id x) (cv_canonical_json v) d1 = (Inr draft, d')"
    by (auto simp: import_candidate_as_idea_def Let_def)
  from packet_set [OF run(3)] have "idea_get (dr_id x) d' = Some draft" "dr_candidate_json draft = cv_canonical_json v" by auto
  moreover have "only_draft (dr_id x) d d'"
    using keepsD [OF intake_keeps(1) run(2)] keepsD [OF intake_keeps(2) run(3)] saved_draft_id [OF run(2)]
    by (metis intake.evo_trans)
  ultimately show ?thesis using run(1) idea_get_id [of "dr_id x" d' draft] by (intro that) simp_all
next
  case (Some i)
  with assms obtain doc created ti de so a no where run: "checked_packet pr payload hint = Inr (doc, v)"
    "save_candidate_idea t0 t1 i ti (cv_canonical_json v) de so a no d = (Inr (draft, created), d')"
    by (auto simp: import_candidate_as_idea_def Let_def)
  from candidate_saved [OF run(2)] idea_get_id [of i d' draft] run(1) keepsD [OF intake_keeps(3) run(2)]
  show ?thesis by (intro that) auto
qed

section \<open>Decisions\<close>

lemma with_status_jget:
  "is_obj doc \<Longrightarrow> jget k (with_status decision doc) =
     (if k = ''candidate'' then JObj (dict_put ''status'' (JStr decision) (case mapping_of (jget ''candidate'' doc) of JObj c \<Rightarrow> c | _ \<Rightarrow> []))
      else jget k doc)"
  by (cases doc) (auto simp: with_status_def mapping_of_def is_obj_def split: json.splits)

lemma dict_put_keys: "distinct_keys (JObj kvs) \<Longrightarrow> distinct_keys v \<Longrightarrow> distinct_keys (JObj (dict_put k v kvs))"
  using set_dict_put [of k v kvs] by (fastforce intro: distinct_dict_put)

lemma mapping_keys: "distinct_keys v \<Longrightarrow> mapping_of v = JObj c \<Longrightarrow> distinct_keys (JObj c)"
  by (auto simp: mapping_of_def split: if_splits)

lemma with_status_keys: "distinct_keys doc \<Longrightarrow> distinct_keys (with_status decision doc)"
proof (cases doc)
  case (JObj kvs)
  assume doc: "distinct_keys doc"
  obtain c where c: "mapping_of (jget ''candidate'' doc) = JObj c"
    by (cases "jget ''candidate'' doc") (simp_all add: mapping_of_def is_obj_def)
  then have "distinct_keys (JObj c)" using mapping_keys [OF distinct_jget [OF doc]] by blast
  with doc c show ?thesis
    unfolding with_status_def JObj
    by (simp del: distinct_keys.simps jget.simps) (intro dict_put_keys, simp_all)
qed (simp_all add: with_status_def)

lemma decision_text: "decision \<in> set DECISIONS \<Longrightarrow> text_of (JStr decision) = decision \<and> decision \<noteq> []"
proof -
  have "\<forall>s \<in> set DECISIONS. text_of (JStr s) = s \<and> s \<noteq> []" by code_simp
  then show "decision \<in> set DECISIONS \<Longrightarrow> ?thesis" by blast
qed

lemma with_status_status:
  "is_obj doc \<Longrightarrow> decision \<in> set DECISIONS \<Longrightarrow> packet_status (with_status decision doc) = decision"
  using decision_text by (simp add: packet_status_def with_status_jget mapping_of_def is_obj_def or_default_def)

lemma decided_Inr:
  assumes "decided_packet pr k decision d = Inr v"
  obtains e old where "idea_get k d = Some e" "json_loads (dr_candidate_json e) = Some old" "is_obj old"
    "decision = ''owner_approved'' \<longrightarrow> \<not> list_ex is_high_question (list_items (jget ''open_questions'' old))"
    "validate_candidate_packet pr (with_status decision old) = Inr v" "cv_valid v"
proof -
  have hint: "lower (strip (str_or (Some ''json'') [])) = ''json''" by code_simp
  from assms obtain e old u where e: "idea_get k d = Some e"
    "parse_candidate_packet pr (JStr (dr_candidate_json e)) (Some ''json'') = Inr old"
    "validate_candidate_packet pr old = Inr u" "decision = ''owner_approved'' \<longrightarrow> cv_review_ready u"
    "validate_candidate_packet pr (with_status decision (cv_document u)) = Inr v" "cv_valid v"
    by (auto simp: decided_packet_def split: option.splits)
  have u: "cv_document u = old" using packet_validate_Inr [OF e(3)] by simp
  from e(2) have old: "json_loads (dr_candidate_json e) = Some old" "is_obj old"
    unfolding parse_candidate_packet_def Let_def hint by (auto simp: is_obj_def py_str_def split: option.splits)
  show ?thesis
    using e u old by (intro that [of e old]) (auto simp: cv_review_ready_def)
qed

section \<open>A packet\<close>

definition demo_reader :: packet_reader where
  "demo_reader = \<lparr>pr_yaml = (\<lambda>_. None), pr_bracketed = (\<lambda>_. False), pr_library = None\<rparr>"

definition demo_packet :: "string \<Rightarrow> json" where
  "demo_packet status = JObj [(''candidate'', JObj [(''status'', JStr status), (''title'', JStr ''Gap'')]),
     (''hypothesis'', JObj [(''behavior'', JStr ''Gaps close'')]), (''live_trade'', JBool False),
     (''market'', JObj [(''holding_style'', JStr ''intraday''), (''overnight_positions'', JBool False)]),
     (''rules'', JObj [(''entry'', JStr ''open'')]), (''schema'', JStr QF_CANDIDATE_SCHEMA)]"

definition demo_packet_draft :: idea_draft where
  "demo_packet_draft = \<lparr>dr_id = ''idea_0001'', dr_title = ''Gap'', dr_description = ''Gaps close'',
     dr_source_url = [], dr_attribution = [], dr_notes = [], dr_configuration_id = None, dr_created_at = ''t0'',
     dr_updated_at = ''t1'', dr_candidate_json = dumps (demo_packet ''draft'')\<rparr>"

definition demo_decided_draft :: idea_draft where
  "demo_decided_draft = demo_packet_draft\<lparr>dr_updated_at := ''t2'',
     dr_candidate_json := dumps (demo_packet ''owner_approved'')\<rparr>"

lemma demo_reader_wf: "reader_wf demo_reader"
  by (simp add: reader_wf_def demo_reader_def)

lemma validate_ok:
  assumes "plain doc = Inr doc" "variables_check (mapping_of (jget ''variables'' doc)) = Inr ([], n)"
    "rule_spec_issues pr doc = Inr []" "normalize doc = Inr doc" "length (dumps doc) \<le> 1000"
    "filter (\<lambda>i. ci_severity i = ''error'') (header_issues doc) = []" "sources_issues pr doc = []"
    "variants_issues doc = []" "questions_issues doc = []" "execution_issues doc = []"
    "concat (map item_issues (walk_items doc ''$'')) = []"
  shows "\<exists>v. validate_candidate_packet pr doc = Inr v \<and> cv_valid v \<and> cv_document v = doc \<and>
    cv_canonical_json v = dumps doc"
  using assms
  by (auto simp: validate_candidate_packet_def canonical_json_def cv_valid_def cv_errors_def Let_def grid_issues_def
      MAX_PACKET_CHARS_def)

lemma demo_packet_valid:
  assumes "status \<in> {''draft'', ''owner_approved''}"
  shows "\<exists>v. validate_candidate_packet demo_reader (demo_packet status) = Inr v \<and> cv_valid v \<and>
    cv_document v = demo_packet status \<and> cv_canonical_json v = dumps (demo_packet status)"
proof -
  have "\<forall>s \<in> set [''draft'', ''owner_approved'']. let doc = demo_packet s in
      plain doc = Inr doc \<and> variables_check (mapping_of (jget ''variables'' doc)) = Inr ([], 1) \<and>
      rule_spec_issues demo_reader doc = Inr [] \<and> normalize doc = Inr doc \<and> length (dumps doc) \<le> 1000 \<and>
      filter (\<lambda>i. ci_severity i = ''error'') (header_issues doc) = [] \<and> sources_issues demo_reader doc = [] \<and>
      variants_issues doc = [] \<and> questions_issues doc = [] \<and> execution_issues doc = [] \<and>
      concat (map item_issues (walk_items doc ''$'')) = []" by code_simp
  with assms show ?thesis unfolding Let_def by (intro validate_ok) auto
qed

lemma demo_texts: "json_ok (demo_packet ''draft'')" "length (dumps (demo_packet ''draft'')) \<le> 1000"
  "json_ok (demo_packet ''owner_approved'')" "length (dumps (demo_packet ''owner_approved'')) \<le> 1000"
  "dumps (demo_packet ''draft'') \<noteq> []" "packet_status (demo_packet ''draft'') = ''draft''"
  by code_simp+

lemma demo_fields:
  "text_of (jget ''title'' (mapping_of (jget ''candidate'' (demo_packet ''draft'')))) = ''Gap''"
  "text_of (jget ''behavior'' (mapping_of (jget ''hypothesis'' (demo_packet ''draft'')))) = ''Gaps close''"
  "text_of (jget ''url'' (first_source (demo_packet ''draft''))) = []"
  "source_attribution (first_source (demo_packet ''draft'')) = []"
  "question_notes (demo_packet ''draft'') = []"
  "draft_identity_ok ''idea_0001''" "strip ''Gap'' = ''Gap''" "strip ''Gaps close'' = ''Gaps close''"
  "\<forall>c \<in> set ''idea_0001''. ident_char c"
  by code_simp+

lemma demo_import:
  "\<exists>v. import_candidate_as_idea demo_reader ''f'' ''t0'' ''t1'' (demo_packet ''draft'') None (Some ''idea_0001'') empty_db
     = (Inr (demo_packet_draft, v), empty_db\<lparr>idea_drafts := [demo_packet_draft]\<rparr>)"
proof -
  obtain v where v: "validate_candidate_packet demo_reader (demo_packet ''draft'') = Inr v" "cv_valid v"
    "cv_document v = demo_packet ''draft''" "cv_canonical_json v = dumps (demo_packet ''draft'')"
    using demo_packet_valid [of "''draft''"] by auto
  have "checked_packet demo_reader (demo_packet ''draft'') None = Inr (demo_packet ''draft'', v)"
    using v demo_texts(6)
    by (simp add: checked_packet_def parse_candidate_packet_def require_importable_def IMPORTABLE_STATUSES_def
        demo_packet_def is_obj_def)
  moreover have "save_candidate_idea ''t0'' ''t1'' ''idea_0001'' ''Gap'' (dumps (demo_packet ''draft'')) ''Gaps close'' [] [] []
      empty_db = (Inr (demo_packet_draft, True), empty_db\<lparr>idea_drafts := [demo_packet_draft]\<rparr>)"
    using demo_fields demo_texts
    by (simp add: save_candidate_idea_def idea_save_def idea_set_candidate_packet_def transaction_def bindB_def body_step
        idea_get_def empty_db_def idea_limit_def ins_draft_def upd_draft_def draft_check_def draft_fk_def tput_def
        assert_row_def demo_packet_draft_def strip_def Let_def)
  ultimately show ?thesis
    by (simp add: import_candidate_as_idea_def Let_def demo_fields v(4) andThen_def askS_def)
qed

lemma demo_decision:
  "\<exists>v. record_candidate_decision demo_reader ''t2'' ''idea_0001'' ''owner_approved''
       (empty_db\<lparr>idea_drafts := [demo_packet_draft]\<rparr>)
     = (Inr (demo_decided_draft, v), empty_db\<lparr>idea_drafts := [demo_decided_draft]\<rparr>)"
proof -
  let ?d = "empty_db\<lparr>idea_drafts := [demo_packet_draft]\<rparr>"
  have hint: "lower (strip (str_or (Some ''json'') [])) = ''json''" by code_simp
  obtain v where v: "validate_candidate_packet demo_reader (demo_packet ''draft'') = Inr v" "cv_valid v"
    "cv_document v = demo_packet ''draft''"
    using demo_packet_valid [of "''draft''"] by auto
  obtain u where u: "validate_candidate_packet demo_reader (demo_packet ''owner_approved'') = Inr u" "cv_valid u"
    "cv_canonical_json u = dumps (demo_packet ''owner_approved'')"
    using demo_packet_valid [of "''owner_approved''"] by auto
  have parse: "parse_candidate_packet demo_reader (JStr (dumps (demo_packet ''draft''))) (Some ''json'') = Inr (demo_packet ''draft'')"
    unfolding parse_candidate_packet_def Let_def hint
    using demo_texts json_loads_dumps [OF demo_texts(1)]
    by (simp add: is_obj_def py_str_def MAX_PACKET_CHARS_def) (simp add: demo_packet_def)
  have ready: "cv_review_ready v"
    using v by (simp add: cv_review_ready_def) (simp add: demo_packet_def list_items_def)
  have status: "with_status ''owner_approved'' (demo_packet ''draft'') = demo_packet ''owner_approved''"
    by (simp add: with_status_def demo_packet_def mapping_of_def is_obj_def)
  have "decided_packet demo_reader ''idea_0001'' ''owner_approved'' ?d = Inr u"
    using parse v ready status u demo_texts(5)
    by (simp add: decided_packet_def idea_get_def demo_packet_draft_def)
  moreover have "set_idea_candidate_packet ''t2'' ''idea_0001'' (dumps (demo_packet ''owner_approved'')) ?d
      = (Inr demo_decided_draft, empty_db\<lparr>idea_drafts := [demo_decided_draft]\<rparr>)"
    using demo_fields demo_texts
    by (simp add: set_idea_candidate_packet_def idea_set_candidate_packet_def transaction_def bindB_def body_step
        idea_get_def upd_draft_def draft_check_def draft_fk_def assert_row_def demo_packet_draft_def demo_decided_draft_def)
  ultimately show ?thesis
    using u by (simp add: record_candidate_decision_def andThen_def askS_def DECISIONS_def)
qed

section \<open>Claims\<close>

text \<open>
  C39: Importing a packet never authorizes anything. A packet that was imported is stored as an idea draft
  whose text reads back as a document without any asserted approval, without a truthy control key at any
  depth, for intraday trading without overnight positions, and the import writes that one draft only:
  every other draft and every other table is as it was.
\<close>

theorem import_never_authorizes:
  assumes "reader_wf pr" and "distinct_keys payload"
    and "import_candidate_as_idea pr fresh t0 t1 payload hint k d = (Inr (draft, v), d')"
  shows "idea_get (dr_id draft) d' = Some draft \<and>
    d\<lparr>idea_drafts := []\<rparr> = d'\<lparr>idea_drafts := []\<rparr> \<and>
    filter (\<lambda>r. dr_id r \<noteq> dr_id draft) (idea_drafts d') = filter (\<lambda>r. dr_id r \<noteq> dr_id draft) (idea_drafts d) \<and>
    (\<exists>doc. json_loads (dr_candidate_json draft) = Some doc \<and> research_only doc \<and>
       packet_status doc \<in> set IMPORTABLE_STATUSES)"
proof -
  obtain doc where run: "checked_packet pr payload hint = Inr (doc, v)" "idea_get (dr_id draft) d' = Some draft"
    "dr_candidate_json draft = cv_canonical_json v" "only_draft (dr_id draft) d d'" by (rule import_Inr [OF assms(3)])
  obtain stored where "json_loads (cv_canonical_json v) = Some stored" "research_only stored"
    "packet_status stored \<in> set IMPORTABLE_STATUSES" by (rule checked_packet_Inr [OF run(1) assms(1,2)])
  with run(2,3) show ?thesis using run(4) [unfolded only_draft_def] by auto
qed

theorem import_never_authorizes_witness:
  "\<exists>doc. json_loads (dumps (demo_packet ''draft'')) = Some doc \<and> research_only doc \<and> packet_status doc \<in> set IMPORTABLE_STATUSES"
proof -
  obtain v where run: "import_candidate_as_idea demo_reader ''f'' ''t0'' ''t1'' (demo_packet ''draft'') None (Some ''idea_0001'') empty_db
      = (Inr (demo_packet_draft, v), empty_db\<lparr>idea_drafts := [demo_packet_draft]\<rparr>)" using demo_import by blast
  have "distinct_keys (demo_packet ''draft'')" by code_simp
  from import_never_authorizes [OF demo_reader_wf this run] show ?thesis by (simp add: demo_packet_draft_def)
qed

text \<open>
  C40: An owner's decision is exact. A recorded decision is an approval or a rejection of an idea that is not
  linked to a configuration; the stored packet is the old one with the decision as its status (up to the
  order of members) and still a research proposal; an approval requires that no high-importance question
  is open; every other field of the draft except its time stamp, every other draft and every other table
  is as it was.
\<close>

theorem decision_exact:
  assumes "record_candidate_decision pr now k decision d = (Inr (draft, v), d')"
  shows "decision \<in> set DECISIONS \<and> d\<lparr>idea_drafts := []\<rparr> = d'\<lparr>idea_drafts := []\<rparr> \<and>
    filter (\<lambda>r. dr_id r \<noteq> k) (idea_drafts d') = filter (\<lambda>r. dr_id r \<noteq> k) (idea_drafts d) \<and> idea_get k d' = Some draft \<and>
    (\<exists>e old new. idea_get k d = Some e \<and> dr_configuration_id e = None \<and>
       draft = e\<lparr>dr_candidate_json := dr_candidate_json draft, dr_updated_at := now\<rparr> \<and>
       json_loads (dr_candidate_json e) = Some old \<and> json_loads (dr_candidate_json draft) = Some new \<and>
       same_doc (with_status decision old) new \<and> packet_status new = decision \<and> research_only new \<and>
       (decision = ''owner_approved'' \<longrightarrow> \<not> list_ex is_high_question (list_items (jget ''open_questions'' old))))"
proof -
  from assms obtain d1 where run: "decision \<in> set DECISIONS" "decided_packet pr k decision d = Inr v"
    "set_idea_candidate_packet now k (cv_canonical_json v) d = (Inr draft, d')"
    by (auto simp: record_candidate_decision_def)
  obtain e old where old: "idea_get k d = Some e" "json_loads (dr_candidate_json e) = Some old" "is_obj old"
    "decision = ''owner_approved'' \<longrightarrow> \<not> list_ex is_high_question (list_items (jget ''open_questions'' old))"
    "validate_candidate_packet pr (with_status decision old) = Inr v" "cv_valid v"
    by (rule decided_Inr [OF run(2)])
  have "distinct_keys (with_status decision old)"
    using json_loads_distinct_keys [OF old(2)] by (rule with_status_keys)
  from this old(5,6) obtain new where new: "json_loads (cv_canonical_json v) = Some new"
    "same_doc (with_status decision old) new" "research_only new"
    "packet_status new = packet_status (with_status decision old)" by (rule stored_valid)
  from packet_set [OF run(3)] old(1) have draft: "dr_configuration_id e = None" "idea_get k d' = Some draft"
    "draft = e\<lparr>dr_candidate_json := cv_canonical_json v, dr_updated_at := now\<rparr>" by auto
  have "dr_candidate_json draft = cv_canonical_json v" using draft(3) by simp
  with run(1) old new draft keepsD [OF decision_keeps assms, unfolded only_draft_def] with_status_status [OF old(3) run(1)]
  show ?thesis by auto
qed

theorem decision_exact_witness:
  "\<exists>new. json_loads (dr_candidate_json demo_decided_draft) = Some new \<and> packet_status new = ''owner_approved'' \<and>
     research_only new"
proof -
  obtain v where run: "record_candidate_decision demo_reader ''t2'' ''idea_0001'' ''owner_approved''
       (empty_db\<lparr>idea_drafts := [demo_packet_draft]\<rparr>)
     = (Inr (demo_decided_draft, v), empty_db\<lparr>idea_drafts := [demo_decided_draft]\<rparr>)" using demo_decision by blast
  from decision_exact [OF run] show ?thesis by blast
qed

end
