(* ===== verification/Spec2Isabelle.thy ===== *)
theory Spec2Isabelle
  imports Launch_Guarantees Store_Guarantees Pipeline_Guarantees Chain_Guarantees Strategy_Guarantees
    Intake_Guarantees
begin

text \<open>
  The experiment database of Quant Factory, the durable launch protocol on top of it, the validation
  pipeline with its gate before protected data, and the declarative rule language with the strategies
  compiled from it, as executable HOL functions, with what makes them correct.

  The program. Quant Factory researches trading strategies: configurations are registered, a run is
  created for one of them, handed to a Prefect worker, and its evidence (metrics, provenance,
  artifacts, manifests, reviews) is kept in one SQLite file. \<open>persistence/\<close> is that store:
  \<open>models.py\<close> (records, enums, the run state machine), \<open>serialization.py\<close> (canonical JSON, the
  identity of everything that is hashed), \<open>repositories.py\<close> (the SQL), \<open>service.py\<close> (transactional
  operations, lineage, artifacts), \<open>manifest.py\<close> (run manifests), \<open>candidate_ideas.py\<close>,
  \<open>database.py\<close> (schema and transactions). \<open>orchestration/research_launch_claims.py\<close> launches a
  run at most once: a caller's idempotency key is claimed together with the run it creates, one
  dispatcher marks it as being invoked, and the acknowledgement of the worker, an explicit
  operator decision or a recovery settles it. \<open>orchestration/filter_chain.py\<close> takes a screened run
  through the validation stages, each one a run in the store; \<open>backtesting/walk_forward/\<close> cuts the data
  of the first stage into folds; \<open>backtesting/validation/\<close> turns the stages' evidence into outcomes and
  decides whether protected data may be read. \<open>rule_language/\<close> checks strategies submitted as data, and
  \<open>strategies/\<close> compiles them into strategies with a content identity and a governed parameter plan.
  \<open>research_intake/\<close> takes proposals from agents and owners into the store as idea drafts.

  Foundations.
  \<^item> \<open>Prelude\<close>: exceptions as a datatype (\<open>exn\<close>), results as \<open>exn + 'a\<close> with \<open>bindR\<close>, the bodies of
    transactions as \<open>'d => exn + 'a * 'd\<close> with \<open>bindB\<close>, sequences of transactions with \<open>andThen\<close>, and \<open>transaction\<close>, which commits the state
    of a body that returns and restores the state before a body that raises (\<open>database.transaction\<close>,
    \<open>_immediate\<close>). Tables are lists of rows; \<open>tget\<close>, \<open>tput\<close>, \<open>tupd\<close> are lookup, insert under a
    primary key and update. The locale \<open>evolution\<close> carries a reflexive and transitive relation of
    states from the primitive writes to every operation; it is interpreted on growth that preserves
    \<open>db_ok\<close>, on unchanged submissions and on writes to one idea draft only (\<open>only_draft\<close>).
  \<^item> \<open>Py_Json\<close>: JSON values, \<open>json.dumps\<close> and \<open>json.loads\<close>, and \<open>canonical_json\<close>. Parsing uses fuel:
    one more than the length of the text, and \<open>json_loads_dumps\<close> shows it is enough for every text
    the printer writes. Floats are kept as their literal text.
  \<^item> \<open>Py_Float\<close>: binary64 numbers, \<open>float(i)\<close> and Python's \<open>==\<close> across numbers. \<open>Py_Text\<close>: \<open>str\<close>, \<open>repr\<close>
    and the classes of exceptions a handler catches.
  \<^item> \<open>Py_Time\<close>: \<open>datetime.fromisoformat\<close> on the extended format and \<open>_parse_utc_timestamp\<close>, in
    microseconds of the proleptic Gregorian calendar.

  Store and launch.
  \<^item> \<open>Store_Model\<close>: the enums and records of \<open>models.py\<close>, the run transitions, the database \<open>db\<close>
    (one list per table, one counter per AUTOINCREMENT column).
  \<^item> \<open>Repo_Core\<close>, \<open>Repo_Evidence\<close>: every method of every repository of \<open>repositories.py\<close>, with the
    constraints of the schema: a primary key or UNIQUE violation, a missing foreign key and a failed
    CHECK raise \<open>IntegrityError\<close>. The locale \<open>record_store\<close> states what a keyed table promises
    (the row stored is the row found, others are untouched) and is interpreted on seven tables.
  \<^item> \<open>Lineage\<close>: \<open>get_run_lineage\<close>, the runtime lineage frozen into a run's environment, the manifest
    documents, their text and their checksum. \<open>Artifact_Store\<close>: registration, validation against the
    file system, building, persisting and retrieving a manifest. \<open>Run_Service\<close>: creating, moving,
    cancelling, timing out and recovering runs; strategies, drafts, candidate ideas, reviews.
  \<^item> \<open>Launch_Claims\<close>: \<open>DurableResearchLaunchService\<close>, method by method.
  \<^item> \<open>Db_History\<close>, \<open>Db_Evolution\<close>: the invariant \<open>db_ok\<close> (keys unique, references resolved, rows
    consistent with their state) and the order \<open>extends\<close> in which the database grows; every
    operation stays inside both. \<open>Launch_Protocol\<close>: the operations as the step relation \<open>service_op\<close>,
    histories \<open>launch_history\<close> that record which keys a dispatcher was told to invoke, and the
    coupling of a submission's state with its run (status and start time; \<open>stamped_history\<close> are the
    histories without an empty clock reading). \<open>Launch_Replay\<close>: a claim written is
    a claim that validates and replays. \<open>Artifact_Laws\<close>: what validation, registration and retrieval
    promise. \<open>Worked_Example\<close>: one concrete life of the database, evaluated, from which the
    witnesses are taken.
  \<^item> \<open>Launch_Guarantees\<close> (C1 to C13) and \<open>Store_Guarantees\<close> (C14 to C22): the properties.

  Validation pipeline.
  \<^item> \<open>Walk_Forward\<close>: the configuration checks, exchange sessions and the window loop of
    \<open>build_walk_forward_windows\<close>, a partial function into \<open>option\<close>; \<open>Pipeline_Guarantees\<close> (C23, C24)
    shows that the windows it returns are sound and that it always returns.
  \<^item> \<open>Lockbox_Gate\<close>: \<open>evaluate_lockbox_prerequisites\<close> of \<open>lockbox_gate/service.py\<close> with its statuses,
    reasons and identities. \<open>Evidence_Service\<close>: stage outcomes and the gate over persisted evidence.
    \<open>Gate_Laws\<close>: the owner's rule \<open>gate_open\<close>, which the gate refines.
  \<^item> \<open>Filter_Chain\<close>: \<open>FactoryFilterChainService\<close>, a sequence of transactions that keeps what earlier
    ones committed. \<open>Chain_Laws\<close>: how its steps compose, and that the run identity of a stage is fixed
    by the screening run. \<open>Chain_Example\<close>: a concrete database that opens the gate.
    \<open>Chain_Guarantees\<close> (C25 to C31): the properties.

  Rules and strategies.
  \<^item> \<open>Rule_Catalog\<close> (\<open>rule_language/indicators.py\<close>) and \<open>Rule_Language\<close> (\<open>validation.py\<close>): the checker,
    method by method. \<open>Rule_Grammar\<close>: the normal forms as inductive predicates; \<open>Rule_Sound\<close> and
    \<open>Rule_Complete\<close>: the checker returns normal forms and accepts every normal form unchanged;
    \<open>Rule_Check\<close>: the size limits and the whole check. \<open>Rule_Guarantees\<close> (C32 to C34).
  \<^item> \<open>Strategy_Models\<close>: \<open>strategies/models.py\<close>, \<open>parameter_governance.py\<close>, the registry.
    \<open>Rule_Strategy\<close>: \<open>rule_spec_strategy.py\<close>: definitions, their identity, the specification, parameter
    values, installation and loading, as steps that keep the store they leave when they raise.
    \<open>Rule_Order\<close>: \<open>same_doc\<close>, equality of documents up to the order of
    members, and that the checker respects it; \<open>Rule_Keys\<close>, \<open>Rule_Identity\<close>: identities and repeated
    checks; \<open>Rule_Files\<close>: the indented text reads back; \<open>Rule_Plan\<close>: the declared plan against the
    governance. \<open>Strategy_Guarantees\<close> (C35 to C38).
  \<^item> \<open>Candidate_Packet\<close>: \<open>research_intake/qf_candidate.py\<close>: parsing, the issues of a validation section by
    section, import, attachment, owner decisions and export of research proposals. \<open>Candidate_Laws\<close>: what
    was checked of a packet holds of the document stored for it, and intake writes one idea draft only.
    \<open>Intake_Guarantees\<close> (C39, C40).

  Modelling decisions. An operation is \<open>db => (exn + 'a) * db\<close>. What the code reads from outside is
  an argument, in the order it is read: clock readings, generated identities, the captured runtime
  lineage, the file system (a record of four functions that answer or raise), what the disk answers to
  writing a rule definition, and the two digests \<open>sha\<close> (of a text) and
  \<open>sha_bytes\<close>, about which nothing is assumed, except in C37 that they print hexadecimal digits
  (\<open>hex_digest\<close>). Arguments too are the adapters of the filter chain, what the retrieval of a
  stage's evidence returns, the midnights, labels and session opens that pandas and the exchange
  calendar give, the YAML parser and \<open>urllib\<close>'s check of bracketed hosts (\<open>packet_reader\<close>), and the metadata of the closed VectorBT PRO package (\<open>vectorbt option\<close>, absent when it
  is not installed; \<open>library_wf\<close>: an indicator names its parameters and inputs once). Strings are
  lists of code points below 256 without NUL. Python integers stored by SQLite are \<open>int\<close>. A Python
  dictionary is an object whose keys are distinct. The value of a strategy setting is its number, so
  messages that print it omit it. A rule definition's file is written whole or not at all: the temporary
  file and its rename are one step, which the disk may refuse; reading a file that is there succeeds.
  A document member bound to a TEXT column is converted as the column's affinity does (\<open>bind_text\<close>).
  Messages of the SQLite errors are shortened, and the contention errors of a busy database are left
  out: they roll back and change nothing. The exceptions of the model are subclasses of \<open>Exception\<close>:
  a \<open>BaseException\<close> (an interrupt, the exit of the process) passes the handlers of \<open>dispatch\<close> and of
  the filter chain and is left out, like contention while such a handler records the outcome; both
  leave a submission Invoking or a run active, for the recovery operations to settle. A connection's statements are serialised by the lock of \<open>BEGIN IMMEDIATE\<close>, so concurrent callers
  are sequences of operations.

  Not modelled: the SQL text of migrations and connections (\<open>database.py\<close> beyond its constraints and
  its transaction), persisting and comparing whole experiment results (\<open>persist_experiment_result\<close>,
  \<open>persist_experiment_inputs_on_run\<close>, \<open>run_detail\<close>, \<open>compare_runs\<close>), capturing the runtime lineage
  from git and the installed packages, the numerical work on pandas frames and on the closed vectorbtpro
  library (signals, back tests, screening, Monte Carlo, robustness, and the reading of their evidence
  artifacts), and the layers around the store: Prefect flows, subprocesses and campaigns, market data
  providers, dashboards, the agent gateway with its automatic testing, and deployment.
\<close>

end
